(* ===== verification/Prelude.thy ===== *)
theory Prelude
  imports Main "HOL-Library.AList" "HOL-Library.Sublist"
begin

text \<open>
  The prelude of the development: what every component shares.

  \<^item> \<open>exn\<close> and \<open>'a res\<close>: a Python exception and a computation that returns or raises.
  \<^item> \<open>prog\<close>: a computation over a state that may raise; what was written before the raise stays
    written, as in Python.
  \<^item> ordered dictionaries (association lists with Python's update-in-place order) and their
    interface locale \<open>py_dict\<close>.
\<close>

named_theorems res_simps "unfolding of the result and program combinators"
named_theorems dict_simps "lookups and keys of ordered dictionaries"

section \<open>Exceptions and results\<close>

datatype exn =
    ValueError string
  | AssertionError
  | KeyError string
  | IndexError
  | TypeError
  | AttributeError
  | StopIteration
  | RuntimeError string
  | GenericException string
  | DockerNotFound
  | CalledProcessError string
  | TimeoutError
  | NodeHTTPTimeout string
  | CancelledError
  | ZeroDivisionError
  | StopCapture
  | QueueFull
  | UnboundLocalError
  | SystemExit int

type_synonym 'a res = "exn + 'a"

definition bindR :: "'a res \<Rightarrow> ('a \<Rightarrow> 'b res) \<Rightarrow> 'b res" where
  "bindR m f = (case m of Inl e \<Rightarrow> Inl e | Inr x \<Rightarrow> f x)"

lemma bindR_simps [simp, res_simps]:
  "bindR (Inl e) f = Inl e" "bindR (Inr x) f = f x"
  by (simp_all add: bindR_def)

lemma bindR_eq_Inr [res_simps]: "bindR m f = Inr y \<longleftrightarrow> (\<exists>x. m = Inr x \<and> f x = Inr y)"
  by (cases m) simp_all

lemma bindR_eq_Inl [res_simps]:
  "bindR m f = Inl e \<longleftrightarrow> m = Inl e \<or> (\<exists>x. m = Inr x \<and> f x = Inl e)"
  by (cases m) auto

text \<open>A list comprehension whose body may raise: left to right, the first raise wins.\<close>

fun mapR :: "('a \<Rightarrow> 'b res) \<Rightarrow> 'a list \<Rightarrow> 'b list res" where
  "mapR f [] = Inr []"
| "mapR f (x # xs) = bindR (f x) (\<lambda>y. bindR (mapR f xs) (\<lambda>ys. Inr (y # ys)))"

lemma mapR_Inr: "mapR f xs = Inr ys \<longleftrightarrow> list_all2 (\<lambda>x y. f x = Inr y) xs ys"
proof (induction xs arbitrary: ys)
  case Nil
  then show ?case by auto
next
  case (Cons x xs)
  then show ?case by (auto simp: bindR_eq_Inr list_all2_Cons1)
qed

lemma mapR_member: "mapR f xs = Inr ys \<Longrightarrow> x \<in> set xs \<Longrightarrow> \<exists>y\<in>set ys. f x = Inr y"
  by (induction xs arbitrary: ys) (auto simp: bindR_eq_Inr)

lemma mapR_origin: "mapR f xs = Inr ys \<Longrightarrow> y \<in> set ys \<Longrightarrow> \<exists>x\<in>set xs. f x = Inr y"
  by (induction xs arbitrary: ys) (auto simp: bindR_eq_Inr)

lemma mapR_total: "(\<And>x. x \<in> set xs \<Longrightarrow> f x = Inr (g x)) \<Longrightarrow> mapR f xs = Inr (map g xs)"
  by (induction xs) simp_all

lemma mapR_Inl_cases: "mapR f xs = Inl e \<Longrightarrow> \<exists>x\<in>set xs. f x = Inl e"
  by (induction xs) (auto simp: bindR_eq_Inl)


section \<open>Programs over a state\<close>

text \<open>
  A method that reads and writes attributes: it takes the state and returns its result with the
  state it leaves. A raise keeps the writes made before it.
\<close>

type_synonym ('s, 'a) prog = "'s \<Rightarrow> 'a res \<times> 's"

definition retP :: "'a \<Rightarrow> ('s, 'a) prog" where
  "retP x s = (Inr x, s)"

definition raiseP :: "exn \<Rightarrow> ('s, 'a) prog" where
  "raiseP e s = (Inl e, s)"

definition bindP :: "('s, 'a) prog \<Rightarrow> ('a \<Rightarrow> ('s, 'b) prog) \<Rightarrow> ('s, 'b) prog" where
  "bindP m f s = (case m s of (Inl e, s') \<Rightarrow> (Inl e, s') | (Inr x, s') \<Rightarrow> f x s')"

definition liftP :: "'a res \<Rightarrow> ('s, 'a) prog" where
  "liftP r s = (r, s)"

definition modifyP :: "('s \<Rightarrow> 's) \<Rightarrow> ('s, unit) prog" where
  "modifyP f s = (Inr (), f s)"

text \<open>
  \<open>except Exception\<close> does not catch a cancellation or an interpreter exit (Python 3.8, the
  version of the image); a bare \<open>except\<close> catches everything.
\<close>

definition is_Exception :: "exn \<Rightarrow> bool" where
  "is_Exception e = (case e of CancelledError \<Rightarrow> False | SystemExit _ \<Rightarrow> False | _ \<Rightarrow> True)"

definition tryP :: "(exn \<Rightarrow> bool) \<Rightarrow> ('s, 'a) prog \<Rightarrow> (exn \<Rightarrow> ('s, 'a) prog) \<Rightarrow> ('s, 'a) prog" where
  "tryP catches m h s =
     (case m s of (Inl e, s') \<Rightarrow> if catches e then h e s' else (Inl e, s') | (Inr x, s') \<Rightarrow> (Inr x, s'))"

lemma prog_simps [simp, res_simps]:
  "retP x s = (Inr x, s)"
  "raiseP e s = (Inl e, s)"
  "liftP r s = (r, s)"
  "modifyP f s = (Inr (), f s)"
  by (simp_all add: retP_def raiseP_def liftP_def modifyP_def)

lemma bindP_simps [res_simps]:
  "m s = (Inl e, s') \<Longrightarrow> bindP m f s = (Inl e, s')"
  "m s = (Inr x, s') \<Longrightarrow> bindP m f s = f x s'"
  by (simp_all add: bindP_def)

lemma bindP_cong_first [simp]:
  "bindP (retP x) f s = f x s"
  "bindP (raiseP e) f s = (Inl e, s)"
  "bindP (modifyP g) f s = f () (g s)"
  "bindP (liftP (Inr x)) f s = f x s"
  "bindP (liftP (Inl e)) f s = (Inl e, s)"
  by (simp_all add: bindP_def)

lemma bindP_eq_Inr:
  "bindP m f s = (Inr y, s') \<longleftrightarrow> (\<exists>x s1. m s = (Inr x, s1) \<and> f x s1 = (Inr y, s'))"
  by (auto simp: bindP_def split: prod.splits sum.splits)

lemma bindP_eq_Inl:
  "bindP m f s = (Inl e, s') \<longleftrightarrow>
     m s = (Inl e, s') \<or> (\<exists>x s1. m s = (Inr x, s1) \<and> f x s1 = (Inl e, s'))"
  by (auto simp: bindP_def split: prod.splits sum.splits)

section \<open>Ordered dictionaries\<close>

text \<open>
  A Python dictionary keeps insertion order, and storing under a key that is present keeps that
  key's position: \<open>AList.update\<close> is that operation.
\<close>

type_synonym 'v dict = "(string \<times> 'v) list"

definition dget :: "'v dict \<Rightarrow> string \<Rightarrow> 'v option" where
  "dget d k = map_of d k"

definition dset :: "'v dict \<Rightarrow> string \<Rightarrow> 'v \<Rightarrow> 'v dict" where
  "dset d k v = AList.update k v d"

fun dupdate :: "'v dict \<Rightarrow> 'v dict \<Rightarrow> 'v dict" where
  "dupdate d [] = d"
| "dupdate d ((k, v) # kvs) = dupdate (dset d k v) kvs"

abbreviation dkeys :: "'v dict \<Rightarrow> string list" where
  "dkeys d \<equiv> map fst d"

definition dict_ok :: "'v dict \<Rightarrow> bool" where
  "dict_ok d \<longleftrightarrow> distinct (dkeys d)"

text \<open>What a client of a dictionary may rely on, and the facts that follow for bulk updates.\<close>

locale py_dict =
  fixes empty :: "'d"
    and lookup :: "'d \<Rightarrow> string \<Rightarrow> 'v option"
    and store :: "'d \<Rightarrow> string \<Rightarrow> 'v \<Rightarrow> 'd"
    and keys :: "'d \<Rightarrow> string list"
    and ok :: "'d \<Rightarrow> bool"
  assumes lookup_empty: "lookup empty k = None"
    and lookup_store: "lookup (store d k v) k' = (if k' = k then Some v else lookup d k')"
    and keys_lookup: "k \<in> set (keys d) \<longleftrightarrow> lookup d k \<noteq> None"
    and keys_store_old: "k \<in> set (keys d) \<Longrightarrow> keys (store d k v) = keys d"
    and keys_store_new: "k \<notin> set (keys d) \<Longrightarrow> keys (store d k v) = keys d @ [k]"
    and ok_empty: "ok empty"
    and ok_store: "ok d \<Longrightarrow> ok (store d k v)"
begin

fun store_all :: "'d \<Rightarrow> (string \<times> 'v) list \<Rightarrow> 'd" where
  "store_all d [] = d"
| "store_all d ((k, v) # kvs) = store_all (store d k v) kvs"

lemma lookup_store_all:
  "lookup (store_all d kvs) k =
     (case map_of (rev kvs) k of Some v \<Rightarrow> Some v | None \<Rightarrow> lookup d k)"
proof (induction kvs arbitrary: d)
  case Nil
  then show ?case by simp
next
  case (Cons kv kvs)
  then show ?case
    by (cases kv) (auto simp: lookup_store map_add_def split: option.splits)
qed

lemma keys_store: "set (keys (store d k v)) = insert k (set (keys d))"
  by (cases "k \<in> set (keys d)") (auto simp: keys_store_old keys_store_new)

lemma keys_store_all: "set (keys (store_all d kvs)) = set (keys d) \<union> fst ` set kvs"
  by (induction d kvs rule: store_all.induct) (auto simp: keys_store)

lemma ok_store_all: "ok d \<Longrightarrow> ok (store_all d kvs)"
  by (induction d kvs rule: store_all.induct) (auto simp: ok_store)

lemma store_all_append: "store_all d (xs @ ys) = store_all (store_all d xs) ys"
  by (induction d xs rule: store_all.induct) auto

end

interpretation od: py_dict "[]" dget dset dkeys dict_ok
proof unfold_locales
  fix d :: "'v dict" and k k' :: string and v :: 'v
  show "dget [] k = None" by (simp add: dget_def)
  show "dget (dset d k v) k' = (if k' = k then Some v else dget d k')"
    by (simp add: dget_def dset_def update_conv)
  show "k \<in> set (dkeys d) \<longleftrightarrow> dget d k \<noteq> None"
    by (simp add: dget_def map_of_eq_None_iff)
  show "k \<in> set (dkeys d) \<Longrightarrow> dkeys (dset d k v) = dkeys d"
    unfolding dset_def by (induction d) auto
  show "k \<notin> set (dkeys d) \<Longrightarrow> dkeys (dset d k v) = dkeys d @ [k]"
    unfolding dset_def by (induction d) auto
  show "dict_ok ([] :: 'v dict)" by (simp add: dict_ok_def)
  show "dict_ok d \<Longrightarrow> dict_ok (dset d k v)"
    by (simp add: dict_ok_def dset_def distinct_update)
qed

lemma dupdate_store_all: "dupdate d kvs = od.store_all d kvs"
  by (induction d kvs rule: dupdate.induct) auto

lemma dget_dupdate [dict_simps]:
  "dget (dupdate d kvs) k =
     (case map_of (rev kvs) k of Some v \<Rightarrow> Some v | None \<Rightarrow> dget d k)"
  by (simp add: dupdate_store_all od.lookup_store_all)

lemma keys_dupdate [dict_simps]: "set (dkeys (dupdate d kvs)) = set (dkeys d) \<union> fst ` set kvs"
  using od.keys_store_all [of d kvs] by (simp add: dupdate_store_all)

lemma dict_ok_dupdate: "dict_ok d \<Longrightarrow> dict_ok (dupdate d kvs)"
  by (simp add: dupdate_store_all od.ok_store_all)

lemma dupdate_append: "dupdate d (xs @ ys) = dupdate (dupdate d xs) ys"
  by (simp add: dupdate_store_all od.store_all_append)

lemma dget_dset [dict_simps]: "dget (dset d k v) k' = (if k' = k then Some v else dget d k')"
  by (rule od.lookup_store)

lemma dget_Nil [simp]: "dget [] k = None"
  by (rule od.lookup_empty)

lemma dget_Cons: "dget ((k, v) # d) k' = (if k' = k then Some v else dget d k')"
  by (simp add: dget_def)

lemma dget_dupdate_ok [dict_simps]:
  assumes "dict_ok kvs"
  shows "dget (dupdate d kvs) k = (case dget kvs k of Some v \<Rightarrow> Some v | None \<Rightarrow> dget d k)"
proof -
  have "map_of (rev kvs) = map_of kvs"
    using assms by (simp add: dict_ok_def map_of_inject_set rev_map [symmetric])
  then show ?thesis unfolding dget_dupdate by (simp add: dget_def)
qed

lemma dget_in_keys: "dget d k = Some v \<Longrightarrow> k \<in> set (dkeys d)"
  using od.keys_lookup [of k d] by simp

end
