(* ===== verification/PyStrings.thy ===== *)
theory PyStrings
  imports Prelude
begin

text \<open>
  The string operations of the Python standard library that the program uses: \<open>split\<close>,
  \<open>join\<close>, \<open>strip\<close>, \<open>startswith\<close>, decimal printing and \<open>int()\<close>. A string is a list of
  characters; the whitespace and digits of \<open>int()\<close> and \<open>strip()\<close> are the ASCII ones.
\<close>

section \<open>Splitting and joining\<close>

fun split_on :: "char \<Rightarrow> string \<Rightarrow> string list" where
  "split_on c [] = [[]]"
| "split_on c (x # xs) =
     (if x = c then [] # split_on c xs
      else (case split_on c xs of [] \<Rightarrow> [[x]] | y # ys \<Rightarrow> (x # y) # ys))"

fun join :: "string \<Rightarrow> string list \<Rightarrow> string" where
  "join sep [] = []"
| "join sep [x] = x"
| "join sep (x # y # ys) = x @ sep @ join sep (y # ys)"

lemma split_on_not_Nil [simp]: "split_on c xs \<noteq> []"
  by (induction xs) (auto split: list.splits)

lemma split_on_append: "c \<notin> set x \<Longrightarrow> split_on c (x @ c # ys) = x # split_on c ys"
  by (induction x) auto

lemma split_on_no_sep: "c \<notin> set x \<Longrightarrow> split_on c x = [x]"
  by (induction x) auto

lemma split_on_join:
  assumes "xs \<noteq> []" and "\<And>x. x \<in> set xs \<Longrightarrow> c \<notin> set x"
  shows "split_on c (join [c] xs) = xs"
  using assms
  by (induction "[c]" xs rule: join.induct) (auto simp: split_on_append split_on_no_sep)

lemma join_split_on: "join [c] (split_on c xs) = xs"
proof (induction xs)
  case Nil
  then show ?case by simp
next
  case (Cons x xs)
  obtain y ys where sp: "split_on c xs = y # ys"
    by (cases "split_on c xs") auto
  with Cons show ?case by (cases ys) auto
qed

lemma split_on_parts: "p \<in> set (split_on c xs) \<Longrightarrow> c \<notin> set p"
proof (induction xs arbitrary: p)
  case Nil
  then show ?case by simp
next
  case (Cons x xs)
  obtain y ys where "split_on c xs = y # ys"
    by (cases "split_on c xs") auto
  with Cons show ?case by (auto split: if_splits)
qed

section \<open>Stripping\<close>

definition is_space :: "char \<Rightarrow> bool" where
  "is_space c = (let n = of_char c :: nat in n = 32 \<or> (9 \<le> n \<and> n \<le> 13) \<or> (28 \<le> n \<and> n \<le> 31))"

definition lstrip_chars :: "(char \<Rightarrow> bool) \<Rightarrow> string \<Rightarrow> string" where
  "lstrip_chars P s = dropWhile P s"

definition strip_chars :: "(char \<Rightarrow> bool) \<Rightarrow> string \<Rightarrow> string" where
  "strip_chars P s = rev (dropWhile P (rev (dropWhile P s)))"

definition strip :: "string \<Rightarrow> string" where
  "strip s = strip_chars is_space s"

lemma strip_chars_id:
  assumes "s \<noteq> [] \<longrightarrow> \<not> P (hd s) \<and> \<not> P (last s)"
  shows "strip_chars P s = s"
proof (cases s)
  case Nil
  then show ?thesis by (simp add: strip_chars_def)
next
  case (Cons x xs)
  with assms have 1: "dropWhile P s = s" by simp
  have "rev s = last s # rev (butlast s)"
    using Cons by (metis append_butlast_last_id list.distinct(1) rev_eq_Cons_iff rev_rev_ident)
  with assms Cons have "dropWhile P (rev s) = rev s"
    by (metis dropWhile.simps(2) list.distinct(1))
  with 1 show ?thesis by (simp add: strip_chars_def)
qed

lemma strip_id: "(\<And>c. c \<in> set s \<Longrightarrow> \<not> is_space c) \<Longrightarrow> strip s = s"
  unfolding strip_def by (rule strip_chars_id) auto

lemma strip_pad_left: "is_space c \<Longrightarrow> strip (c # s) = strip s"
  by (simp add: strip_def strip_chars_def)

lemma strip_pad_right:
  assumes "is_space c" and "s \<noteq> []" and "\<not> is_space (hd s)"
  shows "strip (s @ [c]) = strip s"
proof -
  obtain x xs where "s = x # xs" using assms(2) by (cases s) auto
  with assms show ?thesis by (simp add: strip_def strip_chars_def)
qed

definition trimmed :: "string \<Rightarrow> bool" where
  "trimmed s = (s \<noteq> [] \<and> \<not> is_space (hd s) \<and> \<not> is_space (last s))"

lemma strip_trimmed: "trimmed s \<Longrightarrow> strip s = s"
  unfolding strip_def trimmed_def by (rule strip_chars_id) auto

section \<open>Decimal numbers\<close>

definition is_digit :: "char \<Rightarrow> bool" where
  "is_digit c = (48 \<le> (of_char c :: nat) \<and> (of_char c :: nat) \<le> 57)"

definition digit_val :: "char \<Rightarrow> nat" where
  "digit_val c = of_char c - 48"

definition digit_char :: "nat \<Rightarrow> char" where
  "digit_char n = char_of (48 + n)"

lemma is_digit_digit_char: "n < 10 \<Longrightarrow> is_digit (digit_char n)"
  by (simp add: is_digit_def digit_char_def of_char_of)

lemma digit_val_digit_char: "n < 10 \<Longrightarrow> digit_val (digit_char n) = n"
  by (simp add: digit_val_def digit_char_def of_char_of)

lemma digit_not_space: "is_digit c \<Longrightarrow> \<not> is_space c"
  by (auto simp: is_digit_def is_space_def Let_def)

lemma digit_not_sign: "is_digit c \<Longrightarrow> c \<noteq> CHR ''-'' \<and> c \<noteq> CHR ''+'' \<and> c \<noteq> CHR '','' \<and> c \<noteq> CHR ''_''"
  by (auto simp: is_digit_def)

lemma sign_not_space: "\<not> is_space (CHR ''-'')"
  by (simp add: is_space_def)

text \<open>\<open>str(n)\<close> of an integer.\<close>

fun nat_str :: "nat \<Rightarrow> string" where
  "nat_str n = (if n < 10 then [digit_char n] else nat_str (n div 10) @ [digit_char (n mod 10)])"

declare nat_str.simps [simp del]

definition int_str :: "int \<Rightarrow> string" where
  "int_str i = (if i < 0 then CHR ''-'' # nat_str (nat (- i)) else nat_str (nat i))"

lemma nat_str_not_Nil [simp]: "nat_str n \<noteq> []"
  by (subst nat_str.simps) simp

lemma nat_str_digits: "c \<in> set (nat_str n) \<Longrightarrow> is_digit c"
proof (induction n rule: nat_str.induct)
  case (1 n)
  show ?case
  proof (cases "n < 10")
    case True
    with "1.prems" show ?thesis by (subst (asm) nat_str.simps) (simp add: is_digit_digit_char)
  next
    case False
    with "1.prems" have "c \<in> set (nat_str (n div 10)) \<or> c = digit_char (n mod 10)"
      by (subst (asm) nat_str.simps) auto
    with "1.IH" False show ?thesis by (auto simp: is_digit_digit_char)
  qed
qed

text \<open>
  \<open>int(s)\<close>: optional whitespace around, an optional sign, decimal digits with single underscores
  between them. \<open>None\<close> is the \<open>ValueError\<close>.
\<close>

fun digits_val :: "nat \<Rightarrow> string \<Rightarrow> nat option" where
  "digits_val acc [] = Some acc"
| "digits_val acc (c # cs) =
     (if is_digit c then digits_val (10 * acc + digit_val c) cs
      else if c = CHR ''_'' then
        (case cs of
           [] \<Rightarrow> None
         | d # ds \<Rightarrow> if is_digit d then digits_val (10 * acc + digit_val d) ds else None)
      else None)"

definition parse_nat :: "string \<Rightarrow> nat option" where
  "parse_nat s = (case s of [] \<Rightarrow> None | c # cs \<Rightarrow> if is_digit c then digits_val (digit_val c) cs else None)"

definition py_int :: "string \<Rightarrow> int option" where
  "py_int s =
     (case strip s of
        [] \<Rightarrow> None
      | c # cs \<Rightarrow>
          if c = CHR ''-'' then map_option (\<lambda>n. - int n) (parse_nat cs)
          else if c = CHR ''+'' then map_option int (parse_nat cs)
          else map_option int (parse_nat (c # cs)))"

lemma digits_val_append:
  "(\<And>c. c \<in> set xs \<Longrightarrow> is_digit c) \<Longrightarrow>
   digits_val acc (xs @ ys) = digits_val (foldl (\<lambda>a c. 10 * a + digit_val c) acc xs) ys"
  by (induction xs arbitrary: acc) auto

lemma parse_nat_digits:
  assumes "xs \<noteq> []" and "\<And>c. c \<in> set xs \<Longrightarrow> is_digit c"
  shows "parse_nat xs = Some (foldl (\<lambda>a c. 10 * a + digit_val c) 0 xs)"
proof (cases xs)
  case Nil
  with assms show ?thesis by simp
next
  case (Cons c cs)
  with assms(2) have "digits_val (digit_val c) (cs @ []) = Some (foldl (\<lambda>a c. 10 * a + digit_val c) (digit_val c) cs)"
    by (subst digits_val_append) auto
  with assms Cons show ?thesis by (simp add: parse_nat_def)
qed

lemma foldl_nat_str: "foldl (\<lambda>a c. 10 * a + digit_val c) 0 (nat_str n) = n"
proof (induction n rule: nat_str.induct)
  case (1 n)
  show ?case
  proof (cases "n < 10")
    case True
    then show ?thesis by (subst nat_str.simps) (simp add: digit_val_digit_char)
  next
    case False
    with "1.IH" show ?thesis by (subst nat_str.simps) (simp add: digit_val_digit_char)
  qed
qed

lemma parse_nat_nat_str [simp]: "parse_nat (nat_str n) = Some n"
  by (simp add: parse_nat_digits nat_str_digits foldl_nat_str)

lemma int_str_chars: "c \<in> set (int_str i) \<Longrightarrow> is_digit c \<or> c = CHR ''-''"
  by (auto simp: int_str_def nat_str_digits split: if_splits)

lemma int_str_no_space: "c \<in> set (int_str i) \<Longrightarrow> \<not> is_space c"
  using int_str_chars digit_not_space sign_not_space by blast

lemma int_str_no_comma: "CHR '','' \<notin> set (int_str i)"
  using int_str_chars digit_not_sign by fastforce

lemma int_str_not_Nil [simp]: "int_str i \<noteq> []"
  by (simp add: int_str_def)

theorem py_int_int_str [simp]: "py_int (int_str i) = Some i"
proof -
  have strip: "strip (int_str i) = int_str i"
    by (rule strip_id) (rule int_str_no_space)
  show ?thesis
  proof (cases "i < 0")
    case True
    then have "int_str i = CHR ''-'' # nat_str (nat (- i))" by (simp add: int_str_def)
    with strip have "strip (int_str i) = CHR ''-'' # nat_str (nat (- i))" by simp
    with True show ?thesis by (simp add: py_int_def)
  next
    case False
    obtain c cs where c: "nat_str (nat i) = c # cs"
      by (cases "nat_str (nat i)") auto
    then have "is_digit c" using nat_str_digits [of c "nat i"] by simp
    with False c strip show ?thesis
      using digit_not_sign [of c] parse_nat_nat_str [of "nat i"]
      by (simp add: py_int_def int_str_def)
  qed
qed

lemma int_str_inject [simp]: "int_str i = int_str j \<longleftrightarrow> i = j"
  by (metis option.inject py_int_int_str)

section \<open>Prefixes\<close>

definition startswith :: "string \<Rightarrow> string \<Rightarrow> bool" where
  "startswith s p = prefix p s"

lemma startswith_append [simp]: "startswith (p @ s) p"
  by (simp add: startswith_def)

end
