(* ===== verification/PyValues.thy ===== *)
theory PyValues
  imports PyStrings
begin

text \<open>
  Dynamic Python values as the program builds and prints them: \<open>None\<close>, booleans, integers,
  floats, strings, lists and dictionaries with string keys. A float that the program only passes
  on and prints is named by its \<open>repr\<close>, which identifies it; arithmetic on times and measurements
  is done on \<open>real\<close> in the components that compute. Also here: Python sets of named objects.
\<close>

datatype py =
    PNone
  | PBool bool
  | PInt int
  | PFloat string
  | PStr string
  | PList "py list"
  | PDict "(string \<times> py) list"

section \<open>Truthiness\<close>

definition zero_floats :: "string list" where
  "zero_floats = [''0.0'', ''-0.0'']"

fun truthy :: "py \<Rightarrow> bool" where
  "truthy PNone = False"
| "truthy (PBool b) = b"
| "truthy (PInt i) = (i \<noteq> 0)"
| "truthy (PFloat r) = (r \<notin> set zero_floats)"
| "truthy (PStr s) = (s \<noteq> [])"
| "truthy (PList xs) = (xs \<noteq> [])"
| "truthy (PDict d) = (d \<noteq> [])"

text \<open>\<open>x or y\<close> and \<open>x and y\<close> return one of their operands.\<close>

definition py_or :: "py \<Rightarrow> py \<Rightarrow> py" where
  "py_or x y = (if truthy x then x else y)"

definition py_and :: "py \<Rightarrow> py \<Rightarrow> py" where
  "py_and x y = (if truthy x then y else x)"

text \<open>An optional string attribute is true when it is present and not empty.\<close>

definition truthy_str :: "string option \<Rightarrow> bool" where
  "truthy_str s = (case s of None \<Rightarrow> False | Some x \<Rightarrow> x \<noteq> [])"

definition truthy_list :: "'a list option \<Rightarrow> bool" where
  "truthy_list xs = (case xs of None \<Rightarrow> False | Some x \<Rightarrow> x \<noteq> [])"

section \<open>Printing\<close>

definition hex_digit :: "nat \<Rightarrow> char" where
  "hex_digit n = (if n < 10 then char_of (48 + n) else char_of (87 + n))"

definition printable :: "char \<Rightarrow> bool" where
  "printable c = (let n = of_char c :: nat in \<not> (n < 32 \<or> (127 \<le> n \<and> n \<le> 160) \<or> n = 173))"

definition repr_char :: "char \<Rightarrow> char \<Rightarrow> string" where
  "repr_char quote c =
     (let n = of_char c :: nat; bs = CHR 0x5C
      in if c = quote \<or> c = bs then [bs, c]
         else if n = 9 then [bs, CHR ''t'']
         else if n = 10 then [bs, CHR ''n'']
         else if n = 13 then [bs, CHR ''r'']
         else if printable c then [c]
         else [bs, CHR ''x'', hex_digit (n div 16), hex_digit (n mod 16)])"

definition repr_str :: "string \<Rightarrow> string" where
  "repr_str s =
     (let quote = (if CHR 0x27 \<in> set s \<and> CHR 0x22 \<notin> set s then CHR 0x22 else CHR 0x27)
      in quote # concat (map (repr_char quote) s) @ [quote])"

fun py_repr :: "py \<Rightarrow> string" where
  "py_repr PNone = ''None''"
| "py_repr (PBool b) = (if b then ''True'' else ''False'')"
| "py_repr (PInt i) = int_str i"
| "py_repr (PFloat r) = r"
| "py_repr (PStr s) = repr_str s"
| "py_repr (PList xs) = ''['' @ join '', '' (map py_repr xs) @ '']''"
| "py_repr (PDict d) = ''{'' @ join '', '' (map (\<lambda>(k, v). repr_str k @ '': '' @ py_repr v) d) @ ''}''"

fun py_str :: "py \<Rightarrow> string" where
  "py_str (PStr s) = s"
| "py_str v = py_repr v"

lemma py_str_simps [simp]:
  "py_str PNone = ''None''" "py_str (PInt i) = int_str i" "py_str (PFloat r) = r"
  "py_str (PBool True) = ''True''" "py_str (PBool False) = ''False''"
  by simp_all

section \<open>Reading dictionaries\<close>

text \<open>\<open>d.get(k, default)\<close> and \<open>d[k]\<close> on a dictionary; on any other value \<open>get\<close> is no attribute.\<close>

definition get_default :: "py dict \<Rightarrow> string \<Rightarrow> py \<Rightarrow> py" where
  "get_default d k dflt = (case dget d k of Some v \<Rightarrow> v | None \<Rightarrow> dflt)"

definition dict_index :: "'v dict \<Rightarrow> string \<Rightarrow> 'v res" where
  "dict_index d k = (case dget d k of Some v \<Rightarrow> Inr v | None \<Rightarrow> Inl (KeyError k))"

fun as_dict :: "py \<Rightarrow> py dict res" where
  "as_dict (PDict d) = Inr d"
| "as_dict _ = Inl AttributeError"

text \<open>\<open>v.get(k, default)\<close> and \<open>v[k]\<close> on a value of any type.\<close>

definition py_get :: "py \<Rightarrow> string \<Rightarrow> py \<Rightarrow> py res" where
  "py_get v k dflt = bindR (as_dict v) (\<lambda>d. Inr (get_default d k dflt))"

fun py_index :: "py \<Rightarrow> string \<Rightarrow> py res" where
  "py_index (PDict d) k = dict_index d k"
| "py_index _ k = Inl TypeError"

text \<open>A chain \<open>v.get(k1, {}).get(k2, {}) ... .get(kn, None)\<close>.\<close>

fun get_chain :: "py \<Rightarrow> string list \<Rightarrow> py res" where
  "get_chain v [] = Inr v"
| "get_chain v [k] = py_get v k PNone"
| "get_chain v (k # l # ks) = bindR (py_get v k (PDict [])) (\<lambda>w. get_chain w (l # ks))"

text \<open>A chain \<open>v[k1][k2] ... [kn]\<close>.\<close>

fun index_chain :: "py \<Rightarrow> string list \<Rightarrow> py res" where
  "index_chain v [] = Inr v"
| "index_chain v (k # ks) = bindR (py_index v k) (\<lambda>w. index_chain w ks)"

lemma get_chain_missing:
  "dget d k = None \<Longrightarrow> get_chain (PDict d) (k # ks) = Inr PNone"
proof (induction ks arbitrary: d k)
  case Nil
  then show ?case by (simp add: py_get_def get_default_def)
next
  case (Cons l ks)
  from Cons.prems have "get_chain (PDict d) (k # l # ks) = get_chain (PDict []) (l # ks)"
    by (simp add: py_get_def get_default_def)
  also have "\<dots> = Inr PNone" by (rule Cons.IH) simp
  finally show ?case .
qed

section \<open>Sets of named objects\<close>

text \<open>
  Objects whose \<open>__eq__\<close> and \<open>__hash__\<close> read a name: a set built from a sequence keeps the
  first object of each name. The order in which CPython iterates a set depends on the (randomised)
  hashes of the names, so it is a parameter \<open>so\<close> of the model, from the names in order of
  insertion to the names in order of iteration; \<open>set_order_ok\<close> says what the language promises.
\<close>

type_synonym set_order = "string list \<Rightarrow> string list"

definition set_order_ok :: "set_order \<Rightarrow> bool" where
  "set_order_ok so \<longleftrightarrow> (\<forall>xs. distinct xs \<longrightarrow> distinct (so xs) \<and> set (so xs) = set xs)"

definition set_add :: "('a \<Rightarrow> string) \<Rightarrow> 'a list \<Rightarrow> 'a \<Rightarrow> 'a list" where
  "set_add key xs x = (if key x \<in> key ` set xs then xs else xs @ [x])"

definition py_set :: "('a \<Rightarrow> string) \<Rightarrow> 'a list \<Rightarrow> 'a list" where
  "py_set key xs = foldl (set_add key) [] xs"

definition set_iter :: "set_order \<Rightarrow> ('a \<Rightarrow> string) \<Rightarrow> 'a list \<Rightarrow> 'a list" where
  "set_iter so key xs = List.map_filter (\<lambda>n. find (\<lambda>x. key x = n) xs) (so (map key xs))"

definition set_list :: "set_order \<Rightarrow> ('a \<Rightarrow> string) \<Rightarrow> 'a list \<Rightarrow> 'a list" where
  "set_list so key xs = set_iter so key (py_set key xs)"

lemma set_order_ok_id: "set_order_ok (\<lambda>xs. xs)"
  by (simp add: set_order_ok_def)

lemma set_order_ok_rev: "set_order_ok rev"
  by (simp add: set_order_ok_def)

lemma foldl_set_add_keys: "key ` set (foldl (set_add key) acc xs) = key ` set acc \<union> key ` set xs"
  by (induction xs arbitrary: acc) (auto simp: set_add_def)

lemma foldl_set_add_subset: "set (foldl (set_add key) acc xs) \<subseteq> set acc \<union> set xs"
proof (induction xs arbitrary: acc)
  case Nil
  then show ?case by simp
next
  case (Cons x xs)
  have "set (foldl (set_add key) acc (x # xs)) \<subseteq> set (set_add key acc x) \<union> set xs"
    using Cons.IH [of "set_add key acc x"] by simp
  also have "\<dots> \<subseteq> set acc \<union> set (x # xs)" by (auto simp: set_add_def)
  finally show ?case .
qed

lemma foldl_set_add_distinct:
  "distinct (map key acc) \<Longrightarrow> distinct (map key (foldl (set_add key) acc xs))"
  by (induction xs arbitrary: acc) (auto simp: set_add_def)

lemma foldl_set_add_idle:
  "key ` set xs \<subseteq> key ` set acc \<Longrightarrow> foldl (set_add key) acc xs = acc"
  by (induction xs) (auto simp: set_add_def)

lemma py_set_keys [simp]: "key ` set (py_set key xs) = key ` set xs"
  by (simp add: py_set_def foldl_set_add_keys)

lemma py_set_subset: "set (py_set key xs) \<subseteq> set xs"
  using foldl_set_add_subset [of key "[]" xs] by (simp add: py_set_def)

lemma py_set_distinct [simp]: "distinct (map key (py_set key xs))"
  by (simp add: py_set_def foldl_set_add_distinct)

lemma foldl_set_add_id:
  "distinct (map key (acc @ xs)) \<Longrightarrow> foldl (set_add key) acc xs = acc @ xs"
proof (induction xs arbitrary: acc)
  case Nil
  then show ?case by simp
next
  case (Cons x xs)
  then have "foldl (set_add key) (acc @ [x]) xs = (acc @ [x]) @ xs" by (intro Cons.IH) simp
  moreover have "set_add key acc x = acc @ [x]" using Cons.prems by (auto simp: set_add_def)
  ultimately show ?case by simp
qed

lemma py_set_id: "distinct (map key xs) \<Longrightarrow> py_set key xs = xs"
  using foldl_set_add_id [of key "[]" xs] by (simp add: py_set_def)

lemma py_set_append_idle: "key ` set ys \<subseteq> key ` set xs \<Longrightarrow> py_set key (xs @ ys) = py_set key xs"
  by (simp add: py_set_def foldl_set_add_idle foldl_set_add_keys)

lemma length_py_set_le: "length (foldl (set_add key) acc xs) \<le> length acc + length xs"
proof (induction xs arbitrary: acc)
  case Nil
  then show ?case by simp
next
  case (Cons x xs)
  show ?case using Cons.IH [of acc] Cons.IH [of "acc @ [x]"] by (simp add: set_add_def)
qed

lemma length_py_set: "length (py_set key xs) = length xs \<longleftrightarrow> distinct (map key xs)"
proof
  assume eq: "length (py_set key xs) = length xs"
  have "card (key ` set xs) = card (set (map key (py_set key xs)))" by simp
  also have "\<dots> = length xs" using eq by (simp add: distinct_card del: set_map)
  finally have "card (set (map key xs)) = length (map key xs)" by simp
  then show "distinct (map key xs)" by (rule card_distinct)
next
  assume "distinct (map key xs)"
  then show "length (py_set key xs) = length xs" by (simp add: py_set_id)
qed

lemma map_filter_find_set:
  assumes "set ns = key ` set xs" and "distinct (map key xs)"
  shows "set (List.map_filter (\<lambda>n. find (\<lambda>x. key x = n) xs) ns) = set xs"
proof -
  have find: "find (\<lambda>y. key y = key x) xs = Some x" if "x \<in> set xs" for x
    using that assms(2) by (induction xs) auto
  show ?thesis
  proof (intro set_eqI iffI)
    fix x assume "x \<in> set (List.map_filter (\<lambda>n. find (\<lambda>x. key x = n) xs) ns)"
    then obtain n where "find (\<lambda>x. key x = n) xs = Some x"
      by (auto simp: List.map_filter_def)
    then show "x \<in> set xs" by (auto simp: find_Some_iff)
  next
    fix x assume x: "x \<in> set xs"
    then have "key x \<in> set ns" using assms(1) by simp
    with find [OF x] show "x \<in> set (List.map_filter (\<lambda>n. find (\<lambda>x. key x = n) xs) ns)"
      by (force simp: List.map_filter_def)
  qed
qed

lemma map_filter_find_keys:
  assumes "set ns \<subseteq> key ` set xs" and "distinct (map key xs)"
  shows "map key (List.map_filter (\<lambda>n. find (\<lambda>x. key x = n) xs) ns) = ns"
  using assms(1)
proof (induction ns)
  case Nil
  then show ?case by (simp add: List.map_filter_def)
next
  case (Cons n ns)
  then obtain x where x: "x \<in> set xs" "key x = n" by auto
  with assms(2) have "find (\<lambda>y. key y = n) xs = Some x"
    by (induction xs) auto
  with x Cons show ?case by (simp add: List.map_filter_def)
qed

lemma set_iter_set:
  "set_order_ok so \<Longrightarrow> distinct (map key xs) \<Longrightarrow> set (set_iter so key xs) = set xs"
  unfolding set_iter_def by (rule map_filter_find_set) (auto simp: set_order_ok_def)

lemma set_iter_keys:
  "set_order_ok so \<Longrightarrow> distinct (map key xs) \<Longrightarrow> map key (set_iter so key xs) = so (map key xs)"
  unfolding set_iter_def by (rule map_filter_find_keys) (auto simp: set_order_ok_def)

lemma set_list_set [simp]: "set_order_ok so \<Longrightarrow> set (set_list so key xs) = set (py_set key xs)"
  by (simp add: set_list_def set_iter_set)

lemma set_list_keys: "set_order_ok so \<Longrightarrow> key ` set (set_list so key xs) = key ` set xs"
  by simp

lemma set_list_distinct: "set_order_ok so \<Longrightarrow> distinct (map key (set_list so key xs))"
  by (simp add: set_list_def set_iter_keys) (simp add: set_order_ok_def)

lemma set_list_names [simp]:
  "set_order_ok so \<Longrightarrow> set (set_list so (\<lambda>s. s) xs) = set xs"
  using set_list_keys [of so "\<lambda>s. s" xs] by (simp del: set_list_set)

end
