(* ===== verification/Json.thy ===== *)
theory Json
  imports PyValues
begin

text \<open>
  \<open>json.dumps\<close> and \<open>json.loads\<close> of the standard library on the values of the program, with the
  round trip that every component writing to and reading from Redis relies on. Strings hold code
  points up to 255: an escape of a larger one is not represented. The decimal a float token is read
  as is a parameter \<open>canon\<close>, from the token to the \<open>repr\<close> of the float.
\<close>

section \<open>Printing\<close>

definition json_escape :: "char \<Rightarrow> string" where
  "json_escape c =
     (let n = of_char c :: nat; bs = CHR 0x5C
      in if c = CHR 0x22 \<or> c = bs then [bs, c]
         else if n = 10 then [bs, CHR ''n'']
         else if n = 13 then [bs, CHR ''r'']
         else if n = 9 then [bs, CHR ''t'']
         else if n = 12 then [bs, CHR ''f'']
         else if n = 8 then [bs, CHR ''b'']
         else if 32 \<le> n \<and> n \<le> 126 then [c]
         else [bs, CHR ''u'', CHR ''0'', CHR ''0'', hex_digit (n div 16), hex_digit (n mod 16)])"

definition json_str :: "string \<Rightarrow> string" where
  "json_str s = CHR 0x22 # concat (map json_escape s) @ [CHR 0x22]"

definition json_float :: "string \<Rightarrow> string" where
  "json_float r =
     (if r = ''nan'' then ''NaN'' else if r = ''inf'' then ''Infinity''
      else if r = ''-inf'' then ''-Infinity'' else r)"

fun json_dumps :: "py \<Rightarrow> string" where
  "json_dumps PNone = ''null''"
| "json_dumps (PBool b) = (if b then ''true'' else ''false'')"
| "json_dumps (PInt i) = int_str i"
| "json_dumps (PFloat r) = json_float r"
| "json_dumps (PStr s) = json_str s"
| "json_dumps (PList xs) = ''['' @ join '', '' (map json_dumps xs) @ '']''"
| "json_dumps (PDict d) =
     ''{'' @ join '', '' (map (\<lambda>(k, v). json_str k @ '': '' @ json_dumps v) d) @ ''}''"

section \<open>Parsing\<close>

definition is_json_ws :: "char \<Rightarrow> bool" where
  "is_json_ws c = (c \<in> {CHR '' '', CHR 0x09, CHR 0x0A, CHR 0x0D})"

definition skip_ws :: "string \<Rightarrow> string" where
  "skip_ws s = dropWhile is_json_ws s"

definition hex_val :: "char \<Rightarrow> nat option" where
  "hex_val c =
     (let n = of_char c :: nat
      in if 48 \<le> n \<and> n \<le> 57 then Some (n - 48)
         else if 97 \<le> n \<and> n \<le> 102 then Some (n - 87)
         else if 65 \<le> n \<and> n \<le> 70 then Some (n - 55)
         else None)"

definition hex4 :: "char \<Rightarrow> char \<Rightarrow> char \<Rightarrow> char \<Rightarrow> char option" where
  "hex4 a b c d =
     (case (hex_val a, hex_val b, hex_val c, hex_val d) of
        (Some i, Some j, Some k, Some l) \<Rightarrow>
          if i = 0 \<and> j = 0 then Some (char_of (16 * k + l)) else None
      | _ \<Rightarrow> None)"

definition unescape :: "char \<Rightarrow> char option" where
  "unescape e =
     (if e = CHR 0x22 \<or> e = CHR 0x5C \<or> e = CHR ''/'' then Some e
      else if e = CHR ''n'' then Some (CHR 0x0A)
      else if e = CHR ''r'' then Some (CHR 0x0D)
      else if e = CHR ''t'' then Some (CHR 0x09)
      else if e = CHR ''f'' then Some (CHR 0x0C)
      else if e = CHR ''b'' then Some (CHR 0x08)
      else None)"

text \<open>The body of a string, after its opening quote.\<close>

fun parse_str :: "string \<Rightarrow> (string \<times> string) option" where
  "parse_str [] = None"
| "parse_str (c # cs) =
     (if c = CHR 0x22 then Some ([], cs)
      else if c = CHR 0x5C then
        (case cs of
           [] \<Rightarrow> None
         | e # ds \<Rightarrow>
             if e = CHR ''u'' then
               (case ds of
                  h1 # h2 # h3 # h4 # es \<Rightarrow>
                    (case hex4 h1 h2 h3 h4 of
                       None \<Rightarrow> None
                     | Some x \<Rightarrow> map_option (apfst (Cons x)) (parse_str es))
                | _ \<Rightarrow> None)
             else
               (case unescape e of
                  None \<Rightarrow> None
                | Some x \<Rightarrow> map_option (apfst (Cons x)) (parse_str ds)))
      else if (of_char c :: nat) < 32 then None
      else map_option (apfst (Cons c)) (parse_str cs))"

text \<open>
  Numbers: the longest run of number characters is the token. A run that continues a valid number
  with more number characters is no JSON, for the text after a value is a blank, a comma or a
  closing bracket.
\<close>

definition num_char :: "char \<Rightarrow> bool" where
  "num_char c = (is_digit c \<or> c \<in> {CHR ''-'', CHR ''+'', CHR ''.'', CHR ''e'', CHR ''E''})"

definition unsigned_int :: "string \<Rightarrow> bool" where
  "unsigned_int s = (s \<noteq> [] \<and> list_all is_digit s \<and> (hd s = CHR ''0'' \<longrightarrow> length s = 1))"

definition drop_minus :: "string \<Rightarrow> string" where
  "drop_minus s = (case s of [] \<Rightarrow> [] | c # cs \<Rightarrow> if c = CHR ''-'' then cs else s)"

definition int_token :: "string \<Rightarrow> bool" where
  "int_token s = unsigned_int (drop_minus s)"

definition valid_exp :: "string \<Rightarrow> bool" where
  "valid_exp s =
     (case s of
        [] \<Rightarrow> True
      | e # cs \<Rightarrow>
          (e = CHR ''e'' \<or> e = CHR ''E'') \<and>
          (case cs of
             [] \<Rightarrow> False
           | g # ds \<Rightarrow>
               if g = CHR ''+'' \<or> g = CHR ''-'' then ds \<noteq> [] \<and> list_all is_digit ds
               else list_all is_digit cs))"

definition valid_frac :: "string \<Rightarrow> bool" where
  "valid_frac s =
     (case s of
        [] \<Rightarrow> False
      | c # cs \<Rightarrow>
          if c = CHR ''.'' then
            takeWhile is_digit cs \<noteq> [] \<and> valid_exp (dropWhile is_digit cs)
          else valid_exp s)"

definition float_token :: "string \<Rightarrow> bool" where
  "float_token s =
     (let t = drop_minus s
      in unsigned_int (takeWhile is_digit t) \<and> valid_frac (dropWhile is_digit t))"

definition parse_num :: "(string \<Rightarrow> string) \<Rightarrow> string \<Rightarrow> (py \<times> string) option" where
  "parse_num canon s =
     (let tok = takeWhile num_char s; rest = dropWhile num_char s
      in if int_token tok then map_option (\<lambda>i. (PInt i, rest)) (py_int tok)
         else if float_token tok then Some (PFloat (canon tok), rest)
         else None)"

definition parse_const :: "string \<Rightarrow> (py \<times> string) option" where
  "parse_const s =
     (if startswith s ''null'' then Some (PNone, drop 4 s)
      else if startswith s ''true'' then Some (PBool True, drop 4 s)
      else if startswith s ''false'' then Some (PBool False, drop 5 s)
      else if startswith s ''NaN'' then Some (PFloat ''nan'', drop 3 s)
      else if startswith s ''Infinity'' then Some (PFloat ''inf'', drop 8 s)
      else if startswith s ''-Infinity'' then Some (PFloat ''-inf'', drop 9 s)
      else None)"

text \<open>The recursive-descent parser; the fuel bounds the nesting and the number of elements.\<close>

fun parse_val :: "(string \<Rightarrow> string) \<Rightarrow> nat \<Rightarrow> string \<Rightarrow> (py \<times> string) option"
  and parse_arr :: "(string \<Rightarrow> string) \<Rightarrow> nat \<Rightarrow> string \<Rightarrow> (py list \<times> string) option"
  and parse_obj :: "(string \<Rightarrow> string) \<Rightarrow> nat \<Rightarrow> string \<Rightarrow> (py dict \<times> string) option"
where
  "parse_val canon 0 s = None"
| "parse_val canon (Suc n) s =
     (case s of
        [] \<Rightarrow> None
      | c # cs \<Rightarrow>
          if c = CHR 0x22 then map_option (apfst PStr) (parse_str cs)
          else if c = CHR 0x7B then
            (case skip_ws cs of
               [] \<Rightarrow> None
             | d # ds \<Rightarrow> if d = CHR 0x7D then Some (PDict [], ds)
                       else map_option (apfst (PDict \<circ> dupdate [])) (parse_obj canon n (d # ds)))
          else if c = CHR 0x5B then
            (case skip_ws cs of
               [] \<Rightarrow> None
             | d # ds \<Rightarrow> if d = CHR 0x5D then Some (PList [], ds)
                       else map_option (apfst PList) (parse_arr canon n (d # ds)))
          else (case parse_const s of Some r \<Rightarrow> Some r | None \<Rightarrow> parse_num canon s))"
| "parse_arr canon 0 s = None"
| "parse_arr canon (Suc n) s =
     (case parse_val canon n s of
        None \<Rightarrow> None
      | Some (v, r) \<Rightarrow>
          (case skip_ws r of
             [] \<Rightarrow> None
           | c # cs \<Rightarrow>
               if c = CHR '','' then map_option (apfst (Cons v)) (parse_arr canon n (skip_ws cs))
               else if c = CHR 0x5D then Some ([v], cs)
               else None))"
| "parse_obj canon 0 s = None"
| "parse_obj canon (Suc n) s =
     (case s of
        [] \<Rightarrow> None
      | q # qs \<Rightarrow>
          if q \<noteq> CHR 0x22 then None
          else
            (case parse_str qs of
               None \<Rightarrow> None
             | Some (k, r) \<Rightarrow>
                 (case skip_ws r of
                    [] \<Rightarrow> None
                  | c # cs \<Rightarrow>
                      if c \<noteq> CHR '':'' then None
                      else
                        (case parse_val canon n (skip_ws cs) of
                           None \<Rightarrow> None
                         | Some (v, r') \<Rightarrow>
                             (case skip_ws r' of
                                [] \<Rightarrow> None
                              | d # ds \<Rightarrow>
                                  if d = CHR '','' then
                                    map_option (apfst (Cons (k, v))) (parse_obj canon n (skip_ws ds))
                                  else if d = CHR 0x7D then Some ([(k, v)], ds)
                                  else None)))))"

definition json_loads :: "(string \<Rightarrow> string) \<Rightarrow> string \<Rightarrow> py option" where
  "json_loads canon s =
     (case parse_val canon (2 * length s + 2) (skip_ws s) of
        Some (v, r) \<Rightarrow> if skip_ws r = [] then Some v else None
      | None \<Rightarrow> None)"

section \<open>The round trip\<close>

text \<open>
  The values JSON can carry: distinct keys in every dictionary, and floats whose \<open>repr\<close> is a JSON
  number that reads back as itself.
\<close>

fun json_ok :: "(string \<Rightarrow> string) \<Rightarrow> py \<Rightarrow> bool" where
  "json_ok canon (PFloat r) =
     (list_all num_char r \<and> float_token r \<and> \<not> int_token r \<and> canon r = r \<and> json_float r = r)"
| "json_ok canon (PList xs) = list_all (json_ok canon) xs"
| "json_ok canon (PDict d) = (dict_ok d \<and> list_all (\<lambda>(k, v). json_ok canon v) d)"
| "json_ok canon _ = True"

definition delim :: "string \<Rightarrow> bool" where
  "delim s = (case s of [] \<Rightarrow> True | c # _ \<Rightarrow> c \<in> {CHR '','', CHR 0x5D, CHR 0x7D})"

lemma hex_val_digit: "n < 16 \<Longrightarrow> hex_val (hex_digit n) = Some n"
  by (auto simp: hex_val_def hex_digit_def of_char_of)

lemma hex4_low: "hex4 (CHR ''0'') (CHR ''0'') (hex_digit (of_char c div 16)) (hex_digit (of_char c mod 16)) = Some c"
proof -
  have "(of_char c :: nat) < 256" by simp
  then have "(of_char c :: nat) div 16 < 16" by (simp add: less_mult_imp_div_less)
  moreover have "hex_val (CHR ''0'') = Some 0" by (simp add: hex_val_def)
  ultimately show ?thesis by (simp add: hex4_def hex_val_digit)
qed

lemma of_char_controls:
  "(of_char c :: nat) = 8 \<longleftrightarrow> c = CHR 0x08" "(of_char c :: nat) = 9 \<longleftrightarrow> c = CHR 0x09"
  "(of_char c :: nat) = 10 \<longleftrightarrow> c = CHR 0x0A" "(of_char c :: nat) = 12 \<longleftrightarrow> c = CHR 0x0C"
  "(of_char c :: nat) = 13 \<longleftrightarrow> c = CHR 0x0D"
  using of_char_eq_iff [where ?'a = nat, of c "CHR 0x08"] of_char_eq_iff [where ?'a = nat, of c "CHR 0x09"]
    of_char_eq_iff [where ?'a = nat, of c "CHR 0x0A"] of_char_eq_iff [where ?'a = nat, of c "CHR 0x0C"]
    of_char_eq_iff [where ?'a = nat, of c "CHR 0x0D"]
  by simp_all

lemma parse_str_escape:
  "parse_str (json_escape c @ s) = map_option (apfst (Cons c)) (parse_str s)"
proof (cases "c \<in> {CHR 0x22, CHR 0x5C, CHR 0x08, CHR 0x09, CHR 0x0A, CHR 0x0C, CHR 0x0D}")
  case True
  then show ?thesis
    by (elim insertE emptyE) (simp_all add: json_escape_def Let_def unescape_def)
next
  case False
  show ?thesis
  proof (cases "32 \<le> (of_char c :: nat) \<and> (of_char c :: nat) \<le> 126")
    case True
    with False have "json_escape c = [c]"
      by (simp add: json_escape_def Let_def of_char_controls)
    with False True show ?thesis by simp
  next
    case F: False
    have "json_escape c =
      [CHR 0x5C, CHR ''u'', CHR ''0'', CHR ''0'',
       hex_digit (of_char c div 16), hex_digit (of_char c mod 16)]"
      using False F by (simp add: json_escape_def Let_def of_char_controls)
    then show ?thesis by (simp add: hex4_low)
  qed
qed

lemma parse_str_json: "parse_str (concat (map json_escape s) @ CHR 0x22 # r) = Some (s, r)"
  by (induction s) (simp_all add: parse_str_escape)

lemma takeWhile_delim [simp]: "delim r \<Longrightarrow> takeWhile num_char r = []" "delim r \<Longrightarrow> dropWhile num_char r = r"
  by (cases r; auto simp: delim_def num_char_def is_digit_def)+

lemma digit_char_0: "n < 10 \<Longrightarrow> digit_char n = CHR ''0'' \<longleftrightarrow> n = 0"
proof -
  assume n: "n < 10"
  have "digit_char 0 = CHR ''0''"
    by (rule of_char_eqI [where ?'a = nat]) (simp add: digit_char_def)
  with digit_val_digit_char [of n] digit_val_digit_char [of 0] n show ?thesis by fastforce
qed

lemma hd_nat_str: "hd (nat_str n) = CHR ''0'' \<longleftrightarrow> n = 0"
proof (induction n rule: nat_str.induct)
  case (1 n)
  show ?case
  proof (cases "n < 10")
    case True
    then show ?thesis by (subst nat_str.simps) (simp add: digit_char_0)
  next
    case False
    with 1 show ?thesis by (subst nat_str.simps) (auto simp: hd_append)
  qed
qed

lemma unsigned_nat_str: "unsigned_int (nat_str n)"
proof -
  have "length (nat_str 0) = 1" by (subst nat_str.simps) simp
  then have "hd (nat_str n) = CHR ''0'' \<Longrightarrow> length (nat_str n) = 1"
    by (simp add: hd_nat_str)
  then show ?thesis by (auto simp: unsigned_int_def list_all_iff nat_str_digits)
qed

lemma drop_minus_nat_str: "drop_minus (nat_str n) = nat_str n"
proof -
  obtain c cs where c: "nat_str n = c # cs" by (cases "nat_str n") auto
  then have "is_digit c" using nat_str_digits [of c n] by simp
  then have "c \<noteq> CHR ''-''" using digit_not_sign by blast
  with c show ?thesis by (simp add: drop_minus_def)
qed

lemma int_token_int_str: "int_token (int_str i)"
proof (cases "i < 0")
  case True
  then show ?thesis by (simp add: int_token_def int_str_def drop_minus_def unsigned_nat_str)
next
  case False
  then show ?thesis by (simp add: int_token_def int_str_def drop_minus_nat_str unsigned_nat_str)
qed

lemma num_char_int_str: "c \<in> set (int_str i) \<Longrightarrow> num_char c"
  using int_str_chars by (fastforce simp: num_char_def)

lemma parse_num_int: "delim r \<Longrightarrow> parse_num canon (int_str i @ r) = Some (PInt i, r)"
  by (simp add: parse_num_def num_char_int_str int_token_int_str)

lemma parse_num_float:
  "json_ok canon (PFloat f) \<Longrightarrow> delim r \<Longrightarrow> parse_num canon (f @ r) = Some (PFloat f, r)"
  by (simp add: parse_num_def list_all_iff)

text \<open>No number starts like a constant, a string or a bracket.\<close>

lemma num_start:
  assumes "num_char c" and "\<not> startswith (c # cs) ''-Infinity''"
  shows "parse_const (c # cs) = None" "c \<noteq> CHR 0x22" "c \<noteq> CHR 0x7B" "c \<noteq> CHR 0x5B"
proof -
  have no: "\<not> num_char (CHR ''n'')" "\<not> num_char (CHR ''t'')" "\<not> num_char (CHR ''f'')"
    "\<not> num_char (CHR ''N'')" "\<not> num_char (CHR ''I'')" "\<not> num_char (CHR 0x22)"
    "\<not> num_char (CHR 0x7B)" "\<not> num_char (CHR 0x5B)"
    by (simp_all add: num_char_def is_digit_def)
  then have ne: "c \<noteq> CHR ''n''" "c \<noteq> CHR ''t''" "c \<noteq> CHR ''f''" "c \<noteq> CHR ''N''" "c \<noteq> CHR ''I''"
    using assms(1) by blast+
  show "c \<noteq> CHR 0x22" "c \<noteq> CHR 0x7B" "c \<noteq> CHR 0x5B"
    using no assms(1) by blast+
  show "parse_const (c # cs) = None"
    using ne assms(2) by (simp add: parse_const_def startswith_def)
qed

lemma number_not_infinity:
  assumes "\<And>c. c \<in> set tok \<Longrightarrow> num_char c" and "delim r" and "tok \<noteq> []"
  shows "\<not> startswith (tok @ r) ''-Infinity''"
proof
  assume *: "startswith (tok @ r) ''-Infinity''"
  obtain c d where "tok = [c] \<or> (\<exists>ds. tok = c # d # ds)"
    using assms(3) by (cases tok; cases "tl tok") auto
  then show False
  proof
    assume "tok = [c]"
    with * assms(2) show False by (cases r) (auto simp: startswith_def delim_def)
  next
    assume "\<exists>ds. tok = c # d # ds"
    then obtain ds where "tok = c # d # ds" by blast
    with * have "d = CHR ''I''" by (simp add: startswith_def)
    moreover have "num_char d" using assms(1) \<open>tok = c # d # ds\<close> by simp
    ultimately show False by (simp add: num_char_def is_digit_def)
  qed
qed

lemma parse_val_number:
  assumes "\<And>c. c \<in> set tok \<Longrightarrow> num_char c" and "delim r" and "tok \<noteq> []"
  shows "parse_val canon (Suc n) (tok @ r) = parse_num canon (tok @ r)"
proof -
  obtain c cs where c: "tok = c # cs" using assms(3) by (cases tok) auto
  then have "num_char c" using assms(1) by simp
  moreover have "\<not> startswith (c # cs @ r) ''-Infinity''"
    using number_not_infinity [OF assms] c by simp
  ultimately show ?thesis using num_start [of c "cs @ r"] c by simp
qed

lemma skip_ws_simps [simp]:
  "skip_ws [] = []" "skip_ws (CHR '' '' # s) = skip_ws s"
  "\<not> is_json_ws c \<Longrightarrow> skip_ws (c # s) = c # s"
  by (simp_all add: skip_ws_def is_json_ws_def)

lemma not_ws [simp]:
  "\<not> is_json_ws (CHR 0x22)" "\<not> is_json_ws (CHR 0x7B)" "\<not> is_json_ws (CHR 0x7D)"
  "\<not> is_json_ws (CHR 0x5B)" "\<not> is_json_ws (CHR 0x5D)" "\<not> is_json_ws (CHR '','')"
  "\<not> is_json_ws (CHR '':'')"
  by (simp_all add: is_json_ws_def)

text \<open>What a printed value starts with: no blank and no closing bracket.\<close>

lemma num_not_ws: "num_char c \<Longrightarrow> \<not> is_json_ws c \<and> c \<noteq> CHR 0x5D"
  by (auto simp: num_char_def is_json_ws_def is_digit_def)

lemma float_not_Nil: "float_token f \<Longrightarrow> f \<noteq> []"
  by (auto simp: float_token_def drop_minus_def unsigned_int_def)

lemma dumps_start:
  assumes "json_ok canon v"
  obtains c cs where "json_dumps v = c # cs" "\<not> is_json_ws c" "c \<noteq> CHR 0x5D"
proof -
  have "\<exists>c cs. json_dumps v = c # cs \<and> \<not> is_json_ws c \<and> c \<noteq> CHR 0x5D"
  proof (cases v)
    case (PInt i)
    then show ?thesis
      using num_char_int_str [of "hd (int_str i)" i] num_not_ws
      by (cases "int_str i") (auto dest: num_not_ws)
  next
    case (PFloat f)
    with assms show ?thesis
      using float_not_Nil [of f] num_not_ws by (cases f) auto
  qed (auto simp: is_json_ws_def json_str_def)
  then show thesis using that by blast
qed

definition parses :: "(string \<Rightarrow> string) \<Rightarrow> py \<Rightarrow> bool" where
  "parses canon v \<longleftrightarrow>
     (\<forall>n r. 2 * length (json_dumps v) \<le> n \<longrightarrow> delim r \<longrightarrow>
        parse_val canon n (json_dumps v @ r) = Some (v, r))"

lemma parsesD:
  "parses canon v \<Longrightarrow> 2 * length (json_dumps v) \<le> n \<Longrightarrow> delim r \<Longrightarrow>
   parse_val canon n (json_dumps v @ r) = Some (v, r)"
  by (simp add: parses_def)

lemma parse_arr_dumps:
  assumes "xs \<noteq> []" and "\<And>x. x \<in> set xs \<Longrightarrow> parses canon x \<and> json_ok canon x"
    and "2 * length (join '', '' (map json_dumps xs)) + 2 \<le> n"
  shows "parse_arr canon n (join '', '' (map json_dumps xs) @ CHR 0x5D # r) = Some (xs, r)"
  using assms
proof (induction xs arbitrary: n)
  case Nil
  then show ?case by simp
next
  case (Cons x xs)
  then obtain m where n: "n = Suc m" by (cases n) auto
  have x: "parses canon x" using Cons.prems(2) by simp
  show ?case
  proof (cases xs)
    case Nil
    have "parse_val canon m (json_dumps x @ CHR 0x5D # r) = Some (x, CHR 0x5D # r)"
      by (rule parsesD [OF x]) (use Cons.prems(3) Nil n in \<open>simp_all add: delim_def\<close>)
    then show ?thesis by (simp add: n Nil)
  next
    case (Cons y ys)
    let ?rest = "join '', '' (map json_dumps xs) @ CHR 0x5D # r"
    have len: "2 * length (json_dumps x) \<le> m" "2 * length (join '', '' (map json_dumps xs)) + 2 \<le> m"
      using Cons.prems(3) Cons n by simp_all
    have "parse_val canon m (json_dumps x @ CHR '','' # CHR '' '' # ?rest) = Some (x, CHR '','' # CHR '' '' # ?rest)"
      by (rule parsesD [OF x]) (use len in \<open>simp_all add: delim_def\<close>)
    moreover have "parse_arr canon m ?rest = Some (xs, r)"
      by (rule Cons.IH) (use Cons len(2) Cons.prems(2) in auto)
    moreover have "skip_ws ?rest = ?rest"
    proof -
      have "json_ok canon y" using Cons.prems(2) Cons by simp
      then obtain c cs where "json_dumps y = c # cs" "\<not> is_json_ws c" by (rule dumps_start)
      then show ?thesis by (cases ys) (simp_all add: Cons)
    qed
    ultimately show ?thesis by (simp add: n Cons)
  qed
qed

abbreviation dump_member :: "string \<times> py \<Rightarrow> string" where
  "dump_member kv \<equiv> (case kv of (k, v) \<Rightarrow> json_str k @ '': '' @ json_dumps v)"

lemma parse_obj_member:
  assumes "parses canon v" and "json_ok canon v" and "2 * length (dump_member (k, v)) \<le> n" and "delim r"
  shows "parse_obj canon (Suc n) (dump_member (k, v) @ r) =
    (case skip_ws r of
       [] \<Rightarrow> None
     | d # ds \<Rightarrow>
         if d = CHR '','' then map_option (apfst (Cons (k, v))) (parse_obj canon n (skip_ws ds))
         else if d = CHR 0x7D then Some ([(k, v)], ds) else None)"
proof -
  have "parse_str (concat (map json_escape k) @ CHR 0x22 # CHR '':'' # CHR '' '' # json_dumps v @ r) =
      Some (k, CHR '':'' # CHR '' '' # json_dumps v @ r)"
    by (rule parse_str_json)
  moreover have "parse_val canon n (json_dumps v @ r) = Some (v, r)"
    by (rule parsesD [OF assms(1)]) (use assms(3,4) in simp_all)
  moreover have "skip_ws (json_dumps v @ r) = json_dumps v @ r"
    by (rule dumps_start [OF assms(2)]) simp
  ultimately show ?thesis by (simp add: json_str_def)
qed

lemma parse_obj_dumps:
  assumes "d \<noteq> []" and "\<And>k v. (k, v) \<in> set d \<Longrightarrow> parses canon v \<and> json_ok canon v"
    and "2 * length (join '', '' (map dump_member d)) + 2 \<le> n"
  shows "parse_obj canon n (join '', '' (map dump_member d) @ CHR 0x7D # r) = Some (d, r)"
  using assms
proof (induction d arbitrary: n)
  case Nil
  then show ?case by simp
next
  case (Cons kv d)
  obtain k v where kv: "kv = (k, v)" by (cases kv) auto
  obtain m where n: "n = Suc m" using Cons.prems(3) by (cases n) auto
  have v: "parses canon v" "json_ok canon v" using Cons.prems(2) kv by auto
  show ?case
  proof (cases d)
    case Nil
    have "2 * length (dump_member (k, v)) \<le> m" using Cons.prems(3) Nil kv n by simp
    then show ?thesis
      using parse_obj_member [OF v, of k m "CHR 0x7D # r"] by (simp add: Nil kv n delim_def)
  next
    case (Cons kv' d')
    let ?rest = "join '', '' (map dump_member d) @ CHR 0x7D # r"
    have len: "2 * length (dump_member (k, v)) \<le> m" "2 * length (join '', '' (map dump_member d)) + 2 \<le> m"
      using Cons.prems(3) Cons kv n by simp_all
    have "parse_obj canon m ?rest = Some (d, r)"
      by (rule Cons.IH) (use Cons len(2) Cons.prems(2) in auto)
    moreover have "skip_ws ?rest = ?rest"
      by (cases kv'; cases d') (simp_all add: Cons json_str_def)
    ultimately show ?thesis
      using parse_obj_member [OF v len(1), of "CHR '','' # CHR '' '' # ?rest"]
      by (simp add: n Cons kv delim_def)
  qed
qed

lemma dupdate_new: "distinct (dkeys (d @ kvs)) \<Longrightarrow> dupdate d kvs = d @ kvs"
proof (induction kvs arbitrary: d)
  case Nil
  then show ?case by simp
next
  case (Cons kv kvs)
  obtain k v where kv: "kv = (k, v)" by (cases kv) auto
  from Cons.prems have "k \<notin> set (dkeys d)" by (auto simp: kv)
  then have "dset d k v = d @ [(k, v)]"
    unfolding dset_def by (induction d) auto
  with Cons.IH [of "d @ [(k, v)]"] Cons.prems show ?case by (simp add: kv)
qed

lemma dupdate_Nil_id: "dict_ok d \<Longrightarrow> dupdate [] d = d"
  using dupdate_new [of "[]" d] by (simp add: dict_ok_def)

lemma parses_atom:
  assumes "\<And>m r. delim r \<Longrightarrow> parse_val canon (Suc m) (json_dumps v @ r) = Some (v, r)"
    and "json_dumps v \<noteq> []"
  shows "parses canon v"
  unfolding parses_def
proof (intro allI impI)
  fix n r
  assume "2 * length (json_dumps v) \<le> n" "delim r"
  moreover then obtain m where "n = Suc m" using assms(2) by (cases n) auto
  ultimately show "parse_val canon n (json_dumps v @ r) = Some (v, r)" using assms(1) by simp
qed

lemma json_ok_parses: "json_ok canon v \<Longrightarrow> parses canon v"
proof (induction v rule: json_dumps.induct)
  case 1
  then show ?case by (intro parses_atom) (simp_all add: parse_const_def startswith_def)
next
  case (2 b)
  then show ?case by (intro parses_atom) (cases b; simp add: parse_const_def startswith_def)+
next
  case (3 i)
  then show ?case
    by (intro parses_atom) (simp_all add: parse_val_number num_char_int_str parse_num_int del: parse_val.simps)
next
  case (4 f)
  then have f: "json_float f = f" "\<And>c. c \<in> set f \<Longrightarrow> num_char c" "f \<noteq> []"
    using float_not_Nil by (auto simp: list_all_iff)
  with 4 show ?case
    by (intro parses_atom) (simp_all add: parse_val_number parse_num_float del: parse_val.simps json_ok.simps)
next
  case (5 s)
  show ?case by (intro parses_atom) (simp_all add: json_str_def parse_str_json)
next
  case (6 xs)
  show ?case
  proof (cases "xs = []")
    case True
    then show ?thesis by (intro parses_atom) simp_all
  next
    case False
    show ?thesis
      unfolding parses_def
    proof (intro allI impI)
      fix n r
      assume len: "2 * length (json_dumps (PList xs)) \<le> n" and "delim r"
      let ?body = "join '', '' (map json_dumps xs) @ CHR 0x5D # r"
      obtain m where n: "n = Suc m" using len by (cases n) auto
      have ok: "\<And>x. x \<in> set xs \<Longrightarrow> parses canon x \<and> json_ok canon x"
        using 6 by (auto simp: list_all_iff)
      have arr: "parse_arr canon m ?body = Some (xs, r)"
        by (rule parse_arr_dumps) (use False ok len n in auto)
      obtain x ys where xs: "xs = x # ys" using False by (cases xs) auto
      then obtain c cs where c: "json_dumps x = c # cs" "\<not> is_json_ws c" "c \<noteq> CHR 0x5D"
        using ok dumps_start by (metis list.set_intros(1))
      then obtain cs' where "?body = c # cs'" by (cases ys) (simp_all add: xs)
      with arr c show "parse_val canon n (json_dumps (PList xs) @ r) = Some (PList xs, r)"
        by (simp add: n)
    qed
  qed
next
  case (7 d)
  show ?case
  proof (cases "d = []")
    case True
    then show ?thesis by (intro parses_atom) simp_all
  next
    case False
    show ?thesis
      unfolding parses_def
    proof (intro allI impI)
      fix n r
      assume len: "2 * length (json_dumps (PDict d)) \<le> n" and "delim r"
      let ?body = "join '', '' (map dump_member d) @ CHR 0x7D # r"
      obtain m where n: "n = Suc m" using len by (cases n) auto
      have ok: "\<And>k v. (k, v) \<in> set d \<Longrightarrow> parses canon v \<and> json_ok canon v"
        using 7 by (auto simp: list_all_iff)
      have obj: "parse_obj canon m ?body = Some (d, r)"
        by (rule parse_obj_dumps) (use False ok len n in auto)
      obtain k v d' where d: "d = (k, v) # d'" using False by (cases d) auto
      obtain cs where "?body = CHR 0x22 # cs" by (cases d') (simp_all add: d json_str_def)
      with obj 7 show "parse_val canon n (json_dumps (PDict d) @ r) = Some (PDict d, r)"
        by (simp add: n dupdate_Nil_id)
    qed
  qed
qed

text \<open>
  The hub of every exchange through Redis, the command line and the catalogue: what \<open>json.dumps\<close>
  prints, \<open>json.loads\<close> reads back as the same value.
\<close>

lemma json_loads_dumps:
  assumes "json_ok canon v"
  shows "json_loads canon (json_dumps v) = Some v"
proof -
  obtain c cs where c: "json_dumps v = c # cs" "\<not> is_json_ws c"
    using assms by (rule dumps_start)
  have "parse_val canon (2 * length (json_dumps v) + 2) (json_dumps v @ []) = Some (v, [])"
    by (rule parsesD [OF json_ok_parses [OF assms]]) (simp_all add: delim_def)
  with c show ?thesis by (simp add: json_loads_def del: parse_val.simps)
qed

end
