(* ===== verification/Enums.thy ===== *)
theory Enums
  imports Json
begin

text \<open>
  \<^verbatim>\<open>wotemu/enums.py\<close>: the enumerations of the program and their values, the netem arguments of
  the predefined network conditions and the modules of the built-in applications. The module-level
  assertions (every member has an entry) hold because the tables are total functions. The enumerations whose members the code iterates over are instances of
  \<open>enum\<close>, so that the iteration is \<open>Enum.enum\<close>, in declaration order.
\<close>

section \<open>Labels and Redis prefixes\<close>

datatype labels =
    WOTEMU_NETWORK | WOTEMU_GATEWAY | WOTEMU_NODE | WOTEMU_BROKER | WOTEMU_REDIS
  | WOTEMU_SERVICE | WOTEMU_SERVICE_NETWORK

fun label_value :: "labels \<Rightarrow> string" where
  "label_value WOTEMU_NETWORK = ''org.fundacionctic.wotemu.net''"
| "label_value WOTEMU_GATEWAY = ''org.fundacionctic.wotemu.gw''"
| "label_value WOTEMU_NODE = ''org.fundacionctic.wotemu.node''"
| "label_value WOTEMU_BROKER = ''org.fundacionctic.wotemu.broker''"
| "label_value WOTEMU_REDIS = ''org.fundacionctic.wotemu.redis''"
| "label_value WOTEMU_SERVICE = ''org.fundacionctic.wotemu.service''"
| "label_value WOTEMU_SERVICE_NETWORK = ''org.fundacionctic.wotemu.servicenet''"

datatype redis_prefix =
  NAMESPACE | PACKET | THING | SYSTEM | INFO | BENCHMARK | SNAPSHOT | COMPOSE | APP

fun prefix_value :: "redis_prefix \<Rightarrow> string" where
  "prefix_value NAMESPACE = ''wotemu''"
| "prefix_value PACKET = ''packet''"
| "prefix_value THING = ''thing''"
| "prefix_value SYSTEM = ''system''"
| "prefix_value INFO = ''info''"
| "prefix_value BENCHMARK = ''benchmark''"
| "prefix_value SNAPSHOT = ''snapshot''"
| "prefix_value COMPOSE = ''compose''"
| "prefix_value APP = ''app''"

lemma label_value_inject [simp]: "label_value a = label_value b \<longleftrightarrow> a = b"
  by (cases a; cases b) simp_all

lemma prefix_value_inject [simp]: "prefix_value a = prefix_value b \<longleftrightarrow> a = b"
  by (cases a; cases b) simp_all

lemma prefix_value_no_colon [simp]: "CHR '':'' \<notin> set (prefix_value p)"
  by (cases p) simp_all

section \<open>Network conditions\<close>

datatype network_conditions = GPRS | EDGE | REGULAR_3G | FAST_3G | LTE | WIFI | CABLE

instantiation network_conditions :: enum
begin

definition "Enum.enum = [GPRS, EDGE, REGULAR_3G, FAST_3G, LTE, WIFI, CABLE]"
definition "Enum.enum_all P = list_all P [GPRS, EDGE, REGULAR_3G, FAST_3G, LTE, WIFI, CABLE]"
definition "Enum.enum_ex P = list_ex P [GPRS, EDGE, REGULAR_3G, FAST_3G, LTE, WIFI, CABLE]"

instance
proof
  have univ: "(UNIV :: network_conditions set) = {GPRS, EDGE, REGULAR_3G, FAST_3G, LTE, WIFI, CABLE}"
    by (auto intro: network_conditions.exhaust)
  show "(UNIV :: network_conditions set) = set Enum.enum"
    by (simp add: univ enum_network_conditions_def)
  show "distinct (Enum.enum :: network_conditions list)"
    by (simp add: enum_network_conditions_def)
  show "Enum.enum_all P \<longleftrightarrow> Ball UNIV P" for P :: "network_conditions \<Rightarrow> bool"
    by (simp add: univ enum_all_network_conditions_def)
  show "Enum.enum_ex P \<longleftrightarrow> Bex UNIV P" for P :: "network_conditions \<Rightarrow> bool"
    by (simp add: univ enum_ex_network_conditions_def)
qed

end

fun condition_value :: "network_conditions \<Rightarrow> string" where
  "condition_value GPRS = ''GPRS''"
| "condition_value EDGE = ''EDGE''"
| "condition_value REGULAR_3G = ''REGULAR_3G''"
| "condition_value FAST_3G = ''FAST_3G''"
| "condition_value LTE = ''LTE''"
| "condition_value WIFI = ''WIFI''"
| "condition_value CABLE = ''CABLE''"

datatype node_platform = CONSTRAINED | GATEWAY | CLOUD | UNCONSTRAINED

fun platform_value :: "node_platform \<Rightarrow> string" where
  "platform_value CONSTRAINED = ''CONSTRAINED''"
| "platform_value GATEWAY = ''GATEWAY''"
| "platform_value CLOUD = ''CLOUD''"
| "platform_value UNCONSTRAINED = ''UNCONSTRAINED''"

definition netem_obj :: "py \<Rightarrow> py \<Rightarrow> py \<Rightarrow> py" where
  "netem_obj latency jitter rate =
     PDict [(''latency'', latency), (''jitter'', jitter), (''rate'', rate)]"

definition netem :: "py \<Rightarrow> py \<Rightarrow> py \<Rightarrow> string" where
  "netem latency jitter rate = json_dumps (netem_obj latency jitter rate)"

fun netem_conditions :: "network_conditions \<Rightarrow> string list" where
  "netem_conditions GPRS = [netem (PInt 700) (PInt 100) (PStr ''50kbit'')]"
| "netem_conditions EDGE = [netem (PInt 700) (PInt 100) (PStr ''100kbit'')]"
| "netem_conditions REGULAR_3G = [netem (PInt 300) (PInt 150) (PStr ''1500kbit'')]"
| "netem_conditions FAST_3G = [netem (PInt 150) (PInt 50) (PStr ''4000kbit'')]"
| "netem_conditions LTE = [netem (PInt 40) (PInt 10) (PStr ''15mbit'')]"
| "netem_conditions WIFI = [netem (PInt 25) (PInt 5) (PStr ''50mbit'')]"
| "netem_conditions CABLE = [netem (PInt 5) (PInt 5) (PStr ''100mbit'')]"

section \<open>Built-in applications\<close>

datatype builtin_app =
    CLOCK_APP | ERROR_APP | READER_APP | SUBSCRIBER_APP | WORKER_APP | CALLER_APP
  | MONGO_HISTORIAN_APP | CAMERA_APP | DETECTOR_APP

instantiation builtin_app :: enum
begin

definition "Enum.enum =
  [CLOCK_APP, ERROR_APP, READER_APP, SUBSCRIBER_APP, WORKER_APP, CALLER_APP,
   MONGO_HISTORIAN_APP, CAMERA_APP, DETECTOR_APP]"
definition "Enum.enum_all P = list_all P
  [CLOCK_APP, ERROR_APP, READER_APP, SUBSCRIBER_APP, WORKER_APP, CALLER_APP,
   MONGO_HISTORIAN_APP, CAMERA_APP, DETECTOR_APP]"
definition "Enum.enum_ex P = list_ex P
  [CLOCK_APP, ERROR_APP, READER_APP, SUBSCRIBER_APP, WORKER_APP, CALLER_APP,
   MONGO_HISTORIAN_APP, CAMERA_APP, DETECTOR_APP]"

instance
proof
  have univ: "(UNIV :: builtin_app set) =
    {CLOCK_APP, ERROR_APP, READER_APP, SUBSCRIBER_APP, WORKER_APP, CALLER_APP,
     MONGO_HISTORIAN_APP, CAMERA_APP, DETECTOR_APP}"
    by (auto intro: builtin_app.exhaust)
  show "(UNIV :: builtin_app set) = set Enum.enum"
    by (simp add: univ enum_builtin_app_def)
  show "distinct (Enum.enum :: builtin_app list)"
    by (simp add: enum_builtin_app_def)
  show "Enum.enum_all P \<longleftrightarrow> Ball UNIV P" for P :: "builtin_app \<Rightarrow> bool"
    by (simp add: univ enum_all_builtin_app_def)
  show "Enum.enum_ex P \<longleftrightarrow> Bex UNIV P" for P :: "builtin_app \<Rightarrow> bool"
    by (simp add: univ enum_ex_builtin_app_def)
qed

end

fun builtin_value :: "builtin_app \<Rightarrow> string" where
  "builtin_value CLOCK_APP = ''wotemu_clock''"
| "builtin_value ERROR_APP = ''wotemu_error''"
| "builtin_value READER_APP = ''wotemu_reader''"
| "builtin_value SUBSCRIBER_APP = ''wotemu_subscriber''"
| "builtin_value WORKER_APP = ''wotemu_worker''"
| "builtin_value CALLER_APP = ''wotemu_caller''"
| "builtin_value MONGO_HISTORIAN_APP = ''wotemu_mongo_historian''"
| "builtin_value CAMERA_APP = ''wotemu_camera''"
| "builtin_value DETECTOR_APP = ''wotemu_detector''"

fun builtin_module :: "builtin_app \<Rightarrow> string" where
  "builtin_module CLOCK_APP = ''wotemu.apps.clock''"
| "builtin_module ERROR_APP = ''wotemu.apps.error''"
| "builtin_module READER_APP = ''wotemu.apps.reader''"
| "builtin_module SUBSCRIBER_APP = ''wotemu.apps.subscriber''"
| "builtin_module WORKER_APP = ''wotemu.apps.worker''"
| "builtin_module CALLER_APP = ''wotemu.apps.caller''"
| "builtin_module MONGO_HISTORIAN_APP = ''wotemu.apps.historian''"
| "builtin_module CAMERA_APP = ''wotemu.apps.camera''"
| "builtin_module DETECTOR_APP = ''wotemu.apps.detector''"

lemma builtin_value_inject [simp]: "builtin_value a = builtin_value b \<longleftrightarrow> a = b"
  by (cases a; cases b) simp_all

end
