(* ===== verification/Config.thy ===== *)
theory Config
  imports Enums
begin

text \<open>
  \<^verbatim>\<open>wotemu/config.py\<close>: the environment variables of a container, their defaults, and the
  configuration read from them. The process environment \<open>os.environ\<close> is a map from names to
  strings. The fields of the configuration are Python values, as the code leaves them (a list of
  ports, an empty string or \<open>None\<close>).
\<close>

type_synonym environ = "string \<rightharpoonup> string"

definition default_docker_socket :: string where
  "default_docker_socket = ''/var/run/docker.sock''"

definition default_host_redis :: string where
  "default_host_redis = ''redis''"

definition default_host_docker_proxy :: string where
  "default_host_docker_proxy = ''docker_api_proxy''"

definition docker_proxy_url_of :: "string \<Rightarrow> string" where
  "docker_proxy_url_of host = ''tcp://'' @ host @ '':2375/''"

definition redis_url_of :: "string \<Rightarrow> string" where
  "redis_url_of host = ''redis://'' @ host"

datatype config_var =
    PORT_CATALOGUE | PORT_HTTP | PORT_WS | PORT_COAP | PORT_MQTT | MQTT_BROKER_HOST
  | REDIS_URL | DOCKER_PROXY_URL | OTHER_PORTS_TCP | OTHER_PORTS_UDP

fun var_name :: "config_var \<Rightarrow> string" where
  "var_name PORT_CATALOGUE = ''PORT_CATALOGUE''"
| "var_name PORT_HTTP = ''PORT_HTTP''"
| "var_name PORT_WS = ''PORT_WS''"
| "var_name PORT_COAP = ''PORT_COAP''"
| "var_name PORT_MQTT = ''PORT_MQTT''"
| "var_name MQTT_BROKER_HOST = ''MQTT_BROKER_HOST''"
| "var_name REDIS_URL = ''REDIS_URL''"
| "var_name DOCKER_PROXY_URL = ''DOCKER_PROXY_URL''"
| "var_name OTHER_PORTS_TCP = ''OTHER_PORTS_TCP''"
| "var_name OTHER_PORTS_UDP = ''OTHER_PORTS_UDP''"

lemma var_name_inject [simp]: "var_name a = var_name b \<longleftrightarrow> a = b"
  by (cases a; cases b) simp_all

fun default_config_vars :: "config_var \<Rightarrow> py" where
  "default_config_vars PORT_CATALOGUE = PInt 9090"
| "default_config_vars PORT_HTTP = PInt 80"
| "default_config_vars PORT_WS = PInt 81"
| "default_config_vars PORT_COAP = PInt 5683"
| "default_config_vars PORT_MQTT = PInt 1883"
| "default_config_vars MQTT_BROKER_HOST = PNone"
| "default_config_vars REDIS_URL = PStr (redis_url_of default_host_redis)"
| "default_config_vars DOCKER_PROXY_URL = PStr (docker_proxy_url_of default_host_docker_proxy)"
| "default_config_vars OTHER_PORTS_TCP = PNone"
| "default_config_vars OTHER_PORTS_UDP = PNone"

record env_config =
  port_catalogue :: py
  port_http :: py
  port_coap :: py
  port_ws :: py
  port_mqtt :: py
  mqtt_broker_host :: py
  mqtt_url :: py
  redis_url :: py
  docker_proxy_url :: py
  other_ports_tcp :: py
  other_ports_udp :: py

definition getenv :: "environ \<Rightarrow> string \<Rightarrow> py \<Rightarrow> py" where
  "getenv env name dflt = (case env name of Some s \<Rightarrow> PStr s | None \<Rightarrow> dflt)"

text \<open>\<open>int(v)\<close> of the values that reach it here; \<open>None\<close> is the exception, which the code catches.\<close>

fun int_of_py :: "py \<Rightarrow> int option" where
  "int_of_py (PStr s) = py_int s"
| "int_of_py (PInt i) = Some i"
| "int_of_py (PBool b) = Some (if b then 1 else 0)"
| "int_of_py _ = None"

definition getenv_int :: "environ \<Rightarrow> string \<Rightarrow> py \<Rightarrow> py" where
  "getenv_int env name dflt =
     (case int_of_py (getenv env name dflt) of Some i \<Rightarrow> PInt i | None \<Rightarrow> dflt)"

fun all_some :: "'a option list \<Rightarrow> 'a list option" where
  "all_some [] = Some []"
| "all_some (None # xs) = None"
| "all_some (Some x # xs) = map_option ((#) x) (all_some xs)"

fun parse_ports :: "py \<Rightarrow> py" where
  "parse_ports (PStr s) =
     (case all_some (map py_int (split_on (CHR '','') s)) of
        Some is \<Rightarrow> PList (map PInt is) | None \<Rightarrow> PNone)"
| "parse_ports _ = PNone"

definition get_env_config :: "environ \<Rightarrow> env_config" where
  "get_env_config env =
    (let get_int = (\<lambda>v. getenv_int env (var_name v) (default_config_vars v));
         get = (\<lambda>v. getenv env (var_name v) (default_config_vars v));
         tcp = get OTHER_PORTS_TCP;
         udp = get OTHER_PORTS_UDP;
         host = get MQTT_BROKER_HOST;
         port = get_int PORT_MQTT
     in \<lparr>port_catalogue = get_int PORT_CATALOGUE,
         port_http = get_int PORT_HTTP,
         port_coap = get_int PORT_COAP,
         port_ws = get_int PORT_WS,
         port_mqtt = port,
         mqtt_broker_host = host,
         mqtt_url = (if truthy port \<and> truthy host
                     then PStr (''mqtt://'' @ py_str host @ '':'' @ py_str port) else PNone),
         redis_url = get REDIS_URL,
         docker_proxy_url = get DOCKER_PROXY_URL,
         other_ports_tcp = py_and tcp (parse_ports tcp),
         other_ports_udp = py_and udp (parse_ports udp)\<rparr>)"

section \<open>Facts\<close>

lemma getenv_int_unset: "env name = None \<Longrightarrow> getenv_int env name (PInt d) = PInt d"
  by (simp add: getenv_int_def getenv_def)

lemma getenv_int_set: "env name = Some (int_str i) \<Longrightarrow> getenv_int env name d = PInt i"
  by (simp add: getenv_int_def getenv_def)

lemma getenv_int_bad: "env name = Some s \<Longrightarrow> py_int s = None \<Longrightarrow> getenv_int env name d = d"
  by (simp add: getenv_int_def getenv_def)

lemma getenv_int_is_int: "\<exists>i. getenv_int env name (PInt d) = PInt i"
  by (simp add: getenv_int_def split: option.splits)

lemma all_some_map_Some [simp]: "all_some (map (Some \<circ> f) xs) = Some (map f xs)"
  by (induction xs) simp_all

lemma all_some_None: "None \<in> set xs \<Longrightarrow> all_some xs = None"
  by (induction xs rule: all_some.induct) auto

lemma parse_ports_join:
  assumes "is \<noteq> []"
  shows "parse_ports (PStr (join '','' (map int_str is))) = PList (map PInt is)"
proof -
  have "split_on (CHR '','') (join '','' (map int_str is)) = map int_str is"
    by (rule split_on_join) (use assms int_str_no_comma in auto)
  moreover have "all_some (map py_int (map int_str is)) = Some is"
    using all_some_map_Some [of "\<lambda>i. i" "is"] by (simp add: comp_def)
  ultimately show ?thesis by simp
qed

end
