(* ===== verification/Models.thy ===== *)
theory Models
  imports Config
begin

text \<open>
  \<^verbatim>\<open>wotemu/topology/models.py\<close>: the objects a topology is described with. Each class is a record
  with the attributes its \<open>__init__\<close> stores, its constructor (\<open>mk_...\<close>, which may raise) and its
  properties. \<open>underscore\<close> is the parameter for \<open>inflection.underscore\<close>. Sets of objects compare
  by name; \<open>so\<close> is the iteration order of sets (theory \<open>PyValues\<close>). Log messages are left out;
  the warnings of \<open>Node\<close> are a function of its arguments.
\<close>

section \<open>NodeResources\<close>

record node_resources =
  res_cpu_limit :: py
  res_mem_limit :: py
  res_cpu_reservation :: py
  res_mem_reservation :: py
  res_target_cpu_speed :: py

definition mk_resources :: "py \<Rightarrow> py \<Rightarrow> py \<Rightarrow> py \<Rightarrow> py \<Rightarrow> node_resources res" where
  "mk_resources cpu_limit mem_limit cpu_reservation mem_reservation target_cpu_speed =
     (if truthy cpu_limit \<and> truthy target_cpu_speed
      then Inl (ValueError ''Use either CPU limit or target CPU speed'')
      else Inr \<lparr>res_cpu_limit = cpu_limit, res_mem_limit = mem_limit,
                res_cpu_reservation = cpu_reservation, res_mem_reservation = mem_reservation,
                res_target_cpu_speed = target_cpu_speed\<rparr>)"

definition str_or_none :: "py \<Rightarrow> py" where
  "str_or_none v = (if truthy v then PStr (py_str v) else PNone)"

definition cpu_limit :: "node_resources \<Rightarrow> py" where
  "cpu_limit r = str_or_none (res_cpu_limit r)"

definition mem_limit :: "node_resources \<Rightarrow> py" where
  "mem_limit r = str_or_none (res_mem_limit r)"

definition cpu_reservation :: "node_resources \<Rightarrow> py" where
  "cpu_reservation r = str_or_none (res_cpu_reservation r)"

definition mem_reservation :: "node_resources \<Rightarrow> py" where
  "mem_reservation r = str_or_none (res_mem_reservation r)"

section \<open>NodeApp\<close>

datatype app_path = BuiltinPath builtin_app | RawPath string

record node_app =
  app_raw_path :: app_path
  app_params :: "py dict"
  app_http :: py
  app_ws :: py
  app_mqtt :: py
  app_coap :: py

definition mk_app :: "app_path \<Rightarrow> py \<Rightarrow> py \<Rightarrow> py \<Rightarrow> py \<Rightarrow> py dict option \<Rightarrow> node_app" where
  "mk_app path http ws mqtt coap params =
     \<lparr>app_raw_path = path,
      app_params = (case params of None \<Rightarrow> [] | Some d \<Rightarrow> d),
      app_http = http, app_ws = ws, app_mqtt = mqtt, app_coap = coap\<rparr>"

fun path_value :: "app_path \<Rightarrow> string" where
  "path_value (BuiltinPath b) = builtin_value b"
| "path_value (RawPath s) = s"

definition enabled_http :: "node_app \<Rightarrow> bool" where
  "enabled_http a = truthy (app_http a)"

definition enabled_ws :: "node_app \<Rightarrow> bool" where
  "enabled_ws a = truthy (app_ws a)"

definition enabled_mqtt :: "node_app \<Rightarrow> bool" where
  "enabled_mqtt a = truthy (app_mqtt a)"

definition enabled_coap :: "node_app \<Rightarrow> bool" where
  "enabled_coap a = truthy (app_coap a)"

definition protocol_flags :: "node_app \<Rightarrow> (bool \<times> string) list" where
  "protocol_flags a =
     [(enabled_http a, ''--enable-http''), (enabled_ws a, ''--enable-ws''),
      (enabled_mqtt a, ''--enable-mqtt''), (enabled_coap a, ''--enable-coap'')]"

definition app_args :: "node_app \<Rightarrow> string list" where
  "app_args a =
     [''--path'', path_value (app_raw_path a)]
     @ concat (map (\<lambda>(k, v). [''--func-param'', k, py_str v]) (app_params a))
     @ map snd (filter fst (protocol_flags a))"

section \<open>Network\<close>

record network =
  net_name :: string
  net_netem :: "string list option"
  net_args_compose_net :: py
  net_args_compose_gw :: py

text \<open>
  The \<open>conditions\<close> argument: a member of the enumeration, a member of another one, or any other
  value. In Python 3.8 the test \<open>x in NetworkConditions\<close> raises \<open>TypeError\<close> when \<open>x\<close> is no
  enumeration member.
\<close>

datatype conditions_arg = CMember network_conditions | COtherEnum | CValue py

definition check_conditions :: "conditions_arg \<Rightarrow> network_conditions option res" where
  "check_conditions c =
     (case c of
        CMember m \<Rightarrow> Inr (Some m)
      | COtherEnum \<Rightarrow> Inl (ValueError ''Unexpected conditions value'')
      | CValue v \<Rightarrow> if truthy v then Inl TypeError else Inr None)"

definition mk_network ::
  "(string \<Rightarrow> string) \<Rightarrow> string \<Rightarrow> string list option \<Rightarrow> conditions_arg \<Rightarrow> py \<Rightarrow> py \<Rightarrow> network res" where
  "mk_network underscore name nm conditions args_net args_gw =
     bindR (check_conditions conditions) (\<lambda>c.
       Inr \<lparr>net_name = underscore name,
            net_netem = (case c of
                           Some m \<Rightarrow> if truthy_list nm then nm else Some (netem_conditions m)
                         | None \<Rightarrow> nm),
            net_args_compose_net = args_net, net_args_compose_gw = args_gw\<rparr>)"

definition name_gateway :: "network \<Rightarrow> string" where
  "name_gateway n = ''gw_'' @ net_name n"

definition netem_args :: "network \<Rightarrow> string list" where
  "netem_args n = (if truthy_list (net_netem n) then the (net_netem n) else [])"

definition cmd_gateway :: "network \<Rightarrow> string list" where
  "cmd_gateway n = ''gateway'' # netem_args n"

section \<open>Broker and Service\<close>

record broker =
  brk_name :: string
  brk_networks :: "network list"
  brk_args_compose :: py

definition mk_broker :: "(string \<Rightarrow> string) \<Rightarrow> string \<Rightarrow> network list \<Rightarrow> py \<Rightarrow> broker" where
  "mk_broker underscore name networks args_compose =
     \<lparr>brk_name = underscore name, brk_networks = networks, brk_args_compose = args_compose\<rparr>"

definition broker_cmd :: "broker \<Rightarrow> string list" where
  "broker_cmd b = [''broker'']"

text \<open>
  A service keeps its object identity, for \<open>Topology.get_service_nodes\<close> compares with \<open>is\<close>.
\<close>

record service =
  srv_id :: nat
  srv_name :: string
  srv_image :: string
  srv_params :: "py dict"

definition mk_service :: "(string \<Rightarrow> string) \<Rightarrow> nat \<Rightarrow> string \<Rightarrow> string \<Rightarrow> py dict \<Rightarrow> service" where
  "mk_service underscore i name img params =
     \<lparr>srv_id = i, srv_name = underscore name, srv_image = img, srv_params = params\<rparr>"

section \<open>Node\<close>

record node =
  node_name :: string
  node_app :: node_app
  node_networks :: "network list"
  node_broker :: "broker option"
  node_broker_network :: "network option"
  node_image :: "string option"
  node_resources :: "node_resources option"
  node_scale :: py
  node_args_compose :: py
  node_services :: "service list"

definition has_name :: "('a \<Rightarrow> string) \<Rightarrow> string \<Rightarrow> 'a list \<Rightarrow> bool" where
  "has_name key n xs = (n \<in> key ` set xs)"

text \<open>\<open>x in xs\<close> on named objects: some element has the name of \<open>x\<close>.\<close>

definition check_broker :: "node_app \<Rightarrow> broker option \<Rightarrow> unit res" where
  "check_broker a b =
     (if enabled_mqtt a \<and> b = None
      then Inl (ValueError ''A broker should be defined when MQTT is enabled'') else Inr ())"

definition check_broker_network :: "broker option \<Rightarrow> network option \<Rightarrow> unit res" where
  "check_broker_network b bn =
     (case (b, bn) of
        (Some b, Some n) \<Rightarrow>
          if has_name net_name (net_name n) (brk_networks b) then Inr ()
          else Inl (ValueError (''The node's broker ('' @ brk_name b
                 @ '') is not attached to the node's broker network ('' @ net_name n @ '')''))
      | _ \<Rightarrow> Inr ())"

datatype node_warning = BrokerNetworkUndefined | BrokerUnrequired

definition node_warnings :: "node_app \<Rightarrow> broker option \<Rightarrow> network option \<Rightarrow> node_warning list" where
  "node_warnings a b bn =
     (case b of
        None \<Rightarrow> []
      | Some br \<Rightarrow>
          (if bn = None \<and> 1 < length (brk_networks br) then [BrokerNetworkUndefined] else [])
          @ (if enabled_mqtt a then [] else [BrokerUnrequired]))"

definition mk_node ::
  "(string \<Rightarrow> string) \<Rightarrow> string \<Rightarrow> node_app \<Rightarrow> network list \<Rightarrow> broker option \<Rightarrow> network option \<Rightarrow>
   string option \<Rightarrow> node_resources option \<Rightarrow> py \<Rightarrow> py \<Rightarrow> service list \<Rightarrow> node res" where
  "mk_node underscore name a networks b bn img resources scale args_compose services =
     bindR (check_broker a b) (\<lambda>_.
     bindR (check_broker_network b bn) (\<lambda>_.
       Inr \<lparr>node_name = underscore name, node_app = a, node_networks = networks,
            node_broker = b, node_broker_network = bn, node_image = img,
            node_resources = resources, node_scale = scale, node_args_compose = args_compose,
            node_services = py_set srv_name services\<rparr>))"

text \<open>The property \<open>Node.broker_network\<close>: it may raise \<open>AssertionError\<close> or \<open>IndexError\<close>.\<close>

definition broker_network :: "node \<Rightarrow> network option res" where
  "broker_network n =
     (case node_broker n of
        None \<Rightarrow> Inr None
      | Some b \<Rightarrow>
          (case node_broker_network n of
             Some bn \<Rightarrow>
               if has_name net_name (net_name bn) (brk_networks b) then Inr (Some bn)
               else Inl AssertionError
           | None \<Rightarrow>
               (case brk_networks b of [] \<Rightarrow> Inl IndexError | m # _ \<Rightarrow> Inr (Some m))))"

definition broker_host :: "node \<Rightarrow> string option res" where
  "broker_host n =
     (case node_broker n of
        None \<Rightarrow> Inr None
      | Some b \<Rightarrow>
          bindR (broker_network n) (\<lambda>bn.
            case bn of
              None \<Rightarrow> Inl AttributeError
            | Some m \<Rightarrow> Inr (Some (brk_name b @ ''.'' @ net_name m))))"

definition cmd_app :: "node \<Rightarrow> string list" where
  "cmd_app n = ''app'' # app_args (node_app n)"

definition link_service :: "node \<Rightarrow> service \<Rightarrow> node res" where
  "link_service n s =
     (if has_name srv_name (srv_name s) (node_services n) then Inl AssertionError
      else Inr (n\<lparr>node_services := set_add srv_name (node_services n) s\<rparr>))"

definition node_network_name :: "service \<Rightarrow> node \<Rightarrow> string" where
  "node_network_name s n = ''srvnet_'' @ srv_name s @ ''_'' @ node_name n"

definition env_image :: "environ \<Rightarrow> string" where
  "env_image env = (case env ''WOTEMU_IMAGE_OVERRIDE'' of Some s \<Rightarrow> s | None \<Rightarrow> ''agmangas/wotemu'')"

definition image_of :: "environ \<Rightarrow> node \<Rightarrow> string" where
  "image_of env n = (if truthy_str (node_image n) then the (node_image n) else env_image env)"

section \<open>Ports, Redis and Docker proxy of a topology\<close>

record topology_ports =
  tp_catalogue :: py
  tp_http :: py
  tp_ws :: py
  tp_mqtt :: py
  tp_coap :: py

definition default_ports :: topology_ports where
  "default_ports =
     \<lparr>tp_catalogue = default_config_vars PORT_CATALOGUE, tp_http = default_config_vars PORT_HTTP,
      tp_ws = default_config_vars PORT_WS, tp_mqtt = default_config_vars PORT_MQTT,
      tp_coap = default_config_vars PORT_COAP\<rparr>"

definition ports_config :: "topology_ports \<Rightarrow> py dict" where
  "ports_config p =
     [(var_name PORT_CATALOGUE, tp_catalogue p), (var_name PORT_HTTP, tp_http p),
      (var_name PORT_WS, tp_ws p), (var_name PORT_MQTT, tp_mqtt p), (var_name PORT_COAP, tp_coap p)]"

record topology_redis =
  tr_enabled :: bool
  tr_host :: string
  tr_redis_url :: "string option"

definition mk_redis :: "py \<Rightarrow> string \<Rightarrow> string option \<Rightarrow> topology_redis res" where
  "mk_redis enabled host url =
     (if \<not> truthy enabled \<and> \<not> truthy_str url
      then Inl (ValueError ''An explicit Redis URL has to be provided when the built-in Redis service is disabled'')
      else Inr \<lparr>tr_enabled = truthy enabled, tr_host = host, tr_redis_url = url\<rparr>)"

definition internal_url :: "topology_redis \<Rightarrow> py" where
  "internal_url r =
     (if tr_enabled r then PStr (redis_url_of (tr_host r))
      else (case tr_redis_url r of Some u \<Rightarrow> PStr u | None \<Rightarrow> PNone))"

definition redis_config :: "topology_redis \<Rightarrow> py dict" where
  "redis_config r = [(var_name REDIS_URL, internal_url r)]"

record topology_docker_proxy =
  td_enabled :: bool
  td_host :: string

definition mk_docker_proxy :: "py \<Rightarrow> string \<Rightarrow> topology_docker_proxy" where
  "mk_docker_proxy enabled host = \<lparr>td_enabled = truthy enabled, td_host = host\<rparr>"

definition docker_proxy_config :: "topology_docker_proxy \<Rightarrow> py dict" where
  "docker_proxy_config p = [(var_name DOCKER_PROXY_URL, PStr (docker_proxy_url_of (td_host p)))]"

section \<open>Topology\<close>

record topology =
  top_nodes :: "node list"
  top_ports :: topology_ports
  top_redis :: topology_redis
  top_docker_proxy :: topology_docker_proxy
  top_brokers :: "broker list option"

definition node_brokers :: "node list \<Rightarrow> broker list" where
  "node_brokers ns = List.map_filter node_broker ns"

definition brokers_arg :: "topology \<Rightarrow> broker list" where
  "brokers_arg t = (if truthy_list (top_brokers t) then the (top_brokers t) else [])"

text \<open>
  The property \<open>Topology.brokers\<close>. The statement \<open>brokers += [...]\<close> extends in place the list that
  the caller passed to the constructor, so every read of the property writes to it:
  \<open>brokers_prop\<close> is the read with that effect, \<open>topology_brokers\<close> its result.
\<close>

definition topology_brokers :: "set_order \<Rightarrow> topology \<Rightarrow> broker list" where
  "topology_brokers so t = set_list so brk_name (brokers_arg t @ node_brokers (top_nodes t))"

definition brokers_prop :: "set_order \<Rightarrow> topology \<Rightarrow> broker list \<times> topology" where
  "brokers_prop so t =
     (topology_brokers so t,
      (if truthy_list (top_brokers t)
       then t\<lparr>top_brokers := Some (brokers_arg t @ node_brokers (top_nodes t))\<rparr> else t))"

definition topology_networks :: "set_order \<Rightarrow> topology \<Rightarrow> network list" where
  "topology_networks so t =
     (let nets_node = py_set net_name (concat (map node_networks (top_nodes t)));
          nets_brkr = set_list so net_name (concat (map brk_networks (topology_brokers so t)))
      in set_iter so net_name (foldl (set_add net_name) nets_node nets_brkr))"

definition topology_services :: "set_order \<Rightarrow> topology \<Rightarrow> service list" where
  "topology_services so t =
     set_list so srv_name (concat (map (\<lambda>n. set_iter so srv_name (node_services n)) (top_nodes t)))"

definition service_nodes :: "set_order \<Rightarrow> topology \<Rightarrow> service \<Rightarrow> node list" where
  "service_nodes so t s =
     set_list so node_name
       (concat (map (\<lambda>n. map (\<lambda>_. n) (filter (\<lambda>x. srv_id x = srv_id s) (node_services n))) (top_nodes t)))"

definition topology_config :: "topology \<Rightarrow> py dict" where
  "topology_config t =
     dupdate (dupdate (dupdate [] (ports_config (top_ports t))) (redis_config (top_redis t)))
       (docker_proxy_config (top_docker_proxy t))"

definition mk_topology ::
  "set_order \<Rightarrow> node list \<Rightarrow> topology_ports option \<Rightarrow> topology_redis option \<Rightarrow>
   topology_docker_proxy option \<Rightarrow> broker list option \<Rightarrow> topology res" where
  "mk_topology so nodes ports redis proxy brokers =
     (let t = \<lparr>top_nodes = nodes,
               top_ports = (case ports of Some p \<Rightarrow> p | None \<Rightarrow> default_ports),
               top_redis = (case redis of Some r \<Rightarrow> r
                            | None \<Rightarrow> \<lparr>tr_enabled = True, tr_host = default_host_redis, tr_redis_url = None\<rparr>),
               top_docker_proxy = (case proxy of Some p \<Rightarrow> p
                            | None \<Rightarrow> \<lparr>td_enabled = True, td_host = default_host_docker_proxy\<rparr>),
               top_brokers = brokers\<rparr>;
          services = topology_services so t
      in if length (py_set node_name nodes) \<noteq> length nodes then Inl AssertionError
         else if length (py_set (\<lambda>x. x) (map srv_name services @ map node_name nodes))
                \<noteq> length (map srv_name services @ map node_name nodes) then Inl AssertionError
         else Inr t)"

end
