(* ===== verification/Compose.thy ===== *)
theory Compose
  imports Models
begin

text \<open>
  \<^verbatim>\<open>wotemu/topology/compose.py\<close>: the Compose definition of a topology, built service by service.
  A definition is a dictionary of Python values. Parameters: \<open>so\<close> (set iteration), \<open>env\<close>
  (\<open>os.environ\<close>) and \<open>merge\<close>, the effect of \<open>always_merger.merge(base, nxt)\<close> of the deepmerge
  package on its first argument. The deep copies of the base definitions are values here.
\<close>

type_synonym merger = "py dict \<Rightarrow> py \<Rightarrow> py dict"

section \<open>Base definitions\<close>

definition strs :: "string list \<Rightarrow> py" where
  "strs xs = PList (map PStr xs)"

definition vol_docker_sock :: string where
  "vol_docker_sock = default_docker_socket @ '':'' @ default_docker_socket"

definition service_base_docker_proxy :: "py dict" where
  "service_base_docker_proxy =
     [(''image'', PStr ''tecnativa/docker-socket-proxy''),
      (''environment'', PDict
        [(''CONTAINERS'', PStr ''1''), (''NETWORKS'', PStr ''1''), (''TASKS'', PStr ''1''),
         (''SERVICES'', PStr ''1''), (''NODES'', PStr ''1'')]),
      (''deploy'', PDict
        [(''placement'', PDict [(''constraints'', strs [''node.role == manager''])])]),
      (''cap_add'', strs [''ALL'']),
      (''volumes'', strs [vol_docker_sock])]"

definition service_base_redis :: "py dict" where
  "service_base_redis =
     [(''image'', PStr ''redis:5''), (''labels'', PDict [(label_value WOTEMU_REDIS, PStr [])])]"

definition environment_base :: "py dict" where
  "environment_base =
     [(''NODE_HOSTNAME'', PStr ''{{.Node.Hostname}}''), (''NODE_ID'', PStr ''{{.Node.ID}}''),
      (''SERVICE_NAME'', PStr ''{{.Service.Name}}''), (''SERVICE_ID'', PStr ''{{.Service.ID}}'')]"

definition service_base_generic :: "py dict" where
  "service_base_generic =
     [(''hostname'', PStr ''{{.Task.Name}}''),
      (''labels'', PDict [(label_value WOTEMU_SERVICE, PStr [])]),
      (''environment'', PDict environment_base)]"

text \<open>\<open>SERVICE_BASE_GATEWAY\<close>, \<open>SERVICE_BASE_BROKER\<close> and \<open>SERVICE_BASE_NODE\<close> differ in their label.\<close>

definition service_base_wotemu :: "labels \<Rightarrow> py dict" where
  "service_base_wotemu l =
     [(''cap_add'', strs [''ALL'']),
      (''hostname'', PStr ''{{.Task.Name}}''),
      (''volumes'', strs [vol_docker_sock]),
      (''labels'', PDict [(label_value l, PStr [])]),
      (''environment'', PDict environment_base)]"

definition network_base :: "labels \<Rightarrow> py dict" where
  "network_base l =
     [(''driver'', PStr ''overlay''), (''attachable'', PBool True),
      (''labels'', PDict [(label_value l, PStr [])])]"

section \<open>Operations on definitions\<close>

definition str_config :: "py dict \<Rightarrow> py dict" where
  "str_config c = map (\<lambda>(k, v). (k, PStr (py_str v))) (filter (\<lambda>(k, v). v \<noteq> PNone) c)"

text \<open>
  \<open>_merge_topology_config\<close>: the topology's configuration, printed, overrides what the environment
  of the service holds. An environment that is no dictionary has no \<open>update\<close>.
\<close>

definition merge_topology_config :: "py dict \<Rightarrow> topology \<Rightarrow> py dict res" where
  "merge_topology_config service t =
     bindR (as_dict (get_default service ''environment'' (PDict []))) (\<lambda>envr.
       Inr (dset service ''environment'' (PDict (dupdate envr (str_config (topology_config t))))))"

text \<open>\<open>d.update(v)\<close> for a value \<open>v\<close>: a dictionary, or a sequence of pairs with string keys.\<close>

fun update_pairs :: "py dict \<Rightarrow> py list \<Rightarrow> py dict res" where
  "update_pairs d [] = Inr d"
| "update_pairs d (PList [PStr k, v] # xs) = update_pairs (dset d k v) xs"
| "update_pairs d (PStr [a, b] # xs) = update_pairs (dset d [a] (PStr [b])) xs"
| "update_pairs d (PStr s # xs) = Inl (ValueError ''dictionary update sequence'')"
| "update_pairs d (PList ys # xs) =
     (if length ys = 2 then Inl TypeError else Inl (ValueError ''dictionary update sequence''))"
| "update_pairs d (x # xs) = Inl TypeError"

fun py_update :: "py dict \<Rightarrow> py \<Rightarrow> py dict res" where
  "py_update d (PDict e) = Inr (dupdate d e)"
| "py_update d (PList xs) = update_pairs d xs"
| "py_update d (PStr s) = (if s = [] then Inr d else Inl (ValueError ''dictionary update sequence''))"
| "py_update d v = Inl TypeError"

section \<open>Service and network definitions\<close>

definition docker_proxy_definition :: "set_order \<Rightarrow> topology \<Rightarrow> py dict" where
  "docker_proxy_definition so t =
     [(td_host (top_docker_proxy t),
       PDict (dupdate service_base_docker_proxy
         [(''networks'', strs (map net_name (topology_networks so t)))]))]"

definition redis_definition :: "set_order \<Rightarrow> topology \<Rightarrow> py dict" where
  "redis_definition so t =
     [(tr_host (top_redis t),
       PDict (dupdate service_base_redis
         [(''networks'', strs (map net_name (topology_networks so t))),
          (''ports'', strs [''6379''])]))]"

definition update_nested :: "py dict \<Rightarrow> string \<Rightarrow> py \<Rightarrow> py dict res" where
  "update_nested service key v =
     (if truthy v
      then bindR (dict_index service key) (\<lambda>inner.
           bindR (as_dict inner) (\<lambda>d.
           bindR (py_update d v) (\<lambda>d'. Inr (dset service key (PDict d')))))
      else Inr service)"

definition generic_deploy :: "py dict \<Rightarrow> py dict res" where
  "generic_deploy params =
     bindR (let policy = get_default params ''restart_policy'' PNone
            in if truthy policy
               then bindR (py_index policy ''Condition'') (\<lambda>c.
                      Inr [(''restart_policy'', PDict [(''condition'', c)])])
               else Inr []) (\<lambda>d1.
     bindR (let mode = get_default params ''mode'' PNone
            in if truthy mode
               then bindR (py_index mode ''Mode'') (\<lambda>m. Inr [(''mode'', m)])
               else Inr []) (\<lambda>d2.
       Inr (dupdate d1 d2)))"

definition generic_service_definition :: "set_order \<Rightarrow> topology \<Rightarrow> service \<Rightarrow> py dict res" where
  "generic_service_definition so t s =
     bindR (update_nested service_base_generic ''environment'' (get_default (srv_params s) ''env'' PNone)) (\<lambda>s1.
     bindR (update_nested s1 ''labels'' (get_default (srv_params s) ''labels'' PNone)) (\<lambda>s2.
     bindR (generic_deploy (srv_params s)) (\<lambda>deploy.
       let s3 = (if deploy \<noteq> [] then dset s2 ''deploy'' (PDict deploy) else s2);
           s4 = dupdate s3
             [(''image'', PStr (srv_image s)),
              (''networks'', strs (map (node_network_name s) (service_nodes so t s)))]
       in Inr [(srv_name s, PDict s4)])))"

definition base_depends_on :: "topology \<Rightarrow> string list" where
  "base_depends_on t =
     (if td_enabled (top_docker_proxy t) then [td_host (top_docker_proxy t)] else [])
     @ (if tr_enabled (top_redis t) then [tr_host (top_redis t)] else [])"

definition merge_args :: "merger \<Rightarrow> py dict \<Rightarrow> py \<Rightarrow> py dict" where
  "merge_args merge service args = (if truthy args then merge service args else service)"

definition gateway_definition ::
  "set_order \<Rightarrow> environ \<Rightarrow> merger \<Rightarrow> topology \<Rightarrow> network \<Rightarrow> py dict res" where
  "gateway_definition so env merge t n =
     (let s1 = dupdate (service_base_wotemu WOTEMU_GATEWAY)
            [(''image'', PStr (env_image env)),
             (''command'', strs (cmd_gateway n)),
             (''networks'', strs [net_name n]),
             (''depends_on'', strs (base_depends_on t))];
          s2 = merge_args merge s1 (net_args_compose_gw n)
      in bindR (merge_topology_config s2 t) (\<lambda>s3. Inr [(name_gateway n, PDict s3)]))"

definition network_definition :: "network \<Rightarrow> py dict" where
  "network_definition n =
     [(net_name n, PDict (dupdate (network_base WOTEMU_NETWORK) [(''name'', PStr (net_name n))]))]"

definition broker_definition ::
  "set_order \<Rightarrow> environ \<Rightarrow> merger \<Rightarrow> topology \<Rightarrow> broker \<Rightarrow> py dict res" where
  "broker_definition so env merge t b =
     (let s1 = dupdate (service_base_wotemu WOTEMU_BROKER)
            [(''image'', PStr (env_image env)),
             (''command'', strs (broker_cmd b)),
             (''networks'', strs (map net_name (brk_networks b))),
             (''depends_on'', strs (map name_gateway (brk_networks b) @ base_depends_on t))];
          s2 = merge_args merge s1 (brk_args_compose b)
      in bindR (merge_topology_config s2 t) (\<lambda>s3. Inr [(brk_name b, PDict s3)]))"

definition resource_entry :: "string \<Rightarrow> py \<Rightarrow> py dict" where
  "resource_entry k v = (if truthy v then [(k, v)] else [])"

definition resources_definition :: "node_resources \<Rightarrow> py dict option" where
  "resources_definition r =
     (let limits = resource_entry ''cpus'' (cpu_limit r) @ resource_entry ''memory'' (mem_limit r);
          reserv = resource_entry ''cpus'' (cpu_reservation r) @ resource_entry ''memory'' (mem_reservation r);
          ret = (if limits \<noteq> [] then [(''limits'', PDict limits)] else [])
                @ (if reserv \<noteq> [] then [(''reservations'', PDict reserv)] else [])
      in if ret \<noteq> [] then Some ret else None)"

text \<open>
  \<open>get_node_definition\<close>. The networks, dependencies and environment that the broker adds: reading
  \<open>node.broker_network\<close> and \<open>node.broker_host\<close> may raise.
\<close>

definition node_broker_parts :: "node \<Rightarrow> (string list \<times> string list \<times> py dict) res" where
  "node_broker_parts n =
     (case node_broker n of
        None \<Rightarrow> Inr ([], [], [])
      | Some b \<Rightarrow>
          bindR (broker_network n) (\<lambda>bn.
            case bn of
              None \<Rightarrow> Inl AssertionError
            | Some m \<Rightarrow>
                bindR (broker_host n) (\<lambda>host.
                  Inr ([net_name m], [name_gateway m],
                       [(var_name MQTT_BROKER_HOST,
                         (case host of Some h \<Rightarrow> PStr h | None \<Rightarrow> PNone))]))))"

definition node_deploy :: "node \<Rightarrow> py dict" where
  "node_deploy n =
     (case node_resources n of
        None \<Rightarrow> []
      | Some r \<Rightarrow> (case resources_definition r of Some d \<Rightarrow> [(''resources'', PDict d)] | None \<Rightarrow> []))
     @ (if truthy (node_scale n) then [(''replicas'', node_scale n)] else [])"

definition merge_cpu_speed :: "merger \<Rightarrow> py dict \<Rightarrow> node \<Rightarrow> py dict" where
  "merge_cpu_speed merge service n =
     (case node_resources n of
        None \<Rightarrow> service
      | Some r \<Rightarrow>
          if truthy (res_target_cpu_speed r)
          then merge service (PDict [(''environment'',
                 PDict [(''TARGET_CPU_SPEED'', res_target_cpu_speed r)])])
          else service)"

definition node_definition ::
  "set_order \<Rightarrow> environ \<Rightarrow> merger \<Rightarrow> topology \<Rightarrow> node \<Rightarrow> py dict res" where
  "node_definition so env merge t n =
     (let networks = map net_name (node_networks n)
                     @ map (\<lambda>s. node_network_name s n) (set_iter so srv_name (node_services n));
          depends_on = map name_gateway (node_networks n) @ base_depends_on t
      in bindR (node_broker_parts n) (\<lambda>(bnets, bdeps, benv).
           let envr = dupdate environment_base benv;
               s1 = dupdate (service_base_wotemu WOTEMU_NODE)
                 [(''image'', PStr (image_of env n)),
                  (''command'', strs (cmd_app n)),
                  (''networks'', strs (set_list so (\<lambda>s. s) (networks @ bnets))),
                  (''depends_on'', strs (set_list so (\<lambda>s. s) (depends_on @ bdeps))),
                  (''environment'', PDict envr)];
               s2 = merge_cpu_speed merge s1 n;
               deploy = node_deploy n;
               s3 = (if deploy \<noteq> [] then dset s2 ''deploy'' (PDict deploy) else s2);
               s4 = merge_args merge s3 (node_args_compose n)
           in bindR (merge_topology_config s4 t) (\<lambda>s5. Inr [(node_name n, PDict s5)])))"

definition service_networks :: "set_order \<Rightarrow> topology \<Rightarrow> service \<Rightarrow> py dict" where
  "service_networks so t s =
     dupdate [] (map (\<lambda>n. let name = node_network_name s n
                          in (name, PDict (dupdate (network_base WOTEMU_SERVICE_NETWORK) [(''name'', PStr name)])))
                  (service_nodes so t s))"

section \<open>The whole definition\<close>

definition compose_services ::
  "set_order \<Rightarrow> environ \<Rightarrow> merger \<Rightarrow> topology \<Rightarrow> py dict res" where
  "compose_services so env merge t =
     bindR (mapR (gateway_definition so env merge t) (topology_networks so t)) (\<lambda>gws.
     bindR (mapR (generic_service_definition so t) (topology_services so t)) (\<lambda>srvs.
     bindR (mapR (node_definition so env merge t) (top_nodes t)) (\<lambda>nodes.
     bindR (mapR (broker_definition so env merge t) (topology_brokers so t)) (\<lambda>brks.
       Inr (dupdate []
         ((if td_enabled (top_docker_proxy t) then docker_proxy_definition so t else [])
          @ (if tr_enabled (top_redis t) then redis_definition so t else [])
          @ concat gws @ concat srvs @ concat nodes @ concat brks))))))"

definition compose_networks :: "set_order \<Rightarrow> topology \<Rightarrow> py dict" where
  "compose_networks so t =
     dupdate []
       (concat (map network_definition (topology_networks so t))
        @ concat (map (service_networks so t) (topology_services so t)))"

definition topology_definition ::
  "set_order \<Rightarrow> environ \<Rightarrow> merger \<Rightarrow> topology \<Rightarrow> py dict res" where
  "topology_definition so env merge t =
     bindR (compose_services so env merge t) (\<lambda>services.
       Inr [(''version'', PStr ''3.7''), (''services'', PDict services),
            (''networks'', PDict (compose_networks so t))])"

end
