(* ===== verification/TopologyFacts.thy ===== *)
theory TopologyFacts
  imports Compose
begin

text \<open>
  Facts about topologies and their Compose definitions: the names that sets of objects carry, the
  shape of each service definition, and what a definition refers to.
\<close>

named_theorems compose_defs "definitions of the service builders"

lemmas [compose_defs] = gateway_definition_def broker_definition_def node_definition_def
  generic_service_definition_def Let_def

section \<open>Dictionaries built from parts\<close>

lemma dset_entries: "(k, v) \<in> set (dset d k' v') \<Longrightarrow> (k, v) \<in> set d \<or> (k, v) = (k', v')"
  unfolding dset_def by (induction d) (auto split: if_splits)

lemma dupdate_entries: "(k, v) \<in> set (dupdate d kvs) \<Longrightarrow> (k, v) \<in> set d \<or> (k, v) \<in> set kvs"
proof (induction d kvs rule: dupdate.induct)
  case (1 d)
  then show ?case by simp
next
  case (2 d k' v' kvs)
  then have "(k, v) \<in> set (dset d k' v') \<or> (k, v) \<in> set kvs" by simp
  then show ?case using dset_entries [of k v d k' v'] by auto
qed

section \<open>Names in sets of objects\<close>

lemma set_list_member:
  assumes "set_order_ok so" and "x \<in> set xs"
  obtains y where "y \<in> set (set_list so key xs)" "key y = key x" "y \<in> set xs"
proof -
  have "key x \<in> key ` set (set_list so key xs)"
    using assms by (simp add: set_list_keys del: set_list_set)
  then obtain y where "y \<in> set (set_list so key xs)" "key y = key x" by auto
  moreover then have "y \<in> set xs"
    using assms(1) py_set_subset [of key xs] by auto
  ultimately show thesis by (rule that)
qed

lemma set_list_subset: "set_order_ok so \<Longrightarrow> set (set_list so key xs) \<subseteq> set xs"
  by (simp add: py_set_subset)

lemma topology_networks_set:
  assumes "set_order_ok so"
  shows "set (topology_networks so t) =
    set (foldl (set_add net_name) (py_set net_name (concat (map node_networks (top_nodes t))))
      (set_list so net_name (concat (map brk_networks (topology_brokers so t)))))"
  unfolding topology_networks_def Let_def
  by (rule set_iter_set [OF assms]) (rule foldl_set_add_distinct, simp)

lemma topology_networks_names:
  assumes "set_order_ok so"
  shows "net_name ` set (topology_networks so t) =
    net_name ` set (concat (map node_networks (top_nodes t))) \<union>
    net_name ` set (concat (map brk_networks (topology_brokers so t)))"
  unfolding topology_networks_set [OF assms] foldl_set_add_keys
  using assms by (simp del: set_concat)

lemma node_network_in_topology:
  "set_order_ok so \<Longrightarrow> n \<in> set (top_nodes t) \<Longrightarrow> m \<in> set (node_networks n) \<Longrightarrow>
   net_name m \<in> net_name ` set (topology_networks so t)"
  unfolding topology_networks_names by (rule UnI1) auto

lemma broker_network_in_topology:
  "set_order_ok so \<Longrightarrow> b \<in> set (topology_brokers so t) \<Longrightarrow> m \<in> set (brk_networks b) \<Longrightarrow>
   net_name m \<in> net_name ` set (topology_networks so t)"
  unfolding topology_networks_names by (rule UnI2) auto

lemma name_gateway_image: "net_name m \<in> net_name ` ms \<Longrightarrow> name_gateway m \<in> name_gateway ` ms"
  by (auto simp: name_gateway_def)

section \<open>The brokers of a topology\<close>

lemma topology_brokers_touched:
  "topology_brokers so (snd (brokers_prop so t)) = topology_brokers so t"
proof (cases "truthy_list (top_brokers t)")
  case False
  then show ?thesis by (simp add: brokers_prop_def)
next
  case True
  then obtain bs where bs: "top_brokers t = Some bs" "bs \<noteq> []"
    by (auto simp: truthy_list_def split: option.splits)
  have "py_set brk_name ((bs @ node_brokers (top_nodes t)) @ node_brokers (top_nodes t)) =
      py_set brk_name (bs @ node_brokers (top_nodes t))"
    by (rule py_set_append_idle) auto
  then show ?thesis
    using bs by (simp add: brokers_prop_def topology_brokers_def brokers_arg_def truthy_list_def set_list_def)
qed

section \<open>What a service definition refers to\<close>

definition str_list :: "py \<Rightarrow> string list" where
  "str_list v =
     (case v of
        PList xs \<Rightarrow> List.map_filter (\<lambda>x. case x of PStr s \<Rightarrow> Some s | _ \<Rightarrow> None) xs
      | _ \<Rightarrow> [])"

definition service_refs :: "string \<Rightarrow> py \<Rightarrow> string list" where
  "service_refs key v =
     (case v of
        PDict d \<Rightarrow> (case dget d key of Some w \<Rightarrow> str_list w | None \<Rightarrow> [])
      | _ \<Rightarrow> [])"

lemma str_list_strs [simp]: "str_list (strs xs) = xs"
  by (induction xs) (simp_all add: str_list_def strs_def)

text \<open>The documented behaviour of \<open>always_merger\<close> that the closure of references needs.\<close>

definition merge_keeps_other_keys :: "merger \<Rightarrow> bool" where
  "merge_keeps_other_keys merge \<longleftrightarrow>
     (\<forall>d e k. dget e k = None \<longrightarrow> dget (merge d (PDict e)) k = dget d k)"

definition args_keep_refs :: "py \<Rightarrow> bool" where
  "args_keep_refs v =
     (\<not> truthy v \<or>
      (case v of PDict e \<Rightarrow> dget e ''networks'' = None \<and> dget e ''depends_on'' = None | _ \<Rightarrow> False))"

lemma merge_args_refs:
  assumes "merge_keeps_other_keys merge" and "args_keep_refs v" and "k \<in> {''networks'', ''depends_on''}"
  shows "dget (merge_args merge d v) k = dget d k"
  using assms
  by (auto simp: merge_args_def args_keep_refs_def merge_keeps_other_keys_def split: py.splits)

lemma merge_cpu_speed_refs:
  assumes "merge_keeps_other_keys merge" and "k \<noteq> ''environment''"
  shows "dget (merge_cpu_speed merge d n) k = dget d k"
proof -
  have "dget [(''environment'', v)] k = None" for v :: py
    using assms(2) by (simp add: dget_def)
  then show ?thesis
    using assms(1) unfolding merge_keeps_other_keys_def
    by (auto simp: merge_cpu_speed_def split: option.splits)
qed

lemma merge_topology_config_refs:
  "merge_topology_config d t = Inr d' \<Longrightarrow> k \<noteq> ''environment'' \<Longrightarrow> dget d' k = dget d k"
  by (auto simp: merge_topology_config_def bindR_eq_Inr dget_dset)

lemma dict_ok_lits [simp]:
  "dict_ok []" "dict_ok [(k, v)]"
  by (simp_all add: dict_ok_def)

lemma service_refsI: "dget d key = Some (strs xs) \<Longrightarrow> service_refs key (PDict d) = xs"
  by (simp add: service_refs_def)

lemma service_refs_None: "dget d key = None \<Longrightarrow> service_refs key (PDict d) = []"
  by (simp add: service_refs_def)

lemma gateway_refs:
  assumes "gateway_definition so env merge t n = Inr d" and "merge_keeps_other_keys merge"
    and "args_keep_refs (net_args_compose_gw n)"
  obtains v where "d = [(name_gateway n, v)]" "service_refs ''networks'' v = [net_name n]"
    "service_refs ''depends_on'' v = base_depends_on t"
proof -
  let ?s1 = "dupdate (service_base_wotemu WOTEMU_GATEWAY)
            [(''image'', PStr (env_image env)), (''command'', strs (cmd_gateway n)),
             (''networks'', strs [net_name n]), (''depends_on'', strs (base_depends_on t))]"
  obtain s3 where s3: "merge_topology_config (merge_args merge ?s1 (net_args_compose_gw n)) t = Inr s3"
    "d = [(name_gateway n, PDict s3)]"
    using assms(1) by (auto simp: gateway_definition_def Let_def bindR_eq_Inr)
  have keep: "dget s3 k = dget ?s1 k" if "k \<in> {''networks'', ''depends_on''}" for k
    using that merge_topology_config_refs [OF s3(1), of k] merge_args_refs [OF assms(2,3) that] by auto
  have "dget ?s1 ''networks'' = Some (strs [net_name n])"
    "dget ?s1 ''depends_on'' = Some (strs (base_depends_on t))"
    by (simp_all add: dget_dset)
  then have "service_refs ''networks'' (PDict s3) = [net_name n]"
    "service_refs ''depends_on'' (PDict s3) = base_depends_on t"
    using keep by (simp_all add: service_refs_def)
  with s3(2) show thesis using that by blast
qed

lemma broker_refs:
  assumes "broker_definition so env merge t b = Inr d" and "merge_keeps_other_keys merge"
    and "args_keep_refs (brk_args_compose b)"
  obtains v where "d = [(brk_name b, v)]"
    "service_refs ''networks'' v = map net_name (brk_networks b)"
    "service_refs ''depends_on'' v = map name_gateway (brk_networks b) @ base_depends_on t"
proof -
  let ?s1 = "dupdate (service_base_wotemu WOTEMU_BROKER)
            [(''image'', PStr (env_image env)), (''command'', strs (broker_cmd b)),
             (''networks'', strs (map net_name (brk_networks b))),
             (''depends_on'', strs (map name_gateway (brk_networks b) @ base_depends_on t))]"
  obtain s3 where s3: "merge_topology_config (merge_args merge ?s1 (brk_args_compose b)) t = Inr s3"
    "d = [(brk_name b, PDict s3)]"
    using assms(1) by (auto simp: broker_definition_def Let_def bindR_eq_Inr)
  have keep: "dget s3 k = dget ?s1 k" if "k \<in> {''networks'', ''depends_on''}" for k
    using that merge_topology_config_refs [OF s3(1), of k] merge_args_refs [OF assms(2,3) that] by auto
  have "dget ?s1 ''networks'' = Some (strs (map net_name (brk_networks b)))"
    "dget ?s1 ''depends_on'' = Some (strs (map name_gateway (brk_networks b) @ base_depends_on t))"
    by (simp_all add: dget_dset)
  then have "service_refs ''networks'' (PDict s3) = map net_name (brk_networks b)"
    "service_refs ''depends_on'' (PDict s3) = map name_gateway (brk_networks b) @ base_depends_on t"
    using keep by (simp_all add: service_refs_def)
  with s3(2) show thesis using that by blast
qed

lemma node_refs:
  assumes "node_definition so env merge t n = Inr d" and "set_order_ok so"
    and "merge_keeps_other_keys merge" and "args_keep_refs (node_args_compose n)"
  obtains v bnets bdeps benv where "d = [(node_name n, v)]"
    "node_broker_parts n = Inr (bnets, bdeps, benv)"
    "set (service_refs ''networks'' v) = net_name ` set (node_networks n)
       \<union> (\<lambda>s. node_network_name s n) ` set (set_iter so srv_name (node_services n)) \<union> set bnets"
    "set (service_refs ''depends_on'' v) =
       name_gateway ` set (node_networks n) \<union> set (base_depends_on t) \<union> set bdeps"
proof -
  obtain bnets bdeps benv where parts: "node_broker_parts n = Inr (bnets, bdeps, benv)"
    using assms(1) by (auto simp: node_definition_def Let_def bindR_eq_Inr)
  define nets where "nets = (map net_name (node_networks n)
      @ map (\<lambda>s. node_network_name s n) (set_iter so srv_name (node_services n))) @ bnets"
  define deps where "deps = (map name_gateway (node_networks n) @ base_depends_on t) @ bdeps"
  define s1 where "s1 = dupdate (service_base_wotemu WOTEMU_NODE)
       [(''image'', PStr (image_of env n)), (''command'', strs (cmd_app n)),
        (''networks'', strs (set_list so (\<lambda>s. s) nets)),
        (''depends_on'', strs (set_list so (\<lambda>s. s) deps)),
        (''environment'', PDict (dupdate environment_base benv))]"
  define s2 where "s2 = merge_cpu_speed merge s1 n"
  define s3 where "s3 = (if node_deploy n \<noteq> [] then dset s2 ''deploy'' (PDict (node_deploy n)) else s2)"
  obtain s5 where s5: "merge_topology_config (merge_args merge s3 (node_args_compose n)) t = Inr s5"
    "d = [(node_name n, PDict s5)]"
    using assms(1) parts unfolding s3_def s2_def s1_def nets_def deps_def
    by (auto simp: node_definition_def Let_def bindR_eq_Inr simp del: dupdate.simps append_assoc)
  have keep: "dget s5 k = dget s1 k" if "k \<in> {''networks'', ''depends_on''}" for k
    using that merge_topology_config_refs [OF s5(1), of k] merge_args_refs [OF assms(3,4) that]
      merge_cpu_speed_refs [OF assms(3), of k s1 n]
    by (auto simp: s3_def s2_def dget_dset)
  have "dget s1 ''networks'' = Some (strs (set_list so (\<lambda>s. s) nets))"
    "dget s1 ''depends_on'' = Some (strs (set_list so (\<lambda>s. s) deps))"
    by (simp_all add: s1_def dget_dset)
  then have "set (service_refs ''networks'' (PDict s5)) = set nets"
    "set (service_refs ''depends_on'' (PDict s5)) = set deps"
    using keep assms(2) by (simp_all add: service_refs_def del: set_list_set)
  then show thesis
    using that [OF s5(2) parts] by (simp add: nets_def deps_def Un_assoc)
qed

lemma generic_refs:
  assumes "generic_service_definition so t s = Inr d"
  obtains v where "d = [(srv_name s, v)]"
    "service_refs ''networks'' v = map (node_network_name s) (service_nodes so t s)"
    "service_refs ''depends_on'' v = []"
proof -
  have upd: "dget s2 ''depends_on'' = dget s1 ''depends_on''"
    if "update_nested s1 k w = Inr s2" "k \<noteq> ''depends_on''" for s1 s2 k w
    using that by (auto simp: update_nested_def bindR_eq_Inr dget_dset split: if_splits)
  obtain s1 s2 deploy where s:
    "update_nested service_base_generic ''environment'' (get_default (srv_params s) ''env'' PNone) = Inr s1"
    "update_nested s1 ''labels'' (get_default (srv_params s) ''labels'' PNone) = Inr s2"
    and d: "d = [(srv_name s, PDict (dupdate (if deploy \<noteq> [] then dset s2 ''deploy'' (PDict deploy) else s2)
      [(''image'', PStr (srv_image s)),
       (''networks'', strs (map (node_network_name s) (service_nodes so t s)))]))]"
    using assms by (auto simp: generic_service_definition_def Let_def bindR_eq_Inr)
  have "dget s2 ''depends_on'' = None"
    using upd [OF s(1)] upd [OF s(2)] by (simp add: service_base_generic_def dget_def)
  then show thesis
    using that [of "snd (hd d)"] d by (auto simp: service_refs_def dget_dset)
qed

end
