(* ===== verification/TopologyProps.thy ===== *)
theory TopologyProps
  imports TopologyFacts
begin

text \<open>
  What a topology promises about its Compose file: every network and every service that a service
  definition refers to is declared in the same file.
\<close>

definition compose_closed :: "py dict \<Rightarrow> bool" where
  "compose_closed d =
     (case (dget d ''services'', dget d ''networks'') of
        (Some (PDict ss), Some (PDict ns)) \<Rightarrow>
          list_all (\<lambda>(k, v). set (service_refs ''networks'' v) \<subseteq> set (dkeys ns)
                      \<and> set (service_refs ''depends_on'' v) \<subseteq> set (dkeys ss)) ss
      | _ \<Rightarrow> False)"

text \<open>
  Two conditions on the objects of a topology, which the code does not check: services of one name
  are one object, and brokers of one name are attached to the same networks.
\<close>

definition services_shared :: "topology \<Rightarrow> bool" where
  "services_shared t =
     (let ss = concat (map node_services (top_nodes t))
      in list_all (\<lambda>s. list_all (\<lambda>s'. srv_name s = srv_name s' \<longrightarrow> srv_id s = srv_id s') ss) ss)"

definition brokers_agree :: "topology \<Rightarrow> bool" where
  "brokers_agree t =
     (let bs = brokers_arg t @ node_brokers (top_nodes t)
      in list_all (\<lambda>b. list_all (\<lambda>b'. brk_name b = brk_name b' \<longrightarrow>
           net_name ` set (brk_networks b) = net_name ` set (brk_networks b')) bs) bs)"

definition overrides_keep_refs :: "set_order \<Rightarrow> topology \<Rightarrow> bool" where
  "overrides_keep_refs so t =
     (list_all (\<lambda>n. args_keep_refs (node_args_compose n)) (top_nodes t)
      \<and> list_all (\<lambda>b. args_keep_refs (brk_args_compose b)) (topology_brokers so t)
      \<and> list_all (\<lambda>m. args_keep_refs (net_args_compose_gw m)) (topology_networks so t))"

lemma find_member: "find P xs = Some x \<Longrightarrow> x \<in> set xs"
  by (auto simp: find_Some_iff)

lemma set_iter_subset: "set (set_iter so key xs) \<subseteq> set xs"
proof
  fix x assume "x \<in> set (set_iter so key xs)"
  then obtain n where "find (\<lambda>x. key x = n) xs = Some x"
    by (auto simp: set_iter_def List.map_filter_def)
  then show "x \<in> set xs" by (rule find_member)
qed

lemma services_sharedD:
  assumes "services_shared t" and "n \<in> set (top_nodes t)" and "s \<in> set (node_services n)"
    and "n' \<in> set (top_nodes t)" and "s' \<in> set (node_services n')" and "srv_name s = srv_name s'"
  shows "srv_id s = srv_id s'"
  using assms unfolding services_shared_def Let_def list_all_iff set_concat set_map by blast

lemma brokers_agreeD:
  assumes "brokers_agree t" and "b \<in> set (brokers_arg t @ node_brokers (top_nodes t))"
    and "b' \<in> set (brokers_arg t @ node_brokers (top_nodes t))" and "brk_name b = brk_name b'"
  shows "net_name ` set (brk_networks b) = net_name ` set (brk_networks b')"
  using assms unfolding brokers_agree_def Let_def list_all_iff by blast

section \<open>The names that a Compose file declares\<close>

definition declared_networks :: "set_order \<Rightarrow> topology \<Rightarrow> string set" where
  "declared_networks so t = net_name ` set (topology_networks so t)
     \<union> (\<Union>s\<in>set (topology_services so t). node_network_name s ` set (service_nodes so t s))"

lemma keys_concat: "fst ` set (concat (map f xs)) = (\<Union>x\<in>set xs. set (dkeys (f x)))"
  by auto

lemma service_networks_keys:
  "set (dkeys (service_networks so t s)) = node_network_name s ` set (service_nodes so t s)"
  unfolding service_networks_def keys_dupdate Let_def by (simp add: image_image)

lemma compose_networks_keys: "set (dkeys (compose_networks so t)) = declared_networks so t"
  unfolding compose_networks_def keys_dupdate set_append image_Un keys_concat service_networks_keys
  by (simp add: network_definition_def declared_networks_def UNION_singleton_eq_range)

lemma declared_srvnet:
  assumes so: "set_order_ok so" and shared: "services_shared t"
    and n: "n \<in> set (top_nodes t)" and s: "s \<in> set (set_iter so srv_name (node_services n))"
  shows "node_network_name s n \<in> declared_networks so t"
proof -
  let ?iter = "concat (map (\<lambda>n. set_iter so srv_name (node_services n)) (top_nodes t))"
  have sn: "s \<in> set (node_services n)" by (rule subsetD [OF set_iter_subset s])
  obtain y where y: "y \<in> set (topology_services so t)" "srv_name y = srv_name s"
      "y \<in> set ?iter"
    unfolding topology_services_def
    by (rule set_list_member [OF so, where x = s and key = srv_name and xs = ?iter]) (use n s in auto)
  then obtain n0 where "n0 \<in> set (top_nodes t)" "y \<in> set (node_services n0)"
    using subsetD [OF set_iter_subset] by fastforce
  then have id: "srv_id y = srv_id s"
    by (rule services_sharedD [OF shared _ _ n sn y(2)])
  let ?ns = "concat (map (\<lambda>n. map (\<lambda>_. n) (filter (\<lambda>x. srv_id x = srv_id y) (node_services n))) (top_nodes t))"
  have "n \<in> set ?ns" using n sn id by auto
  then obtain n' where "n' \<in> set (service_nodes so t y)" "node_name n' = node_name n"
    unfolding service_nodes_def by (rule set_list_member [OF so, where key = node_name])
  moreover then have "node_network_name s n = node_network_name y n'"
    using y(2) by (simp add: node_network_name_def)
  ultimately have "node_network_name s n \<in> node_network_name y ` set (service_nodes so t y)" by blast
  with y(1) show ?thesis by (auto simp: declared_networks_def)
qed

lemma node_broker_declared:
  assumes so: "set_order_ok so" and agree: "brokers_agree t"
    and n: "n \<in> set (top_nodes t)" and parts: "node_broker_parts n = Inr (bnets, bdeps, benv)"
  shows "set bnets \<subseteq> net_name ` set (topology_networks so t)"
    and "set bdeps \<subseteq> name_gateway ` set (topology_networks so t)"
proof -
  have "set bnets \<subseteq> net_name ` set (topology_networks so t)
      \<and> set bdeps \<subseteq> name_gateway ` set (topology_networks so t)"
  proof (cases "node_broker n")
    case None
    then show ?thesis using parts by (simp add: node_broker_parts_def)
  next
    case (Some b)
    then obtain m where m: "broker_network n = Inr (Some m)" "bnets = [net_name m]" "bdeps = [name_gateway m]"
      using parts by (auto simp: node_broker_parts_def bindR_eq_Inr split: option.splits)
    have "net_name m \<in> net_name ` set (brk_networks b)"
      using m(1) Some by (auto simp: broker_network_def has_name_def split: option.splits list.splits if_splits)
    moreover have b: "b \<in> set (brokers_arg t @ node_brokers (top_nodes t))"
      using n Some by (force simp: node_brokers_def List.map_filter_def)
    then obtain b' where b': "b' \<in> set (topology_brokers so t)" "brk_name b' = brk_name b"
        "b' \<in> set (brokers_arg t @ node_brokers (top_nodes t))"
      unfolding topology_brokers_def by (rule set_list_member [OF so, where key = brk_name])
    have "net_name ` set (brk_networks b) = net_name ` set (brk_networks b')"
      by (rule brokers_agreeD [OF agree b b'(3)]) (simp add: b'(2))
    ultimately obtain m' where "m' \<in> set (brk_networks b')" "net_name m' = net_name m" by auto
    then have "net_name m \<in> net_name ` set (topology_networks so t)"
      using broker_network_in_topology [OF so b'(1)] by metis
    then show ?thesis using m name_gateway_image by auto
  qed
  then show "set bnets \<subseteq> net_name ` set (topology_networks so t)"
    and "set bdeps \<subseteq> name_gateway ` set (topology_networks so t)" by auto
qed

section \<open>Every entry of the services refers to declared names\<close>

definition entry_closed :: "string set \<Rightarrow> string set \<Rightarrow> string \<times> py \<Rightarrow> bool" where
  "entry_closed nets deps e \<longleftrightarrow> set (service_refs ''networks'' (snd e)) \<subseteq> nets
     \<and> set (service_refs ''depends_on'' (snd e)) \<subseteq> deps"

definition base_services :: "topology \<Rightarrow> string set" where
  "base_services t = set (base_depends_on t)"

lemma fixed_entries_closed:
  "\<forall>e\<in>set (docker_proxy_definition so t @ redis_definition so t). entry_closed (declared_networks so t) deps e"
  by (auto simp: entry_closed_def docker_proxy_definition_def redis_definition_def service_refs_def
      dget_dset service_base_docker_proxy_def service_base_redis_def declared_networks_def dget_Cons)

lemma gateway_entries_closed:
  assumes "gateway_definition so env merge t m = Inr d" and "merge_keeps_other_keys merge"
    and "args_keep_refs (net_args_compose_gw m)" and "m \<in> set (topology_networks so t)"
    and "base_services t \<subseteq> deps"
  shows "\<forall>e\<in>set d. entry_closed (declared_networks so t) deps e" "dkeys d = [name_gateway m]"
  by (rule gateway_refs [OF assms(1-3)],
      use assms(4,5) in \<open>auto simp: entry_closed_def declared_networks_def base_services_def\<close>)+

lemma broker_entries_closed:
  assumes "broker_definition so env merge t b = Inr d" and "merge_keeps_other_keys merge"
    and "args_keep_refs (brk_args_compose b)" and "b \<in> set (topology_brokers so t)"
    and "set_order_ok so" and "base_services t \<subseteq> deps" and "name_gateway ` set (topology_networks so t) \<subseteq> deps"
  shows "\<forall>e\<in>set d. entry_closed (declared_networks so t) deps e"
proof -
  have nets: "net_name m \<in> net_name ` set (topology_networks so t)" if "m \<in> set (brk_networks b)" for m
    using broker_network_in_topology assms(4,5) that by blast
  then have gws: "name_gateway m \<in> deps" if "m \<in> set (brk_networks b)" for m
    using name_gateway_image that assms(7) by blast
  show ?thesis
    by (rule broker_refs [OF assms(1-3)])
      (use nets gws assms(6) in \<open>auto simp: entry_closed_def declared_networks_def base_services_def\<close>)
qed

lemma generic_entries_closed:
  assumes "generic_service_definition so t s = Inr d" and "s \<in> set (topology_services so t)"
  shows "\<forall>e\<in>set d. entry_closed (declared_networks so t) deps e"
  by (rule generic_refs [OF assms(1)])
    (use assms(2) in \<open>auto simp: entry_closed_def declared_networks_def\<close>)

lemma node_entries_closed:
  assumes "node_definition so env merge t n = Inr d" and so: "set_order_ok so"
    and "merge_keeps_other_keys merge" and "args_keep_refs (node_args_compose n)"
    and n: "n \<in> set (top_nodes t)" and shared: "services_shared t" and agree: "brokers_agree t"
    and deps: "base_services t \<subseteq> deps" "name_gateway ` set (topology_networks so t) \<subseteq> deps"
  shows "\<forall>e\<in>set d. entry_closed (declared_networks so t) deps e"
proof (rule node_refs [OF assms(1-4)])
  fix v bnets bdeps benv
  assume d: "d = [(node_name n, v)]" and parts: "node_broker_parts n = Inr (bnets, bdeps, benv)"
    and nets: "set (service_refs ''networks'' v) = net_name ` set (node_networks n)
       \<union> (\<lambda>s. node_network_name s n) ` set (set_iter so srv_name (node_services n)) \<union> set bnets"
    and dep: "set (service_refs ''depends_on'' v) =
       name_gateway ` set (node_networks n) \<union> set (base_depends_on t) \<union> set bdeps"
  note brk = node_broker_declared [OF so agree n parts]
  have own: "net_name m \<in> net_name ` set (topology_networks so t)" if "m \<in> set (node_networks n)" for m
    using node_network_in_topology so n that by blast
  then have gw: "name_gateway m \<in> deps" if "m \<in> set (node_networks n)" for m
    using that name_gateway_image deps(2) by blast
  have "net_name ` set (topology_networks so t) \<subseteq> declared_networks so t"
    by (simp add: declared_networks_def)
  then have "set (service_refs ''networks'' v) \<subseteq> declared_networks so t"
    unfolding nets using own brk(1) declared_srvnet [OF so shared n] by blast
  moreover have "set (service_refs ''depends_on'' v) \<subseteq> deps"
    unfolding dep using gw brk(2) deps by (auto simp: base_services_def)
  ultimately show ?thesis using d by (simp add: entry_closed_def)
qed

section \<open>The whole file\<close>

lemma map_of_ok_entries: "dupdate [] kvs = d \<Longrightarrow> e \<in> set d \<Longrightarrow> e \<in> set kvs"
  using dupdate_entries [of "fst e" "snd e" "[]" kvs] by auto

lemma mapR_concat_entries:
  assumes "mapR f xs = Inr yss" and "e \<in> set (concat yss)"
  obtains x ys where "x \<in> set xs" "f x = Inr ys" "e \<in> set ys"
proof -
  obtain ys where "ys \<in> set yss" "e \<in> set ys" using assms(2) by auto
  then show thesis using mapR_origin [OF assms(1)] that by blast
qed

lemma compose_services_closed:
  assumes "compose_services so env merge t = Inr ss" and so: "set_order_ok so"
    and merge: "merge_keeps_other_keys merge" and over: "overrides_keep_refs so t"
    and shared: "services_shared t" and agree: "brokers_agree t"
  shows "\<forall>e\<in>set ss. entry_closed (declared_networks so t) (set (dkeys ss)) e"
proof -
  let ?fixed = "(if td_enabled (top_docker_proxy t) then docker_proxy_definition so t else [])
     @ (if tr_enabled (top_redis t) then redis_definition so t else [])"
  obtain gws srvs nodes brks where
    gws: "mapR (gateway_definition so env merge t) (topology_networks so t) = Inr gws"
    and srvs: "mapR (generic_service_definition so t) (topology_services so t) = Inr srvs"
    and nodes: "mapR (node_definition so env merge t) (top_nodes t) = Inr nodes"
    and brks: "mapR (broker_definition so env merge t) (topology_brokers so t) = Inr brks"
    and ss: "dupdate [] (?fixed @ concat gws @ concat srvs @ concat nodes @ concat brks) = ss"
    using assms(1) by (auto simp: compose_services_def bindR_eq_Inr)
  have over_n: "args_keep_refs (node_args_compose n)" if "n \<in> set (top_nodes t)" for n
    using over that by (simp add: overrides_keep_refs_def list_all_iff)
  have over_b: "args_keep_refs (brk_args_compose b)" if "b \<in> set (topology_brokers so t)" for b
    using over that by (simp add: overrides_keep_refs_def list_all_iff)
  have over_g: "args_keep_refs (net_args_compose_gw m)" if "m \<in> set (topology_networks so t)" for m
    using over that by (simp add: overrides_keep_refs_def list_all_iff)
  have keys: "set (dkeys ss) = fst ` set (?fixed @ concat gws @ concat srvs @ concat nodes @ concat brks)"
    unfolding ss [symmetric] keys_dupdate by simp
  have base: "base_services t \<subseteq> set (dkeys ss)"
    unfolding keys by (auto simp: base_services_def base_depends_on_def docker_proxy_definition_def redis_definition_def)
  have gwkey: "name_gateway m \<in> set (dkeys ss)" if m: "m \<in> set (topology_networks so t)" for m
  proof -
    obtain g where g: "g \<in> set gws" "gateway_definition so env merge t m = Inr g"
      using mapR_member [OF gws m] by blast
    have "name_gateway m \<in> fst ` set g"
      using gateway_entries_closed(2) [OF g(2) merge over_g [OF m] m base] by (metis list.set_intros(1) set_map)
    with g(1) show ?thesis unfolding keys by force
  qed
  then have gwkeys: "name_gateway ` set (topology_networks so t) \<subseteq> set (dkeys ss)" by blast
  show ?thesis
  proof
    fix e assume "e \<in> set ss"
    then have "e \<in> set (?fixed @ concat gws @ concat srvs @ concat nodes @ concat brks)"
      by (rule map_of_ok_entries [OF ss])
    then consider "e \<in> set (docker_proxy_definition so t @ redis_definition so t)" | "e \<in> set (concat gws)"
      | "e \<in> set (concat srvs)" | "e \<in> set (concat nodes)" | "e \<in> set (concat brks)"
      by (auto split: if_splits)
    then show "entry_closed (declared_networks so t) (set (dkeys ss)) e"
    proof cases
      case 1
      then show ?thesis using fixed_entries_closed by blast
    next
      case 2
      with gws obtain m g where "m \<in> set (topology_networks so t)" "gateway_definition so env merge t m = Inr g" "e \<in> set g"
        by (rule mapR_concat_entries)
      then show ?thesis using gateway_entries_closed(1) [OF _ merge over_g _ base] by blast
    next
      case 3
      with srvs obtain s g where "s \<in> set (topology_services so t)" "generic_service_definition so t s = Inr g" "e \<in> set g"
        by (rule mapR_concat_entries)
      then show ?thesis using generic_entries_closed by blast
    next
      case 4
      with nodes obtain n g where "n \<in> set (top_nodes t)" "node_definition so env merge t n = Inr g" "e \<in> set g"
        by (rule mapR_concat_entries)
      then show ?thesis using node_entries_closed [OF _ so merge over_n _ shared agree base gwkeys] by blast
    next
      case 5
      with brks obtain b g where "b \<in> set (topology_brokers so t)" "broker_definition so env merge t b = Inr g" "e \<in> set g"
        by (rule mapR_concat_entries)
      then show ?thesis using broker_entries_closed [OF _ merge over_b _ so base gwkeys] by blast
    qed
  qed
qed

section \<open>When the definition is produced\<close>

text \<open>
  The code builds the file without an exception when the brokers of the nodes are usable, the
  parameters of the services have the shape that it reads, and overrides leave the environment a
  dictionary.
\<close>

definition merge_keeps_dicts :: "merger \<Rightarrow> bool" where
  "merge_keeps_dicts merge \<longleftrightarrow>
     (\<forall>d e k x. dget d k = Some (PDict x) \<longrightarrow> (\<forall>v. (k, v) \<in> set e \<longrightarrow> (\<exists>y. v = PDict y)) \<longrightarrow>
        (\<exists>z. dget (merge d (PDict e)) k = Some (PDict z)))"

definition is_dict :: "py \<Rightarrow> bool" where
  "is_dict v = (case v of PDict _ \<Rightarrow> True | _ \<Rightarrow> False)"

definition args_env_ok :: "py \<Rightarrow> bool" where
  "args_env_ok v =
     (\<not> truthy v \<or>
      (case v of PDict e \<Rightarrow> list_all (\<lambda>(k, w). k = ''environment'' \<longrightarrow> is_dict w) e | _ \<Rightarrow> False))"

definition params_ok :: "py dict \<Rightarrow> bool" where
  "params_ok p =
     (let get = (\<lambda>k. get_default p k PNone);
          has = (\<lambda>v k. case v of PDict d \<Rightarrow> dget d k \<noteq> None | _ \<Rightarrow> False)
      in (\<not> truthy (get ''env'') \<or> is_dict (get ''env''))
         \<and> (\<not> truthy (get ''labels'') \<or> is_dict (get ''labels''))
         \<and> (\<not> truthy (get ''restart_policy'') \<or> has (get ''restart_policy'') ''Condition'')
         \<and> (\<not> truthy (get ''mode'') \<or> has (get ''mode'') ''Mode''))"

definition broker_usable :: "node \<Rightarrow> bool" where
  "broker_usable n =
     (case node_broker n of
        None \<Rightarrow> True
      | Some b \<Rightarrow>
          (case node_broker_network n of
             None \<Rightarrow> brk_networks b \<noteq> []
           | Some m \<Rightarrow> has_name net_name (net_name m) (brk_networks b)))"

definition buildable :: "set_order \<Rightarrow> topology \<Rightarrow> bool" where
  "buildable so t =
     (list_all (\<lambda>n. args_env_ok (node_args_compose n)) (top_nodes t)
      \<and> list_all (\<lambda>s. params_ok (srv_params s)) (topology_services so t)
      \<and> list_all (\<lambda>b. args_env_ok (brk_args_compose b)) (topology_brokers so t)
      \<and> list_all (\<lambda>m. args_env_ok (net_args_compose_gw m)) (topology_networks so t))"

definition env_dict :: "py dict \<Rightarrow> bool" where
  "env_dict d \<longleftrightarrow> (\<exists>z. dget d ''environment'' = Some (PDict z))"

lemma args_env_okE:
  assumes "args_env_ok v" and "truthy v"
  obtains e where "v = PDict e" "\<forall>w. (''environment'', w) \<in> set e \<longrightarrow> is_dict w"
proof (cases v)
  case (PDict e)
  show thesis
    by (rule that [OF PDict]) (use assms(1) PDict in \<open>fastforce simp: args_env_ok_def list_all_iff\<close>)
qed (use assms in \<open>simp_all add: args_env_ok_def\<close>)

lemma is_dictD: "is_dict v \<Longrightarrow> \<exists>y. v = PDict y"
  by (cases v) (simp_all add: is_dict_def)

lemma merge_args_env:
  assumes "merge_keeps_dicts merge" and "args_env_ok v" and "env_dict d"
  shows "env_dict (merge_args merge d v)"
proof (cases "truthy v")
  case False
  then show ?thesis using assms(3) by (simp add: merge_args_def)
next
  case True
  with assms(2) obtain e where v: "v = PDict e" and ok: "\<forall>w. (''environment'', w) \<in> set e \<longrightarrow> is_dict w"
    by (rule args_env_okE)
  have "\<forall>w. (''environment'', w) \<in> set e \<longrightarrow> (\<exists>y. w = PDict y)"
    using ok is_dictD by blast
  then show ?thesis
    using assms(1,3) True unfolding v by (simp add: merge_args_def env_dict_def merge_keeps_dicts_def)
qed

lemma merge_cpu_speed_env:
  assumes "merge_keeps_dicts merge" and "env_dict d"
  shows "env_dict (merge_cpu_speed merge d n)"
proof -
  have "env_dict (merge d (PDict [(''environment'', PDict x)]))" for x
    using assms unfolding env_dict_def merge_keeps_dicts_def by simp
  then show ?thesis
    using assms(2) by (auto simp: merge_cpu_speed_def split: option.split)
qed

lemma merge_topology_config_total: "env_dict d \<Longrightarrow> \<exists>d'. merge_topology_config d t = Inr d'"
  by (auto simp: merge_topology_config_def env_dict_def get_default_def)

lemma gateway_total:
  assumes "merge_keeps_dicts merge" and "args_env_ok (net_args_compose_gw m)"
  shows "\<exists>d. gateway_definition so env merge t m = Inr d"
proof -
  let ?s1 = "dupdate (service_base_wotemu WOTEMU_GATEWAY)
            [(''image'', PStr (env_image env)), (''command'', strs (cmd_gateway m)),
             (''networks'', strs [net_name m]), (''depends_on'', strs (base_depends_on t))]"
  have "env_dict ?s1"
    by (simp add: env_dict_def dget_dset) (simp add: service_base_wotemu_def dget_Cons)
  then show ?thesis
    using merge_topology_config_total [OF merge_args_env [OF assms], of ?s1 t]
    by (auto simp: gateway_definition_def Let_def simp del: dupdate.simps)
qed

lemma broker_total:
  assumes "merge_keeps_dicts merge" and "args_env_ok (brk_args_compose b)"
  shows "\<exists>d. broker_definition so env merge t b = Inr d"
proof -
  let ?s1 = "dupdate (service_base_wotemu WOTEMU_BROKER)
            [(''image'', PStr (env_image env)), (''command'', strs (broker_cmd b)),
             (''networks'', strs (map net_name (brk_networks b))),
             (''depends_on'', strs (map name_gateway (brk_networks b) @ base_depends_on t))]"
  have "env_dict ?s1"
    by (simp add: env_dict_def dget_dset) (simp add: service_base_wotemu_def dget_Cons)
  then show ?thesis
    using merge_topology_config_total [OF merge_args_env [OF assms], of ?s1 t]
    by (auto simp: broker_definition_def Let_def simp del: dupdate.simps)
qed

lemma broker_usable_network:
  "broker_usable n \<Longrightarrow> node_broker n = Some b \<Longrightarrow>
   \<exists>m. broker_network n = Inr (Some m) \<and> has_name net_name (net_name m) (brk_networks b)"
  by (auto simp: broker_usable_def broker_network_def has_name_def split: option.splits list.splits)

lemma broker_parts_total: "broker_usable n \<Longrightarrow> \<exists>p. node_broker_parts n = Inr p"
proof (cases "node_broker n")
  case None
  then show ?thesis by (simp add: node_broker_parts_def)
next
  case (Some b)
  moreover assume "broker_usable n"
  ultimately obtain m where "broker_network n = Inr (Some m)"
    using broker_usable_network by blast
  with Some show ?thesis by (simp add: node_broker_parts_def broker_host_def)
qed

lemma node_total:
  assumes "merge_keeps_dicts merge" and "args_env_ok (node_args_compose n)" and "broker_usable n"
  shows "\<exists>d. node_definition so env merge t n = Inr d"
proof -
  obtain bnets bdeps benv where parts: "node_broker_parts n = Inr (bnets, bdeps, benv)"
    using broker_parts_total [OF assms(3)] by (metis prod_cases3)
  define s1 where "s1 nets deps = dupdate (service_base_wotemu WOTEMU_NODE)
       [(''image'', PStr (image_of env n)), (''command'', strs (cmd_app n)),
        (''networks'', nets), (''depends_on'', deps),
        (''environment'', PDict (dupdate environment_base benv))]" for nets deps :: py
  define s3 where "s3 nets deps = (if node_deploy n \<noteq> []
      then dset (merge_cpu_speed merge (s1 nets deps) n) ''deploy'' (PDict (node_deploy n))
      else merge_cpu_speed merge (s1 nets deps) n)" for nets deps :: py
  have "env_dict (s1 nets deps)" for nets deps
    by (simp add: s1_def env_dict_def dget_dset)
  then have "env_dict (merge_cpu_speed merge (s1 nets deps) n)" for nets deps
    by (rule merge_cpu_speed_env [OF assms(1)])
  then have s3: "env_dict (s3 nets deps)" for nets deps
    by (simp add: s3_def env_dict_def dget_dset)
  have "\<exists>d. merge_topology_config (merge_args merge (s3 nets deps) (node_args_compose n)) t = Inr d" for nets deps
    by (rule merge_topology_config_total [OF merge_args_env [OF assms(1,2) s3]])
  then show ?thesis
    using parts unfolding node_definition_def Let_def s3_def s1_def
    by (simp only: bindR_simps prod.case) (metis bindR_simps(2))
qed

lemma update_nested_total:
  assumes "\<not> truthy v \<or> is_dict v" and "dget d k = Some (PDict x)"
  shows "\<exists>y. update_nested d k v = Inr y"
  using assms by (auto simp: update_nested_def dict_index_def is_dict_def split: py.splits)

lemma update_nested_other:
  "update_nested d k v = Inr y \<Longrightarrow> k' \<noteq> k \<Longrightarrow> dget y k' = dget d k'"
  by (auto simp: update_nested_def bindR_eq_Inr dget_dset split: if_splits)

lemma generic_deploy_total: "params_ok p \<Longrightarrow> \<exists>d. generic_deploy p = Inr d"
  by (auto simp: params_ok_def generic_deploy_def Let_def dict_index_def split: py.splits)

lemma generic_total:
  assumes ok: "params_ok (srv_params s)"
  shows "\<exists>d. generic_service_definition so t s = Inr d"
proof -
  have "dget service_base_generic ''environment'' = Some (PDict environment_base)"
    and lab: "dget service_base_generic ''labels'' = Some (PDict [(label_value WOTEMU_SERVICE, PStr [])])"
    by (simp_all add: service_base_generic_def dget_Cons)
  then obtain s1 where s1: "update_nested service_base_generic ''environment''
      (get_default (srv_params s) ''env'' PNone) = Inr s1"
    using ok update_nested_total by (metis params_ok_def)
  have "dget s1 ''labels'' = Some (PDict [(label_value WOTEMU_SERVICE, PStr [])])"
    using update_nested_other [OF s1] lab by simp
  then obtain s2 where s2: "update_nested s1 ''labels'' (get_default (srv_params s) ''labels'' PNone) = Inr s2"
    using ok update_nested_total by (metis params_ok_def)
  obtain dep where "generic_deploy (srv_params s) = Inr dep"
    using generic_deploy_total [OF ok] by blast
  with s1 s2 show ?thesis by (simp add: generic_service_definition_def Let_def)
qed

lemma mapR_exists: "(\<And>x. x \<in> set xs \<Longrightarrow> \<exists>y. f x = Inr y) \<Longrightarrow> \<exists>ys. mapR f xs = Inr ys"
  by (induction xs) fastforce+

lemma topology_definition_total:
  assumes merge: "merge_keeps_dicts merge" and ok: "buildable so t"
    and usable: "list_all broker_usable (top_nodes t)"
  shows "\<exists>d. topology_definition so env merge t = Inr d"
proof -
  have ok': "\<And>n. n \<in> set (top_nodes t) \<Longrightarrow> broker_usable n \<and> args_env_ok (node_args_compose n)"
    "\<And>s. s \<in> set (topology_services so t) \<Longrightarrow> params_ok (srv_params s)"
    "\<And>b. b \<in> set (topology_brokers so t) \<Longrightarrow> args_env_ok (brk_args_compose b)"
    "\<And>m. m \<in> set (topology_networks so t) \<Longrightarrow> args_env_ok (net_args_compose_gw m)"
    using ok usable by (auto simp: buildable_def list_all_iff)
  obtain gws where "mapR (gateway_definition so env merge t) (topology_networks so t) = Inr gws"
    using mapR_exists [of "topology_networks so t"] gateway_total [OF merge] ok'(4) by metis
  moreover obtain srvs where "mapR (generic_service_definition so t) (topology_services so t) = Inr srvs"
    using mapR_exists [of "topology_services so t"] generic_total ok'(2) by metis
  moreover obtain nodes where "mapR (node_definition so env merge t) (top_nodes t) = Inr nodes"
    using mapR_exists [of "top_nodes t"] node_total [OF merge] ok'(1) by metis
  moreover obtain brks where "mapR (broker_definition so env merge t) (topology_brokers so t) = Inr brks"
    using mapR_exists [of "topology_brokers so t"] broker_total [OF merge] ok'(3) by metis
  ultimately show ?thesis by (simp add: topology_definition_def compose_services_def)
qed

lemma broker_unusable_parts: "\<not> broker_usable n \<Longrightarrow> \<exists>e. node_broker_parts n = Inl e"
  by (auto simp: broker_usable_def node_broker_parts_def broker_network_def split: option.splits)

lemma node_unusable: "\<not> broker_usable n \<Longrightarrow> \<exists>e. node_definition so env merge t n = Inl e"
  using broker_unusable_parts [of n] by (auto simp: node_definition_def Let_def)

lemma topology_unusable:
  assumes "topology_definition so env merge t = Inr d"
  shows "list_all broker_usable (top_nodes t)"
proof -
  obtain nodes where nodes: "mapR (node_definition so env merge t) (top_nodes t) = Inr nodes"
    using assms by (auto simp: topology_definition_def compose_services_def bindR_eq_Inr)
  have "broker_usable n" if n: "n \<in> set (top_nodes t)" for n
  proof (rule ccontr)
    assume "\<not> broker_usable n"
    then obtain e where "node_definition so env merge t n = Inl e" using node_unusable by blast
    with mapR_member [OF nodes n] show False by auto
  qed
  then show ?thesis by (simp add: list_all_iff)
qed

text \<open>
  A merge function with the documented behaviour, for concrete instances: it stores the entries of
  the second dictionary in the first.
\<close>

definition shallow_merge :: merger where
  "shallow_merge d v = (case v of PDict e \<Rightarrow> dupdate d e | _ \<Rightarrow> d)"

lemma map_of_rev_None: "dget e k = None \<Longrightarrow> map_of (rev e) k = None"
  by (simp add: dget_def map_of_eq_None_iff)

lemma shallow_merge_keeps: "merge_keeps_other_keys shallow_merge"
  by (auto simp: merge_keeps_other_keys_def shallow_merge_def dget_dupdate map_of_rev_None)

lemma shallow_merge_dicts: "merge_keeps_dicts shallow_merge"
  unfolding merge_keeps_dicts_def
proof (intro allI impI)
  fix d e k x y
  assume "dget d k = Some (PDict x)" and e: "\<forall>v. (k, v) \<in> set e \<longrightarrow> (\<exists>y. v = PDict y)"
  then show "\<exists>z. dget (shallow_merge d (PDict e)) k = Some (PDict z)"
    by (fastforce simp: shallow_merge_def dget_dupdate dest: map_of_SomeD split: option.splits)
qed

section \<open>Concrete objects\<close>

definition demo_net :: "string \<Rightarrow> network" where
  "demo_net name = \<lparr>net_name = name, net_netem = Some [''loss 5%''], net_args_compose_net = PNone,
     net_args_compose_gw = PNone\<rparr>"

definition demo_broker :: broker where
  "demo_broker = \<lparr>brk_name = ''brk'', brk_networks = [demo_net ''field''], brk_args_compose = PNone\<rparr>"

definition demo_service :: service where
  "demo_service = \<lparr>srv_id = 7, srv_name = ''mongo'', srv_image = ''mongo:4'',
     srv_params = [(''restart_policy'', PDict [(''Condition'', PStr ''any'')])]\<rparr>"

definition demo_node :: "string \<Rightarrow> node" where
  "demo_node name =
     \<lparr>node_name = name,
      node_app = mk_app (BuiltinPath CLOCK_APP) (PBool True) PNone (PBool True) PNone None,
      node_networks = [demo_net ''edge''], node_broker = Some demo_broker, node_broker_network = None,
      node_image = None, node_resources = None, node_scale = PInt 2, node_args_compose = PNone,
      node_services = [demo_service]\<rparr>"

definition demo_topology :: topology where
  "demo_topology = \<lparr>top_nodes = [demo_node ''clock'', demo_node ''hist''], top_ports = default_ports,
     top_redis = \<lparr>tr_enabled = True, tr_host = ''redis'', tr_redis_url = None\<rparr>,
     top_docker_proxy = \<lparr>td_enabled = True, td_host = ''docker_api_proxy''\<rparr>, top_brokers = None\<rparr>"

lemma demo_conditions:
  "services_shared demo_topology" "brokers_agree demo_topology"
  "overrides_keep_refs (\<lambda>xs. xs) demo_topology"
  by code_simp+

lemma demo_buildable:
  "buildable (\<lambda>xs. xs) demo_topology" "list_all broker_usable (top_nodes demo_topology)"
  by code_simp+

section \<open>Properties\<close>

lemma topology_definition_closed:
  assumes "topology_definition so env merge t = Inr d" and "set_order_ok so"
    and "merge_keeps_other_keys merge" and "overrides_keep_refs so t"
    and "services_shared t" and "brokers_agree t"
  shows "compose_closed d"
proof -
  obtain ss where ss: "compose_services so env merge t = Inr ss"
    and d: "d = [(''version'', PStr ''3.7''), (''services'', PDict ss),
                 (''networks'', PDict (compose_networks so t))]"
    using assms(1) by (auto simp: topology_definition_def bindR_eq_Inr)
  have "\<forall>e\<in>set ss. entry_closed (set (dkeys (compose_networks so t))) (set (dkeys ss)) e"
    using compose_services_closed [OF ss assms(2-6)] by (simp add: compose_networks_keys del: set_map)
  then show ?thesis
    unfolding compose_closed_def d
    by (simp add: dget_Cons list_all_iff entry_closed_def case_prod_unfold)
qed





section \<open>The configuration that a container reads\<close>

text \<open>
  The container's environment, as Docker sets it from the \<open>environment\<close> mapping of a service.
\<close>

definition environ_of :: "py \<Rightarrow> environ" where
  "environ_of v = (\<lambda>k.
     case v of
       PDict d \<Rightarrow>
         (case dget d ''environment'' of
            Some (PDict e) \<Rightarrow> (case dget e k of Some (PStr s) \<Rightarrow> Some s | _ \<Rightarrow> None)
          | _ \<Rightarrow> None)
     | _ \<Rightarrow> None)"

definition ports_are_ints :: "topology_ports \<Rightarrow> bool" where
  "ports_are_ints p =
     list_all (\<lambda>v. case v of PInt _ \<Rightarrow> True | _ \<Rightarrow> False)
       [tp_catalogue p, tp_http p, tp_ws p, tp_mqtt p, tp_coap p]"

definition redis_usable :: "topology_redis \<Rightarrow> bool" where
  "redis_usable r = (tr_enabled r \<or> tr_redis_url r \<noteq> None)"

text \<open>The part of the container's configuration that the topology fixes.\<close>

definition config_matches :: "topology \<Rightarrow> env_config \<Rightarrow> bool" where
  "config_matches t c =
     (port_catalogue c = tp_catalogue (top_ports t) \<and> port_http c = tp_http (top_ports t)
      \<and> port_ws c = tp_ws (top_ports t) \<and> port_mqtt c = tp_mqtt (top_ports t)
      \<and> port_coap c = tp_coap (top_ports t)
      \<and> redis_url c = internal_url (top_redis t)
      \<and> docker_proxy_url c = PStr (docker_proxy_url_of (td_host (top_docker_proxy t))))"

lemma redis_usable_url: "redis_usable r \<Longrightarrow> \<exists>s. internal_url r = PStr s"
  by (auto simp: redis_usable_def internal_url_def)

lemma mk_redis_usable: "mk_redis e h u = Inr r \<Longrightarrow> redis_usable r"
  by (auto simp: mk_redis_def redis_usable_def truthy_str_def split: if_splits option.splits)

lemma map_str_config:
  "map_of (rev (str_config d)) k = map_option (\<lambda>v. PStr (py_str v)) (map_of (filter (\<lambda>(k, v). v \<noteq> PNone) (rev d)) k)"
proof -
  have "rev (str_config d) = map (\<lambda>(k, v). (k, PStr (py_str v))) (filter (\<lambda>(k, v). v \<noteq> PNone) (rev d))"
    by (simp add: str_config_def rev_map rev_filter)
  then show ?thesis by (simp only: map_of_map [of "\<lambda>v. PStr (py_str v)"] comp_apply)
qed

lemma topology_config_entries:
  "topology_config t =
     ports_config (top_ports t) @ redis_config (top_redis t) @ docker_proxy_config (top_docker_proxy t)"
  by (simp add: topology_config_def ports_config_def redis_config_def docker_proxy_config_def dset_def)

lemma merged_environ:
  assumes "merge_topology_config d t = Inr d'" and "redis_usable (top_redis t)"
    and "ports_are_ints (top_ports t)"
  shows "environ_of (PDict d') (var_name PORT_CATALOGUE) = Some (py_str (tp_catalogue (top_ports t)))"
    "environ_of (PDict d') (var_name PORT_HTTP) = Some (py_str (tp_http (top_ports t)))"
    "environ_of (PDict d') (var_name PORT_WS) = Some (py_str (tp_ws (top_ports t)))"
    "environ_of (PDict d') (var_name PORT_MQTT) = Some (py_str (tp_mqtt (top_ports t)))"
    "environ_of (PDict d') (var_name PORT_COAP) = Some (py_str (tp_coap (top_ports t)))"
    "environ_of (PDict d') (var_name REDIS_URL) = Some (py_str (internal_url (top_redis t)))"
    "environ_of (PDict d') (var_name DOCKER_PROXY_URL) = Some (docker_proxy_url_of (td_host (top_docker_proxy t)))"
proof -
  obtain e where e: "d' = dset d ''environment'' (PDict (dupdate e (str_config (topology_config t))))"
    using assms(1) by (auto simp: merge_topology_config_def bindR_eq_Inr)
  obtain u where u: "internal_url (top_redis t) = PStr u" using redis_usable_url [OF assms(2)] by blast
  have ints: "tp_catalogue (top_ports t) \<noteq> PNone" "tp_http (top_ports t) \<noteq> PNone" "tp_ws (top_ports t) \<noteq> PNone"
    "tp_mqtt (top_ports t) \<noteq> PNone" "tp_coap (top_ports t) \<noteq> PNone"
    using assms(3) by (auto simp: ports_are_ints_def)
  have "environ_of (PDict d') k = (case dget (dupdate e (str_config (topology_config t))) k of Some (PStr s) \<Rightarrow> Some s | _ \<Rightarrow> None)" for k
    by (simp add: environ_of_def e dget_dset)
  note env = this dget_dupdate map_str_config topology_config_entries ports_config_def redis_config_def docker_proxy_config_def
  show "environ_of (PDict d') (var_name PORT_CATALOGUE) = Some (py_str (tp_catalogue (top_ports t)))"
    "environ_of (PDict d') (var_name PORT_HTTP) = Some (py_str (tp_http (top_ports t)))"
    "environ_of (PDict d') (var_name PORT_WS) = Some (py_str (tp_ws (top_ports t)))"
    "environ_of (PDict d') (var_name PORT_MQTT) = Some (py_str (tp_mqtt (top_ports t)))"
    "environ_of (PDict d') (var_name PORT_COAP) = Some (py_str (tp_coap (top_ports t)))"
    "environ_of (PDict d') (var_name REDIS_URL) = Some (py_str (internal_url (top_redis t)))"
    "environ_of (PDict d') (var_name DOCKER_PROXY_URL) = Some (docker_proxy_url_of (td_host (top_docker_proxy t)))"
    by (simp_all add: env u ints)
qed

lemma merged_config:
  assumes "merge_topology_config d t = Inr d'" and "redis_usable (top_redis t)"
    and "ports_are_ints (top_ports t)"
  shows "config_matches t (get_env_config (environ_of (PDict d')))"
proof -
  have port: "getenv_int (environ_of (PDict d')) v dflt = p"
    if "environ_of (PDict d') v = Some (py_str p)" "case p of PInt _ \<Rightarrow> True | _ \<Rightarrow> False" for v p dflt
    using that by (cases p) (simp_all add: getenv_int_set)
  obtain u where u: "internal_url (top_redis t) = PStr u" using redis_usable_url [OF assms(2)] by blast
  have ints: "\<forall>p\<in>{tp_catalogue (top_ports t), tp_http (top_ports t), tp_ws (top_ports t),
      tp_mqtt (top_ports t), tp_coap (top_ports t)}. case p of PInt _ \<Rightarrow> True | _ \<Rightarrow> False"
    using assms(3) by (simp add: ports_are_ints_def)
  note e = merged_environ [OF assms]
  show ?thesis
    unfolding config_matches_def get_env_config_def Let_def env_config.simps
    using ints by (simp add: port [OF e(1)] port [OF e(2)] port [OF e(3)] port [OF e(4)] port [OF e(5)]
      getenv_def e(6,7) u del: var_name.simps default_config_vars.simps)
qed

text \<open>
  C2. Configuration round trip: whatever the overrides merged into it, a service built for a node, a
  gateway or a broker of the topology holds an environment from which \<open>get_env_config\<close> in the
  container reads back the ports, the Redis URL and the Docker proxy URL of the topology.
\<close>

theorem container_config_roundtrip:
  assumes "node_definition so env merge t n = Inr d \<or> gateway_definition so env merge t m = Inr d
      \<or> broker_definition so env merge t b = Inr d"
    and "redis_usable (top_redis t)" and "ports_are_ints (top_ports t)"
  shows "\<exists>k v. d = [(k, v)] \<and> config_matches t (get_env_config (environ_of v))"
proof -
  obtain d1 d2 k where "merge_topology_config d1 t = Inr d2" "d = [(k, PDict d2)]"
    using assms(1)
    by (auto simp: node_definition_def gateway_definition_def broker_definition_def Let_def bindR_eq_Inr)
  then show ?thesis using merged_config [OF _ assms(2,3)] by blast
qed

lemma demo_args: "args_env_ok (net_args_compose_gw (demo_net name))"
  by (simp add: demo_net_def args_env_ok_def)

theorem container_config_roundtrip_witness:
  "\<exists>d k v. gateway_definition (\<lambda>xs. xs) Map.empty shallow_merge demo_topology (demo_net ''edge'') = Inr d
     \<and> d = [(k, v)] \<and> config_matches demo_topology (get_env_config (environ_of v))"
proof -
  obtain d where d: "gateway_definition (\<lambda>xs. xs) Map.empty shallow_merge demo_topology (demo_net ''edge'') = Inr d"
    using gateway_total [OF shallow_merge_dicts demo_args] by blast
  have "redis_usable (top_redis demo_topology)" "ports_are_ints (top_ports demo_topology)"
    by (simp_all add: demo_topology_def redis_usable_def ports_are_ints_def default_ports_def)
  from container_config_roundtrip [OF _ this] d show ?thesis by blast
qed

section \<open>Construction\<close>

lemma mk_node_usable:
  assumes "mk_node us name a nets b bn img res scale args srvs = Inr n"
  shows "broker_usable n \<longleftrightarrow> (\<forall>br. b = Some br \<and> bn = None \<longrightarrow> brk_networks br \<noteq> [])"
  using assms
  by (auto simp: mk_node_def bindR_eq_Inr check_broker_network_def broker_usable_def
      split: option.splits if_splits)

text \<open>
  What the constructor of a node guarantees: reading \<open>broker_network\<close> never fails its assertion;
  it raises \<open>IndexError\<close> exactly when no network was named and the broker has none; any network it
  returns is one of the broker's; and an application with MQTT has a broker.
\<close>

theorem node_constructor_contract:
  assumes "mk_node us name a nets b bn img res scale args srvs = Inr n"
  shows "broker_network n \<noteq> Inl AssertionError
    \<and> (broker_network n = Inl IndexError \<longleftrightarrow> (\<exists>br. b = Some br \<and> bn = None \<and> brk_networks br = []))
    \<and> (\<forall>m. broker_network n = Inr (Some m) \<longrightarrow>
         (\<exists>br. b = Some br \<and> net_name m \<in> net_name ` set (brk_networks br)))
    \<and> (enabled_mqtt a \<longrightarrow> node_broker n \<noteq> None)"
  using assms
  by (auto simp: mk_node_def bindR_eq_Inr check_broker_network_def check_broker_def broker_network_def
      has_name_def split: option.splits if_splits list.splits)

theorem node_constructor_contract_witness:
  "\<exists>n. mk_node (\<lambda>s. s) ''clock'' (mk_app (BuiltinPath CLOCK_APP) PNone PNone (PBool True) PNone None) []
       (Some demo_broker) (Some (demo_net ''field'')) None None PNone PNone [demo_service] = Inr n
     \<and> broker_network n \<noteq> Inl AssertionError"
proof -
  obtain n where n: "mk_node (\<lambda>s. s) ''clock'' (mk_app (BuiltinPath CLOCK_APP) PNone PNone (PBool True) PNone None) []
       (Some demo_broker) (Some (demo_net ''field'')) None None PNone PNone [demo_service] = Inr n"
    by (auto simp: mk_node_def check_broker_def check_broker_network_def demo_broker_def has_name_def)
  with node_constructor_contract [OF n] show ?thesis by blast
qed

fun read_brokers :: "set_order \<Rightarrow> nat \<Rightarrow> topology \<Rightarrow> topology" where
  "read_brokers so 0 t = t"
| "read_brokers so (Suc k) t = read_brokers so k (snd (brokers_prop so t))"

lemma brokers_prop_nodes: "top_nodes (snd (brokers_prop so t)) = top_nodes t"
  by (simp add: brokers_prop_def)

lemma brokers_prop_list:
  "top_brokers t = Some bs \<Longrightarrow> bs \<noteq> [] \<Longrightarrow>
   top_brokers (snd (brokers_prop so t)) = Some (bs @ node_brokers (top_nodes t))"
  by (simp add: brokers_prop_def brokers_arg_def truthy_list_def)

text \<open>
  Reading \<open>Topology.brokers\<close> any number of times always yields the same brokers, but each read
  appends the brokers of all nodes to the list that the caller passed in.
\<close>

theorem brokers_read_grows:
  assumes "top_brokers t = Some bs" and "bs \<noteq> []"
  shows "topology_brokers so (read_brokers so k t) = topology_brokers so t
    \<and> top_brokers (read_brokers so k t) = Some (bs @ concat (replicate k (node_brokers (top_nodes t))))"
  using assms
proof (induction k arbitrary: t bs)
  case 0
  then show ?case by simp
next
  case (Suc k)
  let ?t = "snd (brokers_prop so t)"
  have "top_brokers ?t = Some (bs @ node_brokers (top_nodes t))"
    using brokers_prop_list Suc.prems by blast
  moreover have "bs @ node_brokers (top_nodes t) \<noteq> []" using Suc.prems by simp
  ultimately show ?case
    using Suc.IH [of ?t "bs @ node_brokers (top_nodes t)"]
    by (simp add: topology_brokers_touched brokers_prop_nodes)
qed

theorem brokers_read_grows_witness:
  "top_brokers (read_brokers (\<lambda>xs. xs) 3 (demo_topology\<lparr>top_brokers := Some [demo_broker]\<rparr>)) =
     Some (demo_broker # replicate 6 demo_broker)"
  using brokers_read_grows [of "demo_topology\<lparr>top_brokers := Some [demo_broker]\<rparr>" "[demo_broker]" "\<lambda>xs. xs" 3]
  by (simp add: demo_topology_def demo_node_def node_brokers_def numeral_eq_Suc List.map_filter_def)

lemma topology_services_names:
  assumes "set_order_ok so" and "\<forall>n\<in>set (top_nodes t). distinct (map srv_name (node_services n))"
  shows "srv_name ` set (topology_services so t) = srv_name ` (\<Union>n\<in>set (top_nodes t). set (node_services n))"
proof -
  have "set (concat (map (\<lambda>n. set_iter so srv_name (node_services n)) (top_nodes t)))
      = (\<Union>n\<in>set (top_nodes t). set (node_services n))"
    using assms by (simp add: set_iter_set)
  then show ?thesis
    unfolding topology_services_def using set_list_keys [OF assms(1)] by metis
qed

lemma mk_topology_accepts:
  assumes "set_order_ok so" and "\<forall>n\<in>set nodes. distinct (map srv_name (node_services n))"
  shows "(\<exists>t. mk_topology so nodes ports redis proxy brokers = Inr t) \<longleftrightarrow>
     distinct (map node_name nodes)
     \<and> (\<forall>n\<in>set nodes. \<forall>n'\<in>set nodes. \<forall>s\<in>set (node_services n'). srv_name s \<noteq> node_name n)"
proof -
  define t where "t = \<lparr>top_nodes = nodes,
               top_ports = (case ports of Some p \<Rightarrow> p | None \<Rightarrow> default_ports),
               top_redis = (case redis of Some r \<Rightarrow> r
                            | None \<Rightarrow> \<lparr>tr_enabled = True, tr_host = default_host_redis, tr_redis_url = None\<rparr>),
               top_docker_proxy = (case proxy of Some p \<Rightarrow> p
                            | None \<Rightarrow> \<lparr>td_enabled = True, td_host = default_host_docker_proxy\<rparr>),
               top_brokers = brokers\<rparr>"
  let ?names = "map srv_name (topology_services so t) @ map node_name nodes"
  have "(\<exists>t. mk_topology so nodes ports redis proxy brokers = Inr t) \<longleftrightarrow>
      distinct (map node_name nodes) \<and> distinct ?names"
    using length_py_set [of node_name nodes] length_py_set [of "\<lambda>x. x" ?names]
    by (simp add: mk_topology_def Let_def t_def [symmetric])
  moreover have "distinct (map srv_name (topology_services so t))"
    unfolding topology_services_def by (rule set_list_distinct [OF assms(1)])
  then have "distinct ?names \<longleftrightarrow> distinct (map node_name nodes)
      \<and> srv_name ` set (topology_services so t) \<inter> node_name ` set nodes = {}"
    by simp
  moreover have "srv_name ` set (topology_services so t) = srv_name ` (\<Union>n\<in>set nodes. set (node_services n))"
    using topology_services_names [OF assms(1), of t] assms(2) by (simp add: t_def)
  moreover have "srv_name ` (\<Union>n\<in>set nodes. set (node_services n)) \<inter> node_name ` set nodes = {} \<longleftrightarrow>
      (\<forall>n\<in>set nodes. \<forall>n'\<in>set nodes. \<forall>s\<in>set (node_services n'). srv_name s \<noteq> node_name n)"
    by blast
  ultimately show ?thesis by simp
qed

text \<open>
  The constructor of a topology accepts exactly the lists of nodes whose names are distinct and
  differ from the names of all services linked to any node.
\<close>

theorem topology_accepts_iff:
  assumes "set_order_ok so" and "\<forall>n\<in>set nodes. distinct (map srv_name (node_services n))"
  shows "(\<exists>t. mk_topology so nodes ports redis proxy brokers = Inr t) \<longleftrightarrow>
     distinct (map node_name nodes)
     \<and> (\<forall>n\<in>set nodes. \<forall>n'\<in>set nodes. \<forall>s\<in>set (node_services n'). srv_name s \<noteq> node_name n)"
  by (rule mk_topology_accepts [OF assms])

theorem topology_accepts_iff_witness:
  "\<not> isl (mk_topology rev [demo_node ''clock'', demo_node ''hist''] None None None None)
    \<and> isl (mk_topology rev [demo_node ''clock'', demo_node ''mongo''] None None None None)"
proof -
  have "isl r \<longleftrightarrow> \<not> (\<exists>t. r = Inr t)" for r :: "topology res" by (cases r) auto
  then show ?thesis
    using topology_accepts_iff [OF set_order_ok_rev, of "[demo_node ''clock'', demo_node ''hist'']"]
      topology_accepts_iff [OF set_order_ok_rev, of "[demo_node ''clock'', demo_node ''mongo'']"]
    by (simp add: demo_node_def demo_service_def)
qed

section \<open>The command line of an application\<close>

text \<open>
  How the options of \<open>wotemu app\<close> are read back: one path, repeated pairs and four flags.
\<close>

record app_options =
  opt_path :: "string option"
  opt_params :: "(string \<times> string) list"
  opt_flags :: "string list"

definition no_options :: app_options where
  "no_options = \<lparr>opt_path = None, opt_params = [], opt_flags = []\<rparr>"

fun read_options :: "string list \<Rightarrow> app_options \<Rightarrow> app_options option" where
  "read_options [] o1 = Some o1"
| "read_options [x] o1 =
     (if x \<in> {''--path'', ''--func-param''} then None else Some (o1\<lparr>opt_flags := opt_flags o1 @ [x]\<rparr>))"
| "read_options [x, y] o1 =
     (if x = ''--path'' then Some (o1\<lparr>opt_path := Some y\<rparr>)
      else if x = ''--func-param'' then None
      else read_options [y] (o1\<lparr>opt_flags := opt_flags o1 @ [x]\<rparr>))"
| "read_options (x # y # z # rest) o1 =
     (if x = ''--path'' then read_options (z # rest) (o1\<lparr>opt_path := Some y\<rparr>)
      else if x = ''--func-param'' then read_options rest (o1\<lparr>opt_params := opt_params o1 @ [(y, z)]\<rparr>)
      else read_options (y # z # rest) (o1\<lparr>opt_flags := opt_flags o1 @ [x]\<rparr>))"

lemma read_params:
  "read_options (concat (map (\<lambda>(k, v). [''--func-param'', k, py_str v]) ps) @ rest) o1 =
     read_options rest (o1\<lparr>opt_params := opt_params o1 @ map (\<lambda>(k, v). (k, py_str v)) ps\<rparr>)"
  by (induction ps arbitrary: o1) auto

lemma read_path: "read_options (''--path'' # p # rest) o1 = read_options rest (o1\<lparr>opt_path := Some p\<rparr>)"
  by (cases rest) auto

lemma read_flags:
  "\<forall>f\<in>set fs. f \<noteq> ''--path'' \<and> f \<noteq> ''--func-param'' \<Longrightarrow>
   read_options fs o1 = Some (o1\<lparr>opt_flags := opt_flags o1 @ fs\<rparr>)"
proof (induction fs o1 rule: read_options.induct)
  case (3 x y o1)
  then show ?case by (cases o1) auto
next
  case (4 x y z rest o1)
  then show ?case by (cases o1) auto
qed auto

text \<open>
  Reading back the command line built for a node's application gives its path, its parameters
  (printed, in order) and exactly the flags of the enabled protocols.
\<close>

theorem app_args_roundtrip:
  "read_options (app_args a) no_options =
     Some \<lparr>opt_path = Some (path_value (app_raw_path a)),
           opt_params = map (\<lambda>(k, v). (k, py_str v)) (app_params a),
           opt_flags = map snd (filter fst (protocol_flags a))\<rparr>"
proof -
  have flags: "\<forall>f\<in>set (map snd (filter fst (protocol_flags a))). f \<noteq> ''--path'' \<and> f \<noteq> ''--func-param''"
    by (auto simp: protocol_flags_def)
  show ?thesis
    unfolding app_args_def no_options_def append.simps read_path read_params
    by (subst read_flags [OF flags]) simp
qed

end
