(* ===== verification/Polling.thy ===== *)
theory Polling
  imports Prelude
begin

text \<open>
  The interface of the polling loops: a loop looks at the world once per iteration and either stops
  with an outcome or goes round again. Each component defines its own loop, with fuel; the locale
  states what they have in common, and its lemmas say when they stop and with what. Also here: the
  interface of the caches that read a value once and then return it.
\<close>

section \<open>Polling loops\<close>

text \<open>
  \<open>step i\<close> is the outcome of iteration \<open>i\<close>, \<open>None\<close> when the loop goes on; \<open>run f i\<close> is the loop from
  iteration \<open>i\<close> with fuel for \<open>f\<close> iterations, \<open>None\<close> when the fuel is spent.
\<close>

locale polling =
  fixes run :: "nat \<Rightarrow> nat \<Rightarrow> 'o option"
    and step :: "nat \<Rightarrow> 'o option"
  assumes run_0: "run 0 i = None"
    and run_Suc: "run (Suc f) i = (case step i of Some r \<Rightarrow> Some r | None \<Rightarrow> run f (Suc i))"
begin

lemma run_first:
  "(\<forall>k<d. step (i + k) = None) \<Longrightarrow> step (i + d) = Some r \<Longrightarrow> d < f \<Longrightarrow> run f i = Some r"
proof (induction d arbitrary: i f)
  case 0
  then show ?case by (cases f) (auto simp: run_Suc)
next
  case (Suc d)
  then obtain g where f: "f = Suc g" "d < g" by (cases f) auto
  have "step i = None" using Suc.prems(1) by (metis add_0_right zero_less_Suc)
  moreover have "run g (Suc i) = Some r"
  proof (rule Suc.IH)
    show "\<forall>k<d. step (Suc i + k) = None"
      using Suc.prems(1) by (metis Suc_less_eq add_Suc_shift)
  qed (use Suc.prems(2) f in simp_all)
  ultimately show ?case by (simp add: f run_Suc)
qed

lemma run_sound:
  "run f i = Some r \<Longrightarrow> \<exists>d<f. step (i + d) = Some r \<and> (\<forall>k<d. step (i + k) = None)"
proof (induction f arbitrary: i)
  case 0
  then show ?case by (simp add: run_0)
next
  case (Suc f)
  show ?case
  proof (cases "step i")
    case (Some r')
    then show ?thesis using Suc.prems by (intro exI [of _ 0]) (simp add: run_Suc)
  next
    case None
    then have "run f (Suc i) = Some r" using Suc.prems by (simp add: run_Suc)
    from Suc.IH [OF this] obtain d where d: "d < f" "step (Suc i + d) = Some r"
      "\<forall>k<d. step (Suc i + k) = None" by blast
    have "step (i + k) = None" if "k < Suc d" for k
      using that d(3) None by (cases k) auto
    with d(1,2) show ?thesis by (intro exI [of _ "Suc d"]) auto
  qed
qed

lemma run_stops_iff: "(\<exists>r. run f i = Some r) \<longleftrightarrow> (\<exists>d<f. step (i + d) \<noteq> None)"
proof
  assume "\<exists>r. run f i = Some r"
  then show "\<exists>d<f. step (i + d) \<noteq> None" using run_sound by (metis option.discI)
next
  assume "\<exists>d<f. step (i + d) \<noteq> None"
  then obtain d where d: "d < f" "step (i + d) \<noteq> None" by blast
  define m where "m = (LEAST k. step (i + k) \<noteq> None)"
  have m: "step (i + m) \<noteq> None" unfolding m_def by (rule LeastI [of _ d]) (rule d(2))
  have "m \<le> d" unfolding m_def by (rule Least_le) (rule d(2))
  moreover have "\<forall>k<m. step (i + k) = None"
    unfolding m_def using not_less_Least by blast
  ultimately show "\<exists>r. run f i = Some r" using run_first m d(1) by (metis le_less_trans option.exhaust)
qed

lemma run_more_fuel: "run f i = Some r \<Longrightarrow> f \<le> g \<Longrightarrow> run g i = Some r"
  using run_sound [of f i r] run_first by (metis order_less_le_trans)

end

section \<open>Values read once\<close>

text \<open>
  \<open>cached s\<close> is the value kept in the state, if any; \<open>read s\<close> is what reading the world gives in
  that state; \<open>get\<close> is the operation.
\<close>

locale read_once =
  fixes cached :: "'s \<Rightarrow> 'v option"
    and get :: "('s, 'v) prog"
  assumes hit: "cached s = Some v \<Longrightarrow> get s = (Inr v, s)"
    and fill: "get s = (Inr v, s') \<Longrightarrow> cached s' = Some v"
    and miss_fails: "get s = (Inl e, s') \<Longrightarrow> cached s' = None"
begin

lemma stable: "get s = (Inr v, s') \<Longrightarrow> get s' = (Inr v, s')"
  using fill hit by blast

fun get_times :: "nat \<Rightarrow> 's \<Rightarrow> ('v list \<times> 's)" where
  "get_times 0 s = ([], s)"
| "get_times (Suc n) s =
     (case get s of (Inl _, s') \<Rightarrow> get_times n s'
      | (Inr v, s') \<Rightarrow> (case get_times n s' of (vs, s'') \<Rightarrow> (v # vs, s'')))"

lemma get_times_cached: "cached s = Some v \<Longrightarrow> get_times n s = (replicate n v, s)"
  by (induction n) (simp_all add: hit)

lemma get_times_agree: "get_times n s = (vs, s') \<Longrightarrow> v \<in> set vs \<Longrightarrow> w \<in> set vs \<Longrightarrow> v = w"
proof (induction n arbitrary: s vs s')
  case 0
  then show ?case by simp
next
  case (Suc n)
  show ?case
  proof (cases "get s")
    case (Pair r s1)
    show ?thesis
    proof (cases r)
      case (Inl e)
      then show ?thesis using Suc Pair by simp
    next
      case (Inr x)
      then have "get_times n s1 = (replicate n x, s1)"
        using get_times_cached fill Pair by blast
      then show ?thesis using Suc.prems Pair Inr by auto
    qed
  qed
qed

end

end
