(* ===== verification/DockerUtils.thy ===== *)
theory DockerUtils
  imports Models Polling Complex_Main
begin

text \<open>
  \<^verbatim>\<open>wotemu/utils.py\<close>: what containers ask the Docker API and the catalogues of other nodes.
  The Docker client, the HTTP client, the network interfaces and the address arithmetic are
  parameters: \<open>docker_api\<close> holds the answers of the daemon (each may raise), \<open>host_net\<close> those of
  \<open>netifaces\<close> and \<open>netaddr\<close>. Answers are Python values, read with the code's own chains of \<open>get\<close>
  and index operations, so that a missing key is the exception that the code raises.
\<close>

section \<open>Sequences whose tests may raise\<close>

text \<open>\<open>next(x for x in xs if p(x))\<close>: the tests after the first success are not evaluated.\<close>

fun find_res :: "('a \<Rightarrow> bool res) \<Rightarrow> 'a list \<Rightarrow> 'a option res" where
  "find_res p [] = Inr None"
| "find_res p (x # xs) = bindR (p x) (\<lambda>b. if b then Inr (Some x) else find_res p xs)"

fun filter_res :: "('a \<Rightarrow> bool res) \<Rightarrow> 'a list \<Rightarrow> 'a list res" where
  "filter_res p [] = Inr []"
| "filter_res p (x # xs) =
     bindR (p x) (\<lambda>b. bindR (filter_res p xs) (\<lambda>ys. Inr (if b then x # ys else ys)))"

lemma find_res_SomeD: "find_res p xs = Inr (Some x) \<Longrightarrow> x \<in> set xs \<and> p x = Inr True"
  by (induction xs) (auto simp: bindR_eq_Inr split: if_splits)

lemma find_res_NoneD: "find_res p xs = Inr None \<Longrightarrow> x \<in> set xs \<Longrightarrow> p x = Inr False"
  by (induction xs) (auto simp: bindR_eq_Inr split: if_splits)

definition next_or :: "exn \<Rightarrow> 'a option res \<Rightarrow> 'a res" where
  "next_or e r = bindR r (\<lambda>x. case x of None \<Rightarrow> Inl e | Some y \<Rightarrow> Inr y)"

fun as_list :: "py \<Rightarrow> py list res" where
  "as_list (PList xs) = Inr xs"
| "as_list (PDict d) = Inr (map (PStr \<circ> fst) d)"
| "as_list (PStr s) = Inr (map (\<lambda>c. PStr [c]) s)"
| "as_list _ = Inl TypeError"

definition py_items :: "py \<Rightarrow> py dict res" where
  "py_items v = as_dict v"

fun py_take :: "nat \<Rightarrow> py \<Rightarrow> py res" where
  "py_take n (PStr s) = Inr (PStr (take n s))"
| "py_take n (PList xs) = Inr (PList (take n xs))"
| "py_take n _ = Inl TypeError"

section \<open>The world of a container\<close>

record docker_api =
  api_tasks :: "py dict \<Rightarrow> py list res"
  api_inspect_network :: "string \<Rightarrow> bool \<Rightarrow> py res"
  api_inspect_task :: "string \<Rightarrow> py res"
  api_services :: "py list res"
  api_ping :: "unit res"

definition stack_namespace :: string where
  "stack_namespace = ''com.docker.stack.namespace''"

definition cid_host_len :: nat where
  "cid_host_len = 12"

definition state_running :: string where
  "state_running = ''running''"

section \<open>The current container and its task\<close>

definition is_alnum :: "char \<Rightarrow> bool" where
  "is_alnum c = (let n = of_char c :: nat in
     (48 \<le> n \<and> n \<le> 57) \<or> (65 \<le> n \<and> n \<le> 90) \<or> (97 \<le> n \<and> n \<le> 122))"

text \<open>
  \<open>re.search\<close> of a number, a colon, at least one character of a line, \<open>:/docker/\<close> and a name. The
  match begins at the leftmost digit from which it is possible; \<open>.+\<close> is greedy, so the last
  \<open>:/docker/\<close> of the line followed by a name is taken.
\<close>

definition docker_marker :: string where
  "docker_marker = '':/docker/''"

fun last_marker :: "string \<Rightarrow> string option" where
  "last_marker [] = None"
| "last_marker (c # cs) =
     (case last_marker cs of
        Some r \<Rightarrow> Some r
      | None \<Rightarrow>
          if startswith (c # cs) docker_marker
          then (let name = takeWhile is_alnum (drop (length docker_marker) (c # cs))
                in if name \<noteq> [] then Some name else None)
          else None)"

definition cid_at :: "string \<Rightarrow> string option" where
  "cid_at s =
     (let r = dropWhile is_digit s
      in if takeWhile is_digit s \<noteq> [] \<and> startswith r '':'' \<and> tl r \<noteq> [] \<and> hd (tl r) \<noteq> CHR 0x0A
         then last_marker (tl (takeWhile (\<lambda>c. c \<noteq> CHR 0x0A) (tl r)))
         else None)"

fun cid_search :: "string \<Rightarrow> string option" where
  "cid_search [] = None"
| "cid_search (c # cs) = (case cid_at (c # cs) of Some r \<Rightarrow> Some r | None \<Rightarrow> cid_search cs)"

definition get_current_container_id :: "string option \<Rightarrow> string res" where
  "get_current_container_id cgroup =
     (case cgroup of
        None \<Rightarrow> Inl (GenericException ''The current environment does not seem to be a Docker container'')
      | Some s \<Rightarrow>
          (case cid_search s of
             Some cid \<Rightarrow> Inr cid
           | None \<Rightarrow> Inl (GenericException ''Could not retrieve container ID'')))"

definition get_task_container_id :: "py \<Rightarrow> py res" where
  "get_task_container_id task = get_chain task [''Status'', ''ContainerStatus'', ''ContainerID'']"

definition get_current_task :: "docker_api \<Rightarrow> string option \<Rightarrow> py res" where
  "get_current_task api cgroup =
     bindR (get_current_container_id cgroup) (\<lambda>cid.
     bindR (api_tasks api []) (\<lambda>tasks.
       next_or (GenericException (''Could not find task for container: '' @ cid))
         (find_res (\<lambda>t. bindR (get_task_container_id t) (\<lambda>c. Inr (c = PStr cid))) tasks)))"

definition get_current_stack_namespace :: "docker_api \<Rightarrow> string option \<Rightarrow> py res" where
  "get_current_stack_namespace api cgroup =
     bindR (get_current_task api cgroup) (\<lambda>t.
       get_chain t [''Spec'', ''ContainerSpec'', ''Labels'', stack_namespace])"

section \<open>Networks and gateways\<close>

definition has_label :: "labels \<Rightarrow> py \<Rightarrow> bool res" where
  "has_label l labels = bindR (py_get labels (label_value l) PNone) (\<lambda>v. Inr (v \<noteq> PNone))"

fun py_string :: "py \<Rightarrow> string res" where
  "py_string (PStr s) = Inr s"
| "py_string _ = Inl TypeError"

definition get_task_networks :: "docker_api \<Rightarrow> py \<Rightarrow> string list res" where
  "get_task_networks api task =
     bindR (py_index task ''NetworksAttachments'') (\<lambda>atts.
     bindR (as_list atts) (\<lambda>nets.
     bindR (mapR (\<lambda>n. bindR (index_chain n [''Network'', ''ID'']) py_string) nets) (\<lambda>ids.
     bindR (mapR (\<lambda>i. bindR (api_inspect_network api i False) (\<lambda>info. Inr (i, info))) ids) (\<lambda>infos.
     bindR (filter_res (\<lambda>(i, info). bindR (py_get info ''Labels'' (PDict [])) (has_label WOTEMU_NETWORK))
              (dupdate [] infos)) (\<lambda>mine.
       Inr (dkeys mine))))))"

definition get_task_labels :: "docker_api \<Rightarrow> string \<Rightarrow> py res" where
  "get_task_labels api name =
     bindR (api_inspect_task api name) (\<lambda>info. index_chain info [''Spec'', ''ContainerSpec'', ''Labels''])"

definition network_task_infos :: "py \<Rightarrow> py dict res" where
  "network_task_infos info =
     bindR (py_index info ''Services'') (\<lambda>srvs.
     bindR (py_items srvs) (\<lambda>items.
     bindR (mapR (\<lambda>(k, srv).
              bindR (py_index srv ''Tasks'') (\<lambda>ts.
              bindR (as_list ts) (\<lambda>tasks.
                mapR (\<lambda>t. bindR (bindR (py_index t ''Name'') py_string) (\<lambda>n. Inr (n, t))) tasks)))
            (filter (\<lambda>(k, srv). 0 < length k) items)) (\<lambda>tss.
       Inr (dupdate [] (concat tss)))))"

definition get_network_gateway_task :: "docker_api \<Rightarrow> string \<Rightarrow> py res" where
  "get_network_gateway_task api net_id =
     bindR (api_inspect_network api net_id True) (\<lambda>info.
     bindR (network_task_infos info) (\<lambda>tasks.
     bindR (mapR (\<lambda>n. bindR (get_task_labels api n) (\<lambda>l. Inr (n, l))) (dkeys tasks)) (\<lambda>labels.
     bindR (next_or StopIteration (find_res (\<lambda>(n, l). has_label WOTEMU_GATEWAY l) labels)) (\<lambda>(n, l).
       dict_index tasks n))))"

record host_net =
  hn_interfaces :: "string list"
  hn_addresses :: "string \<Rightarrow> py list option"
  hn_in_network :: "py \<Rightarrow> py \<Rightarrow> py \<Rightarrow> bool res"
  hn_cidr :: "py \<Rightarrow> py \<Rightarrow> string res"

definition get_output_iface_for_task :: "host_net \<Rightarrow> py \<Rightarrow> (string \<times> py) res" where
  "get_output_iface_for_task hn task =
     bindR (py_index task ''Name'') (\<lambda>_.
     bindR (py_index task ''EndpointIP'') (\<lambda>ip.
       let cands = concat (map (\<lambda>name. case hn_addresses hn name of
             None \<Rightarrow> [] | Some addrs \<Rightarrow> map (\<lambda>a. (name, a)) addrs) (hn_interfaces hn))
       in next_or StopIteration
            (find_res (\<lambda>(name, a). bindR (py_index a ''addr'') (\<lambda>addr.
               bindR (py_index a ''netmask'') (\<lambda>mask. hn_in_network hn ip addr mask))) cands)))"

section \<open>Container hostnames of a service\<close>

definition find_service_container_hosts :: "docker_api \<Rightarrow> string \<Rightarrow> string list res" where
  "find_service_container_hosts api name =
     (case api_tasks api [(''service'', PStr name), (''desired-state'', PStr state_running)] of
        Inl e \<Rightarrow> if is_Exception e then Inr [] else Inl e
      | Inr tasks \<Rightarrow>
          mapR (\<lambda>t. bindR (index_chain t [''Status'', ''ContainerStatus'', ''ContainerID'']) (\<lambda>c.
                  bindR (py_take cid_host_len c) py_string)) tasks)"

definition service_base_name :: "docker_api \<Rightarrow> string \<Rightarrow> string res" where
  "service_base_name api name =
     (let parts = split_on (CHR ''.'') name
      in case api_inspect_network api (last parts) False of
           Inr _ \<Rightarrow> Inr (join ''.'' (butlast parts))
         | Inl e \<Rightarrow> if e = DockerNotFound then Inr name else Inl e)"

definition candidate_services :: "py \<Rightarrow> string \<Rightarrow> string list" where
  "candidate_services ns base =
     (let prefix = py_str ns @ ''_''
      in (prefix @ base) # (if startswith base prefix then [base] else []))"

definition get_service_container_hostnames :: "docker_api \<Rightarrow> string option \<Rightarrow> string \<Rightarrow> string list res" where
  "get_service_container_hostnames api cgroup name =
     bindR (service_base_name api name) (\<lambda>base.
     bindR (get_current_stack_namespace api cgroup) (\<lambda>ns.
     bindR (mapR (find_service_container_hosts api) (candidate_services ns base)) (\<lambda>hostss.
       let hosts = concat hostss
       in if length hosts = 0
          then Inl (GenericException ''Could not find container hostnames for: %s'')
          else Inr hosts)))"

definition ping_docker :: "docker_api \<Rightarrow> unit res" where
  "ping_docker api =
     (case api_ping api of
        Inl e \<Rightarrow> if is_Exception e then Inl (GenericException ''Could not ping Docker daemon'') else Inl e
      | Inr u \<Rightarrow> Inr u)"

section \<open>Waiting for a node\<close>

text \<open>\<open>x in v\<close> for a string \<open>x\<close>.\<close>

fun py_contains :: "string \<Rightarrow> py \<Rightarrow> bool res" where
  "py_contains x (PDict d) = Inr (x \<in> set (dkeys d))"
| "py_contains x (PList vs) = Inr (PStr x \<in> set vs)"
| "py_contains x (PStr s) = Inr (sublist x s)"
| "py_contains x _ = Inl TypeError"

fun all_res :: "('a \<Rightarrow> bool res) \<Rightarrow> 'a list \<Rightarrow> bool res" where
  "all_res p [] = Inr True"
| "all_res p (x # xs) = bindR (p x) (\<lambda>b. if b then all_res p xs else Inr False)"

lemma all_res_True: "all_res p xs = Inr True \<longleftrightarrow> (\<forall>x\<in>set xs. p x = Inr True)"
  by (induction xs) (auto simp: bindR_eq_Inr split: if_splits)

definition check_catalogue :: "(string \<Rightarrow> string) \<Rightarrow> string list \<Rightarrow> string res \<Rightarrow> unit res" where
  "check_catalogue canon ids fetched =
     bindR fetched (\<lambda>body.
     case json_loads canon body of
       None \<Rightarrow> Inl (ValueError ''json'')
     | Some catalogue \<Rightarrow>
         bindR (all_res (\<lambda>i. py_contains i catalogue) ids) (\<lambda>ok.
           if ok then Inr () else Inl AssertionError))"

definition ping_catalogue :: "(string \<Rightarrow> string) \<Rightarrow> string list \<Rightarrow> string res \<Rightarrow> bool res" where
  "ping_catalogue canon ids fetched =
     (case check_catalogue canon ids fetched of
        Inr _ \<Rightarrow> Inr True
      | Inl e \<Rightarrow> if is_Exception e then Inr False else Inl e)"

text \<open>
  \<open>_ping_catalogue_timeout\<close>: in iteration \<open>i\<close> the clock reads \<open>before i\<close>, the catalogue answers
  \<open>ping i\<close>, and the clock reads \<open>after i\<close>; \<open>ini\<close> is the time at which the wait began.
\<close>

definition timed_out :: "real option \<Rightarrow> real \<Rightarrow> real \<Rightarrow> bool" where
  "timed_out timeout ini now = (case timeout of None \<Rightarrow> False | Some t \<Rightarrow> t \<le> now - ini)"

record ping_world =
  pw_ini :: real
  pw_before :: "nat \<Rightarrow> real"
  pw_ping :: "nat \<Rightarrow> bool res"
  pw_after :: "nat \<Rightarrow> real"

definition ping_step :: "string \<Rightarrow> real option \<Rightarrow> ping_world \<Rightarrow> nat \<Rightarrow> unit res option" where
  "ping_step url timeout w i =
     (if timed_out timeout (pw_ini w) (pw_before w i) then Some (Inl (NodeHTTPTimeout url))
      else (case pw_ping w i of
              Inl e \<Rightarrow> Some (Inl e)
            | Inr True \<Rightarrow> Some (Inr ())
            | Inr False \<Rightarrow>
                if timed_out timeout (pw_ini w) (pw_after w i) then Some (Inl (NodeHTTPTimeout url)) else None))"

fun ping_catalogue_timeout :: "string \<Rightarrow> real option \<Rightarrow> ping_world \<Rightarrow> nat \<Rightarrow> nat \<Rightarrow> unit res option" where
  "ping_catalogue_timeout url timeout w 0 i = None"
| "ping_catalogue_timeout url timeout w (Suc fuel) i =
     (case ping_step url timeout w i of
        Some r \<Rightarrow> Some r | None \<Rightarrow> ping_catalogue_timeout url timeout w fuel (Suc i))"

interpretation ping: polling "ping_catalogue_timeout url timeout w" "ping_step url timeout w" for url timeout w
  by unfold_locales simp_all

text \<open>
  \<open>wait_node\<close>: the hosts, their catalogues, and the concurrent waits. \<open>asyncio.gather\<close> raises the
  exception of the wait that fails first; \<open>done\<close> lists the waits in the order in which they end.
\<close>

definition wait_hosts :: "docker_api \<Rightarrow> string option \<Rightarrow> string \<Rightarrow> bool \<Rightarrow> string list res" where
  "wait_hosts api cgroup name find_replicas =
     (if find_replicas
      then (case get_service_container_hostnames api cgroup name of
              Inr hosts \<Rightarrow> Inr hosts
            | Inl e \<Rightarrow> if is_Exception e then Inr [name] else Inl e)
      else Inr [name])"

definition catalogue_url :: "py \<Rightarrow> string \<Rightarrow> string" where
  "catalogue_url port host = ''http://'' @ host @ '':'' @ py_str port"

definition gather :: "('k \<Rightarrow> unit res) \<Rightarrow> 'k list \<Rightarrow> unit res" where
  "gather result order = bindR (mapR result order) (\<lambda>_. Inr ())"

definition wait_node ::
  "docker_api \<Rightarrow> string option \<Rightarrow> py \<Rightarrow> string \<Rightarrow> bool \<Rightarrow> (string \<Rightarrow> unit res) \<Rightarrow> (string list \<Rightarrow> string list) \<Rightarrow> unit res" where
  "wait_node api cgroup port name find_replicas result order =
     bindR (wait_hosts api cgroup name find_replicas) (\<lambda>hosts.
       gather result (order (map (catalogue_url port) hosts)))"

section \<open>Other helpers\<close>

definition consume_url :: "(string \<Rightarrow> string) \<Rightarrow> py \<Rightarrow> string \<Rightarrow> string \<Rightarrow> string res \<Rightarrow> string res" where
  "consume_url canon port host thing fetched =
     bindR fetched (\<lambda>body.
     case json_loads canon body of
       None \<Rightarrow> Inl (ValueError ''json'')
     | Some catalogue \<Rightarrow>
         bindR (py_contains thing catalogue) (\<lambda>here.
           if \<not> here then Inl (GenericException (''Thing not in catalogue: '' @ catalogue_url port host))
           else bindR (py_index catalogue thing) (\<lambda>path.
             case path of
               PStr s \<Rightarrow> Inr (''http://'' @ host @ '':'' @ py_str port @ ''/''
                                @ strip_chars (\<lambda>c. c = CHR ''/'') s)
             | _ \<Rightarrow> Inl AttributeError)))"

text \<open>
  \<open>cgget\<close>: the output of the command, or nothing when it fails; the first number that ends a line.
  Every exception gives \<open>None\<close>.
\<close>

definition number_at :: "string \<Rightarrow> int option" where
  "number_at s =
     (let (neg, r) = (if startswith s ''-'' then (True, tl s) else (False, s));
          ds = takeWhile is_digit r
      in if ds \<noteq> [] \<and> startswith (dropWhile is_digit r) [CHR 0x0A]
         then map_option (\<lambda>i. if neg then - i else i) (py_int ds) else None)"

fun number_search :: "string \<Rightarrow> int option" where
  "number_search [] = None"
| "number_search (c # cs) = (case number_at (c # cs) of Some i \<Rightarrow> Some i | None \<Rightarrow> number_search cs)"

definition cgget :: "string option \<Rightarrow> int option" where
  "cgget output = (case output of None \<Rightarrow> None | Some s \<Rightarrow> number_search s)"

section \<open>Facts\<close>

lemma py_index_get: "py_index v k = Inr w \<Longrightarrow> py_get v k dflt = Inr w"
  by (cases v) (auto simp: py_get_def get_default_def dict_index_def split: option.splits)

lemma index_chain_get: "index_chain v ks = Inr w \<Longrightarrow> get_chain v ks = Inr w"
  by (induction v ks rule: get_chain.induct) (auto simp: bindR_eq_Inr dest: py_index_get)

lemma find_hosts_members:
  assumes "find_service_container_hosts api name = Inr hosts" and "h \<in> set hosts"
  shows "\<exists>tasks t c. api_tasks api [(''service'', PStr name), (''desired-state'', PStr state_running)] = Inr tasks
    \<and> t \<in> set tasks \<and> get_task_container_id t = Inr (PStr c) \<and> h = take cid_host_len c"
proof (cases "api_tasks api [(''service'', PStr name), (''desired-state'', PStr state_running)]")
  case (Inl e)
  then show ?thesis using assms by (auto simp: find_service_container_hosts_def split: if_splits)
next
  case (Inr tasks)
  with assms(1) have "mapR (\<lambda>t. bindR (index_chain t [''Status'', ''ContainerStatus'', ''ContainerID'']) (\<lambda>c.
      bindR (py_take cid_host_len c) py_string)) tasks = Inr hosts"
    by (simp add: find_service_container_hosts_def)
  from mapR_origin [OF this assms(2)] obtain t c where t: "t \<in> set tasks"
    "index_chain t [''Status'', ''ContainerStatus'', ''ContainerID''] = Inr c"
    "bindR (py_take cid_host_len c) py_string = Inr h"
    by (auto simp: bindR_eq_Inr)
  from t(3) obtain s where s: "c = PStr s" "h = take cid_host_len s"
    by (cases c) (auto simp: bindR_eq_Inr)
  from t(2) have "get_task_container_id t = Inr (PStr s)"
    unfolding get_task_container_id_def s(1) by (rule index_chain_get)
  with t(1) s(2) Inr show ?thesis by blast
qed

lemma service_base_name_cases:
  "service_base_name api name = Inr base \<Longrightarrow>
   base = name \<or> base = join ''.'' (butlast (split_on (CHR ''.'') name))"
  by (auto simp: service_base_name_def Let_def split: sum.splits if_splits)

text \<open>
  The hostnames found for a service are never an empty list, and each of them is the first twelve
  characters of the identifier of a container whose task the daemon listed as running, for a service
  named after the given name (with or without its network suffix) in the caller's stack.
\<close>

theorem container_hostnames_sound:
  assumes "get_service_container_hostnames api cgroup name = Inr hosts"
  shows "hosts \<noteq> [] \<and> (\<exists>ns base.
    get_current_stack_namespace api cgroup = Inr ns \<and> service_base_name api name = Inr base \<and>
    (\<forall>h\<in>set hosts. \<exists>srv\<in>set (candidate_services ns base). \<exists>tasks t c.
       api_tasks api [(''service'', PStr srv), (''desired-state'', PStr state_running)] = Inr tasks
       \<and> t \<in> set tasks \<and> get_task_container_id t = Inr (PStr c) \<and> h = take cid_host_len c))"
proof -
  obtain base ns hostss where
    b: "service_base_name api name = Inr base" "get_current_stack_namespace api cgroup = Inr ns"
    and hs: "mapR (find_service_container_hosts api) (candidate_services ns base) = Inr hostss"
    and h: "hosts = concat hostss" "hosts \<noteq> []"
    using assms by (auto simp: get_service_container_hostnames_def bindR_eq_Inr Let_def split: if_splits)
  have "\<exists>srv\<in>set (candidate_services ns base). \<exists>tasks t c.
       api_tasks api [(''service'', PStr srv), (''desired-state'', PStr state_running)] = Inr tasks
       \<and> t \<in> set tasks \<and> get_task_container_id t = Inr (PStr c) \<and> x = take cid_host_len c"
    if x: "x \<in> set hosts" for x
  proof -
    obtain ys where "ys \<in> set hostss" "x \<in> set ys" using x h(1) by auto
    with mapR_origin [OF hs] find_hosts_members show ?thesis by metis
  qed
  with b h(2) show ?thesis by blast
qed

text \<open>A daemon with one service of two replicas, for concrete instances.\<close>

definition demo_task :: "string \<Rightarrow> string \<Rightarrow> py" where
  "demo_task name cid = PDict
     [(''Name'', PStr name), (''ID'', PStr (''task_'' @ name)),
      (''EndpointIP'', PStr ''10.0.0.2''),
      (''Spec'', PDict [(''ContainerSpec'', PDict
         [(''Labels'', PDict [(stack_namespace, PStr ''wot'')])])]),
      (''Status'', PDict [(''ContainerStatus'', PDict [(''ContainerID'', PStr cid)])]),
      (''NetworksAttachments'', PList [PDict [(''Network'', PDict [(''ID'', PStr ''n1'')])]])]"

definition demo_api :: docker_api where
  "demo_api =
     \<lparr>api_tasks = (\<lambda>f. Inr (if f = [] \<or> dget f ''service'' = Some (PStr ''wot_clock'')
                            then [demo_task ''clock.1'' ''abcdefghijklmnop'', demo_task ''clock.2'' ''0123456789abcdef'']
                            else [])),
      api_inspect_network = (\<lambda>n verbose.
        if n = ''n1'' then Inr (PDict
          [(''Labels'', PDict [(label_value WOTEMU_NETWORK, PStr [])]),
           (''Services'', PDict [([], PDict []),
              (''gw'', PDict [(''Tasks'', PList [demo_task ''gw.1'' ''ffff''])])])])
        else Inl DockerNotFound),
      api_inspect_task = (\<lambda>n. Inr (PDict [(''Spec'', PDict [(''ContainerSpec'', PDict
         [(''Labels'', PDict [(label_value WOTEMU_GATEWAY, PStr [])])])])])),
      api_services = Inr [],
      api_ping = Inr ()\<rparr>"

definition demo_cgroup :: "string option" where
  "demo_cgroup = Some (''1:cpu:/docker/0123456789abcdef'' @ [CHR 0x0A])"

lemma demo_hostnames:
  "get_service_container_hostnames demo_api demo_cgroup ''clock'' = Inr [''abcdefghijkl'', ''0123456789ab'']"
  by code_simp

theorem container_hostnames_sound_witness:
  "\<exists>base. service_base_name demo_api ''clock'' = Inr base \<and> set [''abcdefghijkl'', ''0123456789ab''] \<noteq> {}"
  using container_hostnames_sound [OF demo_hostnames] by auto



lemma gather_ok: "gather result order = Inr () \<longleftrightarrow> (\<forall>k\<in>set order. result k = Inr ())"
  unfolding gather_def
proof
  assume "bindR (mapR result order) (\<lambda>_. Inr ()) = Inr ()"
  then show "\<forall>k\<in>set order. result k = Inr ()"
    using mapR_member by (fastforce simp: bindR_eq_Inr)
next
  assume "\<forall>k\<in>set order. result k = Inr ()"
  then show "bindR (mapR result order) (\<lambda>_. Inr ()) = Inr ()"
    using mapR_total [of order result "\<lambda>_. ()"] by simp
qed

text \<open>
  \<open>wait_node\<close> returns exactly when the hosts could be determined and the wait of every host's
  catalogue succeeded; a failure of the translation into replicas never escapes, it falls back on
  the name itself.
\<close>

theorem wait_node_all_hosts:
  assumes "\<forall>us. set (order us) = set us"
    and "\<forall>e. get_service_container_hostnames api cgroup name = Inl e \<longrightarrow> is_Exception e"
  shows "\<exists>hosts. wait_hosts api cgroup name replicas = Inr hosts
     \<and> (isl (get_service_container_hostnames api cgroup name) \<or> \<not> replicas \<longrightarrow> hosts = [name])
     \<and> (wait_node api cgroup port name replicas result order = Inr () \<longleftrightarrow>
          (\<forall>h\<in>set hosts. result (catalogue_url port h) = Inr ()))"
proof -
  obtain hosts where h: "wait_hosts api cgroup name replicas = Inr hosts"
    "isl (get_service_container_hostnames api cgroup name) \<or> \<not> replicas \<longrightarrow> hosts = [name]"
    using assms(2) by (cases "get_service_container_hostnames api cgroup name"; cases replicas)
      (auto simp: wait_hosts_def)
  have "wait_node api cgroup port name replicas result order = Inr () \<longleftrightarrow>
      (\<forall>u\<in>set (map (catalogue_url port) hosts). result u = Inr ())"
    using assms(1) by (simp add: wait_node_def h gather_ok del: set_map)
  with h show ?thesis by simp
qed

theorem wait_node_all_hosts_witness:
  "wait_node demo_api demo_cgroup (PInt 9090) ''clock'' True (\<lambda>u. Inr ()) rev = Inr ()"
proof -
  have "\<forall>e. get_service_container_hostnames demo_api demo_cgroup ''clock'' = Inl e \<longrightarrow> is_Exception e"
    by (simp add: demo_hostnames)
  from wait_node_all_hosts [OF _ this, where order = rev and port = "PInt 9090" and replicas = True
      and result = "\<lambda>u. Inr ()"]
  show ?thesis by auto
qed

end
