(* ===== verification/Routes.thy ===== *)
theory Routes
  imports DockerUtils
begin

text \<open>
  \<^verbatim>\<open>wotemu/cli/routes.py\<close>: the routing of a node through the gateways of its networks. The state is
  the module's cached table index, the host (any type \<open>'h\<close>; the shell is a parameter that maps a
  host and a command line to a return code and the host it leaves) and the log of the commands run.
\<close>

record 'h rt_state =
  rt_index :: "nat option"
  rt_host :: 'h
  rt_log :: "(string \<times> int) list"

type_synonym 'h shell = "'h \<Rightarrow> string \<Rightarrow> int \<times> 'h"

text \<open>\<open>subprocess.run(cmd, shell=True)\<close> without and with \<open>check=True\<close>.\<close>

definition sh_run :: "'h shell \<Rightarrow> string \<Rightarrow> ('h rt_state, int) prog" where
  "sh_run sh cmd s =
     (case sh (rt_host s) cmd of
        (rc, h) \<Rightarrow> (Inr rc, s\<lparr>rt_host := h, rt_log := rt_log s @ [(cmd, rc)]\<rparr>))"

definition sh_check :: "'h shell \<Rightarrow> string \<Rightarrow> ('h rt_state, unit) prog" where
  "sh_check sh cmd =
     bindP (sh_run sh cmd) (\<lambda>rc. if rc = 0 then retP () else raiseP (CalledProcessError cmd))"

definition rt_tables_path :: string where
  "rt_tables_path = ''/etc/iproute2/rt_tables''"

definition grep_rtable :: "nat \<Rightarrow> string" where
  "grep_rtable idx = ''grep -q '' @ [CHR 0x27] @ nat_str idx @ [CHR 0x5C] @ ''s.*'' @ [CHR 0x27]
     @ '' '' @ rt_tables_path"

definition exists_rtable :: "'h shell \<Rightarrow> nat \<Rightarrow> ('h rt_state, bool) prog" where
  "exists_rtable sh idx = bindP (sh_run sh (grep_rtable idx)) (\<lambda>rc. retP (rc = 0))"

fun first_free :: "'h shell \<Rightarrow> nat list \<Rightarrow> ('h rt_state, nat) prog" where
  "first_free sh [] = raiseP StopIteration"
| "first_free sh (i # is) =
     bindP (exists_rtable sh i) (\<lambda>b. if \<not> b then retP i else first_free sh is)"

definition next_rtable_index :: "'h shell \<Rightarrow> ('h rt_state, nat) prog" where
  "next_rtable_index sh s =
     (case rt_index s of
        Some i \<Rightarrow> (Inr i, s)
      | None \<Rightarrow>
          bindP (first_free sh (rev [10..<201]))
            (\<lambda>i. bindP (modifyP (\<lambda>s. s\<lparr>rt_index := Some i\<rparr>)) (\<lambda>_. retP i)) s)"

definition show_table :: "string \<Rightarrow> string" where
  "show_table name = ''ip route show table '' @ name"

definition rtable_exists :: "'h shell \<Rightarrow> string \<Rightarrow> ('h rt_state, bool) prog" where
  "rtable_exists sh name = bindP (sh_run sh (show_table name)) (\<lambda>rc. retP (rc = 0))"

section \<open>The commands of a gateway\<close>

fun hex_nat :: "nat \<Rightarrow> string" where
  "hex_nat n = (if n < 16 then [hex_digit n] else hex_nat (n div 16) @ [hex_digit (n mod 16)])"

definition py_hex :: "int \<Rightarrow> string" where
  "py_hex i = (if i < 0 then ''-0x'' @ hex_nat (nat (- i)) else ''0x'' @ hex_nat (nat i))"

definition iptables_rule :: "string \<Rightarrow> string \<Rightarrow> string \<Rightarrow> py \<Rightarrow> int \<Rightarrow> string" where
  "iptables_rule ifname proto flag port mark =
     ''iptables -A OUTPUT -t mangle -o '' @ ifname @ '' -p '' @ proto @ '' '' @ flag @ '' '' @ py_str port
     @ '' -j MARK --set-mark '' @ int_str mark"

definition iptables_rules :: "string \<Rightarrow> int \<Rightarrow> string \<Rightarrow> py \<Rightarrow> string list" where
  "iptables_rules ifname mark proto port =
     [iptables_rule ifname proto ''--dport'' port mark, iptables_rule ifname proto ''--sport'' port mark]"

definition cmd_rt_entry :: "nat \<Rightarrow> string \<Rightarrow> string" where
  "cmd_rt_entry idx name =
     (let entry = [CHR 0x22] @ nat_str idx @ '' '' @ name @ [CHR 0x22]
      in ''grep -Fxq '' @ entry @ '' '' @ rt_tables_path @ '' || echo '' @ entry @ '' >> '' @ rt_tables_path)"

definition cmd_route_add :: "string \<Rightarrow> py \<Rightarrow> string \<Rightarrow> py \<Rightarrow> string \<Rightarrow> string" where
  "cmd_route_add cidr gw ifname addr name =
     ''ip route add '' @ cidr @ '' via '' @ py_str gw @ '' onlink dev '' @ ifname
     @ '' proto kernel src '' @ py_str addr @ '' table '' @ name"

definition cmd_rule_add :: "int \<Rightarrow> string \<Rightarrow> string" where
  "cmd_rule_add mark name = ''ip rule add fwmark '' @ py_hex mark @ '' table '' @ name"

definition gateway_commands ::
  "host_net \<Rightarrow> py \<Rightarrow> py list \<Rightarrow> py list \<Rightarrow> string \<Rightarrow> int \<Rightarrow> nat \<Rightarrow> string list res" where
  "gateway_commands hn gw_task ports_tcp ports_udp name mark idx =
     bindR (get_output_iface_for_task hn gw_task) (\<lambda>(ifname, ifaddr).
     bindR (py_index ifaddr ''addr'') (\<lambda>addr.
     bindR (py_index ifaddr ''netmask'') (\<lambda>mask.
     bindR (hn_cidr hn addr mask) (\<lambda>cidr.
     bindR (py_index gw_task ''EndpointIP'') (\<lambda>gw_ip.
       Inr ([cmd_rt_entry idx name, cmd_route_add cidr gw_ip ifname addr name, cmd_rule_add mark name]
            @ concat (map (iptables_rules ifname mark ''tcp'') ports_tcp)
            @ concat (map (iptables_rules ifname mark ''udp'') ports_udp)))))))"

definition build_routing_commands ::
  "'h shell \<Rightarrow> host_net \<Rightarrow> py \<Rightarrow> py list \<Rightarrow> py list \<Rightarrow> string \<Rightarrow> int \<Rightarrow> ('h rt_state, string list) prog" where
  "build_routing_commands sh hn gw_task ports_tcp ports_udp name mark =
     bindP (next_rtable_index sh) (\<lambda>idx.
       liftP (gateway_commands hn gw_task ports_tcp ports_udp name mark idx))"

section \<open>The update\<close>

fun run_commands :: "'h shell \<Rightarrow> string list \<Rightarrow> ('h rt_state, unit) prog" where
  "run_commands sh [] = retP ()"
| "run_commands sh (c # cs) = bindP (sh_check sh c) (\<lambda>_. run_commands sh cs)"

fun forP :: "('a \<Rightarrow> ('s, 'b) prog) \<Rightarrow> 'a list \<Rightarrow> ('s, 'b list) prog" where
  "forP f [] = retP []"
| "forP f (x # xs) = bindP (f x) (\<lambda>y. bindP (forP f xs) (\<lambda>ys. retP (y # ys)))"

definition all_ports_tcp :: "env_config \<Rightarrow> py list res" where
  "all_ports_tcp conf =
     (let base = [port_http conf, port_ws conf, port_mqtt conf, port_coap conf]
      in if truthy (other_ports_tcp conf)
         then bindR (as_list (other_ports_tcp conf)) (\<lambda>xs. Inr (base @ xs)) else Inr base)"

definition all_ports_udp :: "env_config \<Rightarrow> py list res" where
  "all_ports_udp conf =
     (let base = [port_coap conf]
      in if truthy (other_ports_udp conf)
         then bindR (as_list (other_ports_udp conf)) (\<lambda>xs. Inr (base @ xs)) else Inr base)"

definition no_gateway :: "string \<Rightarrow> exn" where
  "no_gateway net = RuntimeError (''Could not find gateway task for network '' @ net)"

definition gateway_tasks :: "docker_api \<Rightarrow> string list \<Rightarrow> py dict res" where
  "gateway_tasks api nets =
     bindR (mapR (\<lambda>n. case get_network_gateway_task api n of
              Inl _ \<Rightarrow> Inl (no_gateway n) | Inr t \<Rightarrow> Inr (n, t)) nets) (\<lambda>kvs.
       Inr (dupdate [] kvs))"

text \<open>
  \<open>update_routing\<close>, in two parts: the commands of all gateways are built (nothing is built when the
  table exists), and only then run.
\<close>

definition routing_plan ::
  "'h shell \<Rightarrow> docker_api \<Rightarrow> string option \<Rightarrow> host_net \<Rightarrow> env_config \<Rightarrow> string \<Rightarrow> int \<Rightarrow>
   ('h rt_state, string list list option) prog" where
  "routing_plan sh api cgroup hn conf name mark =
     bindP (liftP (all_ports_tcp conf)) (\<lambda>tcp.
     bindP (liftP (all_ports_udp conf)) (\<lambda>udp.
     bindP (liftP (ping_docker api)) (\<lambda>_.
     bindP (rtable_exists sh name) (\<lambda>there.
       if there then retP None
       else
         bindP (liftP (get_current_task api cgroup)) (\<lambda>task.
         bindP (liftP (get_task_networks api task)) (\<lambda>nets.
         bindP (liftP (gateway_tasks api nets)) (\<lambda>gws.
         bindP (forP (\<lambda>(n, t). build_routing_commands sh hn t tcp udp name mark) gws) (\<lambda>cmdss.
           retP (Some cmdss)))))))))"

definition update_routing ::
  "'h shell \<Rightarrow> docker_api \<Rightarrow> string option \<Rightarrow> host_net \<Rightarrow> env_config \<Rightarrow> string \<Rightarrow> int \<Rightarrow> bool \<Rightarrow>
   ('h rt_state, unit) prog" where
  "update_routing sh api cgroup hn conf name mark do_apply =
     bindP (routing_plan sh api cgroup hn conf name mark) (\<lambda>plan.
       case plan of
         None \<Rightarrow> retP ()
       | Some cmdss \<Rightarrow>
           if \<not> do_apply then retP ()
           else bindP (forP (run_commands sh) cmdss) (\<lambda>_. retP ()))"

declare hex_nat.simps [simp del]

section \<open>The table index\<close>

lemma first_free_index: "rt_index (snd (first_free sh is s)) = rt_index s"
  by (induction sh "is" arbitrary: s rule: first_free.induct)
    (simp_all add: bindP_def exists_rtable_def sh_run_def split: prod.split)

interpretation rtindex: read_once rt_index "next_rtable_index sh" for sh :: "'h shell"
proof unfold_locales
  fix s s' :: "'h rt_state" and v :: nat and e :: exn
  show "rt_index s = Some v \<Longrightarrow> next_rtable_index sh s = (Inr v, s)"
    by (simp add: next_rtable_index_def)
  show "next_rtable_index sh s = (Inr v, s') \<Longrightarrow> rt_index s' = Some v"
    by (auto simp: next_rtable_index_def bindP_def split: option.splits prod.splits sum.splits)
  show "next_rtable_index sh s = (Inl e, s') \<Longrightarrow> rt_index s' = None"
    using first_free_index [of sh "rev [10..<201]" s]
    by (auto simp: next_rtable_index_def bindP_def split: option.splits prod.splits sum.splits)
qed

section \<open>What the update runs\<close>

text \<open>Commands that only look: the table's routes and the entries of the table file.\<close>

definition probe_commands :: "string \<Rightarrow> string set" where
  "probe_commands name = insert (show_table name) (range grep_rtable)"

definition only_probes :: "string \<Rightarrow> (string \<times> int) list \<Rightarrow> bool" where
  "only_probes name lg \<longleftrightarrow> fst ` set lg \<subseteq> probe_commands name"

text \<open>\<open>extends P m\<close>: whatever its result, \<open>m\<close> only appends to the log, and what it appends satisfies \<open>P\<close>.\<close>

definition extends :: "((string \<times> int) list \<Rightarrow> bool) \<Rightarrow> ('h rt_state, 'a) prog \<Rightarrow> bool" where
  "extends P m \<longleftrightarrow> (\<forall>s. \<exists>l. rt_log (snd (m s)) = rt_log s @ l \<and> P l)"

lemma extends_bind:
  assumes "extends (only_probes n) m" and "\<And>x. extends (only_probes n) (f x)"
  shows "extends (only_probes n) (bindP m f)"
  unfolding extends_def
proof
  fix s
  obtain l1 where l1: "rt_log (snd (m s)) = rt_log s @ l1" "only_probes n l1"
    using assms(1) unfolding extends_def by blast
  obtain r s1 where m: "m s = (r, s1)" by (cases "m s")
  show "\<exists>l. rt_log (snd (bindP m f s)) = rt_log s @ l \<and> only_probes n l"
  proof (cases r)
    case (Inl e)
    then show ?thesis using l1 m by (auto simp: bindP_def)
  next
    case (Inr x)
    obtain l2 where "rt_log (snd (f x s1)) = rt_log s1 @ l2" "only_probes n l2"
      using assms(2) unfolding extends_def by blast
    then show ?thesis using l1 m Inr by (auto simp: bindP_def only_probes_def image_Un)
  qed
qed

lemma extends_pure:
  "extends (only_probes n) (retP x)" "extends (only_probes n) (raiseP e)" "extends (only_probes n) (liftP r)"
  by (simp_all add: extends_def only_probes_def)

lemma extends_modify: "extends (only_probes n) (modifyP (\<lambda>s. s\<lparr>rt_index := i\<rparr>))"
  by (simp add: extends_def only_probes_def)

lemma extends_probe: "c \<in> probe_commands n \<Longrightarrow> extends (only_probes n) (sh_run sh c)"
  by (simp add: extends_def only_probes_def sh_run_def split: prod.split)

lemmas probes_intros = extends_bind extends_pure extends_modify

lemma extends_first_free: "extends (only_probes n) (first_free sh is)"
proof (induction sh "is" rule: first_free.induct)
  case (1 sh)
  show ?case unfolding first_free.simps by (rule extends_pure)
next
  case (2 sh i "is")
  have "extends (only_probes n) (exists_rtable sh i)"
    unfolding exists_rtable_def by (intro probes_intros extends_probe) (simp add: probe_commands_def)
  then show ?case
    unfolding first_free.simps using 2 by (intro extends_bind) (auto intro: extends_pure)
qed

lemma extends_index: "extends (only_probes n) (next_rtable_index sh)"
  unfolding extends_def
proof
  fix s
  have "extends (only_probes n) (bindP (first_free sh (rev [10..<201]))
            (\<lambda>i. bindP (modifyP (\<lambda>s. s\<lparr>rt_index := Some i\<rparr>)) (\<lambda>_. retP i)))"
    by (intro probes_intros extends_first_free)
  then show "\<exists>l. rt_log (snd (next_rtable_index sh s)) = rt_log s @ l \<and> only_probes n l"
    by (auto simp: next_rtable_index_def extends_def only_probes_def split: option.split)
qed

lemma extends_forP: "(\<And>x. extends (only_probes n) (f x)) \<Longrightarrow> extends (only_probes n) (forP f xs)"
  by (induction xs) (auto intro!: probes_intros)

lemma extends_build: "extends (only_probes n) (build_routing_commands sh hn t tcp udp name mark)"
  unfolding build_routing_commands_def by (intro probes_intros extends_index)

lemma extends_if: "extends P m1 \<Longrightarrow> extends P m2 \<Longrightarrow> extends P (if b then m1 else m2)"
  by simp

lemma extends_plan: "extends (only_probes name) (routing_plan sh api cgroup hn conf name mark)"
  unfolding routing_plan_def rtable_exists_def
  by (intro probes_intros extends_if extends_forP extends_probe)
    (auto simp: probe_commands_def intro: extends_build)

text \<open>Running commands in order until one fails.\<close>

definition ran_all :: "(string \<times> int) list \<Rightarrow> bool" where
  "ran_all done1 = list_all (\<lambda>(c, rc). rc = 0) done1"

definition ran_prefix :: "string list \<Rightarrow> 'a res \<Rightarrow> (string \<times> int) list \<Rightarrow> bool" where
  "ran_prefix cmds r done1 \<longleftrightarrow>
     (case r of
        Inr _ \<Rightarrow> map fst done1 = cmds \<and> ran_all done1
      | Inl e \<Rightarrow> \<exists>ok c rc. done1 = ok @ [(c, rc)] \<and> ran_all ok \<and> rc \<noteq> 0
                  \<and> prefix (map fst done1) cmds \<and> e = CalledProcessError c)"

lemma run_commands_log:
  "\<exists>ran. rt_log (snd (run_commands sh cmds s)) = rt_log s @ ran
     \<and> ran_prefix cmds (fst (run_commands sh cmds s)) ran"
proof (induction cmds arbitrary: s)
  case Nil
  then show ?case by (simp add: ran_prefix_def ran_all_def)
next
  case (Cons c cmds)
  obtain rc h where c: "sh (rt_host s) c = (rc, h)" by (cases "sh (rt_host s) c")
  define s1 where "s1 = s\<lparr>rt_host := h, rt_log := rt_log s @ [(c, rc)]\<rparr>"
  have check: "sh_check sh c s = (if rc = 0 then (Inr (), s1) else (Inl (CalledProcessError c), s1))"
    by (simp add: sh_check_def sh_run_def bindP_def c s1_def)
  show ?case
  proof (cases "rc = 0")
    case False
    then show ?thesis
      by (intro exI [of _ "[(c, rc)]"])
        (auto simp: check bindP_def ran_prefix_def ran_all_def s1_def)
  next
    case True
    obtain ran where ran: "rt_log (snd (run_commands sh cmds s1)) = rt_log s1 @ ran"
      "ran_prefix cmds (fst (run_commands sh cmds s1)) ran"
      using Cons.IH by blast
    have "ran_prefix (c # cmds) (fst (run_commands sh cmds s1)) ((c, rc) # ran)"
    proof (cases "fst (run_commands sh cmds s1)")
      case (Inr u)
      then show ?thesis using ran(2) True by (simp add: ran_prefix_def ran_all_def)
    next
      case (Inl e)
      then obtain ok c' rc' where "ran = ok @ [(c', rc')]" "ran_all ok" "rc' \<noteq> 0"
        "prefix (map fst ran) cmds" "e = CalledProcessError c'"
        using ran(2) by (auto simp: ran_prefix_def)
      then show ?thesis
        using Inl True by (auto simp: ran_prefix_def ran_all_def intro!: exI [of _ "(c, rc) # ok"])
    qed
    then show ?thesis
      using ran(1) True by (intro exI [of _ "(c, rc) # ran"]) (simp add: check bindP_def s1_def)
  qed
qed

lemma ran_prefix_more: "ran_prefix cmds (Inl e) done1 \<Longrightarrow> ran_prefix (cmds @ rest) (Inl e) done1"
  by (auto simp: ran_prefix_def intro: prefix_append)

lemma ran_prefix_append:
  assumes "ran_prefix cmds (Inr x) ran1" and "ran_prefix rest r ran2"
  shows "ran_prefix (cmds @ rest) r (ran1 @ ran2)"
proof (cases r)
  case (Inr y)
  then show ?thesis using assms by (simp add: ran_prefix_def ran_all_def)
next
  case (Inl e)
  then obtain ok c rc where "ran2 = ok @ [(c, rc)]" "ran_all ok" "rc \<noteq> 0" "prefix (map fst ran2) rest"
    "e = CalledProcessError c"
    using assms(2) by (auto simp: ran_prefix_def)
  then show ?thesis
    using assms(1) Inl by (auto simp: ran_prefix_def ran_all_def intro!: exI [of _ "ran1 @ ok"])
qed

lemma run_all_log:
  "\<exists>ran. rt_log (snd (forP (run_commands sh) cmdss s)) = rt_log s @ ran
     \<and> ran_prefix (concat cmdss) (fst (forP (run_commands sh) cmdss s)) ran"
proof (induction cmdss arbitrary: s)
  case Nil
  then show ?case by (simp add: ran_prefix_def ran_all_def)
next
  case (Cons cmds cmdss)
  obtain r s1 where m: "run_commands sh cmds s = (r, s1)" by (cases "run_commands sh cmds s")
  obtain ran1 where ran1: "rt_log s1 = rt_log s @ ran1" "ran_prefix cmds r ran1"
    using run_commands_log [of sh cmds s] m by auto
  show ?case
  proof (cases r)
    case (Inl e)
    then show ?thesis using ran1 m ran_prefix_more by (auto simp: bindP_def ran_prefix_def)
  next
    case (Inr u)
    obtain ran2 where ran2: "rt_log (snd (forP (run_commands sh) cmdss s1)) = rt_log s1 @ ran2"
      "ran_prefix (concat cmdss) (fst (forP (run_commands sh) cmdss s1)) ran2"
      using Cons.IH by blast
    obtain r2 s2 where m2: "forP (run_commands sh) cmdss s1 = (r2, s2)"
      by (cases "forP (run_commands sh) cmdss s1")
    have "ran_prefix (cmds @ concat cmdss) r2 (ran1 @ ran2)"
      using ran_prefix_append ran1(2) ran2(2) Inr m2 by auto
    then show ?thesis
      using ran1(1) ran2(1) m m2 Inr
      by (intro exI [of _ "ran1 @ ran2"]) (auto simp: bindP_def ran_prefix_def split: sum.splits)
  qed
qed

text \<open>
  Without \<open>--apply\<close>, whatever the daemon and the shell answer and whether it returns or raises,
  the update only runs commands that look at the table and its file.
\<close>

theorem dry_run_only_probes:
  "\<exists>l. rt_log (snd (update_routing sh api cgroup hn conf name mark False s)) = rt_log s @ l \<and> only_probes name l"
proof -
  have "extends (only_probes name) (update_routing sh api cgroup hn conf name mark False)"
    unfolding update_routing_def
    by (rule extends_bind [OF extends_plan]) (auto split: option.split intro: extends_pure)
  then show ?thesis by (simp add: extends_def)
qed

text \<open>
  C21. With \<open>--apply\<close> the commands of all gateways are built before the first is run: when building
  fails (no gateway, no interface) nothing but probes has run. Otherwise they run in order, each once,
  up to the first that fails, whose error is raised.
\<close>

theorem routing_all_or_nothing:
  "\<exists>probes ran. rt_log (snd (update_routing sh api cgroup hn conf name mark True s)) = rt_log s @ probes @ ran
     \<and> only_probes name probes
     \<and> (case fst (routing_plan sh api cgroup hn conf name mark s) of
          Inl e \<Rightarrow> ran = [] \<and> fst (update_routing sh api cgroup hn conf name mark True s) = Inl e
        | Inr None \<Rightarrow> ran = [] \<and> fst (update_routing sh api cgroup hn conf name mark True s) = Inr ()
        | Inr (Some cmdss) \<Rightarrow>
            ran_prefix (concat cmdss) (fst (update_routing sh api cgroup hn conf name mark True s)) ran)"
proof -
  obtain p s1 where p: "routing_plan sh api cgroup hn conf name mark s = (p, s1)"
    by (cases "routing_plan sh api cgroup hn conf name mark s")
  obtain probes where probes: "rt_log s1 = rt_log s @ probes" "only_probes name probes"
    using extends_plan [of name sh api cgroup hn conf mark] p unfolding extends_def by (metis snd_conv)
  consider e where "p = Inl e" | "p = Inr None" | cmdss where "p = Inr (Some cmdss)"
    by (metis option.exhaust sum.exhaust)
  then show ?thesis
  proof cases
    case 3
    obtain r s2 where m: "forP (run_commands sh) cmdss s1 = (r, s2)" by (cases "forP (run_commands sh) cmdss s1")
    obtain ran where ran: "rt_log s2 = rt_log s1 @ ran" "ran_prefix (concat cmdss) r ran"
      using run_all_log [of sh cmdss s1] m by auto
    show ?thesis
      using ran probes 3
      by (intro exI [of _ probes] exI [of _ ran])
        (auto simp: update_routing_def bindP_def p m ran_prefix_def split: sum.splits)
  qed (use probes in \<open>auto simp: update_routing_def bindP_def p\<close>)
qed

section \<open>The commands\<close>

lemma build_index:
  assumes "rt_index s = Some i" and "build_routing_commands sh hn t tcp udp name mark s = (Inr cmds, s')"
  shows "gateway_commands hn t tcp udp name mark i = Inr cmds" "rt_index s' = Some i"
  using assms by (auto simp: build_routing_commands_def bindP_def rtindex.hit)

lemma build_fills:
  assumes "build_routing_commands sh hn t tcp udp name mark s = (Inr cmds, s')"
  obtains i where "rt_index s' = Some i" "gateway_commands hn t tcp udp name mark i = Inr cmds"
  using assms rtindex.fill
  by (fastforce simp: build_routing_commands_def bindP_def split: prod.splits sum.splits)

lemma build_all_index:
  assumes "rt_index s = Some i"
    and "forP (\<lambda>(n, t). build_routing_commands sh hn t tcp udp name mark) gws s = (Inr cmdss, s')"
  shows "\<forall>cmds\<in>set cmdss. \<exists>t. gateway_commands hn t tcp udp name mark i = Inr cmds"
  using assms
proof (induction gws arbitrary: s cmdss)
  case Nil
  then show ?case by simp
next
  case (Cons g gws)
  obtain n t where g: "g = (n, t)" by (cases g)
  obtain cmds s1 rest where m: "build_routing_commands sh hn t tcp udp name mark s = (Inr cmds, s1)"
    "forP (\<lambda>(n, t). build_routing_commands sh hn t tcp udp name mark) gws s1 = (Inr rest, s')"
    "cmdss = cmds # rest"
    using Cons.prems(2) by (auto simp: g bindP_def split: prod.splits sum.splits)
  note one = build_index [OF Cons.prems(1) m(1)]
  show ?case using Cons.IH [OF one(2) m(2)] one(1) m(3) by auto
qed

text \<open>
  The commands planned for the gateways of a node all use one index of the routing table; each
  list registers the table, adds the route and the rule, and marks the traffic of every port in both
  directions for its protocol.
\<close>

theorem plan_shares_index:
  assumes "fst (routing_plan sh api cgroup hn conf name mark s) = Inr (Some cmdss)"
  shows "\<exists>idx tcp udp. all_ports_tcp conf = Inr tcp \<and> all_ports_udp conf = Inr udp \<and>
    (\<forall>cmds\<in>set cmdss. hd cmds = cmd_rt_entry idx name
       \<and> length cmds = 3 + 2 * length tcp + 2 * length udp
       \<and> (\<exists>ifname. (\<forall>port\<in>set tcp. set (iptables_rules ifname mark ''tcp'' port) \<subseteq> set cmds)
                 \<and> (\<forall>port\<in>set udp. set (iptables_rules ifname mark ''udp'' port) \<subseteq> set cmds)))"
proof -
  obtain tcp udp s1 s2 and gws :: "py dict" where ports: "all_ports_tcp conf = Inr tcp" "all_ports_udp conf = Inr udp"
    and b: "forP (\<lambda>(n, t). build_routing_commands sh hn t tcp udp name mark) gws s1 = (Inr cmdss, s2)"
  proof -
    obtain sf where "routing_plan sh api cgroup hn conf name mark s = (Inr (Some cmdss), sf)"
      using assms by (cases "routing_plan sh api cgroup hn conf name mark s") simp
    then show thesis
      unfolding routing_plan_def using that by (auto simp: bindP_eq_Inr split: if_splits)
  qed
  have "\<exists>idx. \<forall>cmds\<in>set cmdss. \<exists>t. gateway_commands hn t tcp udp name mark idx = Inr cmds"
  proof (cases gws)
    case Nil
    then show ?thesis using b by simp
  next
    case (Cons g rest)
    obtain n t where g: "g = (n, t)" by (cases g)
    obtain cmds sm cmdss' where m: "build_routing_commands sh hn t tcp udp name mark s1 = (Inr cmds, sm)"
      "forP (\<lambda>(n, t). build_routing_commands sh hn t tcp udp name mark) rest sm = (Inr cmdss', s2)"
      "cmdss = cmds # cmdss'"
      using b by (auto simp: Cons g bindP_def split: prod.splits sum.splits)
    obtain i where i: "rt_index sm = Some i" "gateway_commands hn t tcp udp name mark i = Inr cmds"
      using build_fills [OF m(1)] by blast
    show ?thesis using build_all_index [OF i(1) m(2)] i(2) m(3) by auto
  qed
  then obtain idx where idx: "\<And>cmds. cmds \<in> set cmdss \<Longrightarrow> \<exists>t. gateway_commands hn t tcp udp name mark idx = Inr cmds"
    by blast
  have len: "length (concat (map (iptables_rules ifname mark proto) ps)) = 2 * length ps" for ifname proto ps
    by (induction ps) (simp_all add: iptables_rules_def)
  have "hd cmds = cmd_rt_entry idx name \<and> length cmds = 3 + 2 * length tcp + 2 * length udp
       \<and> (\<exists>ifname. (\<forall>port\<in>set tcp. set (iptables_rules ifname mark ''tcp'' port) \<subseteq> set cmds)
                 \<and> (\<forall>port\<in>set udp. set (iptables_rules ifname mark ''udp'' port) \<subseteq> set cmds))"
    if c: "cmds \<in> set cmdss" for cmds
  proof -
    obtain ifname cidr gw addr where
      "cmds = [cmd_rt_entry idx name, cmd_route_add cidr gw ifname addr name, cmd_rule_add mark name]
            @ concat (map (iptables_rules ifname mark ''tcp'') tcp)
            @ concat (map (iptables_rules ifname mark ''udp'') udp)"
      using idx [OF c] by (auto simp: gateway_commands_def bindR_eq_Inr)
    then show ?thesis using len by auto
  qed
  with ports show ?thesis by blast
qed

text \<open>A host with one interface on the task's network, and a shell on which every lookup fails.\<close>

definition demo_host :: host_net where
  "demo_host = \<lparr>hn_interfaces = [''lo'', ''eth0''],
     hn_addresses = (\<lambda>n. if n = ''eth0'' then Some [PDict [(''addr'', PStr ''10.0.0.9''), (''netmask'', PStr ''255.255.255.0'')]]
                         else None),
     hn_in_network = (\<lambda>ip a m. Inr True), hn_cidr = (\<lambda>a m. Inr ''10.0.0.0/24'')\<rparr>"

definition demo_shell :: "nat shell" where
  "demo_shell h cmd = (if startswith cmd ''iptables'' then 4 else if startswith cmd ''ip r'' \<and> \<not> startswith cmd ''ip route show'' then 0
                       else if startswith cmd ''grep -Fxq'' then 0 else 1, Suc h)"

definition demo_state :: "nat rt_state" where
  "demo_state = \<lparr>rt_index = Some 200, rt_host = 0, rt_log = []\<rparr>"

definition demo_conf :: env_config where
  "demo_conf = get_env_config Map.empty"

lemma demo_ports: "all_ports_tcp demo_conf = Inr [PInt 80, PInt 81, PInt 1883, PInt 5683]"
  "all_ports_udp demo_conf = Inr [PInt 5683]"
  by (simp_all add: demo_conf_def get_env_config_def Let_def getenv_int_def getenv_def all_ports_tcp_def
      all_ports_udp_def py_and_def)

lemma demo_gateways:
  "bindR (get_current_task demo_api demo_cgroup) (\<lambda>t. bindR (get_task_networks demo_api t) (gateway_tasks demo_api)) =
     Inr [(''n1'', demo_task ''gw.1'' ''ffff'')]"
  by code_simp

lemma demo_plan:
  "\<exists>cmds. fst (routing_plan demo_shell demo_api demo_cgroup demo_host demo_conf ''wotemu'' 1 demo_state) = Inr (Some [cmds])"
proof -
  obtain t nets where t: "get_current_task demo_api demo_cgroup = Inr t" "get_task_networks demo_api t = Inr nets"
    "gateway_tasks demo_api nets = Inr [(''n1'', demo_task ''gw.1'' ''ffff'')]"
    using demo_gateways by (auto simp: bindR_eq_Inr)
  have ping: "ping_docker demo_api = Inr ()" by (simp add: ping_docker_def demo_api_def)
  have show1: "fst (rtable_exists demo_shell ''wotemu'' demo_state) = Inr False"
    "rt_index (snd (rtable_exists demo_shell ''wotemu'' demo_state)) = Some 200"
    by (simp_all add: rtable_exists_def sh_run_def demo_shell_def bindP_def show_table_def startswith_def demo_state_def)
  then obtain s1 where s1: "rtable_exists demo_shell ''wotemu'' demo_state = (Inr False, s1)" "rt_index s1 = Some 200"
    by (metis prod.collapse)
  have "\<exists>cmds. gateway_commands demo_host (demo_task ''gw.1'' ''ffff'') tcp udp ''wotemu'' 1 200 = Inr cmds" for tcp udp
    by (simp add: gateway_commands_def get_output_iface_for_task_def demo_task_def demo_host_def dict_index_def
        dget_Cons next_or_def)
  then obtain cmds where "gateway_commands demo_host (demo_task ''gw.1'' ''ffff'') [PInt 80, PInt 81, PInt 1883, PInt 5683]
      [PInt 5683] ''wotemu'' 1 200 = Inr cmds" by blast
  then show ?thesis
    by (simp add: routing_plan_def bindP_def t ping s1 demo_ports build_routing_commands_def rtindex.hit)
qed

theorem plan_shares_index_witness:
  "\<exists>cmds idx. fst (routing_plan demo_shell demo_api demo_cgroup demo_host demo_conf ''wotemu'' 1 demo_state) = Inr (Some [cmds])
     \<and> hd cmds = cmd_rt_entry idx ''wotemu''"
proof -
  obtain cmds where cmds: "fst (routing_plan demo_shell demo_api demo_cgroup demo_host demo_conf ''wotemu'' 1 demo_state) = Inr (Some [cmds])"
    using demo_plan by blast
  from plan_shares_index [OF cmds] show ?thesis using cmds by auto
qed

end
