(* ===== verification/Chaos.thy ===== *)
theory Chaos
  imports Models
begin

text \<open>
  \<^verbatim>\<open>wotemu/cli/chaos.py\<close>: the gateway container degrades its network with \<open>tc\<close>. The state is the log
  of the commands that were called; \<open>succeeds\<close> tells, from the log and the command, whether a command
  exits with 0. The interfaces of the container are the parameter \<open>gateway_net\<close>.
\<close>

record gateway_net =
  gn_default_iface :: "string option"
  gn_interfaces :: "string list"

definition find_chaos_interface :: "gateway_net \<Rightarrow> string res" where
  "find_chaos_interface gn =
     (case filter (\<lambda>i. i \<noteq> ''lo'' \<and> Some i \<noteq> gn_default_iface gn) (gn_interfaces gn) of
        [] \<Rightarrow> Inl (RuntimeError ''Could not find chaos network interface'')
      | i # _ \<Rightarrow> Inr i)"

type_synonym tc_oracle = "string list \<Rightarrow> string \<Rightarrow> bool"

definition tc_call :: "string \<Rightarrow> (string list, unit) prog" where
  "tc_call cmd lg = (Inr (), lg @ [cmd])"

definition tc_check_call :: "tc_oracle \<Rightarrow> string \<Rightarrow> (string list, unit) prog" where
  "tc_check_call succeeds cmd lg =
     (if succeeds lg cmd then (Inr (), lg @ [cmd]) else (Inl (CalledProcessError cmd), lg @ [cmd]))"

definition clean_cmd :: "string \<Rightarrow> string" where
  "clean_cmd nic = ''tc qdisc del dev '' @ nic @ '' root''"

definition clean_netem :: "string \<Rightarrow> (string list, unit) prog" where
  "clean_netem nic = tc_call (clean_cmd nic)"

definition qdisc_handle :: "bool \<Rightarrow> string" where
  "qdisc_handle root = (if root then ''root handle 1:'' else ''parent 1: handle 2:'')"

definition default_if_none :: "py \<Rightarrow> py \<Rightarrow> py" where
  "default_if_none v dflt = (if v = PNone then dflt else v)"

definition delay_cmd :: "string \<Rightarrow> py \<Rightarrow> py \<Rightarrow> py \<Rightarrow> bool \<Rightarrow> string" where
  "delay_cmd nic latency jitter corr root =
     ''tc qdisc add dev '' @ nic @ '' '' @ qdisc_handle root @ '' netem delay '' @ py_str latency @ ''ms ''
     @ py_str jitter @ ''ms '' @ py_str (default_if_none corr (PInt 0)) @ ''% distribution normal''"

definition rate_cmd :: "string \<Rightarrow> py \<Rightarrow> py \<Rightarrow> py \<Rightarrow> bool \<Rightarrow> string" where
  "rate_cmd nic rate burst latency root =
     ''tc qdisc add dev '' @ nic @ '' '' @ qdisc_handle root @ '' tbf rate '' @ py_str rate
     @ '' burst '' @ py_str (default_if_none burst (PStr ''100kbit''))
     @ '' latency '' @ py_str (default_if_none latency (PInt 20)) @ ''ms''"

definition set_delay :: "tc_oracle \<Rightarrow> string \<Rightarrow> py \<Rightarrow> py \<Rightarrow> py \<Rightarrow> bool \<Rightarrow> (string list, unit) prog" where
  "set_delay succeeds nic latency jitter corr root =
     tc_check_call succeeds (delay_cmd nic latency jitter corr root)"

definition set_rate :: "tc_oracle \<Rightarrow> string \<Rightarrow> py \<Rightarrow> py \<Rightarrow> py \<Rightarrow> bool \<Rightarrow> (string list, unit) prog" where
  "set_rate succeeds nic rate burst latency root =
     tc_check_call succeeds (rate_cmd nic rate burst latency root)"

text \<open>
  \<open>create_chaos\<close>, up to the sleep: the arguments must be one JSON dictionary. Then the process sleeps
  until a signal, whose handler cleans and exits; the \<open>finally\<close> clause cleans again.
\<close>

definition apply_netem :: "tc_oracle \<Rightarrow> string \<Rightarrow> py dict \<Rightarrow> (string list, unit) prog" where
  "apply_netem succeeds nic args =
     (let get = (\<lambda>k. get_default args k PNone);
          delay_defined = (get ''latency'' \<noteq> PNone \<and> get ''jitter'' \<noteq> PNone)
      in bindP (if delay_defined
                then set_delay succeeds nic (get ''latency'') (get ''jitter'') (get ''correlation'') True
                else retP ()) (\<lambda>_.
         if get ''rate'' \<noteq> PNone
         then set_rate succeeds nic (get ''rate'') (get ''rate_burst'') (get ''rate_latency'') (\<not> delay_defined)
         else retP ()))"

definition chaos_setup ::
  "(string \<Rightarrow> string) \<Rightarrow> tc_oracle \<Rightarrow> gateway_net \<Rightarrow> string list \<Rightarrow> (string list, string) prog" where
  "chaos_setup canon succeeds gn nm =
     bindP (liftP (find_chaos_interface gn)) (\<lambda>nic.
     bindP (liftP (if length nm \<noteq> 1 then Inl AssertionError
                   else (case json_loads canon (hd nm) of
                           None \<Rightarrow> Inl (ValueError ''json'') | Some v \<Rightarrow> Inr v))) (\<lambda>v.
     bindP (clean_netem nic) (\<lambda>_.
     bindP (liftP (as_dict v)) (\<lambda>args.
     bindP (apply_netem succeeds nic args) (\<lambda>_.
       retP nic)))))"

definition create_chaos ::
  "(string \<Rightarrow> string) \<Rightarrow> tc_oracle \<Rightarrow> gateway_net \<Rightarrow> string list \<Rightarrow> (string list, unit) prog" where
  "create_chaos canon succeeds gn nm =
     bindP (chaos_setup canon succeeds gn nm) (\<lambda>nic.
     bindP (clean_netem nic) (\<lambda>_.
     bindP (clean_netem nic) (\<lambda>_.
       raiseP (SystemExit 0))))"

text \<open>
  A signal that arrives during the set-up, after \<open>n\<close> of its commands and before the next: the handler was installed
  before the first of them; it cleans and exits, and the \<open>finally\<close> clause is not reached.
\<close>

definition create_chaos_signalled ::
  "(string \<Rightarrow> string) \<Rightarrow> tc_oracle \<Rightarrow> gateway_net \<Rightarrow> string list \<Rightarrow> nat \<Rightarrow> string list \<Rightarrow> unit res \<times> string list" where
  "create_chaos_signalled canon succeeds gn nm n lg =
     (case chaos_setup canon succeeds gn nm lg of
        (r, lg') \<Rightarrow>
          if n < length lg' - length lg
          then (Inl (SystemExit 0), take (length lg + n) lg' @ [clean_cmd (projr (find_chaos_interface gn))])
          else create_chaos canon succeeds gn nm lg)"

section \<open>Facts\<close>

definition is_tc_of :: "string \<Rightarrow> string \<Rightarrow> bool" where
  "is_tc_of nic cmd =
     (startswith cmd (''tc qdisc del dev '' @ nic @ '' '') \<or> startswith cmd (''tc qdisc add dev '' @ nic @ '' ''))"

lemma startswith_Cons [simp]: "startswith (x # xs) (y # ys) \<longleftrightarrow> x = y \<and> startswith xs ys"
  by (auto simp: startswith_def)

lemma startswith_Nil [simp]: "startswith xs []"
  by (simp add: startswith_def)

lemma startswith_same [simp]: "startswith (p @ xs) (p @ ys) \<longleftrightarrow> startswith xs ys"
  by (simp add: startswith_def)

lemma tc_cmds:
  "is_tc_of nic (clean_cmd nic)" "is_tc_of nic (delay_cmd nic l j c r)" "is_tc_of nic (rate_cmd nic x b l r)"
  by (simp_all add: is_tc_of_def clean_cmd_def delay_cmd_def rate_cmd_def)

lemma as_dict_Inl: "as_dict v = Inl e \<Longrightarrow> e = AttributeError"
  by (cases v) auto

text \<open>
  The gateway touches only the interface that is neither the loopback nor the default route; every
  run that changed the queueing discipline began by removing the old one, and a run that reaches the
  sleep ends by removing its own and exits with 0.
\<close>

theorem chaos_commands:
  assumes "find_chaos_interface gn = Inr nic"
  shows "case create_chaos canon succeeds gn nm [] of (r, lg) \<Rightarrow>
     nic \<noteq> ''lo'' \<and> Some nic \<noteq> gn_default_iface gn \<and> nic \<in> set (gn_interfaces gn)
     \<and> list_all (is_tc_of nic) lg \<and> (lg = [] \<or> hd lg = clean_cmd nic)
     \<and> r \<noteq> Inr ()
     \<and> (r = Inl (SystemExit 0) \<longleftrightarrow>
          (\<exists>cmds. lg = clean_cmd nic # cmds @ [clean_cmd nic, clean_cmd nic] \<and> length cmds \<le> 2))"
proof -
  have nic: "nic \<noteq> ''lo'' \<and> Some nic \<noteq> gn_default_iface gn \<and> nic \<in> set (gn_interfaces gn)"
  proof -
    obtain rest where "filter (\<lambda>i. i \<noteq> ''lo'' \<and> Some i \<noteq> gn_default_iface gn) (gn_interfaces gn) = nic # rest"
      using assms by (auto simp: find_chaos_interface_def split: list.splits)
    then have "nic \<in> set (filter (\<lambda>i. i \<noteq> ''lo'' \<and> Some i \<noteq> gn_default_iface gn) (gn_interfaces gn))" by simp
    then show ?thesis by simp
  qed
  have ne: "delay_cmd nic l j c r \<noteq> clean_cmd nic" "rate_cmd nic x b l' r' \<noteq> clean_cmd nic" for l j c r x b l' r'
    by (simp_all add: delay_cmd_def rate_cmd_def clean_cmd_def)
  show ?thesis
    using nic as_dict_Inl
    by (auto simp: create_chaos_def chaos_setup_def assms bindP_def retP_def apply_netem_def clean_netem_def tc_call_def set_delay_def
        set_rate_def tc_check_call_def Let_def tc_cmds ne split: sum.splits option.splits prod.splits)
qed

text \<open>
  Whenever a signal arrives, a gateway that exits with 0 has removed its discipline last.
\<close>

lemma gateway_cleans_up:
  assumes "find_chaos_interface gn = Inr nic"
    and "create_chaos_signalled canon succeeds gn nm n [] = (Inl (SystemExit 0), lg)"
  shows "lg \<noteq> [] \<and> last lg = clean_cmd nic"
proof (cases "n < length (snd (chaos_setup canon succeeds gn nm []))")
  case True
  then show ?thesis using assms by (auto simp: create_chaos_signalled_def split: prod.splits)
next
  case False
  then have "create_chaos canon succeeds gn nm [] = (Inl (SystemExit 0), lg)"
    using assms(2) by (auto simp: create_chaos_signalled_def split: prod.splits)
  then show ?thesis using chaos_commands [OF assms(1), of canon succeeds nm] by auto
qed

definition demo_gn :: gateway_net where
  "demo_gn = \<lparr>gn_default_iface = Some ''eth1'', gn_interfaces = [''lo'', ''eth1'', ''eth0'']\<rparr>"

lemma demo_gn_iface: "find_chaos_interface demo_gn = Inr ''eth0''"
  by (simp add: find_chaos_interface_def demo_gn_def)

theorem chaos_commands_witness:
  "case create_chaos (\<lambda>s. s) (\<lambda>lg c. True) demo_gn [netem (PInt 40) (PInt 10) (PStr ''15mbit'')] [] of (r, lg) \<Rightarrow>
     r \<noteq> Inr () \<and> list_all (is_tc_of ''eth0'') lg"
  using chaos_commands [OF demo_gn_iface, of "\<lambda>s. s" "\<lambda>lg c. True" "[netem (PInt 40) (PInt 10) (PStr ''15mbit'')]"]
  by (simp add: case_prod_unfold)

text \<open>The parameters that each network condition stands for: delay and jitter in milliseconds, rate.\<close>

fun condition_params :: "network_conditions \<Rightarrow> int \<times> int \<times> string" where
  "condition_params GPRS = (700, 100, ''50kbit'')"
| "condition_params EDGE = (700, 100, ''100kbit'')"
| "condition_params REGULAR_3G = (300, 150, ''1500kbit'')"
| "condition_params FAST_3G = (150, 50, ''4000kbit'')"
| "condition_params LTE = (40, 10, ''15mbit'')"
| "condition_params WIFI = (25, 5, ''50mbit'')"
| "condition_params CABLE = (5, 5, ''100mbit'')"

lemma netem_conditions_params:
  "netem_conditions c = (case condition_params c of (l, j, r) \<Rightarrow> [netem (PInt l) (PInt j) (PStr r)])"
  by (cases c) simp_all

lemma netem_loads:
  "json_loads canon (netem (PInt l) (PInt j) (PStr r)) = Some (netem_obj (PInt l) (PInt j) (PStr r))"
  unfolding netem_def by (rule json_loads_dumps) (simp add: netem_obj_def dict_ok_def)

text \<open>A gateway whose second command of \<open>tc\<close> fails ends without removing what the first one set up.\<close>

lemma failed_gateway_leaves_delay:
  "create_chaos (\<lambda>s. s) (\<lambda>lg cmd. cmd = delay_cmd ''eth0'' (PInt 300) (PInt 150) (PInt 0) True) demo_gn
     [netem (PInt 300) (PInt 150) (PStr r)] [] =
   (Inl (CalledProcessError (rate_cmd ''eth0'' (PStr r) PNone PNone False)),
    [clean_cmd ''eth0'', delay_cmd ''eth0'' (PInt 300) (PInt 150) (PInt 0) True, rate_cmd ''eth0'' (PStr r) PNone PNone False])"
proof -
  have ne: "rate_cmd ''eth0'' x b l False \<noteq> delay_cmd ''eth0'' y j c True" for x b l y j c
    by (simp add: delay_cmd_def rate_cmd_def qdisc_handle_def)
  have dflt: "delay_cmd ''eth0'' a b PNone t = delay_cmd ''eth0'' a b (PInt 0) t" for a b t
    by (simp add: delay_cmd_def default_if_none_def)
  show ?thesis
    by (simp add: create_chaos_def chaos_setup_def demo_gn_iface netem_loads netem_obj_def bindP_def apply_netem_def clean_netem_def
        tc_call_def set_delay_def set_rate_def tc_check_call_def get_default_def dget_Cons dflt ne)
qed

end
