(* ===== verification/PyNumbers.thy ===== *)
theory PyNumbers
  imports PyValues Complex_Main
begin

text \<open>
  Numbers of Python where the program computes with them: \<open>int()\<close> of a number or a text, and the floats
  of a value. A float is a real number here; \<open>fl_val\<close> reads the \<open>repr\<close> by which a value names it and
  \<open>fl_repr\<close> prints it, and \<open>is_float\<close> is what the language promises of the two for the real numbers
  that are floats.
\<close>

record floats =
  fl_val :: "string \<Rightarrow> real"
  fl_repr :: "real \<Rightarrow> string"

definition is_float :: "floats \<Rightarrow> real \<Rightarrow> bool" where
  "is_float fl x \<longleftrightarrow> fl_val fl (fl_repr fl x) = x \<and> (x \<noteq> 0 \<longrightarrow> fl_repr fl x \<notin> set zero_floats)"

text \<open>\<open>int(x)\<close> of a real number.\<close>

definition int_trunc :: "real \<Rightarrow> int" where
  "int_trunc x = (if 0 \<le> x then \<lfloor>x\<rfloor> else \<lceil>x\<rceil>)"

text \<open>\<open>int(v)\<close> of a value.\<close>

fun py_to_int :: "floats \<Rightarrow> py \<Rightarrow> int res" where
  "py_to_int fl (PInt i) = Inr i"
| "py_to_int fl (PBool b) = Inr (if b then 1 else 0)"
| "py_to_int fl (PFloat r) = Inr (int_trunc (fl_val fl r))"
| "py_to_int fl (PStr s) = (case py_int s of Some i \<Rightarrow> Inr i | None \<Rightarrow> Inl (ValueError ''int''))"
| "py_to_int fl _ = Inl TypeError"

text \<open>The number that a numeric value denotes, for the library functions that want a number.\<close>

fun py_number :: "floats \<Rightarrow> py \<Rightarrow> real res" where
  "py_number fl (PInt i) = Inr (of_int i)"
| "py_number fl (PBool b) = Inr (if b then 1 else 0)"
| "py_number fl (PFloat r) = Inr (fl_val fl r)"
| "py_number fl _ = Inl TypeError"

text \<open>\<open>float(v)\<close>; how a text is read is a parameter, \<open>None\<close> when it is not a number.\<close>

definition py_to_float :: "floats \<Rightarrow> (string \<Rightarrow> real option) \<Rightarrow> py \<Rightarrow> real res" where
  "py_to_float fl parse_float v =
     (case v of
        PStr s \<Rightarrow> (case parse_float s of Some x \<Rightarrow> Inr x | None \<Rightarrow> Inl (ValueError ''float''))
      | _ \<Rightarrow> py_number fl v)"

lemma int_trunc_mono: "x \<le> y \<Longrightarrow> int_trunc x \<le> int_trunc y"
proof -
  assume le: "x \<le> y"
  have "\<lceil>x\<rceil> \<le> \<lfloor>y\<rfloor>" if "x < 0" "0 \<le> y"
  proof -
    have "\<lceil>x\<rceil> \<le> 0" using that(1) by (simp add: ceiling_le_iff)
    moreover have "0 \<le> \<lfloor>y\<rfloor>" using that(2) by simp
    ultimately show ?thesis by linarith
  qed
  then show ?thesis using le by (auto simp: int_trunc_def intro: floor_mono ceiling_mono)
qed

lemma int_trunc_int [simp]: "int_trunc (of_int i) = i"
  by (simp add: int_trunc_def)

lemma int_trunc_le: "0 \<le> x \<Longrightarrow> of_int (int_trunc x) \<le> x"
  by (simp add: int_trunc_def)

lemma int_trunc_gt: "0 \<le> x \<Longrightarrow> x < of_int (int_trunc x) + 1"
  unfolding int_trunc_def by (simp add: floor_correct)

end
