(* ===== verification/CpuLimits.thy ===== *)
theory CpuLimits
  imports DockerUtils PyNumbers
begin

text \<open>
  \<^verbatim>\<open>wotemu/topology/cpu.py\<close> and \<^verbatim>\<open>wotemu/cli/limits.py\<close>: the CPU quota that makes a container as slow as
  a target speed. A polynomial is the list of its coefficients, the highest power first; numpy's
  functions are the parameter \<open>numpy\<close>. The benchmark of one node is shared through Redis: besides the
  sequential operations there is a step relation for the containers of a node that run at once.
\<close>

section \<open>Measuring\<close>

definition cpu_period :: int where
  "cpu_period = 100000"

text \<open>The number after \<open>events per second:\<close> in the output of sysbench.\<close>

definition decimal_at :: "string \<Rightarrow> real option" where
  "decimal_at s =
     (let ds = takeWhile is_digit s; r = dropWhile is_digit s; fs = takeWhile is_digit (tl r)
      in if ds \<noteq> [] \<and> startswith r ''.'' \<and> fs \<noteq> []
         then Some (real (foldl (\<lambda>a c. 10 * a + digit_val c) 0 ds)
                    + real (foldl (\<lambda>a c. 10 * a + digit_val c) 0 fs) / 10 ^ length fs)
         else None)"

definition speed_at :: "string \<Rightarrow> real option" where
  "speed_at s =
     (if startswith s ''events'' \<and> drop 6 s \<noteq> [] \<and> is_space (hd (drop 6 s)) \<and> startswith (drop 7 s) ''per''
         \<and> drop 10 s \<noteq> [] \<and> is_space (hd (drop 10 s)) \<and> startswith (drop 11 s) ''second:''
      then decimal_at (dropWhile is_space (drop 18 s)) else None)"

fun speed_search :: "string \<Rightarrow> real option" where
  "speed_search [] = None"
| "speed_search (c # cs) = (case speed_at (c # cs) of Some v \<Rightarrow> Some v | None \<Rightarrow> speed_search cs)"

text \<open>\<open>sysbench quota\<close> is the output of the benchmark container with that CPU quota.\<close>

definition get_cpu_core_speed :: "(int \<Rightarrow> string res) \<Rightarrow> real \<Rightarrow> real res" where
  "get_cpu_core_speed sysbench cpus =
     bindR (sysbench (int_trunc (of_int cpu_period * cpus))) (\<lambda>output.
       case speed_search output of None \<Rightarrow> Inl AttributeError | Some v \<Rightarrow> Inr v)"

type_synonym poly = "real list"

record numpy =
  np_linspace :: "real \<Rightarrow> real \<Rightarrow> nat \<Rightarrow> real list"
  np_polyfit :: "(real \<times> real) list \<Rightarrow> poly"
  np_real_roots :: "poly \<Rightarrow> real list"

definition poly_true :: "poly \<Rightarrow> bool" where
  "poly_true p = (1 < length p)"

definition poly_eval :: "poly \<Rightarrow> real \<Rightarrow> real" where
  "poly_eval p x = foldl (\<lambda>acc c. acc * x + c) 0 p"

type_synonym poly_cache = "((nat \<times> real \<times> real) \<times> poly) list"

definition get_cpu_core_speed_poly ::
  "numpy \<Rightarrow> (int \<Rightarrow> string res) \<Rightarrow> nat \<Rightarrow> real \<Rightarrow> real \<Rightarrow> bool \<Rightarrow> (poly_cache, poly) prog" where
  "get_cpu_core_speed_poly np sysbench num start stop cache c =
     (if start \<le> 0 then (Inl (ValueError ''Parameter 'start' should be > 0''), c)
      else
        let build = (case mapR (\<lambda>x. bindR (get_cpu_core_speed sysbench x) (\<lambda>v. Inr (x, v)))
                            (np_linspace np start stop num) of
                       Inl e \<Rightarrow> (Inl e, c)
                     | Inr speeds \<Rightarrow>
                         (let p = np_polyfit np ((0, 0) # speeds)
                          in (Inr p, AList.update (num, start, stop) p c)))
        in case map_of c (num, start, stop) of
             Some p \<Rightarrow> if cache \<and> poly_true p then (Inr p, c) else build
           | None \<Rightarrow> build)"

definition default_poly :: "numpy \<Rightarrow> (int \<Rightarrow> string res) \<Rightarrow> (poly_cache, poly) prog" where
  "default_poly np sysbench = get_cpu_core_speed_poly np sysbench 6 (1 / 10) 1 True"

definition sub_last :: "poly \<Rightarrow> real \<Rightarrow> poly" where
  "sub_last p t = (case p of [] \<Rightarrow> [] | _ \<Rightarrow> butlast p @ [last p - t])"

definition core_scale :: "numpy \<Rightarrow> real \<Rightarrow> poly \<Rightarrow> real res" where
  "core_scale np target p =
     (case np_real_roots np (sub_last p target) of
        [] \<Rightarrow> Inl IndexError
      | x # _ \<Rightarrow> Inr (max x (1 / 100)))"

definition get_cpu_core_scale ::
  "numpy \<Rightarrow> (int \<Rightarrow> string res) \<Rightarrow> real \<Rightarrow> poly option \<Rightarrow> (poly_cache, real) prog" where
  "get_cpu_core_scale np sysbench target core_poly =
     bindP (case core_poly of
              Some p \<Rightarrow> if poly_true p then retP p else default_poly np sysbench
            | None \<Rightarrow> default_poly np sysbench) (\<lambda>p.
       liftP (core_scale np target p))"

section \<open>The polynomial in Redis\<close>

text \<open>
  The value of the key of a node: absent, the JSON \<open>null\<close> that marks a benchmark in progress, or
  coefficients. \<open>_get_redis_poly\<close> sees coefficients only.
\<close>

datatype redis_value = RNull | RCoeffs poly

definition redis_poly :: "redis_value option \<Rightarrow> poly option" where
  "redis_poly v = (case v of Some (RCoeffs cs) \<Rightarrow> if cs \<noteq> [] then Some cs else None | _ \<Rightarrow> None)"

definition cpu_poly_key :: "environ \<Rightarrow> string res" where
  "cpu_poly_key env =
     (case env ''NODE_ID'' of
        None \<Rightarrow> Inl (RuntimeError ''Undefined $NODE_ID'')
      | Some i \<Rightarrow> Inr (join '':'' [prefix_value NAMESPACE, prefix_value BENCHMARK, i]))"

definition should_build :: "redis_value option \<Rightarrow> bool" where
  "should_build v = (v = None)"

definition set_if_absent :: "redis_value option \<Rightarrow> redis_value option" where
  "set_if_absent v = (case v of None \<Rightarrow> Some RNull | Some x \<Rightarrow> Some x)"

text \<open>
  The wait: in iteration \<open>i\<close> the key reads \<open>rw_value i\<close>; after the sleep the clock reads \<open>rw_after i\<close>.
\<close>

record redis_wait =
  rw_ini :: real
  rw_value :: "nat \<Rightarrow> redis_value option res"
  rw_after :: "nat \<Rightarrow> real"

definition redis_wait_step :: "real option \<Rightarrow> redis_wait \<Rightarrow> nat \<Rightarrow> poly res option" where
  "redis_wait_step timeout w i =
     (case rw_value w i of
        Inl e \<Rightarrow> Some (Inl e)
      | Inr v \<Rightarrow>
          (case redis_poly v of
             Some p \<Rightarrow> if poly_true p then Some (Inr p)
                       else if timed_out timeout (rw_ini w) (rw_after w i)
                       then Some (Inl (GenericException ''Timeout waiting for Redis poly'')) else None
           | None \<Rightarrow> if timed_out timeout (rw_ini w) (rw_after w i)
                     then Some (Inl (GenericException ''Timeout waiting for Redis poly'')) else None))"

fun wait_redis_poly :: "real option \<Rightarrow> redis_wait \<Rightarrow> nat \<Rightarrow> nat \<Rightarrow> poly res option" where
  "wait_redis_poly timeout w 0 i = None"
| "wait_redis_poly timeout w (Suc fuel) i =
     (case redis_wait_step timeout w i of Some r \<Rightarrow> Some r | None \<Rightarrow> wait_redis_poly timeout w fuel (Suc i))"

interpretation redis_polling: polling "wait_redis_poly timeout w" "redis_wait_step timeout w" for timeout w
  by unfold_locales simp_all

section \<open>Updating the limits\<close>

record limits_world =
  lw_docker :: docker_api
  lw_shared :: "poly option res"
  lw_cgroup :: "string option"
  lw_update :: "int \<Rightarrow> int \<Rightarrow> unit res"

text \<open>
  \<open>update_limits\<close>: the shared polynomial is asked for unless \<open>local\<close> (its outcome is \<open>lw_shared\<close>; an
  error is caught); then the container is updated with the period and the quota, which is returned.
\<close>

definition limits_quota :: "real \<Rightarrow> int" where
  "limits_quota scale = int_trunc (of_int cpu_period * scale)"

definition update_limits ::
  "numpy \<Rightarrow> (int \<Rightarrow> string res) \<Rightarrow> limits_world \<Rightarrow> real \<Rightarrow> bool \<Rightarrow> (poly_cache, string \<times> int \<times> int) prog" where
  "update_limits np sysbench w speed is_local =
     bindP (liftP (ping_docker (lw_docker w))) (\<lambda>_.
     bindP (if is_local then retP None
            else (case lw_shared w of
                    Inr p \<Rightarrow> retP p
                  | Inl e \<Rightarrow> if is_Exception e then retP None else raiseP e)) (\<lambda>shared.
     bindP (case shared of
              Some p \<Rightarrow> if poly_true p then retP p else default_poly np sysbench
            | None \<Rightarrow> default_poly np sysbench) (\<lambda>p.
     bindP (get_cpu_core_scale np sysbench speed (Some p)) (\<lambda>scale.
     bindP (liftP (get_current_container_id (lw_cgroup w))) (\<lambda>cid.
     bindP (liftP (lw_update w cpu_period (limits_quota scale))) (\<lambda>_.
       retP (cid, cpu_period, limits_quota scale)))))))"

section \<open>Containers of one node at once\<close>

text \<open>
  Each container of the node runs \<open>_get_cpu_poly\<close> against the same key. \<open>Locking\<close>: it found the key
  absent and has not yet written the mark. The mark is written only when the key is still absent, but
  the answer of that write is ignored. \<open>bench i\<close> is what container \<open>i\<close> measures. The expiry of the
  key after an hour is left out.
\<close>

datatype builder = Start | Locking | Building | Waiting | Finished poly

record poly_sys =
  ps_value :: "redis_value option"
  ps_proc :: "nat \<Rightarrow> builder"

inductive poly_step :: "(nat \<Rightarrow> poly) \<Rightarrow> poly_sys \<Rightarrow> poly_sys \<Rightarrow> bool" for bench where
  check_absent: "ps_proc s i = Start \<Longrightarrow> should_build (ps_value s) \<Longrightarrow>
    poly_step bench s (s\<lparr>ps_proc := (ps_proc s)(i := Locking)\<rparr>)"
| check_present: "ps_proc s i = Start \<Longrightarrow> \<not> should_build (ps_value s) \<Longrightarrow>
    poly_step bench s (s\<lparr>ps_proc := (ps_proc s)(i := Waiting)\<rparr>)"
| lock: "ps_proc s i = Locking \<Longrightarrow>
    poly_step bench s (s\<lparr>ps_value := set_if_absent (ps_value s), ps_proc := (ps_proc s)(i := Building)\<rparr>)"
| publish: "ps_proc s i = Building \<Longrightarrow>
    poly_step bench s (s\<lparr>ps_value := Some (RCoeffs (bench i)), ps_proc := (ps_proc s)(i := Finished (bench i))\<rparr>)"
| poll: "ps_proc s i = Waiting \<Longrightarrow> redis_poly (ps_value s) = Some p \<Longrightarrow> poly_true p \<Longrightarrow>
    poly_step bench s (s\<lparr>ps_proc := (ps_proc s)(i := Finished p)\<rparr>)"

inductive poly_reach :: "(nat \<Rightarrow> poly) \<Rightarrow> poly_sys \<Rightarrow> bool" for bench where
  initial: "poly_reach bench \<lparr>ps_value = None, ps_proc = (\<lambda>i. Start)\<rparr>"
| step: "poly_reach bench s \<Longrightarrow> poly_step bench s s' \<Longrightarrow> poly_reach bench s'"

inductive_cases poly_stepE: "poly_step bench s s'"

definition poly_inv :: "(nat \<Rightarrow> poly) \<Rightarrow> poly_sys \<Rightarrow> bool" where
  "poly_inv bench s \<longleftrightarrow>
     (ps_value s = Some RNull \<longrightarrow> (\<exists>i. ps_proc s i = Building))
     \<and> (\<forall>i. ps_proc s i = Waiting \<or> ps_proc s i = Building \<longrightarrow> ps_value s \<noteq> None)
     \<and> (\<forall>cs. ps_value s = Some (RCoeffs cs) \<longrightarrow> cs \<in> range bench)
     \<and> (\<forall>i p. ps_proc s i = Finished p \<longrightarrow> p \<in> range bench)"

lemma poly_step_inv:
  assumes "poly_step bench s s'" and "poly_inv bench s"
  shows "poly_inv bench s'"
  using assms(1)
proof cases
  case (check_absent i)
  with assms(2) show ?thesis by (auto simp: poly_inv_def should_build_def)
next
  case (check_present i)
  moreover have "\<exists>k. k \<noteq> i \<and> ps_proc s k = Building" if "ps_value s = Some RNull"
    using assms(2) that check_present(2) by (metis builder.distinct(3) poly_inv_def)
  ultimately show ?thesis using assms(2) by (auto simp: poly_inv_def should_build_def)
next
  case (lock i)
  with assms(2) show ?thesis by (auto simp: poly_inv_def set_if_absent_def split: option.splits)
next
  case (publish i)
  with assms(2) show ?thesis by (auto simp: poly_inv_def)
next
  case (poll i p)
  then have val: "ps_value s = Some (RCoeffs p)"
    by (auto simp: redis_poly_def split: option.splits redis_value.splits if_splits)
  with assms(2) poll(1) show ?thesis by (auto simp: poly_inv_def)
qed

section \<open>Properties\<close>


text \<open>
  The mark does not exclude: two containers of a node can measure at the same time, for the test
  of the key and the write of the mark are two steps and the answer of the write is not used.
\<close>

theorem benchmark_not_exclusive:
  "\<exists>s. poly_reach bench s \<and> ps_proc s 0 = Building \<and> ps_proc s 1 = Building"
proof -
  let ?s0 = "\<lparr>ps_value = None, ps_proc = (\<lambda>i. Start)\<rparr>"
  let ?s1 = "?s0\<lparr>ps_proc := (ps_proc ?s0)(0 := Locking)\<rparr>"
  let ?s2 = "?s1\<lparr>ps_proc := (ps_proc ?s1)(1 := Locking)\<rparr>"
  let ?s3 = "?s2\<lparr>ps_value := set_if_absent (ps_value ?s2), ps_proc := (ps_proc ?s2)(0 := Building)\<rparr>"
  let ?s4 = "?s3\<lparr>ps_value := set_if_absent (ps_value ?s3), ps_proc := (ps_proc ?s3)(1 := Building)\<rparr>"
  have 1: "poly_step bench ?s0 ?s1" by (rule poly_step.check_absent) (simp_all add: should_build_def)
  have 2: "poly_step bench ?s1 ?s2" by (rule poly_step.check_absent) (simp_all add: should_build_def)
  have 3: "poly_step bench ?s2 ?s3" by (rule poly_step.lock) simp
  have 4: "poly_step bench ?s3 ?s4" by (rule poly_step.lock) simp
  note reach = poly_reach.step [OF poly_reach.step [OF poly_reach.step [OF poly_reach.step
      [OF poly_reach.initial 1] 2] 3] 4]
  then show ?thesis by (intro exI [of _ ?s4]) simp
qed


lemma core_scale_linear:
  assumes "np_real_roots np [a, b - t] = [- (b - t) / a]"
  shows "core_scale np t [a, b] = Inr (max ((t - b) / a) (1 / 100))"
  using assms by (simp add: core_scale_def sub_last_def)

text \<open>
  C39. The quota never falls below a hundredth of a processor, and when the target speed is reachable
  with more, the speed at the quota is the target up to one unit of the period.
\<close>

theorem quota_hits_target:
  assumes "np_real_roots np [a, b - t] = [- (b - t) / a]" and "0 < a"
  shows "\<exists>scale. core_scale np t [a, b] = Inr scale \<and> 1000 \<le> limits_quota scale
    \<and> (if (t - b) / a < 1 / 100 then limits_quota scale = 1000
       else (let v = poly_eval [a, b] (of_int (limits_quota scale) / of_int cpu_period)
             in v \<le> t \<and> t < v + a / of_int cpu_period))"
proof -
  define scale where "scale = max ((t - b) / a) (1 / 100)"
  have scale: "core_scale np t [a, b] = Inr scale"
    unfolding scale_def by (rule core_scale_linear [OF assms(1)])
  have pos: "1 / 100 \<le> scale" by (simp add: scale_def)
  have q: "limits_quota scale = \<lfloor>100000 * scale\<rfloor>"
    using pos by (simp add: limits_quota_def int_trunc_def cpu_period_def)
  have low: "1000 \<le> limits_quota scale"
    unfolding q using pos by (simp add: le_floor_iff)
  have "(if (t - b) / a < 1 / 100 then limits_quota scale = 1000
       else (let v = poly_eval [a, b] (of_int (limits_quota scale) / of_int cpu_period)
             in v \<le> t \<and> t < v + a / of_int cpu_period))"
  proof (cases "(t - b) / a < 1 / 100")
    case True
    then have "scale = 1 / 100" by (simp add: scale_def)
    then have "limits_quota scale = 1000" unfolding q by (simp only:) simp
    then show ?thesis using True by simp
  next
    case False
    then have s: "scale = (t - b) / a" by (simp add: scale_def)
    define k where "k = (of_int (limits_quota scale) :: real)"
    have k: "k \<le> 100000 * scale" "100000 * scale < k + 1"
      unfolding k_def q by linarith+
    have t: "t = a * scale + b" using assms(2) by (simp add: s field_simps)
    have "a * (k / 100000) \<le> a * scale"
      using k(1) assms(2) by (intro mult_left_mono) simp_all
    moreover have "a * scale < a * ((k + 1) / 100000)"
      using k(2) assms(2) by (intro mult_strict_left_mono) simp_all
    ultimately have "a * (k / 100000) + b \<le> t \<and> t < a * (k / 100000) + b + a / 100000"
      unfolding t by (simp add: field_simps)
    then show ?thesis
      using False by (simp add: Let_def poly_eval_def cpu_period_def k_def)
  qed
  with scale low show ?thesis by blast
qed

definition demo_numpy :: numpy where
  "demo_numpy = \<lparr>np_linspace = (\<lambda>a b n. [a, b]), np_polyfit = (\<lambda>ps. [800, 0]),
     np_real_roots = (\<lambda>p. case p of [a, b] \<Rightarrow> if a = 0 then [] else [- b / a] | _ \<Rightarrow> [])\<rparr>"

theorem quota_hits_target_witness:
  "\<exists>scale. core_scale demo_numpy 200 [800, 0] = Inr scale \<and> 1000 \<le> limits_quota scale"
proof -
  have "np_real_roots demo_numpy [800, 0 - 200] = [- (0 - 200) / 800]" by (simp add: demo_numpy_def)
  from quota_hits_target [OF this] show ?thesis by auto
qed

text \<open>
  The wait for the shared polynomial ends: with at least \<open>d > 0\<close> seconds per iteration it takes at
  most \<open>timeout / d + 1\<close> iterations, and the polynomial it returns was read from the key.
\<close>

theorem poly_wait_ends:
  assumes "0 < d" and "\<forall>i. rw_ini w + real i * d \<le> rw_after w i"
  shows "\<exists>r. wait_redis_poly (Some T) w (Suc (nat \<lceil>T / d\<rceil>)) 0 = Some r
    \<and> (case r of Inr p \<Rightarrow> (\<exists>i. rw_value w i = Inr (Some (RCoeffs p))) | Inl e \<Rightarrow> True)"
proof -
  let ?k = "nat \<lceil>T / d\<rceil>"
  have "T / d \<le> real ?k" by linarith
  then have "T \<le> real ?k * d" using assms(1) by (simp add: pos_divide_le_eq)
  then have "timed_out (Some T) (rw_ini w) (rw_after w ?k)"
    using assms(2) [rule_format, of ?k] by (simp add: timed_out_def)
  then have "redis_wait_step (Some T) w (0 + ?k) \<noteq> None"
    by (simp add: redis_wait_step_def split: sum.split option.split)
  then obtain r where r: "wait_redis_poly (Some T) w (Suc ?k) 0 = Some r"
    using redis_polling.run_stops_iff by blast
  from redis_polling.run_sound [OF r] obtain i where i: "redis_wait_step (Some T) w i = Some r" by auto
  have "case r of Inr p \<Rightarrow> (\<exists>i. rw_value w i = Inr (Some (RCoeffs p))) | Inl e \<Rightarrow> True"
    using i by (auto simp: redis_wait_step_def redis_poly_def split: sum.splits option.splits if_splits redis_value.splits)
  with r show ?thesis by blast
qed

theorem poly_wait_ends_witness:
  "\<exists>r. wait_redis_poly (Some 300) \<lparr>rw_ini = 0, rw_value = (\<lambda>i. Inr (Some RNull)), rw_after = (\<lambda>i. real i * 2)\<rparr>
     (Suc (nat \<lceil>300 / 2 :: real\<rceil>)) 0 = Some r"
  using poly_wait_ends [of 2 "\<lparr>rw_ini = 0, rw_value = (\<lambda>i. Inr (Some RNull)), rw_after = (\<lambda>i. real i * 2)\<rparr>" 300]
  by auto

end
