(* ===== verification/SystemMonitor.thy ===== *)
theory SystemMonitor
  imports DockerUtils
begin

text \<open>
  \<^verbatim>\<open>wotemu/monitor/system.py\<close>: the CPU and memory readings of a container, the caches of the
  cgroup parameters, and the task that delivers the readings in groups. What the machine answers at
  one call (cgroup parameters, processor times, clock) is the record \<open>sys_world\<close>; times and
  percentages are real numbers, so that the rounding of floating point arithmetic is left out, and
  \<open>py_round\<close> is Python's rounding to a number of decimals, ties to even.
\<close>

definition round_half_even :: "real \<Rightarrow> int" where
  "round_half_even x =
     (let f = \<lfloor>x\<rfloor>; d = x - of_int f
      in if d < 1 / 2 then f else if d > 1 / 2 then f + 1 else if even f then f else f + 1)"

definition py_round :: "nat \<Rightarrow> real \<Rightarrow> real" where
  "py_round n x = of_int (round_half_even (x * 10 ^ n)) / 10 ^ n"

lemma round_half_even_near: "\<bar>of_int (round_half_even x) - x\<bar> \<le> 1 / 2"
  unfolding round_half_even_def Let_def by (auto split: if_splits)

lemma round_half_even_nonneg: "0 \<le> x \<Longrightarrow> 0 \<le> round_half_even x"
  unfolding round_half_even_def Let_def by (simp add: le_floor_iff)

lemma py_round_nonneg: "0 \<le> x \<Longrightarrow> 0 \<le> py_round n x"
  by (simp add: py_round_def round_half_even_nonneg)

lemma py_round_near: "\<bar>py_round n x - x\<bar> \<le> 1 / (2 * 10 ^ n)"
proof -
  have "py_round n x - x = (of_int (round_half_even (x * 10 ^ n)) - x * 10 ^ n) / 10 ^ n"
    by (simp add: py_round_def field_simps)
  then have "\<bar>py_round n x - x\<bar> = \<bar>of_int (round_half_even (x * 10 ^ n)) - x * 10 ^ n\<bar> / 10 ^ n"
    by simp
  also have "\<dots> \<le> (1 / 2) / 10 ^ n" by (rule divide_right_mono [OF round_half_even_near]) simp
  finally show ?thesis by simp
qed

section \<open>State and world\<close>

record sys_world =
  sw_cgget :: "string \<Rightarrow> int option"
  sw_user :: real
  sw_system :: real
  sw_idle :: real
  sw_cpu_count :: nat
  sw_mem_total :: int
  sw_time :: real

record sys_state =
  times_system :: "real option"
  times_cgroup :: "int option"
  sys_cache :: "int option dict"

definition init_state :: sys_state where
  "init_state = \<lparr>times_system = None, times_cgroup = None, sys_cache = []\<rparr>"

definition key_cpu_usage :: string where "key_cpu_usage = ''cpuacct.usage''"
definition key_cpu_period :: string where "key_cpu_period = ''cpu.cfs_period_us''"
definition key_cpu_quota :: string where "key_cpu_quota = ''cpu.cfs_quota_us''"
definition key_mem_limit :: string where "key_mem_limit = ''memory.limit_in_bytes''"
definition key_mem_usage :: string where "key_mem_usage = ''memory.usage_in_bytes''"

lemmas sys_keys = key_cpu_usage_def key_cpu_period_def key_cpu_quota_def key_mem_limit_def key_mem_usage_def

definition cgget_error :: "string \<Rightarrow> exn" where
  "cgget_error k = RuntimeError (''Could not read cgroup parameter '' @ k)"

section \<open>CPU usage\<close>

definition get_cpu_nanos_system :: "sys_world \<Rightarrow> real" where
  "get_cpu_nanos_system w = (sw_user w + sw_system w + sw_idle w) * 10 ^ 9"

definition get_cpu_nanos :: "sys_world \<Rightarrow> int res" where
  "get_cpu_nanos w = (case sw_cgget w key_cpu_usage of None \<Rightarrow> Inl (cgget_error key_cpu_usage) | Some u \<Rightarrow> Inr u)"

definition is_times_state_empty :: "sys_state \<Rightarrow> bool" where
  "is_times_state_empty s = (times_system s = None \<or> times_cgroup s = None)"

definition update_times_state :: "sys_world \<Rightarrow> (sys_state, unit) prog" where
  "update_times_state w =
     bindP (liftP (get_cpu_nanos w)) (\<lambda>u.
       modifyP (\<lambda>s. s\<lparr>times_system := Some (get_cpu_nanos_system w), times_cgroup := Some u\<rparr>))"

definition get_cpu_percent :: "sys_world \<Rightarrow> (sys_state, real option) prog" where
  "get_cpu_percent w s =
     (if is_times_state_empty s
      then bindP (update_times_state w) (\<lambda>_. retP None) s
      else bindP (liftP (get_cpu_nanos w)) (\<lambda>curr_cpu.
             let curr_sys = get_cpu_nanos_system w;
                 delta_cpu = of_int (curr_cpu - the (times_cgroup s)) :: real;
                 delta_sys = curr_sys - the (times_system s)
             in bindP (modifyP (\<lambda>s. s\<lparr>times_system := Some curr_sys, times_cgroup := Some curr_cpu\<rparr>)) (\<lambda>_.
                retP (Some (if 0 < delta_cpu \<and> 0 < delta_sys
                            then (delta_cpu / delta_sys) * real (sw_cpu_count w) * 100 else 0)))) s)"

section \<open>Cached parameters\<close>

definition cached_param :: "string \<Rightarrow> sys_state \<Rightarrow> int option" where
  "cached_param k s = (case dget (sys_cache s) k of Some v \<Rightarrow> v | None \<Rightarrow> None)"

definition store_param :: "string \<Rightarrow> int option \<Rightarrow> sys_state \<Rightarrow> sys_state" where
  "store_param k v s = s\<lparr>sys_cache := dset (sys_cache s) k v\<rparr>"

text \<open>\<open>_cgget_cpu_period\<close> and \<open>_cgget_cpu_quota\<close>, with their default \<open>use_cache=True\<close> and without.\<close>

definition cgget_cpu_period :: "bool \<Rightarrow> sys_world \<Rightarrow> (sys_state, int) prog" where
  "cgget_cpu_period use_cache w s =
     (if use_cache \<and> cached_param key_cpu_period s \<noteq> None
      then (Inr (the (cached_param key_cpu_period s)), s)
      else (case sw_cgget w key_cpu_period of
              None \<Rightarrow> (Inl (cgget_error key_cpu_period), s)
            | Some p \<Rightarrow> (Inr p, store_param key_cpu_period (Some p) s)))"

definition cgget_cpu_quota :: "bool \<Rightarrow> sys_world \<Rightarrow> (sys_state, int) prog" where
  "cgget_cpu_quota use_cache w s =
     (if use_cache \<and> cached_param key_cpu_quota s \<noteq> None
      then (Inr (the (cached_param key_cpu_quota s)), s)
      else (case sw_cgget w key_cpu_quota of
              None \<Rightarrow> (Inl (cgget_error key_cpu_quota), s)
            | Some q \<Rightarrow> (Inr q, store_param key_cpu_quota (Some q) s)))"

definition get_cpu_constraint :: "sys_world \<Rightarrow> (sys_state, real option) prog" where
  "get_cpu_constraint w =
     bindP (cgget_cpu_period True w) (\<lambda>period.
     bindP (cgget_cpu_quota True w) (\<lambda>quota.
       if 0 < quota
       then (if period = 0 then raiseP ZeroDivisionError else retP (Some (of_int quota / of_int period)))
       else retP None))"

definition get_cpu :: "sys_world \<Rightarrow> (sys_state, real dict option) prog" where
  "get_cpu w =
     bindP (get_cpu_percent w) (\<lambda>percent.
       case percent of
         None \<Rightarrow> retP None
       | Some p \<Rightarrow>
           bindP (get_cpu_constraint w) (\<lambda>constraint.
             retP (Some ([(''cpu_percent'', py_round 1 p)]
               @ (case constraint of
                    None \<Rightarrow> []
                  | Some c \<Rightarrow> if c = 0 then [] else
                      [(''cpu_percent_constraint'', py_round 1 ((p * (1 / 100) / c) * 100))]))))) "

section \<open>Memory\<close>

definition cgget_mem_limit :: "bool \<Rightarrow> sys_world \<Rightarrow> (sys_state, int option) prog" where
  "cgget_mem_limit use_cache w s =
     (if use_cache \<and> cached_param key_mem_limit s \<noteq> None
      then (Inr (cached_param key_mem_limit s), s)
      else (Inr (sw_cgget w key_mem_limit), store_param key_mem_limit (sw_cgget w key_mem_limit) s))"

definition get_memory_limit :: "sys_world \<Rightarrow> (sys_state, int) prog" where
  "get_memory_limit w =
     bindP (cgget_mem_limit True w) (\<lambda>limit.
       retP (case limit of
               None \<Rightarrow> sw_mem_total w
             | Some l \<Rightarrow> if l \<noteq> 0 \<and> l < sw_mem_total w then l else sw_mem_total w))"

definition mb :: "int \<Rightarrow> real" where
  "mb bytes = of_int bytes / 1024 ^ 2"

definition get_memory :: "sys_world \<Rightarrow> (sys_state, real dict option) prog" where
  "get_memory w =
     (case sw_cgget w key_mem_usage of
        None \<Rightarrow> raiseP (cgget_error key_mem_usage)
      | Some usage \<Rightarrow>
          bindP (get_memory_limit w) (\<lambda>limit.
            if limit = 0 then raiseP ZeroDivisionError
            else retP (Some [(''mem_mb'', py_round 2 (mb usage)),
                             (''mem_percent'', py_round 1 ((mb usage / mb limit) * 100))])))"

definition get_constraints :: "sys_world \<Rightarrow> (sys_state, real dict) prog" where
  "get_constraints w =
     bindP (get_memory_limit w) (\<lambda>limit.
     bindP (get_cpu_constraint w) (\<lambda>constraint.
       retP ([(''mem_limit_mb'', py_round 3 (mb limit))]
             @ (case constraint of
                  None \<Rightarrow> [] | Some c \<Rightarrow> if c = 0 then [] else [(''cpu_percent'', py_round 2 (c * 100))]))))"

section \<open>The monitor task\<close>

text \<open>
  \<open>_read_system\<close>: each reading function that raises is skipped, the results of the others are
  merged into one datum, which is appended. The monitor's state adds the pending data and the
  groups handed to the callback.
\<close>

fun read_all :: "(sys_state, real dict option) prog list \<Rightarrow> sys_state \<Rightarrow> real dict option list \<times> sys_state" where
  "read_all [] s = ([], s)"
| "read_all (f # fs) s =
     (case f s of
        (Inl e, s1) \<Rightarrow> read_all fs s1
      | (Inr r, s1) \<Rightarrow> (case read_all fs s1 of (rs, s2) \<Rightarrow> (r # rs, s2)))"

fun merge_results :: "real dict \<Rightarrow> real dict option list \<Rightarrow> real dict" where
  "merge_results d [] = d"
| "merge_results d (None # rs) = merge_results d rs"
| "merge_results d (Some r # rs) = merge_results (dupdate d r) rs"

record mon_state =
  mon_sys :: sys_state
  mon_data :: "real dict list"
  mon_sent :: "real dict list list"

definition read_system :: "sys_world \<Rightarrow> mon_state \<Rightarrow> mon_state" where
  "read_system w s =
     (case read_all [get_cpu w, get_memory w] (mon_sys s) of
        (rs, sys) \<Rightarrow>
          s\<lparr>mon_sys := sys,
            mon_data := mon_data s @ [merge_results [(''time'', sw_time w)] rs]\<rparr>)"

definition group_full :: "int option \<Rightarrow> nat \<Rightarrow> bool" where
  "group_full gsize n = (case gsize of None \<Rightarrow> True | Some g \<Rightarrow> g = 0 \<or> g \<le> int n)"

text \<open>The callback's outcome is an input; when it raises, the pending data stay.\<close>

definition invoke_callback :: "int option \<Rightarrow> unit res \<Rightarrow> (mon_state, unit) prog" where
  "invoke_callback gsize outcome s =
     (if group_full gsize (length (mon_data s))
      then (case outcome of
              Inl e \<Rightarrow> (Inl e, s)
            | Inr _ \<Rightarrow> (Inr (), s\<lparr>mon_sent := mon_sent s @ [mon_data s], mon_data := []\<rparr>))
      else (Inr (), s))"

text \<open>
  \<open>monitor_system\<close>: the first reading is not protected; then one iteration for each element of the
  list, until the task is cancelled (the end of the list, or a cancellation in the callback).
\<close>

fun monitor_loop :: "int option \<Rightarrow> (sys_world \<times> unit res) list \<Rightarrow> (mon_state, unit) prog" where
  "monitor_loop gsize [] s = (Inr (), s)"
| "monitor_loop gsize ((w, cb) # its) s =
     (case invoke_callback gsize cb (read_system w s) of
        (Inl e, s1) \<Rightarrow> if e = CancelledError then (Inr (), s1) else (Inl e, s1)
      | (Inr _, s1) \<Rightarrow> monitor_loop gsize its s1)"

definition monitor_system :: "int option \<Rightarrow> sys_world \<Rightarrow> (sys_world \<times> unit res) list \<Rightarrow> (mon_state, unit) prog" where
  "monitor_system gsize w0 its s =
     (case get_cpu w0 (mon_sys s) of
        (Inl e, sys) \<Rightarrow> (Inl e, s\<lparr>mon_sys := sys\<rparr>)
      | (Inr _, sys) \<Rightarrow> monitor_loop gsize its (s\<lparr>mon_sys := sys, mon_data := []\<rparr>))"

section \<open>Node information\<close>

definition inspect_current_networks :: "docker_api \<Rightarrow> string option \<Rightarrow> py list res" where
  "inspect_current_networks api cgroup =
     bindR (get_current_task api cgroup) (\<lambda>task.
     bindR (get_task_networks api task) (\<lambda>net_ids.
       mapR (\<lambda>nid. api_inspect_network api nid False) net_ids))"

definition get_task_id :: "docker_api \<Rightarrow> string option \<Rightarrow> py res" where
  "get_task_id api cgroup = bindR (get_current_task api cgroup) (\<lambda>task. py_index task ''ID'')"

definition get_subnets_cidr :: "py list res \<Rightarrow> py dict res" where
  "get_subnets_cidr networks =
     bindR networks (\<lambda>nets.
     bindR (mapR (\<lambda>net.
              bindR (bindR (py_index net ''Name'') py_string) (\<lambda>name.
              bindR (py_get net ''IPAM'' (PDict [])) (\<lambda>ipam.
              bindR (py_get ipam ''Config'' (PList [])) (\<lambda>config.
              bindR (as_list config) (\<lambda>items.
              bindR (mapR (\<lambda>i. py_index i ''Subnet'') items) (\<lambda>subs.
                Inr (name, PList subs))))))) nets) (\<lambda>kvs.
       Inr (dupdate [] kvs)))"

text \<open>The regular expression for the answer of \<open>nslookup\<close>, tried at each position.\<close>

definition line_of :: "string \<Rightarrow> string" where
  "line_of s = takeWhile (\<lambda>c. c \<noteq> CHR 0x0A) s"

definition has_inner_dot :: "string \<Rightarrow> bool" where
  "has_inner_dot l = (CHR ''.'' \<in> set (butlast (tl l)))"

definition vip_at :: "string \<Rightarrow> string option" where
  "vip_at s =
     (if startswith s ''Name:'' \<and> drop 5 s \<noteq> [] \<and> is_space (hd (drop 5 s))
      then (let r = drop 6 s; l = line_of r; after = drop (Suc (length l)) r
            in if has_inner_dot l \<and> startswith after ''Address:'' \<and> drop 8 after \<noteq> []
                  \<and> is_space (hd (drop 8 after)) \<and> line_of (drop 9 after) \<noteq> []
               then Some (line_of (drop 9 after)) else None)
      else None)"

fun vip_search :: "string \<Rightarrow> string option" where
  "vip_search [] = None"
| "vip_search (c # cs) = (case vip_at (c # cs) of Some v \<Rightarrow> Some v | None \<Rightarrow> vip_search cs)"

definition get_service_vips :: "environ \<Rightarrow> (string \<Rightarrow> string res) \<Rightarrow> py list res \<Rightarrow> py dict res" where
  "get_service_vips env nslookup networks =
     (case env ''SERVICE_NAME'' of
        None \<Rightarrow> Inl AssertionError
      | Some service \<Rightarrow>
          bindR networks (\<lambda>nets.
          bindR (mapR (\<lambda>net. bindR (py_index net ''Name'') py_string) nets) (\<lambda>names.
          bindR (mapR (\<lambda>n. bindR (nslookup (service @ ''.'' @ n)) (\<lambda>out. Inr (n, out))) names) (\<lambda>outs.
          bindR (mapR (\<lambda>(n, out). case vip_search out of None \<Rightarrow> Inl AssertionError | Some v \<Rightarrow> Inr (n, PStr v))
                   (dupdate [] outs)) (\<lambda>vips.
            Inr vips)))))"

text \<open>The model of the processor: the regular expression on the output of \<open>lscpu\<close>, then two fallbacks.\<close>

definition model_at :: "string \<Rightarrow> string option" where
  "model_at s =
     (if startswith s ''Model'' \<and> drop 5 s \<noteq> [] \<and> is_space (hd (drop 5 s)) \<and> startswith (drop 6 s) ''name:''
      then (let r = drop 11 s; t = dropWhile is_space r; spaces = filter (\<lambda>c. c \<noteq> CHR 0x0A) r
            in if t \<noteq> [] then Some (line_of t)
               else if spaces \<noteq> [] then Some [last spaces] else None)
      else None)"

fun model_search :: "string \<Rightarrow> string option" where
  "model_search [] = None"
| "model_search (c # cs) = (case model_at (c # cs) of Some v \<Rightarrow> Some v | None \<Rightarrow> model_search cs)"

definition get_cpu_model_lscpu :: "string res \<Rightarrow> string res" where
  "get_cpu_model_lscpu output =
     bindR output (\<lambda>out. case model_search out of None \<Rightarrow> Inl AssertionError | Some m \<Rightarrow> Inr m)"

definition get_cpu_model :: "string res \<Rightarrow> string res \<Rightarrow> string" where
  "get_cpu_model lscpu psutil =
     (case get_cpu_model_lscpu lscpu of
        Inr m \<Rightarrow> m
      | Inl _ \<Rightarrow> (case psutil of Inr m \<Rightarrow> m | Inl _ \<Rightarrow> ''Unknown CPU''))"

text \<open>
  \<open>get_node_info\<close>: a section that raises is left out; the result is printed and read back as JSON.
\<close>

fun add_sections :: "py dict \<Rightarrow> (string \<times> py res) list \<Rightarrow> py dict" where
  "add_sections info [] = info"
| "add_sections info ((k, Inr v) # rest) = add_sections (dset info k v) rest"
| "add_sections info ((k, Inl e) # rest) = add_sections info rest"

definition get_node_info :: "(string \<Rightarrow> string) \<Rightarrow> py dict \<Rightarrow> py res \<Rightarrow> py res \<Rightarrow> py res \<Rightarrow> py res \<Rightarrow> py res \<Rightarrow> py option" where
  "get_node_info canon base vips cidr cid task constraints =
     json_loads canon (json_dumps (PDict (add_sections base
       [(''service_vips'', vips), (''networks_cidr'', cidr), (''container_id'', cid),
        (''task_id'', task), (''constraints'', constraints)])))"

section \<open>Facts\<close>

lemma cpu_nanos_Inr: "get_cpu_nanos w = Inr u \<longleftrightarrow> sw_cgget w key_cpu_usage = Some u"
  by (auto simp: get_cpu_nanos_def split: option.splits)

lemma cpu_percent_records:
  assumes "get_cpu_percent w s = (Inr x, s')"
  obtains u where "sw_cgget w key_cpu_usage = Some u"
    "s' = s\<lparr>times_system := Some (get_cpu_nanos_system w), times_cgroup := Some u\<rparr>"
  using assms
  by (auto simp: get_cpu_percent_def update_times_state_def Let_def bindP_eq_Inr cpu_nanos_Inr split: if_splits)

lemma cpu_percent_fails:
  "get_cpu_percent w s = (Inl e, s') \<Longrightarrow> s' = s \<and> sw_cgget w key_cpu_usage = None"
  by (auto simp: get_cpu_percent_def update_times_state_def Let_def bindP_eq_Inl get_cpu_nanos_def
      split: if_splits option.splits)

text \<open>
  The CPU usage reported is the share of processor time between two consecutive readings, times
  the number of processors, in percent, and zero when a clock did not advance. It is never negative;
  a reading that fails leaves the previous one in place.
\<close>

theorem cpu_percent_between_readings:
  assumes "get_cpu_percent w1 s = (Inr x, s1)"
  shows "\<exists>u1. sw_cgget w1 key_cpu_usage = Some u1 \<and>
    (case sw_cgget w2 key_cpu_usage of
       None \<Rightarrow> get_cpu_percent w2 s1 = (Inl (cgget_error key_cpu_usage), s1)
     | Some u2 \<Rightarrow> \<exists>p s2. get_cpu_percent w2 s1 = (Inr (Some p), s2) \<and> 0 \<le> p
         \<and> p = (if u1 < u2 \<and> get_cpu_nanos_system w1 < get_cpu_nanos_system w2
                then of_int (u2 - u1) / (get_cpu_nanos_system w2 - get_cpu_nanos_system w1)
                     * real (sw_cpu_count w2) * 100
                else 0))"
proof -
  obtain u1 where u1: "sw_cgget w1 key_cpu_usage = Some u1"
    and s1: "s1 = s\<lparr>times_system := Some (get_cpu_nanos_system w1), times_cgroup := Some u1\<rparr>"
    using cpu_percent_records [OF assms] by blast
  have ne: "\<not> is_times_state_empty s1" by (simp add: s1 is_times_state_empty_def)
  show ?thesis
  proof (cases "sw_cgget w2 key_cpu_usage")
    case None
    then show ?thesis using u1 ne by (simp add: get_cpu_percent_def get_cpu_nanos_def bindP_def)
  next
    case (Some u2)
    define n1 n2 where "n1 = get_cpu_nanos_system w1" and "n2 = get_cpu_nanos_system w2"
    let ?p = "if u1 < u2 \<and> n1 < n2 then of_int (u2 - u1) / (n2 - n1) * real (sw_cpu_count w2) * 100 else 0"
    have "0 \<le> ?p" by simp
    moreover have "\<exists>s2. get_cpu_percent w2 s1 = (Inr (Some ?p), s2)"
      using ne Some by (simp add: get_cpu_percent_def get_cpu_nanos_def Let_def bindP_def s1 n1_def n2_def)
    ultimately show ?thesis using u1 Some unfolding n1_def n2_def by auto
  qed
qed

definition demo_world :: "int \<Rightarrow> real \<Rightarrow> sys_world" where
  "demo_world usage user =
     \<lparr>sw_cgget = (\<lambda>k. if k = key_cpu_usage then Some usage else if k = key_cpu_period then Some 100000
                      else if k = key_cpu_quota then Some 50000 else Some 1024),
      sw_user = user, sw_system = 0, sw_idle = 0, sw_cpu_count = 4, sw_mem_total = 4096, sw_time = user\<rparr>"

theorem cpu_percent_between_readings_witness:
  "\<exists>p s2. get_cpu_percent (demo_world 3000000000 2) (snd (get_cpu_percent (demo_world 1000000000 1) init_state)) = (Inr (Some p), s2)
     \<and> 0 \<le> p"
proof -
  have "get_cpu_percent (demo_world 1000000000 1) init_state
      = (Inr None, snd (get_cpu_percent (demo_world 1000000000 1) init_state))"
    by (simp add: get_cpu_percent_def is_times_state_empty_def init_state_def update_times_state_def
        get_cpu_nanos_def demo_world_def bindP_def)
  from cpu_percent_between_readings [OF this, of "demo_world 3000000000 2"] show ?thesis
    by (auto simp: demo_world_def)
qed

lemma cached_store [simp]:
  "cached_param k (store_param k' v s) = (if k = k' then v else cached_param k s)"
  by (simp add: cached_param_def store_param_def dget_dset)

interpretation cpu_period: read_once "cached_param key_cpu_period" "cgget_cpu_period True w" for w
  by unfold_locales (auto simp: cgget_cpu_period_def split: if_splits option.splits)

interpretation cpu_quota: read_once "cached_param key_cpu_quota" "cgget_cpu_quota True w" for w
  by unfold_locales (auto simp: cgget_cpu_quota_def split: if_splits option.splits)

lemma period_keeps_quota:
  "cgget_cpu_quota b w s = (r, s') \<Longrightarrow> cached_param key_cpu_period s' = cached_param key_cpu_period s"
  by (auto simp: cgget_cpu_quota_def sys_keys split: if_splits option.splits)

text \<open>
  The CPU constraint of the container, once read, is returned unchanged for the life of the
  process, whatever the cgroup parameters are later, and without reading them again.
\<close>

theorem cpu_constraint_stable:
  assumes "get_cpu_constraint w s = (Inr c, s1)"
  shows "get_cpu_constraint w' s1 = (Inr c, s1)
     \<and> (\<exists>p q. cached_param key_cpu_period s1 = Some p \<and> cached_param key_cpu_quota s1 = Some q
          \<and> c = (if 0 < q then Some (of_int q / of_int p) else None))"
proof -
  obtain p q sp where p: "cgget_cpu_period True w s = (Inr p, sp)" and q: "cgget_cpu_quota True w sp = (Inr q, s1)"
    and c: "c = (if 0 < q then Some (of_int q / of_int p) else None)" "0 < q \<longrightarrow> p \<noteq> 0"
    using assms by (auto simp: get_cpu_constraint_def bindP_eq_Inr split: if_splits)
  have cp: "cached_param key_cpu_period s1 = Some p"
    using cpu_period.fill [OF p] period_keeps_quota [OF q] by simp
  moreover have cq: "cached_param key_cpu_quota s1 = Some q"
    by (rule cpu_quota.fill [OF q])
  moreover have "cgget_cpu_period True w' s1 = (Inr p, s1)" "cgget_cpu_quota True w' s1 = (Inr q, s1)"
    using cpu_period.hit [OF cp] cpu_quota.hit [OF cq] by auto
  ultimately show ?thesis using c by (simp add: get_cpu_constraint_def bindP_def)
qed

theorem cpu_constraint_stable_witness:
  "\<exists>s1. get_cpu_constraint (demo_world 0 0) init_state = (Inr (Some (1 / 2)), s1)
     \<and> get_cpu_constraint (demo_world 9 9) s1 = (Inr (Some (1 / 2)), s1)"
proof -
  have "get_cpu_constraint (demo_world 0 0) init_state
      = (Inr (Some (1 / 2)), snd (get_cpu_constraint (demo_world 0 0) init_state))"
    by (simp add: get_cpu_constraint_def cgget_cpu_period_def cgget_cpu_quota_def init_state_def demo_world_def
        bindP_def cached_param_def sys_keys store_param_def dget_dset)
  with cpu_constraint_stable [OF this] show ?thesis by blast
qed

section \<open>Grouping\<close>

definition has_time :: "real \<Rightarrow> real dict \<Rightarrow> bool" where
  "has_time t d \<longleftrightarrow> dget d ''time'' = Some t"

lemma merge_results_time:
  "has_time t d \<Longrightarrow> \<forall>r. Some r \<in> set rs \<longrightarrow> map_of (rev r) ''time'' = None \<Longrightarrow> has_time t (merge_results d rs)"
  by (induction d rs rule: merge_results.induct) (auto simp: has_time_def dget_dupdate)

lemma get_cpu_no_time: "get_cpu w s = (Inr (Some r), s') \<Longrightarrow> map_of (rev r) ''time'' = None"
  by (auto simp: get_cpu_def bindP_eq_Inr split: option.splits if_splits)

lemma get_memory_no_time: "get_memory w s = (Inr (Some r), s') \<Longrightarrow> map_of (rev r) ''time'' = None"
  by (auto simp: get_memory_def bindP_eq_Inr split: option.splits if_splits)

lemma read_all_results:
  "read_all fs s = (rs, s') \<Longrightarrow> Some r \<in> set rs \<Longrightarrow> \<exists>f\<in>set fs. \<exists>s1 s2. f s1 = (Inr (Some r), s2)"
  by (induction fs s arbitrary: rs s' rule: read_all.induct) (fastforce split: prod.splits sum.splits)+

lemma read_system_appends:
  "\<exists>d. mon_data (read_system w s) = mon_data s @ [d] \<and> has_time (sw_time w) d \<and> mon_sent (read_system w s) = mon_sent s"
proof -
  obtain rs sys where r: "read_all [get_cpu w, get_memory w] (mon_sys s) = (rs, sys)"
    by (cases "read_all [get_cpu w, get_memory w] (mon_sys s)")
  have "has_time (sw_time w) (merge_results [(''time'', sw_time w)] rs)"
  proof (rule merge_results_time)
    show "\<forall>r. Some r \<in> set rs \<longrightarrow> map_of (rev r) ''time'' = None"
      using read_all_results [OF r] get_cpu_no_time get_memory_no_time by fastforce
  qed (simp add: has_time_def dget_Cons)
  then show ?thesis unfolding read_system_def r by simp
qed

text \<open>
  When every delivery succeeds, each iteration produces one datum with its time; the data reach
  the callback each once, in order, in groups of exactly the group size, and fewer than a group are
  pending when the task is cancelled.
\<close>

theorem monitor_groups:
  assumes "1 \<le> g" and "\<forall>it\<in>set its. snd it = Inr ()" and "int (length (mon_data s)) < g"
  shows "\<exists>s' new groups. monitor_loop (Some g) its s = (Inr (), s')
     \<and> mon_sent s' = mon_sent s @ groups \<and> concat groups @ mon_data s' = mon_data s @ new
     \<and> list_all2 (\<lambda>it d. has_time (sw_time (fst it)) d) its new
     \<and> (\<forall>b\<in>set groups. int (length b) = g) \<and> int (length (mon_data s')) < g"
  using assms(2,3)
proof (induction its arbitrary: s)
  case Nil
  then show ?case by (intro exI [of _ s] exI [of _ "[]"]) simp
next
  case (Cons it its)
  obtain w cb where it: "it = (w, cb)" by (cases it)
  have cb: "cb = Inr ()" using Cons.prems(1) it by simp
  obtain d where d: "mon_data (read_system w s) = mon_data s @ [d]" "has_time (sw_time w) d"
    "mon_sent (read_system w s) = mon_sent s" using read_system_appends by blast
  define s1 where "s1 = snd (invoke_callback (Some g) cb (read_system w s))"
  have inv: "invoke_callback (Some g) cb (read_system w s) = (Inr (), s1)"
    by (simp add: s1_def invoke_callback_def cb)
  have s1: "\<exists>gs. mon_sent s1 = mon_sent s @ gs \<and> concat gs @ mon_data s1 = mon_data s @ [d]
      \<and> (\<forall>b\<in>set gs. int (length b) = g) \<and> int (length (mon_data s1)) < g"
  proof (cases "g \<le> int (length (mon_data s @ [d]))")
    case True
    then have "int (length (mon_data s @ [d])) = g" using Cons.prems(2) by simp
    with True assms(1) show ?thesis
      by (intro exI [of _ "[mon_data s @ [d]]"]) (simp add: s1_def invoke_callback_def cb group_full_def d)
  next
    case False
    then show ?thesis
      using assms(1) by (intro exI [of _ "[]"]) (simp add: s1_def invoke_callback_def group_full_def d)
  qed
  then obtain gs where gs: "mon_sent s1 = mon_sent s @ gs" "concat gs @ mon_data s1 = mon_data s @ [d]"
    "\<forall>b\<in>set gs. int (length b) = g" "int (length (mon_data s1)) < g" by blast
  have rest: "\<forall>it\<in>set its. snd it = Inr ()" using Cons.prems(1) by simp
  obtain s' new groups where ih: "monitor_loop (Some g) its s1 = (Inr (), s')"
    "mon_sent s' = mon_sent s1 @ groups" "concat groups @ mon_data s' = mon_data s1 @ new"
    "list_all2 (\<lambda>it d. has_time (sw_time (fst it)) d) its new"
    "\<forall>b\<in>set groups. int (length b) = g" "int (length (mon_data s')) < g"
    using Cons.IH [OF rest gs(4)] by blast
  have "concat (gs @ groups) @ mon_data s' = mon_data s @ d # new"
    using ih(3) gs(2) by (metis append.assoc append_Cons append_Nil concat_append)
  then show ?case
    using ih gs d(2) inv by (intro exI [of _ s'] exI [of _ "d # new"] exI [of _ "gs @ groups"]) (auto simp: it)
qed

theorem monitor_groups_witness:
  "\<exists>s'. monitor_loop (Some 2) [(demo_world 1 1, Inr ()), (demo_world 2 2, Inr ()), (demo_world 3 3, Inr ())]
       \<lparr>mon_sys = init_state, mon_data = [], mon_sent = []\<rparr> = (Inr (), s')
     \<and> int (length (mon_data s')) < 2"
proof -
  have "int (length (mon_data \<lparr>mon_sys = init_state, mon_data = [], mon_sent = []\<rparr>)) < 2" by simp
  from monitor_groups [OF _ _ this, of "[(demo_world 1 1, Inr ()), (demo_world 2 2, Inr ()), (demo_world 3 3, Inr ())]"]
  show ?thesis by auto
qed

text \<open>
  The information written for a node: whatever the sections raise, it is produced, it holds the
  sections that could be read and the base information unchanged, and printing it as JSON loses
  nothing.
\<close>

theorem node_info_complete:
  assumes "json_ok canon (PDict (add_sections base
       [(''service_vips'', vips), (''networks_cidr'', cidr), (''container_id'', cid),
        (''task_id'', task), (''constraints'', constraints)]))"
  shows "\<exists>d. get_node_info canon base vips cidr cid task constraints = Some (PDict d)
    \<and> dget d ''container_id'' = (case cid of Inr v \<Rightarrow> Some v | Inl _ \<Rightarrow> dget base ''container_id'')
    \<and> dget d ''task_id'' = (case task of Inr v \<Rightarrow> Some v | Inl _ \<Rightarrow> dget base ''task_id'')
    \<and> dget d ''service_vips'' = (case vips of Inr v \<Rightarrow> Some v | Inl _ \<Rightarrow> dget base ''service_vips'')
    \<and> dget d ''networks_cidr'' = (case cidr of Inr v \<Rightarrow> Some v | Inl _ \<Rightarrow> dget base ''networks_cidr'')
    \<and> dget d ''constraints'' = (case constraints of Inr v \<Rightarrow> Some v | Inl _ \<Rightarrow> dget base ''constraints'')
    \<and> dget d ''hostname'' = dget base ''hostname''"
proof -
  let ?d = "add_sections base
       [(''service_vips'', vips), (''networks_cidr'', cidr), (''container_id'', cid),
        (''task_id'', task), (''constraints'', constraints)]"
  have "get_node_info canon base vips cidr cid task constraints = Some (PDict ?d)"
    unfolding get_node_info_def by (rule json_loads_dumps [OF assms])
  then show ?thesis
    by (cases vips; cases cidr; cases cid; cases task; cases constraints) (simp_all add: dget_dset)
qed

theorem node_info_complete_witness:
  "\<exists>d. get_node_info (\<lambda>s. s) [(''hostname'', PStr ''n1'')] (Inl AssertionError) (Inr (PDict [])) (Inr (PStr ''abc''))
       (Inl StopIteration) (Inl CancelledError) = Some (PDict d) \<and> dget d ''hostname'' = Some (PStr ''n1'')"
proof -
  have "json_ok (\<lambda>s. s) (PDict (add_sections [(''hostname'', PStr ''n1'')]
       [(''service_vips'', Inl AssertionError), (''networks_cidr'', Inr (PDict [])), (''container_id'', Inr (PStr ''abc'')),
        (''task_id'', Inl StopIteration), (''constraints'', Inl CancelledError)]))"
    by (simp add: dset_def dict_ok_def)
  from node_info_complete [OF this] show ?thesis by (auto simp: dget_Cons)
qed

end
