(* ===== verification/NodeMonitor.thy ===== *)
theory NodeMonitor
  imports SystemMonitor
begin

text \<open>
  \<^verbatim>\<open>wotemu/monitor/base.py\<close> and \<^verbatim>\<open>wotemu/monitor/utils.py\<close>: the monitor of a node, which owns a
  Redis pool, a task that samples the system and one task per network interface. The state has the
  attributes of the object and what it did to the world: pools left open and entries written. How
  each await ends is an input (\<open>start_world\<close>, \<open>stop_world\<close>).
\<close>

section \<open>State\<close>

record redis_entry =
  re_key :: string
  re_score :: py
  re_member :: string

record nm_state =
  nm_redis :: bool
  nm_task_system :: "string option"
  nm_tasks_packet :: "string list option"
  nm_pools :: nat
  nm_written :: "redis_entry list"

record nm_config =
  nc_key :: string
  nc_ifaces :: "string list option"

definition init_monitor :: nm_state where
  "init_monitor = \<lparr>nm_redis = False, nm_task_system = None, nm_tasks_packet = None, nm_pools = 0, nm_written = []\<rparr>"

definition redis_key :: "redis_prefix \<Rightarrow> string list \<Rightarrow> string" where
  "redis_key p parts = join '':'' (prefix_value NAMESPACE # prefix_value p # parts)"

definition is_running :: "nm_state \<Rightarrow> bool" where
  "is_running s = (nm_task_system s \<noteq> None \<or> truthy_list (nm_tasks_packet s))"

section \<open>Redis\<close>

definition redis_open :: "unit res \<Rightarrow> (nm_state, unit) prog" where
  "redis_open create s =
     (if nm_redis s then (Inr (), s)
      else (case create of
              Inl e \<Rightarrow> (Inl e, s)
            | Inr _ \<Rightarrow> (Inr (), s\<lparr>nm_redis := True, nm_pools := nm_pools s + 1\<rparr>)))"

definition redis_close :: "unit res \<Rightarrow> (nm_state, unit) prog" where
  "redis_close wait_closed s =
     (if \<not> nm_redis s then (Inr (), s)
      else (case wait_closed of
              Inl e \<Rightarrow> (Inl e, s\<lparr>nm_pools := nm_pools s - 1\<rparr>)
            | Inr _ \<Rightarrow> (Inr (), s\<lparr>nm_pools := nm_pools s - 1, nm_redis := False\<rparr>)))"

text \<open>
  \<open>_redis_callback\<close>: one transaction with an entry per item; the score is the item's time, or the
  current time when it has none. A transaction that raises writes nothing.
\<close>

definition callback_entries :: "py \<Rightarrow> string \<Rightarrow> py dict list \<Rightarrow> redis_entry list" where
  "callback_entries now key items =
     map (\<lambda>item. \<lparr>re_key = key, re_score = get_default item ''time'' now, re_member = json_dumps (PDict item)\<rparr>) items"

definition redis_callback :: "py \<Rightarrow> unit res \<Rightarrow> string \<Rightarrow> py dict list \<Rightarrow> (nm_state, unit) prog" where
  "redis_callback now execute key items s =
     (if \<not> nm_redis s then (Inl AttributeError, s)
      else (case execute of
              Inl e \<Rightarrow> (Inl e, s)
            | Inr _ \<Rightarrow> (Inr (), s\<lparr>nm_written := nm_written s @ callback_entries now key items\<rparr>)))"

section \<open>Tasks\<close>

definition create_system_task :: "nm_config \<Rightarrow> (nm_state, unit) prog" where
  "create_system_task c s =
     (if nm_task_system s \<noteq> None then (Inl AssertionError, s)
      else (Inr (), s\<lparr>nm_task_system := Some (redis_key SYSTEM [nc_key c])\<rparr>))"

definition create_packet_tasks :: "nm_config \<Rightarrow> (nm_state, unit) prog" where
  "create_packet_tasks c s =
     (if truthy_list (nm_tasks_packet s) then (Inl AssertionError, s)
      else if \<not> truthy_list (nc_ifaces c) then (Inr (), s)
      else (Inr (), s\<lparr>nm_tasks_packet :=
              Some (map (\<lambda>i. redis_key PACKET [i, nc_key c]) (the (nc_ifaces c)))\<rparr>))"

text \<open>\<open>ended k\<close> is how the cancelled task that writes under the key \<open>k\<close> ends.\<close>

record stop_world =
  sw_ended :: "string \<Rightarrow> unit res"
  sw_closed :: "unit res"

definition stop_system_task :: "stop_world \<Rightarrow> (nm_state, unit) prog" where
  "stop_system_task w s =
     (case nm_task_system s of
        None \<Rightarrow> (Inr (), s)
      | Some k \<Rightarrow>
          (case sw_ended w k of
             Inl e \<Rightarrow> (Inl e, s)
           | Inr _ \<Rightarrow> (Inr (), s\<lparr>nm_task_system := None\<rparr>)))"

definition stop_packet_tasks :: "stop_world \<Rightarrow> (nm_state, unit) prog" where
  "stop_packet_tasks w s =
     (if \<not> truthy_list (nm_tasks_packet s) then (Inr (), s)
      else (case gather (sw_ended w) (the (nm_tasks_packet s)) of
              Inl e \<Rightarrow> (Inl e, s)
            | Inr _ \<Rightarrow> (Inr (), s\<lparr>nm_tasks_packet := None\<rparr>)))"

record start_world =
  st_create :: "unit res"
  st_info :: "py dict res"
  st_time :: py
  st_zadd :: "unit res"

definition write_node_info :: "nm_config \<Rightarrow> start_world \<Rightarrow> (nm_state, unit) prog" where
  "write_node_info c w s =
     (if \<not> nm_redis s then (Inl AssertionError, s)
      else (case st_info w of
              Inl e \<Rightarrow> (Inl e, s)
            | Inr info \<Rightarrow>
                (case st_zadd w of
                   Inl e \<Rightarrow> (Inl e, s)
                 | Inr _ \<Rightarrow> (Inr (), s\<lparr>nm_written := nm_written s @
                     [\<lparr>re_key = redis_key INFO [nc_key c], re_score = st_time w,
                       re_member = json_dumps (PDict (dset info ''time'' (st_time w)))\<rparr>]\<rparr>))))"

section \<open>Start and stop\<close>

definition monitor_start :: "nm_config \<Rightarrow> start_world \<Rightarrow> (nm_state, unit) prog" where
  "monitor_start c w s =
     (if is_running s then (Inl (RuntimeError ''Already running''), s)
      else bindP (redis_open (st_create w)) (\<lambda>_.
           bindP (write_node_info c w) (\<lambda>_.
           bindP (create_system_task c) (\<lambda>_.
             create_packet_tasks c))) s)"

definition monitor_stop :: "stop_world \<Rightarrow> (nm_state, unit) prog" where
  "monitor_stop w =
     bindP (stop_system_task w) (\<lambda>_.
     bindP (stop_packet_tasks w) (\<lambda>_.
     bindP (redis_close (sw_closed w)) (\<lambda>_.
       modifyP (\<lambda>s. s\<lparr>nm_task_system := None, nm_tasks_packet := None\<rparr>))))"

section \<open>The life of a monitor\<close>

text \<open>Any sequence of starts, stops and deliveries, with any outcome of what they await.\<close>

inductive monitor_step :: "nm_config \<Rightarrow> nm_state \<Rightarrow> nm_state \<Rightarrow> bool" for c where
  start: "monitor_start c w s = (r, s') \<Longrightarrow> monitor_step c s s'"
| stop: "monitor_stop w s = (r, s') \<Longrightarrow> monitor_step c s s'"
| deliver: "redis_callback now ex key items s = (r, s') \<Longrightarrow> monitor_step c s s'"

inductive monitor_reach :: "nm_config \<Rightarrow> nm_state \<Rightarrow> bool" for c where
  initial: "monitor_reach c init_monitor"
| step: "monitor_reach c s \<Longrightarrow> monitor_step c s s' \<Longrightarrow> monitor_reach c s'"

inductive_cases monitor_stepE: "monitor_step c s s'"

definition monitor_inv :: "nm_state \<Rightarrow> bool" where
  "monitor_inv s \<longleftrightarrow> nm_pools s \<le> (if nm_redis s then 1 else 0) \<and> (is_running s \<longrightarrow> nm_redis s)"

lemma running_simps [simp]:
  "is_running (s\<lparr>nm_redis := b\<rparr>) = is_running s"
  "is_running (s\<lparr>nm_pools := n\<rparr>) = is_running s"
  "is_running (s\<lparr>nm_written := xs\<rparr>) = is_running s"
  by (simp_all add: is_running_def)

definition keeps_inv :: "(nm_state, 'a) prog \<Rightarrow> bool" where
  "keeps_inv m \<longleftrightarrow> (\<forall>s. monitor_inv s \<longrightarrow> monitor_inv (snd (m s)))"

lemma keeps_bind: "keeps_inv m \<Longrightarrow> (\<And>x. keeps_inv (f x)) \<Longrightarrow> keeps_inv (bindP m f)"
  by (auto simp: keeps_inv_def bindP_def split: prod.splits sum.splits)

lemma keeps_parts:
  "keeps_inv (write_node_info c w)" "keeps_inv (stop_system_task sw)" "keeps_inv (stop_packet_tasks sw)"
  "keeps_inv (redis_callback now ex key items)" "keeps_inv (redis_open cr)"
  by (auto simp: keeps_inv_def monitor_inv_def write_node_info_def stop_system_task_def stop_packet_tasks_def
      redis_callback_def redis_open_def is_running_def truthy_list_def split: sum.splits option.splits)

lemma start_keeps_inv: "monitor_inv s \<Longrightarrow> monitor_inv (snd (monitor_start c w s))"
  by (auto simp: monitor_start_def bindP_def redis_open_def write_node_info_def create_system_task_def
      create_packet_tasks_def monitor_inv_def split: sum.splits prod.splits if_splits)

lemma stop_keeps_inv: "monitor_inv s \<Longrightarrow> monitor_inv (snd (monitor_stop w s))"
  by (auto simp: monitor_stop_def bindP_def redis_close_def stop_system_task_def stop_packet_tasks_def
      monitor_inv_def is_running_def truthy_list_def split: sum.splits prod.splits if_splits option.splits)

lemma step_keeps_inv:
  assumes "monitor_step c s s'" and "monitor_inv s"
  shows "monitor_inv s'"
  using assms(1)
proof (rule monitor_stepE)
  show "monitor_inv s'" if "monitor_start c w s = (r, s')" for w r
    using start_keeps_inv [OF assms(2), of c w] that by simp
  show "monitor_inv s'" if "monitor_stop w s = (r, s')" for w r
    using stop_keeps_inv [OF assms(2), of w] that by simp
  show "monitor_inv s'" if "redis_callback now ex key items s = (r, s')" for now ex key items r
    using keeps_parts(4) [of now ex key items] assms(2) that unfolding keeps_inv_def by (metis snd_conv)
qed


definition demo_start :: start_world where
  "demo_start = \<lparr>st_create = Inr (), st_info = Inr [(''cpu_count'', PInt 4)], st_time = PFloat ''12.5'', st_zadd = Inr ()\<rparr>"

definition demo_monitor :: nm_config where
  "demo_monitor = \<lparr>nc_key = ''host'', nc_ifaces = Some [''eth0'']\<rparr>"


text \<open>
  A start either fails with \<open>Already running\<close> and changes nothing, or it fails and leaves no task,
  or it succeeds: the node's information is then written once under its key, before the tasks exist,
  and there is one task for the system and one for each interface.
\<close>

theorem start_outcomes:
  "case monitor_start c w s of
     (Inl e, s') \<Rightarrow>
       (if is_running s then e = RuntimeError ''Already running'' \<and> s' = s
        else \<not> is_running s' \<and> nm_written s' = nm_written s)
   | (Inr _, s') \<Rightarrow>
       \<not> is_running s \<and> nm_redis s' \<and> nm_task_system s' = Some (redis_key SYSTEM [nc_key c])
       \<and> (truthy_list (nc_ifaces c) = truthy_list (nm_tasks_packet s'))
       \<and> map re_key (nm_written s') = map re_key (nm_written s) @ [redis_key INFO [nc_key c]]"
proof (cases "is_running s")
  case True
  then show ?thesis by (simp add: monitor_start_def)
next
  case False
  then have none: "nm_task_system s = None" "\<not> truthy_list (nm_tasks_packet s)"
    by (auto simp: is_running_def)
  have mapl: "truthy_list (Some (map f xs)) = (xs \<noteq> [])" for f :: "string \<Rightarrow> string" and xs
    by (simp add: truthy_list_def)
  show ?thesis
    using False none
    by (auto simp: monitor_start_def bindP_def redis_open_def write_node_info_def create_system_task_def
        create_packet_tasks_def mapl split: sum.splits) (auto simp: truthy_list_def split: option.splits)
qed

text \<open>
  A stop that returns leaves the monitor stopped and without a pool, and a second stop changes
  nothing. But when the system task ended with an error, every stop raises that error before the
  packet tasks are cancelled and before the pool is closed.
\<close>

theorem stop_outcomes:
  "case monitor_stop w s of
     (Inr _, s') \<Rightarrow> \<not> is_running s' \<and> \<not> nm_redis s' \<and> nm_tasks_packet s' = None
       \<and> monitor_stop w' s' = (Inr (), s') \<and> nm_written s' = nm_written s
   | (Inl e, s') \<Rightarrow>
       (case nm_task_system s of
          Some k \<Rightarrow> (case sw_ended w k of Inl e' \<Rightarrow> e = e' \<and> s' = s | Inr _ \<Rightarrow> nm_task_system s' = None)
        | None \<Rightarrow> nm_task_system s' = None)"
  by (auto simp: monitor_stop_def bindP_def stop_system_task_def stop_packet_tasks_def redis_close_def
      is_running_def truthy_list_def split: sum.splits prod.splits option.splits if_splits)

section \<open>Application metrics\<close>

text \<open>
  \<open>write_metric\<close>: the connection of the module is reused while it answers a ping, and replaced
  otherwise. \<open>create\<close> is the outcome of opening a connection, the state its identity.
\<close>

definition get_redis :: "(nat \<Rightarrow> bool) \<Rightarrow> py \<Rightarrow> nat res \<Rightarrow> (nat option, nat) prog" where
  "get_redis ping url create s =
     (case s of
        Some c \<Rightarrow> if ping c then (Inr c, s) else
          (if \<not> truthy url then (Inl (RuntimeError ''Undefined Redis URL''), s)
           else (case create of Inl e \<Rightarrow> (Inl e, s) | Inr c' \<Rightarrow> (Inr c', Some c')))
      | None \<Rightarrow>
          (if \<not> truthy url then (Inl (RuntimeError ''Undefined Redis URL''), s)
           else (case create of Inl e \<Rightarrow> (Inl e, s) | Inr c' \<Rightarrow> (Inr c', Some c'))))"

definition write_metric ::
  "(nat \<Rightarrow> bool) \<Rightarrow> py \<Rightarrow> nat res \<Rightarrow> string \<Rightarrow> string \<Rightarrow> py \<Rightarrow> py dict \<Rightarrow> (nat option, nat \<times> redis_entry) prog" where
  "write_metric ping url create host key now data =
     bindP (get_redis ping url create) (\<lambda>conn.
       retP (conn, \<lparr>re_key = redis_key APP [host, key], re_score = now,
                    re_member = json_dumps (PDict (dset data ''created_at'' now))\<rparr>))"

lemma redis_key_simps:
  "redis_key p [x] = prefix_value NAMESPACE @ '':'' @ prefix_value p @ '':'' @ x"
  by (simp add: redis_key_def)

end
