(* ===== verification/PacketMonitor.thy ===== *)
theory PacketMonitor
  imports NodeMonitor
begin

text \<open>
  \<^verbatim>\<open>wotemu/monitor/packet.py\<close>: the capture of the packets of one interface in another process. The
  capture process puts packets in a bounded queue; the monitor task drains it, checks that the
  process lives, and terminates it at the end. Parameters: the fields of a captured packet (pyshark),
  the conversion \<open>to_float\<close>, and how the awaits and system calls end.
\<close>

definition display_filter :: "env_config \<Rightarrow> string" where
  "display_filter c =
     ''tcp.port=='' @ py_str (port_mqtt c) @ '' or tcp.port=='' @ py_str (port_http c)
     @ '' or tcp.port=='' @ py_str (port_ws c) @ '' or tcp.port=='' @ py_str (port_coap c)
     @ '' or udp.port=='' @ py_str (port_coap c)"

section \<open>Packets\<close>

record packet =
  pk_length :: string
  pk_ip :: "(string \<times> string) option"
  pk_layers :: "string list"
  pk_timestamp :: string
  pk_tcp :: "(string \<times> string) option"
  pk_udp :: "(string \<times> string) option"

definition int_or_raise :: "string \<Rightarrow> py res" where
  "int_or_raise s = (case py_int s of Some i \<Rightarrow> Inr (PInt i) | None \<Rightarrow> Inl (ValueError ''int''))"

definition add_ports :: "(string \<times> string) option \<Rightarrow> py dict \<Rightarrow> py dict res" where
  "add_ports layer d =
     (case layer of
        None \<Rightarrow> Inr d
      | Some (src, dst) \<Rightarrow>
          bindR (int_or_raise src) (\<lambda>s. bindR (int_or_raise dst) (\<lambda>t.
            Inr (dupdate d [(''srcport'', s), (''dstport'', t)]))))"

definition packet_to_dict :: "(string \<Rightarrow> py res) \<Rightarrow> packet \<Rightarrow> py dict res" where
  "packet_to_dict to_float p =
     bindR (int_or_raise (pk_length p)) (\<lambda>len.
     bindR (case pk_ip p of None \<Rightarrow> Inl AttributeError | Some a \<Rightarrow> Inr a) (\<lambda>(src, dst).
     bindR (if pk_layers p = [] then Inl IndexError else Inr (last (pk_layers p))) (\<lambda>proto.
     bindR (if length (pk_layers p) \<le> 2 then Inl IndexError else Inr (pk_layers p ! 2)) (\<lambda>transport.
     bindR (to_float (pk_timestamp p)) (\<lambda>t.
     bindR (add_ports (pk_tcp p)
       [(''len'', len), (''src'', PStr src), (''dst'', PStr dst), (''proto'', PStr proto),
        (''transport'', PStr transport), (''time'', t)]) (\<lambda>d.
       add_ports (pk_udp p) d))))))"

section \<open>The queue\<close>

text \<open>
  A full queue drops the packet; the stop event ends the capture after the packet. A queue of size 0 has the greatest bound
  that a semaphore allows.
\<close>

definition queue_limit :: "nat \<Rightarrow> nat" where
  "queue_limit qsize = (if qsize = 0 then 2147483647 else qsize)"

definition put_nowait :: "nat \<Rightarrow> 'a list \<Rightarrow> 'a \<Rightarrow> 'a list option" where
  "put_nowait qsize q x = (if queue_limit qsize \<le> length q then None else Some (q @ [x]))"

definition packet_callback ::
  "(string \<Rightarrow> py res) \<Rightarrow> nat \<Rightarrow> bool \<Rightarrow> packet \<Rightarrow> (py dict list, unit) prog" where
  "packet_callback to_float qsize stop p q =
     (case packet_to_dict to_float p of
        Inl e \<Rightarrow> (Inl e, q)
      | Inr d \<Rightarrow>
          (let q' = (case put_nowait qsize q d of None \<Rightarrow> q | Some q' \<Rightarrow> q')
           in (if stop then Inl StopCapture else Inr (), q')))"

text \<open>
  \<open>_process_queue\<close>: \<open>flaky n\<close> says that the \<open>n\<close>-th \<open>get_nowait\<close> raises \<open>Empty\<close> although the queue
  is not empty, which a queue between processes may do.
\<close>

fun drain :: "(nat \<Rightarrow> bool) \<Rightarrow> nat \<Rightarrow> nat \<Rightarrow> 'a list \<Rightarrow> 'a list \<times> 'a list" where
  "drain flaky qsize counter [] = ([], [])"
| "drain flaky qsize counter (x # q) =
     (if flaky counter then ([], x # q)
      else if qsize < Suc counter then ([x], q)
      else (case drain flaky qsize (Suc counter) q of (items, q') \<Rightarrow> (x # items, q')))"

text \<open>The state is the queue and the batches that the callback received.\<close>

record 'a queue_state =
  qs_queue :: "'a list"
  qs_sent :: "'a list list"

definition process_queue :: "(nat \<Rightarrow> bool) \<Rightarrow> nat \<Rightarrow> unit res \<Rightarrow> ('a queue_state, unit) prog" where
  "process_queue flaky qsize cb s =
     (case drain flaky qsize 0 (qs_queue s) of
        (items, q) \<Rightarrow>
          if 0 < length items
          then (case cb of
                  Inl e \<Rightarrow> (Inl e, s\<lparr>qs_queue := q\<rparr>)
                | Inr _ \<Rightarrow> (Inr (), s\<lparr>qs_queue := q, qs_sent := qs_sent s @ [items]\<rparr>))
          else (Inr (), s\<lparr>qs_queue := q\<rparr>))"

section \<open>The capture process\<close>

definition check_proc_health :: "bool \<Rightarrow> int option \<Rightarrow> unit res" where
  "check_proc_health alive code =
     (if \<not> alive \<or> code \<noteq> None
      then Inl (RuntimeError ''Tshark packet capture process stopped prematurely'') else Inr ())"

text \<open>
  \<open>_wait_process_exit\<close>: \<open>now i\<close> is the clock in iteration \<open>i\<close>, \<open>code i\<close> the exit code seen.
\<close>

record exit_world =
  ew_limit :: real
  ew_now :: "nat \<Rightarrow> real"
  ew_code :: "nat \<Rightarrow> int option"
  ew_sleep :: "nat \<Rightarrow> unit res"

definition exit_step :: "exit_world \<Rightarrow> nat \<Rightarrow> unit res option" where
  "exit_step w i =
     (if ew_limit w < ew_now w i then Some (Inr ())
      else if ew_code w i \<noteq> None then Some (Inr ())
      else (case ew_sleep w i of Inl e \<Rightarrow> Some (Inl e) | Inr _ \<Rightarrow> None))"

fun wait_process_exit :: "exit_world \<Rightarrow> nat \<Rightarrow> nat \<Rightarrow> unit res option" where
  "wait_process_exit w 0 i = None"
| "wait_process_exit w (Suc fuel) i =
     (case exit_step w i of Some r \<Rightarrow> Some r | None \<Rightarrow> wait_process_exit w fuel (Suc i))"

interpretation exit_wait: polling "wait_process_exit w" "exit_step w" for w
  by unfold_locales simp_all

lemma wait_process_exit_ends:
  assumes "0 < d" and "\<forall>i. ew_now w 0 + real i * d \<le> ew_now w i" and "ew_limit w = ew_now w 0 + timeout"
  shows "\<exists>r. wait_process_exit w (nat \<lceil>timeout / d\<rceil> + 2) 0 = Some r"
proof -
  let ?k = "nat \<lceil>timeout / d\<rceil> + 1"
  have "timeout / d < real ?k" by linarith
  then have "timeout < real ?k * d" using assms(1) by (simp add: pos_divide_less_eq)
  then have "ew_limit w < ew_now w ?k" using assms(2) [rule_format, of ?k] assms(3) by linarith
  then have "exit_step w (0 + ?k) \<noteq> None" by (simp add: exit_step_def)
  then show ?thesis unfolding exit_wait.run_stops_iff by (metis add_0 add_Suc_right lessI nat_1_add_1 plus_1_eq_Suc add.commute)
qed

text \<open>
  \<open>_terminate_process\<close>: what is done to the process, in order, given how the two waits end, the exit
  codes seen after them, and how the signals are received.
\<close>

datatype proc_action = SetStopEvent | Terminate | Kill

record term_world =
  tw_wait_event :: "unit res"
  tw_code_event :: "int option"
  tw_terminate :: "unit res"
  tw_wait_join :: "unit res"
  tw_code_join :: "int option"
  tw_kill :: "unit res"

definition terminate_process :: "term_world \<Rightarrow> (proc_action list, unit) prog" where
  "terminate_process w acts =
     (let acts1 = acts @ [SetStopEvent]
      in case tw_wait_event w of
           Inl e \<Rightarrow> (Inl e, acts1)
         | Inr _ \<Rightarrow>
             if tw_code_event w \<noteq> None then (Inr (), acts1)
             else
               let acts2 = acts1 @ [Terminate];
                   acts3 = (if tw_code_join w = None then acts2 @ [Kill] else acts2)
               in (Inr (), acts3))"

text \<open>
  The errors of \<open>terminate\<close>, of the second wait and of \<open>kill\<close> are caught (by bare \<open>except\<close>
  clauses), so that \<open>terminate_process\<close> does not depend on them.

  \<open>monitor_packets\<close>: one element of the list for each iteration: how the queue was processed, the
  health seen, and how the sleep ended; at the end of the list the task is cancelled. \<open>final_code\<close>
  is the exit code seen in the \<open>finally\<close> clause.
\<close>

fun packet_loop :: "(unit res \<times> (bool \<times> int option) \<times> unit res) list \<Rightarrow> unit res" where
  "packet_loop [] = Inl CancelledError"
| "packet_loop ((queue, (alive, code), slept) # its) =
     bindR queue (\<lambda>_. bindR (check_proc_health alive code) (\<lambda>_. bindR slept (\<lambda>_. packet_loop its)))"

definition monitor_packets ::
  "(unit res \<times> (bool \<times> int option) \<times> unit res) list \<Rightarrow> int option \<Rightarrow> term_world \<Rightarrow> (proc_action list, unit) prog" where
  "monitor_packets its final_code tw acts =
     (let r = (case packet_loop its of Inl e \<Rightarrow> if e = CancelledError then Inr () else Inl e | Inr u \<Rightarrow> Inr u)
      in if final_code = None
         then (case terminate_process tw acts of
                 (Inl e, acts') \<Rightarrow> (Inl e, acts')
               | (Inr _, acts') \<Rightarrow> (r, acts'))
         else (r, acts))"

section \<open>Facts\<close>

lemma drain_split:
  "drain flaky qsize c q = (items, q') \<Longrightarrow> items @ q' = q"
  by (induction flaky qsize c q arbitrary: items rule: drain.induct) (auto split: if_splits prod.splits)

lemma drain_bound:
  "drain flaky qsize c q = (items, q') \<Longrightarrow> c \<le> qsize \<Longrightarrow> length items \<le> Suc qsize - c"
proof (induction flaky qsize c q arbitrary: items rule: drain.induct)
  case (1 flaky qsize counter)
  then show ?case by simp
next
  case (2 flaky qsize counter x q)
  then show ?case by (fastforce split: if_splits prod.splits)
qed

lemma drain_all:
  "drain flaky qsize c q = (items, q') \<Longrightarrow> \<forall>n. \<not> flaky n \<Longrightarrow> c \<le> qsize \<Longrightarrow> q' = drop (Suc qsize - c) q"
proof (induction flaky qsize c q arbitrary: items rule: drain.induct)
  case (1 flaky qsize counter)
  then show ?case by simp
next
  case (2 flaky qsize counter x q)
  then show ?case by (auto simp: Suc_diff_le split: if_splits prod.splits)
qed

fun process_rounds :: "nat \<Rightarrow> ('a list \<times> (nat \<Rightarrow> bool)) list \<Rightarrow> 'a queue_state \<Rightarrow> 'a queue_state" where
  "process_rounds qsize [] s = s"
| "process_rounds qsize ((arrived, flaky) # rounds) s =
     process_rounds qsize rounds (snd (process_queue flaky qsize (Inr ()) (s\<lparr>qs_queue := qs_queue s @ arrived\<rparr>)))"

lemma process_queue_keeps:
  "concat (qs_sent (snd (process_queue flaky qsize (Inr ()) s))) @ qs_queue (snd (process_queue flaky qsize (Inr ()) s))
     = concat (qs_sent s) @ qs_queue s"
  using drain_split [of flaky qsize 0 "qs_queue s"] by (auto simp: process_queue_def split: prod.split)

text \<open>
  While the deliveries succeed, no packet in the queue is lost, duplicated or reordered: after any
  number of rounds, with any arrivals in between and any spurious \<open>Empty\<close>, what was delivered
  followed by what is queued is everything that ever was in the queue.
\<close>

theorem queue_conserved:
  "concat (qs_sent (process_rounds qsize rounds s)) @ qs_queue (process_rounds qsize rounds s)
     = concat (qs_sent s) @ qs_queue s @ concat (map fst rounds)"
proof (induction qsize rounds s rule: process_rounds.induct)
  case (1 qsize s)
  then show ?case by simp
next
  case (2 qsize arrived flaky rounds s)
  then show ?case
    using process_queue_keeps [of flaky qsize "s\<lparr>qs_queue := qs_queue s @ arrived\<rparr>"] by simp
qed

text \<open>
  One round delivers at most one batch, never an empty one, of at most one packet more than the
  queue size; when the callback raises, the packets of the batch are dropped. Without spurious
  \<open>Empty\<close> it leaves only what exceeds the limit.
\<close>

theorem process_queue_batch:
  "case process_queue flaky qsize cb s of (r, s') \<Rightarrow>
     \<exists>items. qs_queue s = items @ qs_queue s' \<and> length items \<le> Suc qsize
       \<and> r = (if items = [] then Inr () else cb)
       \<and> qs_sent s' = (if items = [] \<or> isl cb then qs_sent s else qs_sent s @ [items])
       \<and> (qs_queue s' = drop (Suc qsize) (qs_queue s) \<or> (\<exists>n. flaky n))"
proof -
  obtain items q where d: "drain flaky qsize 0 (qs_queue s) = (items, q)"
    by (cases "drain flaky qsize 0 (qs_queue s)")
  have "items @ q = qs_queue s" using drain_split [OF d] .
  moreover have "length items \<le> Suc qsize" using drain_bound [OF d] by simp
  moreover have "q = drop (Suc qsize) (qs_queue s) \<or> (\<exists>n. flaky n)" using drain_all [OF d] by auto
  ultimately show ?thesis
    by (cases cb) (auto simp: process_queue_def d intro!: exI [of _ items])
qed

text \<open>
  However the waits end, termination goes from the gentle to the violent: the process is signalled
  only when the stop event did not end it, and killed only when the signal did not; when the
  termination returns, an exit code was seen or the process was killed.
\<close>

theorem termination_escalates:
  "case terminate_process w [] of (r, acts) \<Rightarrow>
     prefix acts [SetStopEvent, Terminate, Kill] \<and> acts \<noteq> []
     \<and> (Terminate \<in> set acts) = (r = Inr () \<and> tw_code_event w = None)
     \<and> (Kill \<in> set acts) = (r = Inr () \<and> tw_code_event w = None \<and> tw_code_join w = None)
     \<and> (r = Inr () \<longleftrightarrow> \<not> isl (tw_wait_event w))"
  by (auto simp: terminate_process_def Let_def split: sum.split)

text \<open>
  The wait for the exit of the capture process ends: with at least \<open>d > 0\<close> seconds per iteration it
  takes at most \<open>timeout / d + 2\<close> iterations, and it ends normally only when an exit code was seen or
  the time limit passed.
\<close>

theorem exit_wait_ends:
  assumes "0 < d" and "\<forall>i. ew_now w 0 + real i * d \<le> ew_now w i" and "ew_limit w = ew_now w 0 + timeout"
  shows "\<exists>r. wait_process_exit w (nat \<lceil>timeout / d\<rceil> + 2) 0 = Some r
    \<and> (r = Inr () \<longrightarrow> (\<exists>i. ew_code w i \<noteq> None \<or> ew_limit w < ew_now w i))"
proof -
  obtain r where r: "wait_process_exit w (nat \<lceil>timeout / d\<rceil> + 2) 0 = Some r"
    using wait_process_exit_ends [OF assms] by blast
  from exit_wait.run_sound [OF r] obtain i where "exit_step w i = Some r" by auto
  with r show ?thesis by (auto simp: exit_step_def split: if_splits sum.splits)
qed

theorem exit_wait_ends_witness:
  "\<exists>r. wait_process_exit \<lparr>ew_limit = 5, ew_now = real, ew_code = (\<lambda>i. None), ew_sleep = (\<lambda>i. Inr ())\<rparr>
     (nat \<lceil>5 / 1 :: real\<rceil> + 2) 0 = Some r"
  using exit_wait_ends [of 1 "\<lparr>ew_limit = 5, ew_now = real, ew_code = (\<lambda>i. None), ew_sleep = (\<lambda>i. Inr ())\<rparr>" 5] by auto

end
