(* ===== verification/Things.thy ===== *)
theory Things
  imports NodeMonitor
begin

text \<open>
  \<^verbatim>\<open>wotemu/wotpy/things.py\<close>, \<^verbatim>\<open>redis.py\<close> and \<^verbatim>\<open>wot.py\<close>: the things of wotpy with every interaction
  reported to a callback. The interaction itself is wotpy's and is an input: how a request ends, and
  which events a subscription produces. An exception is shown by its class name and message, the
  parameters \<open>ex_type\<close> and \<open>ex_str\<close>; \<open>fl\<close> is the printed form of a clock reading.
\<close>

datatype verb = INVOKE_ACTION | WRITE_PROPERTY | READ_PROPERTY | SUBSCRIBE_EVENT | OBSERVE_PROPERTY

record thing =
  th_id :: string
  th_class :: string
  th_host :: string
  th_has_callback :: bool

record verb_call =
  vc_verb :: verb
  vc_thing :: thing
  vc_args :: "py list"
  vc_kwargs :: "py dict"

record exn_view =
  ex_type :: "exn \<Rightarrow> string"
  ex_str :: "exn \<Rightarrow> string"

definition json_ex :: "exn_view \<Rightarrow> exn option \<Rightarrow> py" where
  "json_ex xv ex =
     (case ex of
        None \<Rightarrow> PNone
      | Some e \<Rightarrow> PDict [(''type'', PStr (ex_type xv e)), (''message'', PStr (ex_str xv e))])"

text \<open>\<open>call_args\<close> is the thing followed by \<open>vc_args\<close>.\<close>

definition interaction_name :: "verb_call \<Rightarrow> py" where
  "interaction_name c =
     (if get_default (vc_kwargs c) ''name'' PNone \<noteq> PNone then get_default (vc_kwargs c) ''name'' PNone
      else if vc_args c \<noteq> [] \<and> truthy (hd (vc_args c)) then hd (vc_args c)
      else PNone)"

definition call_data :: "(verb \<Rightarrow> py) \<Rightarrow> verb_call \<Rightarrow> py \<Rightarrow> py dict" where
  "call_data verb_value c now =
     [(''thing'', PStr (th_id (vc_thing c))), (''verb'', verb_value (vc_verb c)),
      (''name'', interaction_name c), (''time'', now),
      (''host'', PStr (th_host (vc_thing c))), (''class'', PStr (th_class (vc_thing c)))]"

text \<open>\<open>_truncate_key\<close>, used for the log: a long value is cut and marked.\<close>

definition truncate_key :: "py dict \<Rightarrow> string \<Rightarrow> nat \<Rightarrow> py dict" where
  "truncate_key d key max_len =
     (if \<not> truthy (get_default d key PNone) then d
      else (let s = py_str (get_default d key PNone)
            in dset d key (PStr (if max_len < length s then take max_len s @ '' [...]'' else s))))"

section \<open>Requests\<close>

record request_cb =
  rq_result :: py
  rq_error :: "exn option"
  rq_init :: real
  rq_latency :: "real option"

definition new_request :: "real \<Rightarrow> request_cb" where
  "new_request t = \<lparr>rq_result = PNone, rq_error = None, rq_init = t, rq_latency = None\<rparr>"

definition set_result :: "py \<Rightarrow> request_cb \<Rightarrow> request_cb" where
  "set_result v r = r\<lparr>rq_error := None, rq_result := v\<rparr>"

definition set_error :: "exn \<Rightarrow> request_cb \<Rightarrow> request_cb" where
  "set_error e r = r\<lparr>rq_result := PNone, rq_error := Some e\<rparr>"

definition update_latency :: "real \<Rightarrow> request_cb \<Rightarrow> request_cb" where
  "update_latency now r = r\<lparr>rq_latency := Some (now - rq_init r)\<rparr>"

definition request_data ::
  "exn_view \<Rightarrow> (real \<Rightarrow> py) \<Rightarrow> (verb \<Rightarrow> py) \<Rightarrow> verb_call \<Rightarrow> real \<Rightarrow> request_cb \<Rightarrow> py dict" where
  "request_data xv fl verb_value c now r =
     dupdate (call_data verb_value c (fl now))
       [(''latency'', case rq_latency r of None \<Rightarrow> PNone | Some l \<Rightarrow> fl l),
        (''error'', json_ex xv (rq_error r)), (''result'', rq_result r)]"

text \<open>
  The wrapper that \<open>_request_deco\<close> puts around a method. The clock is read when the call begins, when
  it ends and when the data are built; the second component of the result lists the callback tasks
  that were created, by their data.
\<close>

record call_clock =
  cl_begin :: real
  cl_end :: real
  cl_data :: real

definition request_wrapper ::
  "exn_view \<Rightarrow> (real \<Rightarrow> py) \<Rightarrow> (verb \<Rightarrow> py) \<Rightarrow> verb_call \<Rightarrow> call_clock \<Rightarrow> py res \<Rightarrow> py res \<times> py dict list" where
  "request_wrapper xv fl verb_value c clk outcome =
     (let r0 = new_request (cl_begin clk);
          report = (\<lambda>r. if th_has_callback (vc_thing c)
                        then [request_data xv fl verb_value c (cl_data clk) (update_latency (cl_end clk) r)] else [])
      in case outcome of
           Inr v \<Rightarrow> (Inr v, report (set_result v r0))
         | Inl e \<Rightarrow> if is_Exception e then (Inl e, report (set_error e r0)) else (Inl e, []))"

section \<open>Subscriptions\<close>

datatype obs_event = OnSubscribe | OnNext py | OnError exn | OnCompleted | OnFinally

definition event_data :: "exn_view \<Rightarrow> obs_event \<Rightarrow> py dict" where
  "event_data xv ev =
     (case ev of
        OnNext item \<Rightarrow> [(''event'', PStr ''on_next''), (''item'', item)]
      | OnError e \<Rightarrow> [(''event'', PStr ''on_error''), (''error'', json_ex xv (Some e))]
      | OnCompleted \<Rightarrow> [(''event'', PStr ''on_completed'')]
      | OnSubscribe \<Rightarrow> [(''event'', PStr ''on_subscribe'')]
      | OnFinally \<Rightarrow> [(''event'', PStr ''on_finally'')])"

definition subscription_data :: "(verb \<Rightarrow> py) \<Rightarrow> verb_call \<Rightarrow> string \<Rightarrow> py \<Rightarrow> py dict" where
  "subscription_data verb_value c sub now =
     dupdate (call_data verb_value c now) [(''subscription'', PStr sub)]"

text \<open>
  \<open>decorate_observable\<close>: the observable that the caller gets emits the same events (the operators
  \<open>do_action\<close>, \<open>do_on_subscribe\<close> and \<open>do_finally\<close> only watch); \<open>now i\<close> is the clock at event \<open>i\<close>.
\<close>

fun watch_events ::
  "exn_view \<Rightarrow> (verb \<Rightarrow> py) \<Rightarrow> verb_call \<Rightarrow> string \<Rightarrow> (nat \<Rightarrow> py) \<Rightarrow> nat \<Rightarrow> obs_event list \<Rightarrow> py dict list" where
  "watch_events xv verb_value c sub now i [] = []"
| "watch_events xv verb_value c sub now i (ev # evs) =
     dupdate (event_data xv ev) (subscription_data verb_value c sub (now i))
     # watch_events xv verb_value c sub now (Suc i) evs"

definition decorate_observable ::
  "exn_view \<Rightarrow> (verb \<Rightarrow> py) \<Rightarrow> verb_call \<Rightarrow> string \<Rightarrow> (nat \<Rightarrow> py) \<Rightarrow> obs_event list \<Rightarrow> obs_event list \<times> py dict list" where
  "decorate_observable xv verb_value c sub now evs =
     (evs, if th_has_callback (vc_thing c) then watch_events xv verb_value c sub now 0 evs else [])"

section \<open>The Redis callback\<close>

text \<open>
  \<open>redis_thing_callback\<close>: the client is given or opened for this call, and closed only then. The
  state is the log of entries; \<open>create\<close>, \<open>zadd\<close> and \<open>closing\<close> are outcomes.
\<close>

record cb_world =
  cw_url :: py
  cw_create :: "unit res"
  cw_zadd :: "unit res"
  cw_closing :: "unit res"

definition redis_from_env :: "cb_world \<Rightarrow> unit res" where
  "redis_from_env w =
     (if \<not> truthy (cw_url w) then Inl (GenericException ''Undefined Redis URL'') else cw_create w)"

definition thing_entry :: "py dict \<Rightarrow> redis_entry res" where
  "thing_entry data =
     bindR (dict_index data ''host'') (\<lambda>host.
     bindR (dict_index data ''time'') (\<lambda>t.
       Inr \<lparr>re_key = redis_key THING [py_str host], re_score = t, re_member = json_dumps (PDict data)\<rparr>))"

definition write_thing :: "cb_world \<Rightarrow> py dict \<Rightarrow> (redis_entry list, unit) prog" where
  "write_thing w data s =
     (case thing_entry data of
        Inl e \<Rightarrow> (Inl e, s)
      | Inr entry \<Rightarrow> (case cw_zadd w of Inl e \<Rightarrow> (Inl e, s) | Inr _ \<Rightarrow> (Inr (), s @ [entry])))"

definition swallow :: "(unit res \<times> 's) \<Rightarrow> unit res \<times> 's" where
  "swallow rs = (case rs of (Inl e, s) \<Rightarrow> if is_Exception e then (Inr (), s) else (Inl e, s) | (Inr u, s) \<Rightarrow> (Inr u, s))"

definition redis_thing_callback :: "cb_world \<Rightarrow> bool \<Rightarrow> py dict \<Rightarrow> (redis_entry list, unit) prog" where
  "redis_thing_callback w has_client data s =
     (if has_client then swallow (write_thing w data s)
      else (case redis_from_env w of
              Inl e \<Rightarrow> swallow (Inl e, s)
            | Inr _ \<Rightarrow>
                (case swallow (write_thing w data s) of
                   (r, s') \<Rightarrow> (case cw_closing w of Inl e \<Rightarrow> (Inl e, s') | Inr _ \<Rightarrow> (r, s')))))"

section \<open>The entrypoint\<close>

datatype server = HTTPServer py | WebsocketServer py | CoAPServer py | MQTTServer py

definition wot_servers :: "bool \<Rightarrow> py \<Rightarrow> py \<Rightarrow> py \<Rightarrow> py \<Rightarrow> server list" where
  "wot_servers coap_available p_http p_ws p_coap p_mqtt =
     (if truthy p_http then [HTTPServer p_http] else [])
     @ (if truthy p_ws then [WebsocketServer p_ws] else [])
     @ (if truthy p_coap \<and> coap_available then [CoAPServer p_coap] else [])
     @ (if truthy p_mqtt then [MQTTServer p_mqtt] else [])"

section \<open>Properties\<close>

lemma call_data_keys: "dkeys (call_data vv c now) = [''thing'', ''verb'', ''name'', ''time'', ''host'', ''class'']"
  by (simp add: call_data_def)

lemma request_data_get:
  "dget (request_data xv fl vv c now r) ''latency'' = Some (case rq_latency r of None \<Rightarrow> PNone | Some l \<Rightarrow> fl l)"
  "dget (request_data xv fl vv c now r) ''error'' = Some (json_ex xv (rq_error r))"
  "dget (request_data xv fl vv c now r) ''result'' = Some (rq_result r)"
  "dget (request_data xv fl vv c now r) ''host'' = Some (PStr (th_host (vc_thing c)))"
  "dget (request_data xv fl vv c now r) ''time'' = Some (fl now)"
  by (simp_all add: request_data_def dget_dset) (simp_all add: call_data_def dget_Cons)

text \<open>
  The wrapper of a request is transparent: the caller gets the result or the exception of the
  wrapped method. When the thing has a callback, one task reports the interaction, with its latency
  and with exactly one of result and error; a cancellation is not reported.
\<close>

theorem request_wrapper_transparent:
  "case request_wrapper xv fl vv c clk outcome of (r, tasks) \<Rightarrow>
     r = outcome
     \<and> length tasks = (if th_has_callback (vc_thing c) \<and> (case outcome of Inl e \<Rightarrow> is_Exception e | Inr _ \<Rightarrow> True)
                       then 1 else 0)
     \<and> list_all (\<lambda>d. dget d ''latency'' = Some (fl (cl_end clk - cl_begin clk))
          \<and> (case outcome of
               Inr v \<Rightarrow> dget d ''result'' = Some v \<and> dget d ''error'' = Some PNone
             | Inl e \<Rightarrow> dget d ''result'' = Some PNone \<and> dget d ''error'' = Some (json_ex xv (Some e)))) tasks"
  by (auto simp: request_wrapper_def Let_def request_data_get set_result_def set_error_def update_latency_def
      new_request_def json_ex_def split: sum.splits)

lemma event_keys_disjoint:
  "set (dkeys (event_data xv ev)) \<inter> set (dkeys (subscription_data vv c sub now)) = {}"
  by (cases ev) (simp_all add: event_data_def subscription_data_def call_data_def dset_def)

lemma watch_events_length: "length (watch_events xv vv c sub now i evs) = length evs"
  by (induction evs arbitrary: i) simp_all

lemma watch_events_nth:
  "k < length evs \<Longrightarrow> watch_events xv vv c sub now i evs ! k =
     dupdate (event_data xv (evs ! k)) (subscription_data vv c sub (now (i + k)))"
proof (induction evs arbitrary: i k)
  case Nil
  then show ?case by simp
next
  case (Cons ev evs)
  then show ?case by (cases k) simp_all
qed

lemma dupdate_disjoint:
  "set (dkeys d) \<inter> set (dkeys e) = {} \<Longrightarrow> k \<in> set (dkeys d) \<Longrightarrow> dget (dupdate d e) k = dget d k"
proof -
  assume "set (dkeys d) \<inter> set (dkeys e) = {}" "k \<in> set (dkeys d)"
  then have "k \<notin> fst ` set (rev e)" by auto
  then have "map_of (rev e) k = None" by (simp add: map_of_eq_None_iff)
  then show ?thesis by (simp add: dget_dupdate)
qed

text \<open>
  A decorated subscription gives the subscriber the same events; a thing with a callback reports
  each of them once, in order, and the report keeps the event's own fields, whatever the fields that
  describe the interaction are.
\<close>

theorem subscription_reports:
  assumes "th_has_callback (vc_thing c)" and "k < length evs"
  shows "case decorate_observable xv vv c sub now evs of (seen, reports) \<Rightarrow>
     seen = evs \<and> length reports = length evs
     \<and> dget (reports ! k) ''event'' = dget (event_data xv (evs ! k)) ''event''
     \<and> (case evs ! k of
          OnNext item \<Rightarrow> dget (reports ! k) ''item'' = Some item
        | OnError e \<Rightarrow> dget (reports ! k) ''error'' = Some (json_ex xv (Some e))
        | _ \<Rightarrow> dget (reports ! k) ''item'' = None \<and> dget (reports ! k) ''error'' = None)
     \<and> dget (reports ! k) ''subscription'' = Some (PStr sub)"
proof -
  let ?e = "event_data xv (evs ! k)" and ?s = "subscription_data vv c sub (now k)"
  have rep: "watch_events xv vv c sub now 0 evs ! k = dupdate ?e ?s"
    using watch_events_nth [OF assms(2), of xv vv c sub now 0] by simp
  have own: "dget (dupdate ?e ?s) x = dget ?e x" if "x \<in> set (dkeys ?e)" for x
    by (rule dupdate_disjoint [OF event_keys_disjoint that])
  have sub: "dget (dupdate ?e ?s) ''subscription'' = Some (PStr sub)"
    by (simp add: dget_def subscription_data_def call_data_def dset_def update_conv)
  have absent: "dget (dupdate ?e ?s) x = None" if "x \<notin> set (dkeys ?e)" "x \<in> {''item'', ''error''}" for x
  proof -
    have "map_of (rev ?s) x = None" using that(2)
      by (auto simp: subscription_data_def call_data_def dset_def)
    moreover have "dget ?e x = None" using that(1) by (simp add: dget_def map_of_eq_None_iff)
    ultimately show ?thesis by (simp add: dget_dupdate)
  qed
  show ?thesis
    using assms(1) own absent sub
    by (cases "evs ! k") (auto simp: decorate_observable_def watch_events_length rep event_data_def dget_Cons)
qed

definition demo_call :: verb_call where
  "demo_call = \<lparr>vc_verb = SUBSCRIBE_EVENT,
     vc_thing = \<lparr>th_id = ''urn:clock'', th_class = ''ConsumedThing'', th_host = ''h'', th_has_callback = True\<rparr>,
     vc_args = [PStr ''timeEvent''], vc_kwargs = []\<rparr>"

theorem subscription_reports_witness:
  "case decorate_observable \<lparr>ex_type = (\<lambda>e. ''E''), ex_str = (\<lambda>e. [])\<rparr> (\<lambda>v. PNone) demo_call ''s1'' (\<lambda>i. PInt 0)
       [OnSubscribe, OnNext (PInt 5), OnFinally] of (seen, reports) \<Rightarrow>
     length reports = 3 \<and> dget (reports ! 1) ''item'' = Some (PInt 5)"
proof -
  have "th_has_callback (vc_thing demo_call)" by (simp add: demo_call_def)
  from subscription_reports [OF this, where k = 1 and evs = "[OnSubscribe, OnNext (PInt 5), OnFinally]"
      and xv = "\<lparr>ex_type = (\<lambda>e. ''E''), ex_str = (\<lambda>e. [])\<rparr>" and vv = "\<lambda>v. PNone"
      and sub = "''s1''" and now = "\<lambda>i. PInt 0"]
  show ?thesis by (simp add: numeral_eq_Suc case_prod_unfold)
qed

text \<open>
  The Redis callback of a request never fails because of Redis: with a shared client it returns
  normally on any error, writes at most one entry, and the entry is filed under the host of the
  interaction with the time of the interaction as its score.
\<close>

theorem thing_callback_contained:
  "case redis_thing_callback w True data s of (r, s') \<Rightarrow>
     (case r of Inl e \<Rightarrow> \<not> is_Exception e | Inr _ \<Rightarrow> True)
     \<and> (s' = s \<or> (\<exists>host t. dget data ''host'' = Some host \<and> dget data ''time'' = Some t
          \<and> s' = s @ [\<lparr>re_key = ''wotemu:thing:'' @ py_str host, re_score = t, re_member = json_dumps (PDict data)\<rparr>]))"
  by (auto simp: redis_thing_callback_def swallow_def write_thing_def thing_entry_def dict_index_def bindR_def
      redis_key_simps split: sum.splits option.splits if_splits)

end
