(* ===== verification/AppRunner.thy ===== *)
theory AppRunner
  imports PacketMonitor Things
begin

text \<open>
  \<^verbatim>\<open>wotemu/cli/app.py\<close> and \<^verbatim>\<open>wotemu/cli/broker.py\<close>: running an application and running a broker.
  Files, modules, HTTP and the event loop are parameters: \<open>module_dir\<close> gives the names of an imported
  module, and the outcomes of what the stop coroutine awaits are the record \<open>app_world\<close>.
\<close>

section \<open>Finding the function of an application\<close>

definition is_builtin_app :: "string \<Rightarrow> bool" where
  "is_builtin_app app_id = (app_id \<in> set (map builtin_value Enum.enum))"

definition import_from :: "(string \<Rightarrow> string list res) \<Rightarrow> string \<Rightarrow> string \<Rightarrow> (string \<times> string) res" where
  "import_from module_dir m func =
     bindR (module_dir m) (\<lambda>names.
       if func \<notin> set names then Inl (GenericException ''Module does not contain function'')
       else Inr (m, func))"

definition import_builtin_app_func :: "(string \<Rightarrow> string list res) \<Rightarrow> string \<Rightarrow> string \<Rightarrow> (string \<times> string) res" where
  "import_builtin_app_func module_dir app_id func =
     (case find (\<lambda>b. builtin_value b = app_id) Enum.enum of
        None \<Rightarrow> Inl StopIteration
      | Some b \<Rightarrow> import_from module_dir (builtin_module b) func)"

definition is_http_path :: "string \<Rightarrow> bool" where
  "is_http_path p = (startswith p ''http://'' \<or> startswith p ''https://'')"

text \<open>
  \<open>_import_app_func\<close>: the state is the set of files. A downloaded application is written to a new
  temporary file; in the end the file is removed when its path is under the temporary directory
  (\<open>_remove_tempfile\<close>, which ignores errors).
\<close>

record app_files =
  af_tempdir :: string
  af_fetch :: "string \<Rightarrow> string res"
  af_import :: "string \<Rightarrow> string \<Rightarrow> (string \<times> string) res"

definition remove_tempfile :: "string \<Rightarrow> string \<Rightarrow> string set \<Rightarrow> string set" where
  "remove_tempfile tempdir path files =
     (if path = [] \<or> \<not> startswith path tempdir then files else files - {path})"

definition fetch_app_file :: "app_files \<Rightarrow> string \<Rightarrow> (string set, string) prog" where
  "fetch_app_file w url files =
     (case af_fetch w url of
        Inl e \<Rightarrow> (Inl e, files)
      | Inr path \<Rightarrow> (Inr path, insert path files))"

definition import_app_func ::
  "app_files \<Rightarrow> (string \<Rightarrow> string list res) \<Rightarrow> string \<Rightarrow> string \<Rightarrow> (string set, string \<times> string) prog" where
  "import_app_func w module_dir path func =
     (if is_builtin_app path then liftP (import_builtin_app_func module_dir path func)
      else bindP (if is_http_path path then fetch_app_file w path else retP path) (\<lambda>p files.
             (af_import w p func, remove_tempfile (af_tempdir w) p files)))"

section \<open>Starting\<close>

record app_flags =
  fl_http :: bool
  fl_ws :: bool
  fl_coap :: bool
  fl_mqtt :: bool

definition app_servers :: "bool \<Rightarrow> env_config \<Rightarrow> app_flags \<Rightarrow> server list" where
  "app_servers coap_available conf f =
     wot_servers coap_available
       (if fl_http f then port_http conf else PNone) (if fl_ws f then port_ws conf else PNone)
       (if fl_coap f then port_coap conf else PNone) (if fl_mqtt f then mqtt_url conf else PNone)"

definition app_kwargs :: "(string \<times> string) list \<Rightarrow> string dict" where
  "app_kwargs func_param = dupdate [] func_param"

definition get_monitor_ifaces :: "docker_api \<Rightarrow> string option \<Rightarrow> host_net \<Rightarrow> string list res" where
  "get_monitor_ifaces api cgroup hn =
     bindR (get_current_task api cgroup) (\<lambda>task.
     bindR (get_task_networks api task) (\<lambda>nets.
     bindR (mapR (get_network_gateway_task api) nets) (\<lambda>gws.
       mapR (\<lambda>gw. bindR (get_output_iface_for_task hn gw) (\<lambda>(name, a). Inr name)) gws)))"

section \<open>Stopping\<close>

text \<open>
  \<open>_stop\<close>: what it does, in order. \<open>aw_app\<close> is the outcome of waiting for the cancelled task of the
  application (with its timeout).
\<close>

datatype stop_action = CancelApp | ShutdownServient | StopMonitor | CloseRedis | StopLoop

record app_world =
  aw_app :: "unit res"
  aw_servient :: "unit res"
  aw_monitor :: "unit res option"
  aw_redis :: "unit res option"

definition guarded :: "unit res \<Rightarrow> unit res" where
  "guarded r = (case r of Inl e \<Rightarrow> if is_Exception e then Inr () else Inl e | Inr u \<Rightarrow> Inr u)"

text \<open>The steps with their outcomes; the first outcome that escapes ends the coroutine.\<close>

definition stop_steps :: "app_world \<Rightarrow> (stop_action \<times> unit res) list" where
  "stop_steps w =
     [(CancelApp, guarded (aw_app w)), (ShutdownServient, guarded (aw_servient w))]
     @ (case aw_monitor w of None \<Rightarrow> [] | Some r \<Rightarrow> [(StopMonitor, r)])
     @ (case aw_redis w of None \<Rightarrow> [] | Some r \<Rightarrow> [(CloseRedis, guarded r)])
     @ [(StopLoop, Inr ())]"

fun run_steps :: "('a \<times> unit res) list \<Rightarrow> ('a list, unit) prog" where
  "run_steps [] acts = (Inr (), acts)"
| "run_steps ((a, r) # rest) acts =
     (case r of Inl e \<Rightarrow> (Inl e, acts @ [a]) | Inr _ \<Rightarrow> run_steps rest (acts @ [a]))"

definition app_stop :: "bool \<Rightarrow> app_world \<Rightarrow> (stop_action list, unit) prog" where
  "app_stop locked w acts = (if locked then (Inr (), acts) else run_steps (stop_steps w) acts)"

text \<open>\<open>_app_done_cb\<close>: the exit code, and whether a stop is scheduled.\<close>

datatype task_end = TaskCancelled | TaskReturned | TaskRaised exn

definition app_done_cb :: "task_end \<Rightarrow> int option \<Rightarrow> int option \<times> bool" where
  "app_done_cb ended code =
     (case ended of TaskRaised e \<Rightarrow> (Some 1, True) | _ \<Rightarrow> (code, False))"

text \<open>The end of \<open>run_app\<close>: the exit code that \<open>exit\<close> is called with, if any.\<close>

definition final_exit :: "int option \<Rightarrow> int option" where
  "final_exit code = (case code of None \<Rightarrow> None | Some c \<Rightarrow> if c = 0 then None else Some c)"

section \<open>The broker\<close>

text \<open>\<open>_close_loop\<close> catches every error of the monitor.\<close>

definition broker_close_steps :: "unit res option \<Rightarrow> (stop_action \<times> unit res) list" where
  "broker_close_steps mstop =
     (case mstop of None \<Rightarrow> [] | Some r \<Rightarrow> [(StopMonitor, Inr ())]) @ [(StopLoop, Inr ())]"

definition broker_close_loop :: "unit res option \<Rightarrow> (stop_action list, unit) prog" where
  "broker_close_loop mstop = run_steps (broker_close_steps mstop)"

definition broker_start_monitor :: "unit res option \<Rightarrow> unit res \<Rightarrow> (stop_action list, unit) prog" where
  "broker_start_monitor start stop acts =
     (case start of
        None \<Rightarrow> (Inr (), acts)
      | Some (Inr _) \<Rightarrow> (Inr (), acts)
      | Some (Inl e) \<Rightarrow> broker_close_loop (Some stop) acts)"

definition broker_done :: "bool \<Rightarrow> unit res option \<Rightarrow> (stop_action list, unit) prog" where
  "broker_done success mstop acts =
     (if \<not> success then broker_close_loop mstop acts else (Inr (), acts))"

text \<open>
  \<open>strip_ansi_codes\<close>: an escape character and an opening bracket, then greedily one or two characters
  of the parameter class with up to two further groups, then a final \<open>m\<close>, bar or \<open>K\<close>.
\<close>

definition ansi_param :: "char \<Rightarrow> bool" where
  "ansi_param c = (let n = of_char c :: nat in (48 \<le> n \<and> n \<le> 57) \<or> n = 44 \<or> (65 \<le> n \<and> n \<le> 90))"

definition take_up_to :: "nat \<Rightarrow> (char \<Rightarrow> bool) \<Rightarrow> string \<Rightarrow> nat" where
  "take_up_to n p s = length (takeWhile p (take n s))"

definition drop_semi_group :: "nat \<Rightarrow> nat \<Rightarrow> string \<Rightarrow> string" where
  "drop_semi_group least most s =
     (case s of
        [] \<Rightarrow> []
      | c # r \<Rightarrow> if c = CHR '';'' \<and> least \<le> take_up_to most is_digit r
                 then drop (take_up_to most is_digit r) r else s)"

definition drop_ansi_params :: "string \<Rightarrow> string" where
  "drop_ansi_params s =
     (let k = take_up_to 2 ansi_param s
      in if k = 0 then s else drop_semi_group 3 3 (drop_semi_group 1 2 (drop k s)))"

definition drop_ansi_final :: "string \<Rightarrow> string" where
  "drop_ansi_final s =
     (case s of [] \<Rightarrow> [] | c # r \<Rightarrow> if c \<in> {CHR ''m'', CHR 0x7C, CHR ''K''} then r else s)"

lemma drop_semi_group_length: "length (drop_semi_group a b s) \<le> length s"
  by (auto simp: drop_semi_group_def split: list.split)

lemma drop_ansi_length: "length (drop_ansi_final (drop_ansi_params s)) \<le> length s"
proof -
  have "length (drop_semi_group 3 3 (drop_semi_group 1 2 (drop k s))) \<le> length s" for k
    using drop_semi_group_length [of 3 3 "drop_semi_group 1 2 (drop k s)"]
      drop_semi_group_length [of 1 2 "drop k s"] by simp
  then have "length (drop_ansi_params s) \<le> length s"
    by (simp add: drop_ansi_params_def Let_def)
  moreover have "length (drop_ansi_final t) \<le> length t" for t
    by (auto simp: drop_ansi_final_def split: list.split)
  ultimately show ?thesis using order_trans by blast
qed

function strip_ansi_codes :: "string \<Rightarrow> string" where
  "strip_ansi_codes s =
     (case s of
        [] \<Rightarrow> []
      | c # r \<Rightarrow>
          if c = CHR 0x1B \<and> startswith r ''[''
          then strip_ansi_codes (drop_ansi_final (drop_ansi_params (tl r)))
          else c # strip_ansi_codes r)"
  by pat_completeness auto

termination strip_ansi_codes
proof (relation "measure length")
  fix s r :: string and c :: char
  assume s: "s = c # r" and "c = CHR 0x1B \<and> startswith r ''[''"
  then have "length (drop_ansi_final (drop_ansi_params (tl r))) \<le> length (tl r)"
    by (intro drop_ansi_length)
  then show "(drop_ansi_final (drop_ansi_params (tl r)), s) \<in> measure length"
    using s by (cases r) auto
qed auto

declare strip_ansi_codes.simps [simp del]

lemma strip_ansi_plain: "CHR 0x1B \<notin> set s \<Longrightarrow> strip_ansi_codes s = s"
proof (induction s)
  case Nil
  show ?case by (subst strip_ansi_codes.simps) simp
next
  case (Cons c s)
  then show ?case by (subst strip_ansi_codes.simps) auto
qed

section \<open>Properties\<close>

lemma run_steps_all:
  "fst (run_steps steps acts) = Inr () \<Longrightarrow> snd (run_steps steps acts) = acts @ map fst steps"
  by (induction steps acts rule: run_steps.induct) (auto split: sum.splits)

lemma run_steps_Inr: "fst (run_steps steps acts) = Inr () \<longleftrightarrow> (\<forall>s\<in>set steps. \<not> isl (snd s))"
  by (induction steps acts rule: run_steps.induct) (auto split: sum.splits)

lemma run_steps_prefix: "\<exists>k. snd (run_steps steps acts) = acts @ take k (map fst steps)"
proof (induction steps acts rule: run_steps.induct)
  case (1 acts)
  then show ?case by (intro exI [of _ 0]) simp
next
  case (2 a r rest acts)
  show ?case
  proof (cases r)
    case (Inl e)
    then show ?thesis by (intro exI [of _ 1]) simp
  next
    case (Inr u)
    then obtain k where "snd (run_steps rest (acts @ [a])) = (acts @ [a]) @ take k (map fst rest)"
      using 2 by auto
    then show ?thesis using Inr by (intro exI [of _ "Suc k"]) simp
  qed
qed

text \<open>
  Stopping an application does nothing while another stop is in progress; otherwise it stops the
  event loop exactly when waiting for the application and closing the servient and Redis end without
  a cancellation and the monitor stops without any exception. In every other case the loop goes on.
\<close>

theorem app_stop_reaches_loop:
  "case app_stop locked w [] of (r, acts) \<Rightarrow>
     (if locked then acts = [] \<and> r = Inr ()
      else (StopLoop \<in> set acts) =
        (\<not> isl (guarded (aw_app w)) \<and> \<not> isl (guarded (aw_servient w))
         \<and> (case aw_monitor w of None \<Rightarrow> True | Some m \<Rightarrow> \<not> isl m)
         \<and> (case aw_redis w of None \<Rightarrow> True | Some c \<Rightarrow> \<not> isl (guarded c)))
        \<and> (r = Inr () \<longleftrightarrow> StopLoop \<in> set acts))"
  by (auto simp: app_stop_def stop_steps_def split: option.splits sum.splits)

text \<open>
  The same question for the broker: whatever the monitor does, closing the loop stops it, and it
  is closed when the monitor cannot be started or mosquitto fails.
\<close>

theorem broker_always_stops:
  "broker_close_loop m [] = (Inr (), (case m of None \<Rightarrow> [] | Some _ \<Rightarrow> [StopMonitor]) @ [StopLoop])
   \<and> broker_start_monitor (Some (Inl e)) st [] = (Inr (), [StopMonitor, StopLoop])
   \<and> StopLoop \<in> set (snd (broker_done False m []))"
  by (auto simp: broker_close_loop_def broker_close_steps_def broker_start_monitor_def broker_done_def
      split: option.split)

text \<open>
  Importing an application only ever removes the file it imports, and does so for every file under
  the temporary directory: a download is removed again, but so is a local application stored there.
\<close>

theorem import_removes_only_its_file:
  assumes "\<not> is_builtin_app path"
  shows "case import_app_func w dir path func files of (r, files') \<Rightarrow>
    (if is_http_path path
     then (case af_fetch w path of
             Inl e \<Rightarrow> r = Inl e \<and> files' = files
           | Inr p \<Rightarrow> files' = (if p \<noteq> [] \<and> startswith p (af_tempdir w) then files - {p} else insert p files))
     else files' = (if path \<noteq> [] \<and> startswith path (af_tempdir w) then files - {path} else files))"
  using assms
  by (auto simp: import_app_func_def bindP_def fetch_app_file_def remove_tempfile_def split: sum.splits)

theorem import_removes_only_its_file_witness:
  "snd (import_app_func \<lparr>af_tempdir = ''/tmp'', af_fetch = (\<lambda>u. Inl TypeError), af_import = (\<lambda>p f. Inr (p, f))\<rparr>
     (\<lambda>m. Inr []) ''/tmp/mine.py'' ''app'' {''/tmp/mine.py'', ''/etc/x''}) = {''/etc/x''}"
proof -
  have "\<not> is_builtin_app ''/tmp/mine.py''"
    by (simp add: is_builtin_app_def enum_builtin_app_def)
  from import_removes_only_its_file [OF this, where w = "\<lparr>af_tempdir = ''/tmp'', af_fetch = (\<lambda>u. Inl TypeError),
      af_import = (\<lambda>p f. Inr (p, f))\<rparr>" and dir = "\<lambda>m. Inr []" and func = "''app''"
      and files = "{''/tmp/mine.py'', ''/etc/x''}"]
  show ?thesis by (auto simp: is_http_path_def startswith_def)
qed

end
