(* ===== verification/Operations.thy ===== *)
theory Operations
  imports TopologyProps DockerUtils NodeMonitor
begin

text \<open>
  \<^verbatim>\<open>wotemu/cli/waiter.py\<close>, \<^verbatim>\<open>wotemu/cli/utils.py\<close> and \<^verbatim>\<open>wotemu/cli/stop.py\<close>: waiting for the services that
  a container needs, and stopping a stack while keeping its Redis. Time is counted in rounds of sleep:
  an outcome at round \<open>i\<close> is what a service answers then, and the timeout is a number of rounds.
\<close>

section \<open>Waiting for services\<close>

text \<open>
  \<open>_ping_redis\<close>, \<open>_ping_docker\<close>, \<open>_ping_broker\<close>: any exception means unavailable. The coroutine that
  \<open>redis.ping()\<close> returns is not awaited, and is true, so only opening the pool matters.
\<close>

definition ping_result :: "unit res \<Rightarrow> bool res" where
  "ping_result r = (case r of Inr _ \<Rightarrow> Inr True | Inl e \<Rightarrow> if is_Exception e then Inr False else Inl e)"

record wait_world =
  ww_redis :: "nat \<Rightarrow> unit res"
  ww_docker :: "nat \<Rightarrow> unit res"
  ww_broker :: "nat \<Rightarrow> unit res"

definition ping_until_step :: "(nat \<Rightarrow> unit res) \<Rightarrow> nat \<Rightarrow> unit res option" where
  "ping_until_step ping i =
     (case ping_result (ping i) of Inl e \<Rightarrow> Some (Inl e) | Inr True \<Rightarrow> Some (Inr ()) | Inr False \<Rightarrow> None)"

fun wait_docker :: "wait_world \<Rightarrow> nat \<Rightarrow> nat \<Rightarrow> unit res option" where
  "wait_docker w 0 i = None"
| "wait_docker w (Suc fuel) i =
     (case ping_until_step (ww_docker w) i of Some r \<Rightarrow> Some r | None \<Rightarrow> wait_docker w fuel (Suc i))"

fun wait_base :: "wait_world \<Rightarrow> nat \<Rightarrow> nat \<Rightarrow> unit res option" where
  "wait_base w 0 i = None"
| "wait_base w (Suc fuel) i =
     (case ping_until_step (ww_redis w) i of
        Some (Inl e) \<Rightarrow> Some (Inl e)
      | Some (Inr _) \<Rightarrow> wait_docker w (Suc fuel) i
      | None \<Rightarrow> wait_base w fuel (Suc i))"

fun wait_broker :: "wait_world \<Rightarrow> nat \<Rightarrow> nat \<Rightarrow> unit res option" where
  "wait_broker w 0 i = None"
| "wait_broker w (Suc fuel) i =
     (case ping_until_step (ww_broker w) i of Some r \<Rightarrow> Some r | None \<Rightarrow> wait_broker w fuel (Suc i))"

interpretation docker_wait: polling "wait_docker w" "ping_until_step (ww_docker w)" for w
  by unfold_locales simp_all

interpretation broker_wait: polling "wait_broker w" "ping_until_step (ww_broker w)" for w
  by unfold_locales simp_all

text \<open>\<open>asyncio.wait_for\<close>: when the rounds are used up the wait is cancelled and the timeout raised.\<close>

definition wait_for :: "unit res option \<Rightarrow> unit res" where
  "wait_for r = (case r of Some x \<Rightarrow> x | None \<Rightarrow> Inl TimeoutError)"

definition wait_services :: "wait_world \<Rightarrow> py \<Rightarrow> nat \<Rightarrow> bool \<Rightarrow> bool \<Rightarrow> unit res" where
  "wait_services w url rounds waiter_base waiter_mqtt =
     (let r = bindR (if waiter_base then wait_for (wait_base w rounds 0) else Inr ()) (\<lambda>_.
              if waiter_mqtt \<and> truthy url then wait_for (wait_broker w rounds 0) else Inr ())
      in case r of Inl e \<Rightarrow> if is_Exception e then Inl (SystemExit 1) else Inl e | Inr u \<Rightarrow> Inr u)"

section \<open>Services of a stack\<close>

definition find_stack_services :: "docker_api \<Rightarrow> string \<Rightarrow> py list res" where
  "find_stack_services api stack =
     bindR (api_services api)
       (filter_res (\<lambda>item. bindR (get_chain item [''Spec'', ''Labels'', stack_namespace]) (\<lambda>v. Inr (v = PStr stack))))"

definition find_stack_redis_port :: "docker_api \<Rightarrow> string \<Rightarrow> py res" where
  "find_stack_redis_port api stack =
     bindR (find_stack_services api stack) (\<lambda>services.
     bindR (next_or StopIteration (find_res (\<lambda>item.
              bindR (get_chain item [''Spec'', ''TaskTemplate'', ''ContainerSpec'', ''Labels'', label_value WOTEMU_REDIS])
                (\<lambda>v. Inr (v \<noteq> PNone))) services)) (\<lambda>redis.
     bindR (index_chain redis [''Endpoint'', ''Ports'']) (\<lambda>ports.
     bindR (as_list ports) (\<lambda>items.
     bindR (next_or StopIteration (find_res (\<lambda>p.
              bindR (py_index p ''TargetPort'') (\<lambda>t.
                if t \<noteq> PInt 6379 then Inr False
                else bindR (py_index p ''Protocol'') (\<lambda>pr. Inr (pr = PStr ''tcp'')))) items)) (\<lambda>p.
       py_index p ''PublishedPort'')))))"

section \<open>Stopping a stack\<close>

definition is_redis_service :: "py \<Rightarrow> bool res" where
  "is_redis_service service =
     bindR (py_get service ''labels'' (PDict [])) (\<lambda>labels.
     bindR (py_get labels (label_value WOTEMU_REDIS) PNone) (\<lambda>v. Inr (v \<noteq> PNone)))"

definition zero_deploy :: py where
  "zero_deploy = PDict [(''replicas'', PInt 0)]"

definition scale_service :: "string \<times> py \<Rightarrow> (string \<times> py) res" where
  "scale_service kv =
     bindR (is_redis_service (snd kv)) (\<lambda>redis.
       if redis then Inr kv
       else bindR (as_dict (snd kv)) (\<lambda>d. Inr (fst kv, PDict (dupdate d [(''deploy'', zero_deploy)]))))"

definition scale_down :: "py dict \<Rightarrow> py dict res" where
  "scale_down content =
     bindR (as_dict (get_default content ''services'' (PDict []))) (\<lambda>services.
     bindR (mapR scale_service services) (\<lambda>services'.
       Inr (dset content ''services'' (PDict services'))))"

definition assert_stack_exists :: "docker_api \<Rightarrow> string \<Rightarrow> unit res" where
  "assert_stack_exists api stack =
     bindR (find_stack_services api stack) (\<lambda>services.
       if length services = 0 then Inl (GenericException (''No services found for stack: '' @ stack)) else Inr ())"

text \<open>
  \<open>docker service logs\<close> is a parameter of its arguments; that it ends with an error status is \<open>CalledProcessError\<close>, and
  only this error is caught.
\<close>

definition get_task_logs :: "(py list \<Rightarrow> string res) \<Rightarrow> py \<Rightarrow> py \<Rightarrow> py res" where
  "get_task_logs run tail task =
     bindR (py_index task ''ID'') (\<lambda>tid.
       case run [PStr ''service'', PStr ''logs'', PStr ''--tail'', tail, tid] of
         Inl (CalledProcessError msg) \<Rightarrow> Inr PNone
       | Inl e \<Rightarrow> Inl e
       | Inr out \<Rightarrow> Inr (PStr out))"

text \<open>\<open>now task\<close> is the clock when the snapshot comes to a task.\<close>

definition stack_snapshot ::
  "docker_api \<Rightarrow> (py list \<Rightarrow> string res) \<Rightarrow> py \<Rightarrow> (py \<Rightarrow> py) \<Rightarrow> string \<Rightarrow> py dict res" where
  "stack_snapshot api run tail now stack =
     bindR (find_stack_services api stack) (\<lambda>services.
     bindR (mapR (\<lambda>service. bindR (py_index service ''ID'') (\<lambda>sid.
              bindR (api_tasks api [(''service'', sid)]) (\<lambda>tasks.
                mapR (\<lambda>task. bindR (bindR (py_index task ''ID'') py_string) (\<lambda>tid.
                        bindR (get_task_logs run tail task) (\<lambda>logs.
                        Inr (tid, PDict [(''task'', task), (''time'', now task), (''logs'', logs)])))) tasks)))
              services) (\<lambda>kvss.
       Inr (dupdate [] (concat kvss))))"

text \<open>
  The rest of \<open>stop_stack\<close>: its effects in order. \<open>deploy\<close> is the outcome of \<open>docker stack deploy\<close>.
\<close>

datatype stack_effect =
    DeployStack "py dict"
  | WriteSnapshot py string "py dict"
  | WriteCompose py string "py dict"

definition snapshot_key :: string where
  "snapshot_key = join '':'' [prefix_value NAMESPACE, prefix_value SNAPSHOT]"

definition compose_key :: string where
  "compose_key = join '':'' [prefix_value NAMESPACE, prefix_value COMPOSE]"

definition stop_stack ::
  "docker_api \<Rightarrow> (py list \<Rightarrow> string res) \<Rightarrow> (py \<Rightarrow> py) \<Rightarrow> unit res \<Rightarrow> py dict \<Rightarrow> string \<Rightarrow> py \<Rightarrow> py
    \<Rightarrow> (stack_effect list, unit) prog" where
  "stop_stack api run now deploy content stack redis_url0 tail =
     bindP (liftP (assert_stack_exists api stack)) (\<lambda>_.
     bindP (liftP (scale_down content)) (\<lambda>target.
     bindP (liftP (stack_snapshot api run tail now stack)) (\<lambda>snapshot.
     bindP (liftP deploy) (\<lambda>_.
     bindP (modifyP (\<lambda>es. es @ [DeployStack target])) (\<lambda>_.
     bindP (if truthy redis_url0 then retP redis_url0
           else liftP (bindR (find_stack_redis_port api stack) (\<lambda>p. Inr (PStr (''redis://127.0.0.1:'' @ py_str p))))) (\<lambda>url.
     bindP (modifyP (\<lambda>es. es @ [WriteSnapshot url snapshot_key snapshot])) (\<lambda>_.
       modifyP (\<lambda>es. es @ [WriteCompose url compose_key content]))))))))"

text \<open>
  \<open>_zadd_json\<close>, which carries out the last two effects: the outcomes of opening a pool and of the command, and the
  clock. Every error is caught, also that of closing, and also the one of \<open>redis\<close> having no value in the \<open>finally\<close> when
  the pool was not opened.
\<close>

record zadd_world =
  zw_create :: "unit res"
  zw_time :: py
  zw_zadd :: "unit res"

datatype redis_call = OpenPool py | AddMember redis_entry | ClosePool

definition zadd_json :: "zadd_world \<Rightarrow> py \<Rightarrow> string \<Rightarrow> py dict \<Rightarrow> (redis_call list, unit) prog" where
  "zadd_json w url key data s =
     (Inr (), s @ (if isl (zw_create w) then []
       else [OpenPool url]
         @ (if isl (zw_zadd w) then []
            else [AddMember \<lparr>re_key = key, re_score = zw_time w, re_member = json_dumps (PDict data)\<rparr>])
         @ [ClosePool]))"

fun run_effect :: "zadd_world \<Rightarrow> stack_effect \<Rightarrow> (redis_call list, unit) prog" where
  "run_effect w (DeployStack target) = retP ()"
| "run_effect w (WriteSnapshot url key data) = zadd_json w url key data"
| "run_effect w (WriteCompose url key data) = zadd_json w url key data"

section \<open>Properties\<close>

lemma wait_base_sound:
  "wait_base w fuel i = Some (Inr ()) \<Longrightarrow> \<exists>j k. i \<le> j \<and> j \<le> k \<and> k < i + fuel \<and> \<not> isl (ww_redis w j) \<and> \<not> isl (ww_docker w k)"
proof (induction w fuel i rule: wait_base.induct)
  case (1 w i)
  then show ?case by simp
next
  case (2 w fuel i)
  show ?case
  proof (cases "ping_until_step (ww_redis w) i")
    case None
    then have "wait_base w fuel (Suc i) = Some (Inr ())" using "2.prems" by simp
    then obtain j k where "Suc i \<le> j" "j \<le> k" "k < Suc i + fuel" "\<not> isl (ww_redis w j)" "\<not> isl (ww_docker w k)"
      using "2.IH" None by blast
    then show ?thesis by (intro exI [of _ j] exI [of _ k]) simp
  next
    case (Some r)
    then have r: "r = Inr ()" and d: "wait_docker w (Suc fuel) i = Some (Inr ())"
      using "2.prems" by (cases r; simp)+
    have redis: "\<not> isl (ww_redis w i)"
      using Some r by (auto simp: ping_until_step_def ping_result_def split: sum.splits bool.splits if_splits)
    from docker_wait.run_sound [OF d] obtain k where "k < Suc fuel" "ping_until_step (ww_docker w) (i + k) = Some (Inr ())"
      by blast
    then have "\<not> isl (ww_docker w (i + k))"
      by (auto simp: ping_until_step_def ping_result_def split: sum.splits bool.splits if_splits)
    with redis \<open>k < Suc fuel\<close> show ?thesis by (intro exI [of _ i] exI [of _ "i + k"]) simp
  qed
qed

text \<open>
  When the wait returns, every service that was waited for has answered within the time allowed
  (the Docker API after Redis); when it does not return normally because of an exception, the process
  exits with code 1.
\<close>

theorem wait_services_sound:
  "case wait_services w url rounds waiter_base waiter_mqtt of
     Inr _ \<Rightarrow>
       (if waiter_base then \<exists>j k. j \<le> k \<and> k < rounds \<and> \<not> isl (ww_redis w j) \<and> \<not> isl (ww_docker w k) else True)
       \<and> (if waiter_mqtt \<and> truthy url then \<exists>j<rounds. \<not> isl (ww_broker w j) else True)
   | Inl e \<Rightarrow> e = SystemExit 1 \<or> is_Exception e = False"
proof -
  have base: "\<exists>j k. j \<le> k \<and> k < rounds \<and> \<not> isl (ww_redis w j) \<and> \<not> isl (ww_docker w k)"
    if "wait_for (wait_base w rounds 0) = Inr ()"
  proof -
    have "wait_base w rounds 0 = Some (Inr ())" using that by (auto simp: wait_for_def split: option.splits)
    from wait_base_sound [OF this] show ?thesis by auto
  qed
  have broker: "\<exists>j<rounds. \<not> isl (ww_broker w j)" if "wait_for (wait_broker w rounds 0) = Inr ()"
  proof -
    have "wait_broker w rounds 0 = Some (Inr ())" using that by (auto simp: wait_for_def split: option.splits)
    from broker_wait.run_sound [OF this] obtain j where "j < rounds" "ping_until_step (ww_broker w) (0 + j) = Some (Inr ())"
      by blast
    then show ?thesis
      by (auto simp: ping_until_step_def ping_result_def split: sum.splits bool.splits if_splits)
  qed
  show ?thesis
    using base broker by (auto simp: wait_services_def Let_def bindR_def split: sum.splits if_splits)
qed

text \<open>
  Stopping rewrites a Compose file service by service: the services keep their names and order, a
  service labelled as the emulator's Redis is untouched, and every other one is to run no replica,
  with all its other fields as they were; nothing else of the file changes.
\<close>

theorem scale_down_spares_redis:
  assumes "scale_down content = Inr target"
  shows "\<exists>services services'. as_dict (get_default content ''services'' (PDict [])) = Inr services
    \<and> dget target ''services'' = Some (PDict services')
    \<and> list_all2 (\<lambda>(k, v) (k', v'). k' = k \<and>
        (if is_redis_service v = Inr True then v' = v
         else \<exists>d d'. v = PDict d \<and> v' = PDict d' \<and> dget d' ''deploy'' = Some zero_deploy
                \<and> (\<forall>x. dget d' x = (if x = ''deploy'' then Some zero_deploy else dget d x)))) services services'
    \<and> (\<forall>x. dget target x = (if x = ''services'' then Some (PDict services') else dget content x))"
proof -
  obtain services services' where s: "as_dict (get_default content ''services'' (PDict [])) = Inr services"
    "mapR scale_service services = Inr services'" "target = dset content ''services'' (PDict services')"
    using assms by (auto simp: scale_down_def bindR_eq_Inr)
  have "list_all2 (\<lambda>x y. scale_service x = Inr y) services services'"
    using s(2) by (simp add: mapR_Inr)
  then have "list_all2 (\<lambda>(k, v) (k', v'). k' = k \<and>
        (if is_redis_service v = Inr True then v' = v
         else \<exists>d d'. v = PDict d \<and> v' = PDict d' \<and> dget d' ''deploy'' = Some zero_deploy
                \<and> (\<forall>x. dget d' x = (if x = ''deploy'' then Some zero_deploy else dget d x)))) services services'"
  proof (rule list_all2_mono)
    fix kv kv' assume sc: "scale_service kv = Inr kv'"
    obtain k v where kv: "kv = (k, v)" by (cases kv)
    obtain redis where r: "is_redis_service v = Inr redis" using sc by (auto simp: scale_service_def kv bindR_eq_Inr)
    show "(\<lambda>(k, v) (k', v'). k' = k \<and>
        (if is_redis_service v = Inr True then v' = v
         else \<exists>d d'. v = PDict d \<and> v' = PDict d' \<and> dget d' ''deploy'' = Some zero_deploy
                \<and> (\<forall>x. dget d' x = (if x = ''deploy'' then Some zero_deploy else dget d x)))) kv kv'"
    proof (cases redis)
      case True
      then show ?thesis using sc r by (auto simp: scale_service_def kv)
    next
      case False
      then obtain d where d: "v = PDict d" "kv' = (k, PDict (dset d ''deploy'' zero_deploy))"
        using sc r by (cases v) (auto simp: scale_service_def kv)
      then show ?thesis using False r by (auto simp: kv dget_dset)
    qed
  qed
  with s show ?thesis by (intro exI [of _ services] exI [of _ services']) (simp add: dget_dset)
qed

definition demo_compose :: "py dict" where
  "demo_compose = [(''version'', PStr ''3.7''), (''services'', PDict
     (redis_definition (\<lambda>xs. xs) demo_topology @ docker_proxy_definition (\<lambda>xs. xs) demo_topology))]"

lemma demo_redis_service:
  "is_redis_service (snd (hd (redis_definition so t))) = Inr True"
  by (simp add: redis_definition_def is_redis_service_def py_get_def get_default_def dget_dset)
    (simp add: service_base_redis_def dget_Cons)

theorem scale_down_spares_redis_witness:
  "\<exists>target services'. scale_down demo_compose = Inr target \<and> dget target ''services'' = Some (PDict services')
     \<and> hd services' = hd (redis_definition (\<lambda>xs. xs) demo_topology)"
proof -
  let ?r = "redis_definition (\<lambda>xs. xs) demo_topology" and ?p = "docker_proxy_definition (\<lambda>xs. xs) demo_topology"
  have one: "\<exists>r. ?r = [r]" by (simp add: redis_definition_def)
  then obtain r where r: "?r = [r]" "is_redis_service (snd r) = Inr True"
    using demo_redis_service [of "\<lambda>xs. xs" demo_topology] by auto
  have "\<exists>x. mapR scale_service ?p = Inr x"
    by (simp add: docker_proxy_definition_def scale_service_def is_redis_service_def py_get_def get_default_def dget_dset)
      (simp add: service_base_docker_proxy_def dget_Cons)
  then have "\<exists>target. scale_down demo_compose = Inr target"
    using r by (auto simp: scale_down_def demo_compose_def get_default_def dget_Cons scale_service_def)
  then obtain target where t: "scale_down demo_compose = Inr target" by blast
  from scale_down_spares_redis [OF t] obtain services services' where
    s: "as_dict (get_default demo_compose ''services'' (PDict [])) = Inr services" "dget target ''services'' = Some (PDict services')"
    and all: "list_all2 (\<lambda>(k, v) (k', v'). k' = k \<and>
        (if is_redis_service v = Inr True then v' = v
         else \<exists>d d'. v = PDict d \<and> v' = PDict d' \<and> dget d' ''deploy'' = Some zero_deploy
                \<and> (\<forall>x. dget d' x = (if x = ''deploy'' then Some zero_deploy else dget d x)))) services services'"
    by blast
  have "services = r # ?p" using s(1) r(1) by (simp add: demo_compose_def get_default_def dget_Cons)
  then have "hd services' = r" using all r(2) by (auto simp: list_all2_Cons1 case_prod_unfold prod_eq_iff)
  then show ?thesis using t s(2) r(1) by auto
qed

text \<open>
  The effects of a stop: nothing happens before the stack is known to exist and the snapshot is
  taken; the scaled down file is deployed first; the snapshot and the original Compose file are then
  written to the same Redis, and are lost only when the address of that Redis cannot be found.
\<close>

theorem stop_stack_effects:
  "case stop_stack api run now deploy content stack url0 tail [] of (r, es) \<Rightarrow>
     (es = [] \<and> isl r)
     \<or> (\<exists>target. scale_down content = Inr target \<and> es = [DeployStack target] \<and> isl r
          \<and> truthy url0 = False \<and> isl (find_stack_redis_port api stack))
     \<or> (\<exists>target snapshot url. scale_down content = Inr target \<and> stack_snapshot api run tail now stack = Inr snapshot
          \<and> r = Inr () \<and> es = [DeployStack target, WriteSnapshot url ''wotemu:snapshot'' snapshot,
                               WriteCompose url ''wotemu:compose'' content]
          \<and> (if truthy url0 then url = url0
             else \<exists>p. find_stack_redis_port api stack = Inr p \<and> url = PStr (''redis://127.0.0.1:'' @ py_str p)))"
  by (auto simp: stop_stack_def assert_stack_exists_def bindP_def bindR_def snapshot_key_def compose_key_def split: sum.splits if_splits)

end
