(* ===== verification/Heapq.thy ===== *)
theory Heapq
  imports Prelude "HOL-Library.Multiset"
begin

text \<open>
  The binary heap of the Python standard library (\<open>heapq\<close>), on which \<open>asyncio.PriorityQueue\<close> rests:
  the array, the two sifts of its C implementation, and a comparison \<open>lt\<close> that may raise. The
  interface of a priority queue is a locale; the heap provides it whenever the comparison, where it
  answers, compares keys of a linear order.
\<close>

section \<open>The array operations\<close>

definition parent :: "nat \<Rightarrow> nat" where
  "parent i = (i - 1) div 2"

definition swap :: "'a list \<Rightarrow> nat \<Rightarrow> nat \<Rightarrow> 'a list" where
  "swap h i j = h[i := h ! j, j := h ! i]"

lemma parent_less [simp]: "0 < i \<Longrightarrow> parent i < i"
  by (simp add: parent_def)

text \<open>\<open>siftdown\<close> with start position 0: the item at \<open>pos\<close> moves up while it is smaller than its parent.\<close>

function siftdown :: "('a \<Rightarrow> 'a \<Rightarrow> bool res) \<Rightarrow> nat \<Rightarrow> ('a list, unit) prog" where
  "siftdown lt pos h =
     (if pos = 0 then (Inr (), h)
      else (case lt (h ! pos) (h ! parent pos) of
              Inl e \<Rightarrow> (Inl e, h)
            | Inr lower \<Rightarrow> if lower then siftdown lt (parent pos) (swap h (parent pos) pos) else (Inr (), h)))"
  by pat_completeness auto
termination by (relation "measure (\<lambda>(lt, pos, h). pos)") auto

text \<open>The smaller child of \<open>pos\<close>, when it has one.\<close>

definition smaller_child :: "('a \<Rightarrow> 'a \<Rightarrow> bool res) \<Rightarrow> nat \<Rightarrow> 'a list \<Rightarrow> nat res" where
  "smaller_child lt pos h =
     (let child = 2 * pos + 1
      in if child + 1 < length h
         then bindR (lt (h ! child) (h ! (child + 1))) (\<lambda>lower. Inr (if lower then child else child + 1))
         else Inr child)"

lemma smaller_child_bounds:
  "smaller_child lt pos h = Inr c \<Longrightarrow> pos < length h div 2 \<Longrightarrow> c < length h \<and> pos < c \<and> parent c = pos"
  by (auto simp: smaller_child_def Let_def parent_def bindR_eq_Inr split: if_splits)

text \<open>\<open>siftup\<close> from position 0: the hole moves down to a leaf along the smaller children, then the item moves up.\<close>

function siftup :: "('a \<Rightarrow> 'a \<Rightarrow> bool res) \<Rightarrow> nat \<Rightarrow> ('a list, unit) prog" where
  "siftup lt pos h =
     (if pos < length h div 2
      then (case smaller_child lt pos h of
              Inl e \<Rightarrow> (Inl e, h)
            | Inr c \<Rightarrow> siftup lt c (swap h c pos))
      else siftdown lt pos h)"
  by pat_completeness auto
termination
  by (relation "measure (\<lambda>(lt, pos, h). length h - pos)")
    (auto simp: swap_def dest!: smaller_child_bounds)

declare siftdown.simps [simp del] siftup.simps [simp del]

definition heap_push :: "('a \<Rightarrow> 'a \<Rightarrow> bool res) \<Rightarrow> 'a \<Rightarrow> ('a list, unit) prog" where
  "heap_push lt x h = siftdown lt (length h) (h @ [x])"

definition heap_pop :: "('a \<Rightarrow> 'a \<Rightarrow> bool res) \<Rightarrow> ('a list, 'a) prog" where
  "heap_pop lt h =
     (if h = [] then (Inl IndexError, h)
      else let rest = butlast h
           in if rest = [] then (Inr (last h), [])
              else (case siftup lt 0 (rest[0 := last h]) of
                      (Inl e, h') \<Rightarrow> (Inl e, h')
                    | (Inr _, h') \<Rightarrow> (Inr (hd rest), h')))"

section \<open>The contents\<close>

lemma length_swap [simp]: "length (swap h i j) = length h"
  by (simp add: swap_def)

lemma mset_swap_heap: "i < length h \<Longrightarrow> j < length h \<Longrightarrow> mset (swap h i j) = mset h"
  unfolding swap_def using mset_swap [of i h j] mset_swap [of j h i] by (simp add: list_update_swap)

lemma siftdown_mset: "pos < length h \<Longrightarrow> mset (snd (siftdown lt pos h)) = mset h"
proof (induction lt pos h rule: siftdown.induct)
  case (1 lt pos h)
  show ?case
  proof (cases "pos = 0")
    case True
    then show ?thesis by (subst siftdown.simps) simp
  next
    case False
    then have b: "parent pos < length h" using 1(2) parent_less [of pos] by linarith
    show ?thesis
    proof (cases "lt (h ! pos) (h ! parent pos)")
      case (Inl e)
      then show ?thesis using False by (simp add: siftdown.simps [of lt pos])
    next
      case (Inr lower)
      then show ?thesis using 1(1) [OF False Inr] b 1(2) False
        by (simp add: siftdown.simps [of lt pos] mset_swap_heap)
    qed
  qed
qed

lemma siftup_mset: "pos < length h \<Longrightarrow> mset (snd (siftup lt pos h)) = mset h"
proof (induction lt pos h rule: siftup.induct)
  case (1 lt pos h)
  show ?case
  proof (cases "pos < length h div 2")
    case False
    then show ?thesis using 1(2) by (simp add: siftup.simps [of lt pos] siftdown_mset)
  next
    case True
    show ?thesis
    proof (cases "smaller_child lt pos h")
      case (Inl e)
      then show ?thesis using True by (simp add: siftup.simps [of lt pos])
    next
      case (Inr c)
      then have "c < length h" using smaller_child_bounds True by blast
      then show ?thesis using 1(1) [OF True Inr] 1(2) Inr True
        by (simp add: siftup.simps [of lt pos] mset_swap_heap)
    qed
  qed
qed

lemma heap_push_mset: "mset (snd (heap_push lt x h)) = add_mset x (mset h)"
  by (simp add: heap_push_def siftdown_mset)

lemma mset_replaced_head:
  assumes "butlast h \<noteq> []"
  shows "add_mset (hd (butlast h)) (mset ((butlast h)[0 := last h])) = mset h"
proof -
  have h: "h = butlast h @ [last h]" using assms by (metis append_butlast_last_id butlast.simps(1))
  obtain y ys where y: "butlast h = y # ys" using assms by (cases "butlast h") auto
  have "mset h = mset (butlast h @ [last h])" using h by simp
  then show ?thesis by (simp add: y)
qed

lemma heap_pop_mset:
  assumes "h \<noteq> []"
  shows "add_mset (hd h) (mset (snd (heap_pop lt h))) = mset h"
    and "fst (heap_pop lt h) = Inr x \<Longrightarrow> x = hd h"
proof -
  have hd: "butlast h \<noteq> [] \<Longrightarrow> hd (butlast h) = hd h" using assms by (cases h) auto
  have one: "butlast h = [] \<Longrightarrow> h = [last h]" using assms by (metis append_Nil append_butlast_last_id)
  show "add_mset (hd h) (mset (snd (heap_pop lt h))) = mset h"
  proof (cases "butlast h = []")
    case True
    from one [OF True] obtain y where "h = [y]" by blast
    then show ?thesis by (simp add: heap_pop_def)
  next
    case False
    then have "0 < length (butlast h)" by blast
    then have "mset (snd (siftup lt 0 ((butlast h)[0 := last h]))) = mset ((butlast h)[0 := last h])"
      by (intro siftup_mset) simp
    then show ?thesis using mset_replaced_head [OF False] assms hd [OF False] False
      by (cases "siftup lt 0 ((butlast h)[0 := last h])") (auto simp: heap_pop_def Let_def split: sum.split)
  qed
  show "fst (heap_pop lt h) = Inr x \<Longrightarrow> x = hd h"
  proof (cases "butlast h = []")
    case True
    from one [OF True] obtain y where "h = [y]" by blast
    then show "fst (heap_pop lt h) = Inr x \<Longrightarrow> x = hd h" by (simp add: heap_pop_def)
  next
    case False
    then show "fst (heap_pop lt h) = Inr x \<Longrightarrow> x = hd h" using assms hd [OF False]
      by (simp add: heap_pop_def Let_def split: prod.splits sum.splits)
  qed
qed

section \<open>The interface of a priority queue\<close>

text \<open>
  \<open>put\<close> and \<open>get\<close> may raise, and what they leave then is also promised: an item that was put is in
  the queue even when \<open>put\<close> raised.
\<close>

locale priority_queue =
  fixes put :: "'a \<Rightarrow> ('q, unit) prog"
    and get :: "('q, 'a) prog"
    and items :: "'q \<Rightarrow> 'a multiset"
    and ok :: "'q \<Rightarrow> bool"
    and key :: "'a \<Rightarrow> 'k :: linorder"
  assumes put_items: "items (snd (put x q)) = add_mset x (items q)"
    and put_ok: "ok q \<Longrightarrow> fst (put x q) = Inr () \<Longrightarrow> ok (snd (put x q))"
    and get_items: "get q = (Inr x, q') \<Longrightarrow> items q = add_mset x (items q')"
    and get_ok: "ok q \<Longrightarrow> get q = (Inr x, q') \<Longrightarrow> ok q'"
    and get_least: "ok q \<Longrightarrow> get q = (Inr x, q') \<Longrightarrow> y \<in># items q \<Longrightarrow> key x \<le> key y"
begin

fun get_many :: "nat \<Rightarrow> ('q, 'a list) prog" where
  "get_many 0 q = (Inr [], q)"
| "get_many (Suc n) q = bindP get (\<lambda>x. bindP (get_many n) (\<lambda>xs. retP (x # xs))) q"

lemma get_many_items: "get_many n q = (Inr xs, q') \<Longrightarrow> items q = mset xs + items q'"
proof (induction n arbitrary: q xs)
  case 0
  then show ?case by simp
next
  case (Suc n)
  then obtain x q1 ys where "get q = (Inr x, q1)" "get_many n q1 = (Inr ys, q')" "xs = x # ys"
    by (auto simp: bindP_eq_Inr)
  with Suc.IH get_items show ?case by fastforce
qed

lemma get_many_sorted: "ok q \<Longrightarrow> get_many n q = (Inr xs, q') \<Longrightarrow> sorted (map key xs)"
proof (induction n arbitrary: q xs)
  case 0
  then show ?case by simp
next
  case (Suc n)
  then obtain x q1 ys where g: "get q = (Inr x, q1)" "get_many n q1 = (Inr ys, q')" "xs = x # ys"
    by (auto simp: bindP_eq_Inr)
  have "key x \<le> key y" if "y \<in> set ys" for y
    using get_least [OF Suc.prems(1) g(1), of y] get_items [OF g(1)] get_many_items [OF g(2)] that by simp
  then show ?case using Suc.IH [OF get_ok [OF Suc.prems(1) g(1)] g(2)] g(3) by simp
qed

end

section \<open>The heap invariant\<close>

text \<open>
  \<open>hole key pos h\<close>: the heap condition holds on every edge that does not touch \<open>pos\<close>, and across
  \<open>pos\<close> from its parent to its children.
\<close>

definition edge_ok :: "('a \<Rightarrow> 'k :: linorder) \<Rightarrow> 'a list \<Rightarrow> nat \<Rightarrow> bool" where
  "edge_ok key h i = (key (h ! parent i) \<le> key (h ! i))"

definition heap_ok :: "('a \<Rightarrow> 'k :: linorder) \<Rightarrow> 'a list \<Rightarrow> bool" where
  "heap_ok key h = (\<forall>i<length h. 0 < i \<longrightarrow> edge_ok key h i)"

definition hole :: "('a \<Rightarrow> 'k :: linorder) \<Rightarrow> nat \<Rightarrow> 'a list \<Rightarrow> bool" where
  "hole key pos h =
     (\<forall>i<length h. 0 < i \<longrightarrow>
        (i \<noteq> pos \<longrightarrow> parent i \<noteq> pos \<longrightarrow> edge_ok key h i)
        \<and> (parent i = pos \<longrightarrow> 0 < pos \<longrightarrow> key (h ! parent pos) \<le> key (h ! i)))"

definition children_ok :: "('a \<Rightarrow> 'k :: linorder) \<Rightarrow> nat \<Rightarrow> 'a list \<Rightarrow> bool" where
  "children_ok key pos h = (\<forall>i<length h. 0 < i \<longrightarrow> parent i = pos \<longrightarrow> edge_ok key h i)"

lemma swap_nth:
  "i < length h \<Longrightarrow> j < length h \<Longrightarrow> swap h i j ! k = (if k = j then h ! i else if k = i then h ! j else h ! k)"
  by (auto simp: swap_def nth_list_update)

lemma heap_ok_least:
  assumes "heap_ok key h" and "i < length h"
  shows "key (h ! 0) \<le> key (h ! i)"
  using assms(2)
proof (induction i rule: less_induct)
  case (less i)
  show ?case
  proof (cases "i = 0")
    case True
    then show ?thesis by simp
  next
    case False
    then have p: "parent i < i" by simp
    then have "key (h ! 0) \<le> key (h ! parent i)" using less by simp
    also have "\<dots> \<le> key (h ! i)" using assms(1) less.prems False by (simp add: heap_ok_def edge_ok_def)
    finally show ?thesis .
  qed
qed

lemma heap_ok_hole: "hole key pos h \<Longrightarrow> children_ok key pos h \<Longrightarrow> pos = 0 \<or> edge_ok key h pos \<Longrightarrow> heap_ok key h"
  unfolding heap_ok_def
proof (intro allI impI)
  fix i assume "hole key pos h" "children_ok key pos h" "pos = 0 \<or> edge_ok key h pos" "i < length h" "0 < i"
  then show "edge_ok key h i"
    by (cases "i = pos"; cases "parent i = pos") (auto simp: hole_def children_ok_def)
qed

text \<open>An exchange with a larger parent moves the hole up.\<close>

lemma hole_up:
  assumes "hole key pos h" and "children_ok key pos h" and "0 < pos" and "pos < length h"
    and "key (h ! pos) < key (h ! parent pos)"
  shows "hole key (parent pos) (swap h (parent pos) pos)" "children_ok key (parent pos) (swap h (parent pos) pos)"
proof -
  let ?p = "parent pos" and ?h = "swap h (parent pos) pos"
  have p: "?p < pos" "?p < length h" using assms(3,4) parent_less [of pos] by linarith+
  have nth: "?h ! k = (if k = pos then h ! ?p else if k = ?p then h ! pos else h ! k)" for k
    using p(2) assms(4) by (rule swap_nth)
  have edge: "edge_ok key h i" if "i < length h" "0 < i" "i \<noteq> pos" for i
    using that assms(1,2) unfolding hole_def children_ok_def by metis
  have across: "key (h ! ?p) \<le> key (h ! i)" if "i < length h" "0 < i" "parent i = pos" for i
    using that assms(1,3) unfolding hole_def by blast
  have lt: "parent i \<noteq> i" if "0 < i" for i using parent_less [OF that] by simp
  show "children_ok key ?p ?h"
    unfolding children_ok_def
  proof (intro allI impI)
    fix i assume i: "i < length ?h" "0 < i" "parent i = ?p"
    then show "edge_ok key ?h i"
      using edge [of i] assms(5) p lt [of i] by (cases "i = pos") (auto simp: edge_ok_def nth)
  qed
  show "hole key ?p ?h"
    unfolding hole_def
  proof (intro allI impI conjI)
    fix i assume i: "i < length ?h" "0 < i" "i \<noteq> ?p" "parent i \<noteq> ?p"
    then have "i \<noteq> pos" by auto
    then show "edge_ok key ?h i" using edge [of i] across [of i] i by (auto simp: edge_ok_def nth)
  next
    fix i assume i: "i < length ?h" "0 < i" "parent i = ?p" "0 < ?p"
    have "edge_ok key h ?p" using edge [of ?p] p i(4) by simp
    moreover have "key (h ! ?p) \<le> key (?h ! i)"
      using edge [of i] i lt [OF i(2)] assms(5) by (auto simp: nth edge_ok_def)
    ultimately show "key (?h ! parent ?p) \<le> key (?h ! i)"
      using p lt [OF i(4)] parent_less [OF i(4)] by (auto simp: nth edge_ok_def)
  qed
qed

text \<open>An exchange with the smaller child moves the hole down.\<close>

lemma hole_down:
  assumes "hole key pos h" and "c < length h" and "parent c = pos" and "pos < c"
    and "\<And>i. i < length h \<Longrightarrow> 0 < i \<Longrightarrow> parent i = pos \<Longrightarrow> key (h ! c) \<le> key (h ! i)"
  shows "hole key c (swap h c pos)"
proof -
  let ?h = "swap h c pos"
  have nth: "?h ! k = (if k = pos then h ! c else if k = c then h ! pos else h ! k)" for k
    using assms(2,4) by (intro swap_nth) auto
  have edge: "edge_ok key h i" if "i < length h" "0 < i" "i \<noteq> pos" "parent i \<noteq> pos" for i
    using that assms(1) unfolding hole_def by blast
  have lt: "parent i < i" if "0 < i" for i using parent_less [OF that] .
  show ?thesis
    unfolding hole_def
  proof (intro allI impI conjI)
    fix i assume i: "i < length ?h" "0 < i" "i \<noteq> c" "parent i \<noteq> c"
    show "edge_ok key ?h i"
    proof (cases "i = pos")
      case True
      then have "key (h ! parent pos) \<le> key (h ! c)" using assms(1-4) i(2) unfolding hole_def by auto
      moreover have "parent pos < pos" using lt i(2) True by simp
      ultimately show ?thesis using True assms(4) by (auto simp: edge_ok_def nth)
    next
      case False
      then show ?thesis using edge [of i] assms(5) [of i] i by (auto simp: edge_ok_def nth)
    qed
  next
    fix i assume i: "i < length ?h" "0 < i" "parent i = c" "0 < c"
    have "i \<noteq> pos" "i \<noteq> c" using lt [OF i(2)] i(3) assms(4) by auto
    then show "key (?h ! parent c) \<le> key (?h ! i)"
      using edge [of i] i assms(3,4) by (auto simp: edge_ok_def nth)
  qed
qed

text \<open>The key that the comparison compares, where it answers.\<close>

locale heap_keys =
  fixes key :: "'a \<Rightarrow> 'k :: linorder"
    and lt :: "'a \<Rightarrow> 'a \<Rightarrow> bool res"
  assumes lt_key: "lt x y = Inr b \<Longrightarrow> b \<longleftrightarrow> key x < key y"
begin

lemma siftdown_heap:
  "siftdown lt pos h = (Inr (), h') \<Longrightarrow> hole key pos h \<Longrightarrow> children_ok key pos h \<Longrightarrow> pos < length h
   \<Longrightarrow> heap_ok key h'"
proof (induction pos arbitrary: h rule: less_induct)
  case (less pos)
  show ?case
  proof (cases "pos = 0")
    case True
    then have "h' = h" using less.prems(1) by (simp add: siftdown.simps [of lt])
    then show ?thesis using heap_ok_hole less.prems True by blast
  next
    case False
    let ?p = "parent pos"
    have p: "?p < pos" using False by simp
    obtain b where b: "lt (h ! pos) (h ! ?p) = Inr b"
      using less.prems(1) False by (cases "lt (h ! pos) (h ! ?p)") (simp_all add: siftdown.simps [of lt pos])
    show ?thesis
    proof (cases b)
      case True
      then have "key (h ! pos) < key (h ! ?p)" using lt_key [OF b] by simp
      note up = hole_up [OF less.prems(2,3) _ less.prems(4) this]
      have "siftdown lt ?p (swap h ?p pos) = (Inr (), h')"
        using less.prems(1) False b True by (simp add: siftdown.simps [of lt pos])
      then show ?thesis using less.IH [OF p, of "swap h ?p pos"] up False less.prems(4) p by simp
    next
      case no: False
      then have "h' = h" using less.prems(1) False b by (simp add: siftdown.simps [of lt pos])
      moreover have "edge_ok key h pos" using lt_key [OF b] no by (simp add: edge_ok_def)
      ultimately show ?thesis using heap_ok_hole less.prems by blast
    qed
  qed
qed

lemma smaller_child_least:
  assumes "smaller_child lt pos h = Inr c" and "i < length h" and "0 < i" and "parent i = pos"
  shows "key (h ! c) \<le> key (h ! i)"
proof -
  have i: "i = 2 * pos + 1 \<or> i = 2 * pos + 2" using assms(3,4) by (auto simp: parent_def)
  show ?thesis
  proof (cases "2 * pos + 2 < length h")
    case True
    then obtain b where b: "lt (h ! (2 * pos + 1)) (h ! (2 * pos + 2)) = Inr b"
      and c: "c = (if b then 2 * pos + 1 else 2 * pos + 2)"
      using assms(1) by (auto simp: smaller_child_def bindR_eq_Inr)
    from lt_key [OF b] show ?thesis using i c by (auto split: if_splits)
  next
    case False
    then show ?thesis using assms(1,2) i by (auto simp: smaller_child_def)
  qed
qed

lemma siftup_heap:
  "siftup lt pos h = (Inr (), h') \<Longrightarrow> hole key pos h \<Longrightarrow> pos < length h \<Longrightarrow> heap_ok key h'"
proof (induction "length h - pos" arbitrary: pos h rule: less_induct)
  case less
  show ?case
  proof (cases "pos < length h div 2")
    case False
    then have "siftdown lt pos h = (Inr (), h')" using less.prems(1) by (simp add: siftup.simps [of lt pos])
    moreover have "children_ok key pos h" using False by (auto simp: children_ok_def parent_def)
    ultimately show ?thesis using siftdown_heap less.prems by blast
  next
    case True
    obtain c where c: "smaller_child lt pos h = Inr c"
      using less.prems(1) True by (cases "smaller_child lt pos h") (simp_all add: siftup.simps [of lt pos])
    note b = smaller_child_bounds [OF c True]
    have "hole key c (swap h c pos)"
      using hole_down less.prems(2) b smaller_child_least [OF c] by blast
    moreover have "siftup lt c (swap h c pos) = (Inr (), h')"
      using less.prems(1) True c by (simp add: siftup.simps [of lt pos])
    moreover have "length h - c < length h - pos" using b by linarith
    ultimately show ?thesis using less.hyps [of "swap h c pos" c] b by simp
  qed
qed

lemma heap_push_ok:
  assumes "heap_ok key h" and "fst (heap_push lt x h) = Inr ()"
  shows "heap_ok key (snd (heap_push lt x h))"
proof -
  have e: "edge_ok key (h @ [x]) i" if "i < length h" "0 < i" for i
    using assms(1) that parent_less [OF that(2)] by (simp add: heap_ok_def edge_ok_def nth_append)
  have "\<not> (parent i = length h \<and> i < length (h @ [x]) \<and> 0 < i)" for i
    using parent_less [of i] by fastforce
  then have "hole key (length h) (h @ [x])" "children_ok key (length h) (h @ [x])"
    using e by (auto simp: hole_def children_ok_def less_Suc_eq)
  moreover have "siftdown lt (length h) (h @ [x]) = (Inr (), snd (heap_push lt x h))"
    using assms(2) by (simp add: heap_push_def prod_eq_iff)
  ultimately show ?thesis using siftdown_heap by simp
qed

lemma heap_pop_ok:
  assumes "heap_ok key h" and "heap_pop lt h = (Inr x, h')"
  shows "heap_ok key h'"
proof (cases "butlast h = []")
  case True
  then have "h' = []" using assms(2) by (simp add: heap_pop_def split: if_splits)
  then show ?thesis by (simp add: heap_ok_def)
next
  case False
  let ?g = "(butlast h)[0 := last h]"
  have len: "0 < length (butlast h)" using False by blast
  have "hole key 0 ?g"
    unfolding hole_def
  proof (intro allI impI conjI)
    fix i assume i: "i < length ?g" "0 < i" "i \<noteq> 0" "parent i \<noteq> 0"
    then have "parent i < length (butlast h)" using parent_less [OF i(2)] i(1) by simp
    then show "edge_ok key ?g i" using assms(1) i by (simp add: heap_ok_def edge_ok_def nth_butlast)
  qed simp
  moreover have "siftup lt 0 ?g = (Inr (), h')"
    using assms(2) False by (auto simp: heap_pop_def Let_def split: if_splits prod.splits sum.splits)
  ultimately show ?thesis using siftup_heap len by simp
qed

end

sublocale heap_keys \<subseteq> priority_queue "heap_push lt" "heap_pop lt" mset "heap_ok key" key
proof unfold_locales
  fix x y :: 'a and q q' :: "'a list"
  show "mset (snd (heap_push lt x q)) = add_mset x (mset q)" by (rule heap_push_mset)
  show "heap_ok key q \<Longrightarrow> fst (heap_push lt x q) = Inr () \<Longrightarrow> heap_ok key (snd (heap_push lt x q))"
    by (rule heap_push_ok)
  show "heap_ok key q \<Longrightarrow> heap_pop lt q = (Inr x, q') \<Longrightarrow> heap_ok key q'" by (rule heap_pop_ok)
  assume g: "heap_pop lt q = (Inr x, q')"
  then have q: "q \<noteq> []" by (auto simp: heap_pop_def)
  then have x: "x = hd q" using heap_pop_mset(2) [of q lt x] g by simp
  then show "mset q = add_mset x (mset q')" using heap_pop_mset(1) [OF q, of lt] g by simp
  assume "heap_ok key q" "y \<in># mset q"
  then show "key x \<le> key y"
    using heap_ok_least [of key q] q x by (auto simp: in_set_conv_nth hd_conv_nth)
qed

text \<open>Without a raise of the comparison the operations do not fail.\<close>

lemma siftdown_total: "(\<And>x y. x \<in> set h \<Longrightarrow> y \<in> set h \<Longrightarrow> \<exists>b. lt x y = Inr b) \<Longrightarrow> pos < length h
  \<Longrightarrow> fst (siftdown lt pos h) = Inr ()"
proof (induction pos arbitrary: h rule: less_induct)
  case (less pos)
  show ?case
  proof (cases "pos = 0")
    case True
    then show ?thesis by (simp add: siftdown.simps [of lt])
  next
    case False
    then have p: "parent pos < pos" by simp
    obtain b where b: "lt (h ! pos) (h ! parent pos) = Inr b"
      using less.prems(1) [of "h ! pos" "h ! parent pos"] less.prems(2) p by auto
    have "set (swap h (parent pos) pos) = set h"
      using mset_swap_heap [of "parent pos" h pos] less.prems(2) p by (metis less_trans mset_eq_setD)
    then show ?thesis using less.IH [OF p, of "swap h (parent pos) pos"] less.prems p b False
      by (simp add: siftdown.simps [of lt pos])
  qed
qed

lemma heap_push_total:
  "(\<And>x y. x \<in> set (h @ [z]) \<Longrightarrow> y \<in> set (h @ [z]) \<Longrightarrow> \<exists>b. lt x y = Inr b) \<Longrightarrow> fst (heap_push lt z h) = Inr ()"
  unfolding heap_push_def by (rule siftdown_total) auto

text \<open>An exception of \<open>heap_push\<close> is one of the comparison.\<close>

lemma siftdown_error: "fst (siftdown lt pos h) = Inl e \<Longrightarrow> \<exists>x y. lt x y = Inl e"
proof (induction pos arbitrary: h rule: less_induct)
  case (less pos)
  show ?case
  proof (cases "pos = 0")
    case True
    then show ?thesis using less.prems by (simp add: siftdown.simps [of lt])
  next
    case False
    then show ?thesis using less.prems less.IH [of "parent pos" "swap h (parent pos) pos"]
      by (cases "lt (h ! pos) (h ! parent pos)") (auto simp: siftdown.simps [of lt pos] split: if_splits)
  qed
qed

lemma heap_push_error: "fst (heap_push lt x h) = Inl e \<Longrightarrow> \<exists>x y. lt x y = Inl e"
  unfolding heap_push_def by (rule siftdown_error)

end
