(* ===== verification/Detector.thy ===== *)
theory Detector
  imports Heapq PyValues Complex_Main
begin

text \<open>
  \<^verbatim>\<open>wotemu/apps/detector.py\<close>: the application that collects the frames of several cameras in a
  priority queue, looks for faces in them one by one, keeps the latest detection of each camera and
  asks the camera to move. Times are real numbers (the rounding of floats is not modelled), the face
  detector and the WoT client are inputs of each round. \<open>asyncio.PriorityQueue\<close> is the heap of the
  theory \<open>Heapq\<close>.
\<close>

section \<open>The queue of frames\<close>

record frame =
  fr_b64 :: string
  fr_capture :: real
  fr_arrival :: real
  fr_cam :: string

type_synonym entry = "real \<times> frame"

text \<open>The order of the tuples: equal priorities compare the dictionaries, which Python refuses unless they are equal.\<close>

definition entry_lt :: "entry \<Rightarrow> entry \<Rightarrow> bool res" where
  "entry_lt x y =
     (if fst x \<noteq> fst y then Inr (fst x < fst y)
      else if snd x = snd y then Inr False else Inl TypeError)"

interpretation frames: heap_keys "fst :: entry \<Rightarrow> real" entry_lt
  by unfold_locales (auto simp: entry_lt_def split: if_splits)

definition counter_of :: "nat dict \<Rightarrow> string \<Rightarrow> nat" where
  "counter_of counters cam = (case dget counters cam of Some n \<Rightarrow> n | None \<Rightarrow> 0)"

definition frame_priority :: "string \<Rightarrow> real \<Rightarrow> real \<Rightarrow> nat dict \<Rightarrow> real res" where
  "frame_priority cam now capture counters =
     (let age = now - capture
      in if age = 0 then Inl ZeroDivisionError else Inr (real (counter_of counters cam) + 1 / age))"

definition frame_put_nowait :: "int \<Rightarrow> entry \<Rightarrow> (entry list, unit) prog" where
  "frame_put_nowait maxsize x q =
     (if 0 < maxsize \<and> maxsize \<le> int (length q) then (Inl QueueFull, q) else heap_push entry_lt x q)"

text \<open>The data of a frame event; a field that is missing is \<open>None\<close>.\<close>

record event_item =
  ev_capture :: "real option"
  ev_b64 :: "string option"

definition field :: "string \<Rightarrow> 'a option \<Rightarrow> 'a res" where
  "field k x = (case x of Some v \<Rightarrow> Inr v | None \<Rightarrow> Inl (KeyError k))"

definition frame_entry :: "string \<Rightarrow> real \<Rightarrow> real \<Rightarrow> event_item \<Rightarrow> nat dict \<Rightarrow> entry res" where
  "frame_entry cam now arrival ev counters =
     bindR (field ''time_capture'' (ev_capture ev)) (\<lambda>capture.
     bindR (frame_priority cam now capture counters) (\<lambda>prio.
     bindR (field ''b64_jpg'' (ev_b64 ev)) (\<lambda>b64.
       Inr (prio, \<lparr>fr_b64 = b64, fr_capture = capture, fr_arrival = arrival, fr_cam = cam\<rparr>))))"

definition on_next :: "int \<Rightarrow> string \<Rightarrow> real \<Rightarrow> real \<Rightarrow> event_item \<Rightarrow> nat dict \<Rightarrow> (entry list, unit) prog" where
  "on_next maxsize cam now arrival ev counters =
     tryP (\<lambda>e. e = QueueFull)
       (bindP (liftP (frame_entry cam now arrival ev counters)) (frame_put_nowait maxsize))
       (\<lambda>_. retP ())"

section \<open>The processing loop\<close>

record detection =
  de_cam :: string
  de_jpg :: string
  de_faces :: "py list"
  de_time :: real

record latency_metric =
  lm_capture :: real
  lm_arrival :: real
  lm_detect :: real
  lm_latency_frame :: real
  lm_latency_detect :: real
  lm_detect_cost :: real
  lm_camera :: string

text \<open>
  The state: the queue, the store that the property \<open>latestDetections\<close> serves, the counters, the
  locks (\<open>True\<close> while held), the metrics written and the camera controls in flight. A control task
  takes the lock in its first step, which the event loop runs before the loop sees its next frame, so
  starting it and taking the lock are one step here.
\<close>

record det_state =
  ds_queue :: "entry list"
  ds_store :: "detection list"
  ds_counters :: "nat dict"
  ds_locks :: "bool dict"
  ds_metrics :: "latency_metric list"
  ds_controls :: "string list"

definition det_init :: det_state where
  "det_init = \<lparr>ds_queue = [], ds_store = [], ds_counters = [], ds_locks = [], ds_metrics = [], ds_controls = []\<rparr>"

record det_input =
  in_now :: real
  in_pre :: real
  in_faces :: "py list res"
  in_detect :: real
  in_metric :: "unit res"

definition queue_max_seconds :: real where
  "queue_max_seconds = 10"

definition frame_metric :: "det_input \<Rightarrow> frame \<Rightarrow> latency_metric" where
  "frame_metric inp f =
     \<lparr>lm_capture = fr_capture f, lm_arrival = fr_arrival f, lm_detect = in_detect inp,
      lm_latency_frame = fr_arrival f - fr_capture f, lm_latency_detect = in_detect inp - fr_arrival f,
      lm_detect_cost = in_detect inp - in_pre inp, lm_camera = fr_cam f\<rparr>"

fun store_pop :: "string \<Rightarrow> detection list \<Rightarrow> detection list" where
  "store_pop cam [] = []"
| "store_pop cam (d # ds) = (if de_cam d = cam then ds else d # store_pop cam ds)"

definition store_put :: "detection \<Rightarrow> detection list \<Rightarrow> detection list" where
  "store_put d ds = store_pop (de_cam d) ds @ [d]"

definition start_control :: "string \<Rightarrow> det_state \<Rightarrow> det_state" where
  "start_control cam s =
     (let locks = (case dget (ds_locks s) cam of Some _ \<Rightarrow> ds_locks s | None \<Rightarrow> dset (ds_locks s) cam False)
      in if dget locks cam = Some True then s\<lparr>ds_locks := locks\<rparr>
         else s\<lparr>ds_locks := dset locks cam True, ds_controls := ds_controls s @ [cam]\<rparr>)"

definition process_frame :: "det_input \<Rightarrow> frame \<Rightarrow> (det_state, unit) prog" where
  "process_frame inp f s =
     (if queue_max_seconds \<le> in_now inp - fr_arrival f then (Inr (), s)
      else case in_faces inp of
        Inl e \<Rightarrow> (Inl e, s)
      | Inr faces \<Rightarrow>
          (case in_metric inp of
             Inl e \<Rightarrow> (Inl e, s)
           | Inr _ \<Rightarrow>
               (let cam = fr_cam f;
                    s1 = s\<lparr>ds_metrics := ds_metrics s @ [frame_metric inp f],
                           ds_counters := dset (ds_counters s) cam (counter_of (ds_counters s) cam + 1)\<rparr>
                in if faces = [] then (Inr (), s1)
                   else (Inr (), start_control cam
                     (s1\<lparr>ds_store := store_put
                        \<lparr>de_cam = cam, de_jpg = fr_b64 f, de_faces = faces, de_time = fr_capture f\<rparr> (ds_store s1)\<rparr>)))))"

text \<open>
  One round of \<open>_process_queue\<close>: an empty queue ends in the timeout of \<open>wait_for\<close> and the loop
  goes on; otherwise the first entry is taken and processed. A raise ends the loop.
\<close>

definition process_round :: "det_input \<Rightarrow> (det_state, unit) prog" where
  "process_round inp s =
     (if ds_queue s = [] then (Inr (), s)
      else (case heap_pop entry_lt (ds_queue s) of
              (Inl e, q) \<Rightarrow> (Inl e, s\<lparr>ds_queue := q\<rparr>)
            | (Inr (prio, f), q) \<Rightarrow> process_frame inp f (s\<lparr>ds_queue := q\<rparr>)))"

section \<open>The camera control\<close>

fun split_colons :: "string \<Rightarrow> string list" where
  "split_colons (a # b # xs) =
     (if a = CHR '':'' \<and> b = CHR '':'' then [] # split_colons xs
      else (case split_colons (b # xs) of [] \<Rightarrow> [[a]] | y # ys \<Rightarrow> (a # y) # ys))"
| "split_colons xs = [xs]"

definition camera_id :: "string \<Rightarrow> string \<Rightarrow> string" where
  "camera_id host thing = host @ '' :: '' @ thing"

definition control_target :: "string \<Rightarrow> (string \<times> string) res" where
  "control_target cam =
     (case split_colons cam of
        host # thing # _ \<Rightarrow> Inr (strip host, strip thing)
      | _ \<Rightarrow> Inl IndexError)"

text \<open>
  \<open>_control_camera_ptz\<close> over the state of its lock: \<open>acquired\<close> is the outcome of waiting for the
  lock, \<open>consume\<close> and \<open>invoke\<close> those of the client.
\<close>

definition release_lock :: "(bool, unit) prog" where
  "release_lock locked = (if locked then (Inr (), False) else (Inl (RuntimeError ''Lock is not acquired.''), False))"

definition control_camera_ptz ::
  "string \<Rightarrow> unit res \<Rightarrow> (string \<times> string \<Rightarrow> unit res) \<Rightarrow> unit res \<Rightarrow> (bool, unit) prog" where
  "control_camera_ptz cam acquired consume invoke locked =
     (let locked1 = (if acquired = Inr () then True else locked);
          body = bindR acquired (\<lambda>_. bindR (control_target cam) (\<lambda>target. bindR (consume target) (\<lambda>_. invoke)));
          r = (case body of Inl e \<Rightarrow> if is_Exception e then Inr () else Inl e | Inr u \<Rightarrow> Inr u)
      in case release_lock locked1 of
           (Inl e, locked2) \<Rightarrow> (Inl e, locked2)
         | (Inr _, locked2) \<Rightarrow> (r, locked2))"

section \<open>The subscriptions\<close>

definition default_camera_id :: string where
  "default_camera_id = ''urn:org:fundacionctic:thing:wotemu:camera''"

definition default_frame_event :: string where
  "default_frame_event = ''jpgVideoFrame''"

record subscription =
  su_cam :: string
  su_event :: py

definition subscribe_camera ::
  "(py \<Rightarrow> py \<Rightarrow> unit res) \<Rightarrow> (py \<Rightarrow> py \<Rightarrow> unit res) \<Rightarrow> (py \<Rightarrow> unit res) \<Rightarrow> py dict \<Rightarrow> subscription res" where
  "subscribe_camera wait consume subscribe camera =
     bindR (dict_index camera ''servient_host'') (\<lambda>host.
       let thing = get_default camera ''thing_id'' (PStr default_camera_id);
           event = get_default camera ''frame_event'' (PStr default_frame_event)
       in bindR (wait host thing) (\<lambda>_. bindR (consume host thing) (\<lambda>_. bindR (subscribe event) (\<lambda>_.
            Inr \<lparr>su_cam = camera_id (py_str host) (py_str thing), su_event = event\<rparr>))))"

text \<open>
  \<open>_subscribe_task\<close>: one element for each round, the outcomes of the cameras in the order in which
  they ended; \<open>live\<close> are the subscriptions that deliver frames. \<open>_cancel_subs(subs)\<close> only creates the
  coroutine, which nothing awaits, so it disposes of nothing; when the first round fails the name
  is not bound, and the bare \<open>except\<close> takes that error. The list ends when the task is cancelled.
\<close>

definition cancel_subs_unawaited :: "'s list option \<Rightarrow> ('s list, unit) prog" where
  "cancel_subs_unawaited subs live = (case subs of None \<Rightarrow> (Inl UnboundLocalError, live) | Some _ \<Rightarrow> (Inr (), live))"

fun successes :: "'s res list \<Rightarrow> 's list" where
  "successes [] = []"
| "successes (Inr x # rs) = x # successes rs"
| "successes (Inl _ # rs) = successes rs"

fun first_error :: "'s res list \<Rightarrow> exn option" where
  "first_error [] = None"
| "first_error (Inl e # rs) = Some e"
| "first_error (Inr _ # rs) = first_error rs"

fun subscribe_rounds :: "'s res list list \<Rightarrow> 's list option \<Rightarrow> ('s list, unit) prog" where
  "subscribe_rounds [] subs live = (Inl CancelledError, snd (cancel_subs_unawaited subs live))"
| "subscribe_rounds (r # rs) subs live =
     (let live1 = live @ successes r
      in case first_error r of
           Some e \<Rightarrow> (Inl e, snd (cancel_subs_unawaited subs live1))
         | None \<Rightarrow> subscribe_rounds rs (Some (successes r)) (snd (cancel_subs_unawaited (Some (successes r)) live1)))"

section \<open>Runs of the detector\<close>

text \<open>
  What happens to the state, in any order: a frame event, a round of the loop, the end of a camera
  control. A round that raises ends the loop; the exception of a frame event goes to the event
  stream, so that the detector runs on (\<open>strict\<close> runs are those in which none happened).
\<close>

datatype det_event =
    FrameEvent string real real event_item
  | Round det_input
  | ControlDone string

fun det_event_step :: "int \<Rightarrow> det_event \<Rightarrow> (det_state, unit) prog" where
  "det_event_step maxsize (FrameEvent cam now arrival ev) s =
     (case on_next maxsize cam now arrival ev (ds_counters s) (ds_queue s) of
        (r, q) \<Rightarrow> (r, s\<lparr>ds_queue := q\<rparr>))"
| "det_event_step maxsize (Round inp) s = process_round inp s"
| "det_event_step maxsize (ControlDone cam) s =
     (if cam \<in> set (ds_controls s)
      then (Inr (), s\<lparr>ds_locks := dset (ds_locks s) cam False, ds_controls := remove1 cam (ds_controls s)\<rparr>)
      else (Inr (), s))"

fun is_frame_event :: "det_event \<Rightarrow> bool" where
  "is_frame_event (FrameEvent _ _ _ _) = True"
| "is_frame_event _ = False"

inductive det_reach :: "bool \<Rightarrow> int \<Rightarrow> det_state \<Rightarrow> bool" for strict maxsize where
  reach_init: "det_reach strict maxsize det_init"
| reach_step: "det_reach strict maxsize s \<Longrightarrow> det_event_step maxsize ev s = (r, s')
    \<Longrightarrow> r = Inr () \<or> (\<not> strict \<and> is_frame_event ev) \<Longrightarrow> det_reach strict maxsize s'"

text \<open>The effect of a step on the parts of the state, one lemma for each part.\<close>

lemma on_next_eq:
  "on_next maxsize cam now arrival ev counters q =
     (case frame_entry cam now arrival ev counters of
        Inl e \<Rightarrow> (Inl e, q)
      | Inr x \<Rightarrow> if 0 < maxsize \<and> maxsize \<le> int (length q) then (Inr (), q) else heap_push entry_lt x q)"
proof (cases "frame_entry cam now arrival ev counters")
  case (Inl e)
  then have "e \<noteq> QueueFull"
    by (auto simp: frame_entry_def field_def frame_priority_def Let_def bindR_eq_Inl split: option.splits if_splits)
  then show ?thesis using Inl by (simp add: on_next_def tryP_def bindP_def)
next
  case (Inr x)
  have "fst (heap_push entry_lt x q) \<noteq> Inl QueueFull"
    using heap_push_error [of entry_lt x q QueueFull] by (auto simp: entry_lt_def split: if_splits)
  then show ?thesis using Inr
    by (auto simp: on_next_def tryP_def bindP_def frame_put_nowait_def split: prod.split sum.split)
qed

lemma on_next_queue:
  assumes "on_next maxsize cam now arrival ev counters q = (r, q')"
  shows "q' = q \<or> (\<exists>x. heap_push entry_lt x q = (r, q') \<and> (maxsize \<le> 0 \<or> int (length q) < maxsize))"
  using assms by (auto simp: on_next_eq split: sum.splits if_splits)

lemma process_frame_cases:
  assumes "process_frame inp f s = (r, s')"
  obtains "s' = s"
  | "r = Inr ()" "in_metric inp = Inr ()" "in_faces inp = Inr []"
    "s' = s\<lparr>ds_metrics := ds_metrics s @ [frame_metric inp f],
            ds_counters := dset (ds_counters s) (fr_cam f) (counter_of (ds_counters s) (fr_cam f) + 1)\<rparr>"
  | faces where "r = Inr ()" "in_metric inp = Inr ()" "in_faces inp = Inr faces" "faces \<noteq> []"
    "s' = start_control (fr_cam f)
       (s\<lparr>ds_metrics := ds_metrics s @ [frame_metric inp f],
          ds_counters := dset (ds_counters s) (fr_cam f) (counter_of (ds_counters s) (fr_cam f) + 1),
          ds_store := store_put \<lparr>de_cam = fr_cam f, de_jpg = fr_b64 f, de_faces = faces, de_time = fr_capture f\<rparr>
            (ds_store s)\<rparr>)"
  using assms unfolding process_frame_def Let_def
  by (auto split: if_splits sum.splits)

lemma start_control_other [simp]:
  "ds_queue (start_control cam s) = ds_queue s" "ds_store (start_control cam s) = ds_store s"
  "ds_counters (start_control cam s) = ds_counters s" "ds_metrics (start_control cam s) = ds_metrics s"
  by (simp_all add: start_control_def Let_def)

lemma process_round_cases:
  assumes "process_round inp s = (r, s')"
  obtains "s' = s"
  | q e where "heap_pop entry_lt (ds_queue s) = (Inl e, q)" "r = Inl e" "s' = s\<lparr>ds_queue := q\<rparr>"
  | prio f q where "ds_queue s \<noteq> []" "heap_pop entry_lt (ds_queue s) = (Inr (prio, f), q)"
    "process_frame inp f (s\<lparr>ds_queue := q\<rparr>) = (r, s')"
  using assms unfolding process_round_def
  by (auto split: if_splits prod.splits sum.splits)

lemma process_frame_queue: "ds_queue (snd (process_frame inp f s)) = ds_queue s"
  by (rule process_frame_cases [of inp f s]) (auto simp: prod_eq_iff)

section \<open>The order of the frames\<close>

lemma strict_reach_heap: "det_reach strict maxsize s \<Longrightarrow> strict \<Longrightarrow> heap_ok fst (ds_queue s)"
proof (induction rule: det_reach.induct)
  case reach_init
  then show ?case by (simp add: det_init_def heap_ok_def)
next
  case (reach_step s ev r s')
  then have ok: "heap_ok fst (ds_queue s)" and r: "r = Inr ()" by simp_all
  show ?case
  proof (cases ev)
    case (FrameEvent cam now arrival item)
    then obtain q' where q': "on_next maxsize cam now arrival item (ds_counters s) (ds_queue s) = (Inr (), q')"
      "s' = s\<lparr>ds_queue := q'\<rparr>"
      using reach_step.hyps(2) r by (auto split: prod.splits)
    from on_next_queue [OF q'(1)] show ?thesis
      using q'(2) ok frames.put_ok [OF ok] by (auto simp: prod_eq_iff)
  next
    case (Round inp)
    then have "process_round inp s = (Inr (), s')" using reach_step.hyps(2) r by simp
    then show ?thesis
      by (rule process_round_cases)
        (use ok frames.get_ok [OF ok] process_frame_queue in \<open>force simp: prod_eq_iff\<close>)+
  next
    case (ControlDone cam)
    then show ?thesis using reach_step.hyps(2) ok by (auto split: if_splits)
  qed
qed


text \<open>Three frames of two cameras, the events that bring them, and the state they lead to.\<close>

definition demo_frame :: "string \<Rightarrow> real \<Rightarrow> frame" where
  "demo_frame cam t = \<lparr>fr_b64 = ''jpg'', fr_capture = t, fr_arrival = 10, fr_cam = cam\<rparr>"

definition demo_event :: "string \<Rightarrow> real \<Rightarrow> det_event" where
  "demo_event cam t = FrameEvent cam 10 10 \<lparr>ev_capture = Some t, ev_b64 = Some ''jpg''\<rparr>"

lemma demo_event_step:
  assumes "t \<noteq> 10" and "ds_counters s = []"
  shows "det_event_step 50 (demo_event cam t) s =
    (if 50 \<le> length (ds_queue s) then (Inr (), s)
     else case heap_push entry_lt (1 / (10 - t), demo_frame cam t) (ds_queue s) of (r, q) \<Rightarrow> (r, s\<lparr>ds_queue := q\<rparr>))"
  using assms
  by (simp add: demo_event_def demo_frame_def on_next_eq frame_entry_def field_def frame_priority_def counter_of_def)

lemma demo_reach:
  "det_reach strict 50 (det_init\<lparr>ds_queue := [(1 / 4, demo_frame ''a'' 6), (1 / 2, demo_frame ''b'' 8)]\<rparr>)"
proof -
  let ?s1 = "det_init\<lparr>ds_queue := [(1 / 2, demo_frame ''b'' 8)]\<rparr>"
  have "det_event_step 50 (demo_event ''b'' 8) det_init = (Inr (), ?s1)"
    by (simp add: demo_event_step det_init_def heap_push_def siftdown.simps)
  then have 1: "det_reach strict 50 ?s1" using reach_init reach_step by metis
  have "det_event_step 50 (demo_event ''a'' 6) ?s1 =
      (Inr (), det_init\<lparr>ds_queue := [(1 / 4, demo_frame ''a'' 6), (1 / 2, demo_frame ''b'' 8)]\<rparr>)"
    by (simp add: demo_event_step det_init_def heap_push_def siftdown.simps parent_def swap_def entry_lt_def)
  then show ?thesis using 1 reach_step by metis
qed


text \<open>
  What urgent means: among frames that are more than a second old when they arrive, the frame of the
  camera with fewer counted frames goes first, and between cameras with equal counts the older frame.
\<close>

theorem priority_order:
  assumes "frame_priority cam1 now1 capture1 counters = Inr p1" and "frame_priority cam2 now2 capture2 counters = Inr p2"
    and "1 < now1 - capture1" and "1 < now2 - capture2"
  shows "p1 < p2 \<longleftrightarrow> counter_of counters cam1 < counter_of counters cam2
    \<or> (counter_of counters cam1 = counter_of counters cam2 \<and> now2 - capture2 < now1 - capture1)"
proof -
  let ?a = "now1 - capture1" and ?b = "now2 - capture2"
    and ?m = "counter_of counters cam1" and ?n = "counter_of counters cam2"
  have p: "p1 = real ?m + 1 / ?a" "p2 = real ?n + 1 / ?b"
    using assms by (auto simp: frame_priority_def Let_def split: if_splits)
  have b: "0 < 1 / ?a" "1 / ?a < 1" "0 < 1 / ?b" "1 / ?b < 1" using assms(3,4) by simp_all
  have eq: "1 / ?a < 1 / ?b \<longleftrightarrow> ?b < ?a" using assms(3,4) by (simp add: field_simps)
  consider "?m < ?n" | "?m = ?n" | "?n < ?m" by linarith
  then show ?thesis
  proof cases
    case 1
    then have "real ?m + 1 \<le> real ?n" by simp
    then show ?thesis using p b 1 by linarith
  next
    case 2
    then show ?thesis using p eq by simp
  next
    case 3
    then have "real ?n + 1 \<le> real ?m" by simp
    then show ?thesis using p b 3 by linarith
  qed
qed

theorem priority_order_witness:
  "frame_priority ''a'' 10 8 [(''b'', 1)] = Inr (1 / 2) \<and> frame_priority ''b'' 10 6 [(''b'', 1)] = Inr (5 / 4)
   \<and> (1 / 2 :: real) < 5 / 4"
proof -
  have p: "frame_priority ''a'' 10 8 [(''b'', 1)] = Inr (1 / 2)" "frame_priority ''b'' 10 6 [(''b'', 1)] = Inr (5 / 4)"
    by (simp_all add: frame_priority_def counter_of_def dget_Cons)
  from priority_order [OF p] p show ?thesis by (simp add: counter_of_def dget_Cons)
qed

section \<open>The invariant of the state\<close>

text \<open>
  The store has at most one detection of each camera, each with a face; the counters count the
  metrics; a camera has at most one control in flight, and its lock is held exactly then.
\<close>

definition measured :: "latency_metric list \<Rightarrow> string \<Rightarrow> nat" where
  "measured ms cam = length (filter (\<lambda>m. lm_camera m = cam) ms)"

definition store_ok :: "detection list \<Rightarrow> bool" where
  "store_ok ds = (distinct (map de_cam ds) \<and> (\<forall>d\<in>set ds. de_faces d \<noteq> []))"

definition locks_ok :: "det_state \<Rightarrow> bool" where
  "locks_ok s = (distinct (ds_controls s) \<and> (\<forall>cam. dget (ds_locks s) cam = Some True \<longleftrightarrow> cam \<in> set (ds_controls s)))"

definition counters_ok :: "det_state \<Rightarrow> bool" where
  "counters_ok s = (\<forall>cam. counter_of (ds_counters s) cam = measured (ds_metrics s) cam)"

definition det_inv :: "int \<Rightarrow> det_state \<Rightarrow> bool" where
  "det_inv maxsize s = (store_ok (ds_store s) \<and> locks_ok s \<and> counters_ok s
     \<and> (0 < maxsize \<longrightarrow> int (length (ds_queue s)) \<le> maxsize))"

lemma store_pop_facts:
  "set (store_pop cam ds) \<subseteq> set ds" "distinct (map de_cam ds) \<Longrightarrow> distinct (map de_cam (store_pop cam ds))"
  "distinct (map de_cam ds) \<Longrightarrow> cam \<notin> de_cam ` set (store_pop cam ds)"
  by (induction cam ds rule: store_pop.induct) (auto simp: image_iff)

lemma store_ok_put: "store_ok ds \<Longrightarrow> de_faces d \<noteq> [] \<Longrightarrow> store_ok (store_put d ds)"
  using store_pop_facts [where cam = "de_cam d" and ds = ds] by (auto simp: store_ok_def store_put_def)

lemma counter_of_dset: "counter_of (dset c k n) cam = (if cam = k then n else counter_of c cam)"
  by (simp add: counter_of_def dget_dset)

lemma measured_append: "measured (ms @ [m]) cam = measured ms cam + (if lm_camera m = cam then 1 else 0)"
  by (simp add: measured_def)

lemma counters_ok_count:
  "counters_ok s \<Longrightarrow> ds_metrics t = ds_metrics s @ [frame_metric inp f]
   \<Longrightarrow> ds_counters t = dset (ds_counters s) (fr_cam f) (counter_of (ds_counters s) (fr_cam f) + 1) \<Longrightarrow> counters_ok t"
  by (simp add: counters_ok_def counter_of_dset measured_append frame_metric_def)

lemma start_control_locks: "locks_ok s \<Longrightarrow> locks_ok (start_control cam s)"
proof -
  assume ok: "locks_ok s"
  then have "dget (ds_locks s) cam = Some True \<longleftrightarrow> cam \<in> set (ds_controls s)" by (simp add: locks_ok_def)
  then show ?thesis using ok
    by (cases "dget (ds_locks s) cam") (auto simp: locks_ok_def start_control_def Let_def dget_dset)
qed

lemma det_inv_process_frame:
  assumes "det_inv maxsize s" and "process_frame inp f s = (r, s')"
  shows "det_inv maxsize s'"
  using assms(2)
proof (cases rule: process_frame_cases)
  case 1
  then show ?thesis using assms(1) by simp
next
  case 2
  then show ?thesis using assms(1) counters_ok_count [of s s' inp f] by (simp add: det_inv_def locks_ok_def)
next
  case (3 faces)
  let ?t = "s\<lparr>ds_metrics := ds_metrics s @ [frame_metric inp f],
      ds_counters := dset (ds_counters s) (fr_cam f) (counter_of (ds_counters s) (fr_cam f) + 1),
      ds_store := store_put \<lparr>de_cam = fr_cam f, de_jpg = fr_b64 f, de_faces = faces, de_time = fr_capture f\<rparr> (ds_store s)\<rparr>"
  have "locks_ok ?t" using assms(1) by (simp add: det_inv_def locks_ok_def)
  then have "locks_ok s'" using 3(5) start_control_locks by simp
  moreover have "counters_ok s'" using counters_ok_count [of s s' inp f] assms(1) 3(5) by (simp add: det_inv_def)
  ultimately show ?thesis using assms(1) 3(4,5) store_ok_put by (simp add: det_inv_def)
qed

lemma det_inv_queue: "det_inv maxsize s \<Longrightarrow> (0 < maxsize \<Longrightarrow> int (length q) \<le> maxsize) \<Longrightarrow> det_inv maxsize (s\<lparr>ds_queue := q\<rparr>)"
  by (simp add: det_inv_def locks_ok_def counters_ok_def)

lemma heap_lengths:
  "length (snd (heap_push entry_lt x q)) = Suc (length q)"
  "q \<noteq> [] \<Longrightarrow> Suc (length (snd (heap_pop entry_lt q))) = length q"
  using arg_cong [OF heap_push_mset [of entry_lt x q], of size]
    arg_cong [OF heap_pop_mset(1) [of q entry_lt], of size] by simp_all

lemma det_inv_step:
  assumes "det_inv maxsize s" and "det_event_step maxsize ev s = (r, s')"
  shows "det_inv maxsize s'"
proof (cases ev)
  case (FrameEvent cam now arrival item)
  then obtain q' where q': "on_next maxsize cam now arrival item (ds_counters s) (ds_queue s) = (r, q')"
    "s' = s\<lparr>ds_queue := q'\<rparr>"
    using assms(2) by (auto split: prod.splits)
  have "0 < maxsize \<Longrightarrow> int (length q') \<le> maxsize"
    using on_next_queue [OF q'(1)] heap_lengths(1) assms(1) by (force simp: det_inv_def prod_eq_iff)
  then show ?thesis using q'(2) det_inv_queue assms(1) by blast
next
  case (Round inp)
  have q: "det_inv maxsize (s\<lparr>ds_queue := q\<rparr>)" if "heap_pop entry_lt (ds_queue s) = (x, q)" for x q
    using assms(1) heap_lengths(2) [of "ds_queue s"] that
    by (intro det_inv_queue) (cases "ds_queue s = []"; force simp: det_inv_def heap_pop_def)+
  from Round have "process_round inp s = (r, s')" using assms(2) by simp
  then show ?thesis
    by (rule process_round_cases) (use assms(1) q det_inv_process_frame in blast)+
next
  case (ControlDone cam)
  then show ?thesis using assms
    by (auto simp: det_inv_def locks_ok_def counters_ok_def dget_dset split: if_splits)
qed

text \<open>
  C7. In every reachable state, also after frame events that raised: the store that is served as the latest
  detections has at most one entry for each camera and only entries with faces; every counter is the
  number of metrics written for its camera; a camera has at most one control in flight and its lock is
  held exactly while it has one; the queue does not exceed its bound.
\<close>

theorem detector_invariant:
  assumes "det_reach strict maxsize s"
  shows "store_ok (ds_store s) \<and> locks_ok s \<and> counters_ok s \<and> (0 < maxsize \<longrightarrow> int (length (ds_queue s)) \<le> maxsize)"
proof -
  have "det_inv maxsize s"
    using assms
  proof (induction rule: det_reach.induct)
    case reach_init
    then show ?case
      by (simp add: det_inv_def det_init_def store_ok_def locks_ok_def counters_ok_def counter_of_def measured_def)
  next
    case (reach_step s ev r s')
    then show ?case using det_inv_step by blast
  qed
  then show ?thesis by (simp add: det_inv_def)
qed

theorem detector_invariant_witness:
  "\<exists>s. det_reach False 50 s \<and> ds_queue s \<noteq> [] \<and> store_ok (ds_store s) \<and> int (length (ds_queue s)) \<le> 50"
proof -
  from detector_invariant [OF demo_reach [of False]] show ?thesis
    by (intro exI [of _ "det_init\<lparr>ds_queue := [(1 / 4, demo_frame ''a'' 6), (1 / 2, demo_frame ''b'' 8)]\<rparr>"])
      (use demo_reach [of False] in simp)
qed

section \<open>Equal priorities\<close>

text \<open>
  C34. Equal priorities stop the detector: when three frames arrive of which the last two are different and
  have the same priority, above the first one's, they are queued without an error, and the next round
  raises a \<open>TypeError\<close> out of the queue, which ends the processing loop; the most urgent frame is lost.
\<close>

theorem equal_priorities_stop_detector:
  assumes "frame_entry cam0 now0 arr0 ev0 [] = Inr x0" and "frame_entry cam1 now1 arr1 ev1 [] = Inr x1"
    and "frame_entry cam2 now2 arr2 ev2 [] = Inr x2"
    and "fst x0 < fst x1" and "fst x1 = fst x2" and "x1 \<noteq> x2" and "maxsize \<le> 0 \<or> 3 \<le> maxsize"
  shows "\<exists>s. det_reach True maxsize s \<and> ds_queue s = [x0, x1, x2]
    \<and> (\<forall>inp. process_round inp s = (Inl TypeError, s\<lparr>ds_queue := [x1, x2]\<rparr>))"
proof -
  let ?s = "\<lambda>q. det_init\<lparr>ds_queue := q\<rparr>"
  have step: "det_event_step maxsize (FrameEvent c n a e) (?s q) = (fst (heap_push entry_lt x q), ?s (snd (heap_push entry_lt x q)))"
    if "frame_entry c n a e [] = Inr x" "length q < 3" for c n a e x q
    using that assms(7) by (auto simp: on_next_eq det_init_def split: prod.split)
  have push: "heap_push entry_lt x0 [] = (Inr (), [x0])" "heap_push entry_lt x1 [x0] = (Inr (), [x0, x1])"
    "heap_push entry_lt x2 [x0, x1] = (Inr (), [x0, x1, x2])"
    using assms(4,5) by (simp_all add: heap_push_def siftdown.simps parent_def entry_lt_def)
  have "det_reach True maxsize (?s [])" using reach_init by (simp add: det_init_def)
  from reach_step [OF this step [OF assms(1)]] push(1) have "det_reach True maxsize (?s [x0])" by simp
  from reach_step [OF this step [OF assms(2)]] push(2) have "det_reach True maxsize (?s [x0, x1])" by simp
  from reach_step [OF this step [OF assms(3)]] push(3) have reach: "det_reach True maxsize (?s [x0, x1, x2])" by simp
  have "entry_lt x2 x1 = Inl TypeError" using assms(5,6) by (auto simp: entry_lt_def prod_eq_iff)
  then have "heap_pop entry_lt [x0, x1, x2] = (Inl TypeError, [x1, x2])"
    by (simp add: heap_pop_def siftup.simps siftdown.simps smaller_child_def swap_def parent_def)
  then have "process_round inp (?s [x0, x1, x2]) = (Inl TypeError, ?s [x0, x1, x2]\<lparr>ds_queue := [x1, x2]\<rparr>)" for inp
    by (simp add: process_round_def)
  with reach show ?thesis by (intro exI [of _ "?s [x0, x1, x2]"]) simp
qed

theorem equal_priorities_stop_detector_witness:
  "\<exists>s. det_reach True 50 s \<and> length (ds_queue s) = 3 \<and> (\<forall>inp. fst (process_round inp s) = Inl TypeError)"
proof -
  let ?e = "\<lambda>t. \<lparr>ev_capture = Some t, ev_b64 = Some ''jpg''\<rparr>"
  have f: "frame_entry cam 10 10 (?e t) [] = Inr (1 / (10 - t), demo_frame cam t)" if "t \<noteq> 10" for cam t
    using that by (simp add: frame_entry_def field_def frame_priority_def counter_of_def demo_frame_def)
  have "\<exists>s. det_reach True 50 s \<and> ds_queue s = [(1 / 4, demo_frame ''a'' 6), (1 / 2, demo_frame ''a'' 8), (1 / 2, demo_frame ''b'' 8)]
    \<and> (\<forall>inp. process_round inp s = (Inl TypeError, s\<lparr>ds_queue := [(1 / 2, demo_frame ''a'' 8), (1 / 2, demo_frame ''b'' 8)]\<rparr>))"
    by (rule equal_priorities_stop_detector [of "''a''" 10 10 "?e 6" _ "''a''" 10 10 "?e 8" _ "''b''" 10 10 "?e 8"])
      (simp_all add: f demo_frame_def)
  then show ?thesis by fastforce
qed

section \<open>The target of a camera control\<close>

fun has_colons :: "string \<Rightarrow> bool" where
  "has_colons (a # b # xs) = (a = CHR '':'' \<and> b = CHR '':'' \<or> has_colons (b # xs))"
| "has_colons xs = False"

lemma split_colons_not_Nil [simp]: "split_colons xs \<noteq> []"
  by (induction xs rule: split_colons.induct) (auto split: list.splits)

lemma split_colons_none: "\<not> has_colons xs \<Longrightarrow> split_colons xs = [xs]"
  by (induction xs rule: split_colons.induct) auto

lemma split_colons_sep:
  "\<not> has_colons xs \<Longrightarrow> xs \<noteq> [] \<longrightarrow> last xs \<noteq> CHR '':'' \<Longrightarrow> split_colons (xs @ ''::'' @ ys) = xs # split_colons ys"
  by (induction xs rule: split_colons.induct) auto

lemma has_colons_space: "has_colons (xs @ '' '') = has_colons xs" "has_colons (CHR '' '' # xs) = has_colons xs"
proof -
  show "has_colons (xs @ '' '') = has_colons xs" by (induction xs rule: has_colons.induct) auto
  show "has_colons (CHR '' '' # xs) = has_colons xs" by (cases xs) auto
qed

lemma is_space_blank [simp]: "is_space (CHR '' '')"
  by (simp add: is_space_def)

lemma split_camera_id:
  assumes "\<not> has_colons host"
  shows "split_colons (camera_id host thing) = (host @ '' '') # split_colons (CHR '' '' # thing)"
proof -
  have "split_colons ((host @ '' '') @ ''::'' @ (CHR '' '' # thing)) = (host @ '' '') # split_colons (CHR '' '' # thing)"
    by (rule split_colons_sep) (simp_all add: assms has_colons_space)
  then show ?thesis by (simp add: camera_id_def)
qed

lemma strip_padded: "trimmed s \<Longrightarrow> strip (s @ '' '') = s" "trimmed s \<Longrightarrow> strip (CHR '' '' # s) = s"
  using strip_trimmed [of s] by (simp_all add: strip_pad_left strip_pad_right trimmed_def)

text \<open>A Thing id with two adjacent colons is cut there.\<close>

lemma control_target_cut:
  assumes "\<not> has_colons host" "trimmed host" "\<not> has_colons thing" "trimmed thing" "last thing \<noteq> CHR '':''"
  shows "control_target (camera_id host (thing @ ''::'' @ rest)) = Inr (host, thing)"
proof -
  have "split_colons ((CHR '' '' # thing) @ ''::'' @ rest) = (CHR '' '' # thing) # split_colons rest"
    by (rule split_colons_sep) (use assms in \<open>simp_all add: has_colons_space trimmed_def\<close>)
  then show ?thesis using assms strip_padded by (simp add: control_target_def split_camera_id)
qed

text \<open>
  A camera control reaches the camera that sent the frame, and gives its lock back: for a host and a
  Thing id without two adjacent colons and without spaces around, the control consumes exactly that
  Thing on that host; errors of the client end there, a cancellation goes on, and in every case the
  lock is free again.
\<close>

theorem control_reaches_camera:
  assumes "\<not> has_colons host" and "\<not> has_colons thing" and "trimmed host" and "trimmed thing"
  shows "control_camera_ptz (camera_id host thing) (Inr ()) consume invoke locked =
    (case bindR (consume (host, thing)) (\<lambda>_. invoke) of
       Inl e \<Rightarrow> if is_Exception e then Inr () else Inl e | Inr u \<Rightarrow> Inr u, False)"
proof -
  have "split_colons (CHR '' '' # thing) = [CHR '' '' # thing]"
    by (rule split_colons_none) (simp add: assms has_colons_space)
  then have "control_target (camera_id host thing) = Inr (host, thing)"
    using assms strip_padded by (simp add: control_target_def split_camera_id)
  then show ?thesis by (simp add: control_camera_ptz_def release_lock_def)
qed

theorem control_reaches_camera_witness:
  "control_camera_ptz (camera_id ''camera'' default_camera_id) (Inr ())
     (\<lambda>t. if t = (''camera'', default_camera_id) then Inr () else Inl TypeError) (Inl CancelledError) True
   = (Inl CancelledError, False)"
  by (subst control_reaches_camera)
    (simp_all add: default_camera_id_def trimmed_def is_space_def is_Exception_def)

section \<open>The subscriptions are never disposed of\<close>

lemma first_error_successes: "first_error r = None \<Longrightarrow> map Inr (successes r) = r"
  by (induction r rule: first_error.induct) auto

lemma cancel_subs_unawaited_live [simp]: "snd (cancel_subs_unawaited subs live) = live"
  by (simp add: cancel_subs_unawaited_def split: option.split)

lemma subscribe_rounds_append:
  "\<forall>r\<in>set rs. first_error r = None \<Longrightarrow>
   subscribe_rounds (rs @ [r]) subs live =
     (Inl (case first_error r of Some e \<Rightarrow> e | None \<Rightarrow> CancelledError), live @ concat (map successes (rs @ [r])))"
  by (induction rs arbitrary: subs live) (auto split: option.split)

text \<open>
  Subscriptions accumulate: the coroutine that should dispose of a round's subscriptions is never
  awaited, so after any number of subscription errors the subscriptions of all rounds are still live
  and each later frame of a camera is queued once for every round; the task ends only with the error
  of a camera that cannot be subscribed to, or cancelled.
\<close>

theorem subscriptions_accumulate:
  assumes "\<forall>r\<in>set rs. first_error r = None"
  shows "subscribe_rounds (rs @ [r]) None [] =
     (Inl (case first_error r of Some e \<Rightarrow> e | None \<Rightarrow> CancelledError), concat (map successes (rs @ [r])))
   \<and> (\<forall>cam. (\<forall>r\<in>set rs. cam \<in> set (successes r))
        \<longrightarrow> length rs \<le> count_list (snd (subscribe_rounds (rs @ [r]) None [])) cam)"
proof -
  have "length rs \<le> count_list (concat (map successes (rs @ [r]))) cam"
    if "\<forall>r\<in>set rs. cam \<in> set (successes r)" for cam
    using that
  proof (induction rs)
    case Nil
    then show ?case by simp
  next
    case (Cons x xs)
    then have "1 \<le> count_list (successes x) cam" using count_list_0_iff [of "successes x" cam] by (simp add: Suc_le_eq)
    with Cons show ?case by simp
  qed
  then show ?thesis using subscribe_rounds_append [OF assms, of r None "[]"] by simp
qed

theorem subscriptions_accumulate_witness:
  "subscribe_rounds [[Inr ''a''], [Inr ''a''], [Inr ''a'', Inl TypeError]] None [] = (Inl TypeError, [''a'', ''a'', ''a''])"
  using subscriptions_accumulate [of "[[Inr ''a''], [Inr ''a'']]" "[Inr ''a'', Inl TypeError]"] by simp

end
