(* ===== verification/Historian.thy ===== *)
theory Historian
  imports DockerUtils PyNumbers "HOL-Library.Multiset"
begin

text \<open>
  \<^verbatim>\<open>wotemu/apps/historian.py\<close>: the Thing that keeps property values in MongoDB and serves them by time
  window, and its tasks, which read observed Things and forward the values of another historian. The
  collection is the list of its documents; how MongoDB finds and aggregates documents is a parameter,
  with its documented behaviour stated as \<open>find_ok\<close>. A naive datetime is the number of seconds that
  it denotes when it is read as UTC; \<open>timestamp()\<close> reads it in the local time zone, \<open>off\<close> seconds
  ahead of UTC. Values out of the range of dates are not modelled.
\<close>

section \<open>Documents and queries\<close>

record doc =
  utc_date :: real
  property_name :: py
  thing_id :: py
  servient :: py
  doc_value :: py

record query =
  q_from :: int
  q_to :: "int option"
  q_property :: "py option"
  q_thing :: "py option"
  q_servient :: "py option"

definition default_query_seconds :: real where
  "default_query_seconds = 60"

definition naive_timestamp :: "real \<Rightarrow> real \<Rightarrow> real" where
  "naive_timestamp off d = d - off"

text \<open>\<open>if params_input.get(k): ...\<close>, where a true value becomes an equality test.\<close>

definition eq_filter :: "py \<Rightarrow> string \<Rightarrow> py option res" where
  "eq_filter inp k = bindR (py_get inp k PNone) (\<lambda>v. Inr (if truthy v then Some v else None))"

definition params_input :: "py dict \<Rightarrow> py res" where
  "params_input params = bindR (dict_index params ''input'') (\<lambda>v. Inr (py_or v (PDict [])))"

definition build_query :: "floats \<Rightarrow> real \<Rightarrow> py \<Rightarrow> query res" where
  "build_query fl now inp =
     bindR (py_get inp ''fromUnix'' (PFloat (fl_repr fl (now - default_query_seconds)))) (\<lambda>f.
     bindR (py_to_int fl f) (\<lambda>from_unix.
     bindR (py_get inp ''toUnix'' PNone) (\<lambda>t.
     bindR (if truthy t then bindR (py_to_int fl t) (\<lambda>i. Inr (Some i)) else Inr None) (\<lambda>to_unix.
     bindR (eq_filter inp ''propertyName'') (\<lambda>prop.
     bindR (eq_filter inp ''thingId'') (\<lambda>thing.
     bindR (eq_filter inp ''servient'') (\<lambda>serv.
       Inr \<lparr>q_from = from_unix, q_to = to_unix, q_property = prop, q_thing = thing, q_servient = serv\<rparr>)))))))"

text \<open>What the collection answers: \<open>find\<close> with the sort by date, \<open>$bucketAuto\<close>, and \<open>$group\<close>.\<close>

record mongo =
  mg_find :: "query \<Rightarrow> doc list \<Rightarrow> doc list res"
  mg_buckets :: "query \<Rightarrow> int \<Rightarrow> doc list \<Rightarrow> doc list res"
  mg_groups :: "doc list \<Rightarrow> (py \<times> py \<times> py) list res"

definition opt_eq :: "py option \<Rightarrow> py \<Rightarrow> bool" where
  "opt_eq f v = (case f of None \<Rightarrow> True | Some w \<Rightarrow> v = w)"

definition matches :: "query \<Rightarrow> doc \<Rightarrow> bool" where
  "matches q d \<longleftrightarrow> of_int (q_from q) \<le> utc_date d
     \<and> (case q_to q of None \<Rightarrow> True | Some t \<Rightarrow> utc_date d < of_int t)
     \<and> opt_eq (q_property q) (property_name d) \<and> opt_eq (q_thing q) (thing_id d) \<and> opt_eq (q_servient q) (servient d)"

definition find_ok :: "mongo \<Rightarrow> bool" where
  "find_ok mg \<longleftrightarrow> (\<forall>q docs. mg_find mg q docs = Inr (sort_key utc_date (filter (matches q) docs)))"

section \<open>The actions\<close>

definition doc_item :: "floats \<Rightarrow> real \<Rightarrow> doc \<Rightarrow> py" where
  "doc_item fl off d =
     PDict [(''thingId'', thing_id d), (''propertyName'', property_name d), (''servient'', servient d),
            (''value'', doc_value d), (''unixTime'', PFloat (fl_repr fl (naive_timestamp off (utc_date d))))]"

definition get_aggregated :: "floats \<Rightarrow> real \<Rightarrow> mongo \<Rightarrow> py \<Rightarrow> query \<Rightarrow> doc list \<Rightarrow> py list res" where
  "get_aggregated fl off mg inp q docs =
     bindR (py_get (py_or inp (PDict [])) ''buckets'' (PInt 10)) (\<lambda>b.
     bindR (py_to_int fl b) (\<lambda>buckets.
     bindR (mg_buckets mg q buckets docs) (\<lambda>ds. Inr (map (doc_item fl off) ds))))"

definition historian_get :: "floats \<Rightarrow> real \<Rightarrow> mongo \<Rightarrow> real \<Rightarrow> py dict \<Rightarrow> doc list \<Rightarrow> py list res" where
  "historian_get fl off mg now params docs =
     bindR (params_input params) (\<lambda>inp.
     bindR (build_query fl now inp) (\<lambda>q.
     bindR (py_get inp ''buckets'' PNone) (\<lambda>b.
       if truthy b then get_aggregated fl off mg inp q docs
       else bindR (mg_find mg q docs) (\<lambda>ds. Inr (map (doc_item fl off) ds)))))"

definition write_doc :: "floats \<Rightarrow> real \<Rightarrow> py dict \<Rightarrow> doc res" where
  "write_doc fl utcnow params =
     bindR (params_input params) (\<lambda>inp.
     bindR (py_get inp ''unixTime'' PNone) (\<lambda>t.
     bindR (if truthy t then py_number fl t else Inr utcnow) (\<lambda>date.
     bindR (py_index inp ''propertyName'') (\<lambda>prop.
     bindR (py_index inp ''thingId'') (\<lambda>thing.
     bindR (py_index inp ''servient'') (\<lambda>serv.
     bindR (py_index inp ''value'') (\<lambda>val.
       Inr \<lparr>utc_date = date, property_name = prop, thing_id = thing, servient = serv, doc_value = val\<rparr>)))))))"

text \<open>\<open>inserted\<close> is the outcome of \<open>insert_one\<close>, which keeps milliseconds: \<open>ms\<close> is the date as stored.\<close>

definition historian_write :: "floats \<Rightarrow> (real \<Rightarrow> real) \<Rightarrow> real \<Rightarrow> unit res \<Rightarrow> py dict \<Rightarrow> (doc list, unit) prog" where
  "historian_write fl ms utcnow inserted params docs =
     (case write_doc fl utcnow params of
        Inl e \<Rightarrow> (Inl e, docs)
      | Inr d \<Rightarrow> (case inserted of Inl e \<Rightarrow> (Inl e, docs) | Inr _ \<Rightarrow> (Inr (), docs @ [d\<lparr>utc_date := ms (utc_date d)\<rparr>])))"

definition historian_list :: "mongo \<Rightarrow> doc list \<Rightarrow> py list res" where
  "historian_list mg docs =
     bindR (mg_groups mg docs) (\<lambda>gs. Inr (map (\<lambda>(prop, thing, serv).
       PDict [(''propertyName'', prop), (''thingId'', thing), (''servient'', serv)]) gs))"

section \<open>Waiting for MongoDB\<close>

text \<open>\<open>mw_ping i\<close> is the answer of the ping in iteration \<open>i\<close> (false when MongoDB says it is not well).\<close>

record mongo_wait =
  mw_limit :: real
  mw_now :: "nat \<Rightarrow> real"
  mw_ping :: "nat \<Rightarrow> bool res"
  mw_sleep :: "nat \<Rightarrow> unit res"

definition mongo_step :: "mongo_wait \<Rightarrow> nat \<Rightarrow> unit res option" where
  "mongo_step w i =
     (if \<not> mw_now w i < mw_limit w then Some (Inl (RuntimeError ''Timeout waiting for MongoDB''))
      else (case bindR (mw_ping w i) (\<lambda>ok. if ok then Inr () else Inl AssertionError) of
              Inr _ \<Rightarrow> Some (Inr ())
            | Inl e \<Rightarrow>
                if is_Exception e
                then (case mw_sleep w i of Inl e' \<Rightarrow> Some (Inl e') | Inr _ \<Rightarrow> None)
                else Some (Inl e)))"

fun wait_mongo :: "mongo_wait \<Rightarrow> nat \<Rightarrow> nat \<Rightarrow> unit res option" where
  "wait_mongo w 0 i = None"
| "wait_mongo w (Suc fuel) i =
     (case mongo_step w i of Some r \<Rightarrow> Some r | None \<Rightarrow> wait_mongo w fuel (Suc i))"

interpretation mongo_wait: polling "wait_mongo w" "mongo_step w" for w
  by unfold_locales simp_all

section \<open>Forwarding from another historian\<close>

text \<open>
  One iteration of the downlink: the properties that the other historian lists, one query for each over
  the last interval, and a write for every item. \<open>asyncio.gather\<close> hands exceptions over as results;
  the comprehension over the results then iterates an exception, which is a \<open>TypeError\<close>.
\<close>

definition downlink_request :: "floats \<Rightarrow> real \<Rightarrow> real \<Rightarrow> int \<Rightarrow> int \<Rightarrow> py \<Rightarrow> py res" where
  "downlink_request fl off utcnow interval buckets item =
     (let to_unix = naive_timestamp off utcnow; from_unix = to_unix - of_int interval
      in bindR (py_index item ''propertyName'') (\<lambda>prop.
         bindR (py_index item ''thingId'') (\<lambda>thing.
         bindR (py_index item ''servient'') (\<lambda>serv.
           Inr (PDict [(''toUnix'', PFloat (fl_repr fl to_unix)), (''fromUnix'', PFloat (fl_repr fl from_unix)),
                       (''buckets'', PInt buckets), (''propertyName'', prop), (''thingId'', thing),
                       (''servient'', serv)])))))"

definition item_write_params :: "py \<Rightarrow> py dict res" where
  "item_write_params item =
     bindR (py_index item ''unixTime'') (\<lambda>t.
     bindR (py_index item ''propertyName'') (\<lambda>prop.
     bindR (py_index item ''thingId'') (\<lambda>thing.
     bindR (py_index item ''servient'') (\<lambda>serv.
     bindR (py_index item ''value'') (\<lambda>val.
       Inr [(''input'', PDict [(''unixTime'', t), (''propertyName'', prop), (''thingId'', thing),
                               (''servient'', serv), (''value'', val)])])))))"

definition iterate_result :: "py res \<Rightarrow> py dict list res" where
  "iterate_result r =
     (case r of Inl _ \<Rightarrow> Inl TypeError | Inr v \<Rightarrow> bindR (as_list v) (mapR item_write_params))"

definition downlink_writes :: "py res list \<Rightarrow> py dict list res" where
  "downlink_writes results = bindR (mapR iterate_result results) (\<lambda>pss. Inr (concat pss))"

text \<open>The writes are gathered with their exceptions: a write that fails leaves the others alone.\<close>

fun write_all ::
  "floats \<Rightarrow> (real \<Rightarrow> real) \<Rightarrow> real \<Rightarrow> (nat \<Rightarrow> unit res) \<Rightarrow> nat \<Rightarrow> py dict list \<Rightarrow> doc list \<Rightarrow> doc list" where
  "write_all fl ms utcnow inserted n [] docs = docs"
| "write_all fl ms utcnow inserted n (p # ps) docs =
     write_all fl ms utcnow inserted (Suc n) ps (snd (historian_write fl ms utcnow (inserted n) p docs))"

record downlink =
  dl_interval :: int
  dl_buckets :: int
  dl_consumed :: "unit res"
  dl_listed :: "py res"
  dl_get :: "py \<Rightarrow> py res"
  dl_inserted :: "nat \<Rightarrow> unit res"

definition observe_historian_iter :: "floats \<Rightarrow> (real \<Rightarrow> real) \<Rightarrow> real \<Rightarrow> real \<Rightarrow> downlink \<Rightarrow> (doc list, unit) prog" where
  "observe_historian_iter fl ms off utcnow dl docs =
     (case bindR (dl_consumed dl) (\<lambda>_.
           bindR (dl_listed dl) (\<lambda>props.
           bindR (as_list props) (\<lambda>items.
           bindR (mapR (downlink_request fl off utcnow (dl_interval dl) (dl_buckets dl)) items) (\<lambda>reqs.
             downlink_writes (map (dl_get dl) reqs))))) of
        Inl e \<Rightarrow> (Inl e, docs)
      | Inr ps \<Rightarrow> (Inr (), write_all fl ms utcnow (dl_inserted dl) 0 ps docs))"

text \<open>The times at which the task runs an iteration, among the times at which its loop looks at the clock.\<close>

fun downlink_times :: "int \<Rightarrow> real \<Rightarrow> real list \<Rightarrow> real list" where
  "downlink_times interval next_time [] = []"
| "downlink_times interval next_time (now # nows) =
     (if next_time \<le> now then now # downlink_times interval (now + of_int interval) nows
      else downlink_times interval next_time nows)"

section \<open>Observed Things\<close>

definition read_insert_property ::
  "floats \<Rightarrow> (real \<Rightarrow> real) \<Rightarrow> real \<Rightarrow> (string \<Rightarrow> py res) \<Rightarrow> (string \<Rightarrow> unit res) \<Rightarrow> py \<Rightarrow> py \<Rightarrow> string
   \<Rightarrow> (doc list, unit) prog" where
  "read_insert_property fl ms utcnow read inserted thing host name docs =
     (case read name of
        Inl e \<Rightarrow> if is_Exception e then (Inr (), docs) else (Inl e, docs)
      | Inr v \<Rightarrow>
          historian_write fl ms utcnow (inserted name)
            [(''input'', PDict [(''propertyName'', PStr name), (''thingId'', thing), (''servient'', host), (''value'', v)])]
            docs)"

fun observe_properties ::
  "floats \<Rightarrow> (real \<Rightarrow> real) \<Rightarrow> real \<Rightarrow> (string \<Rightarrow> py res) \<Rightarrow> (string \<Rightarrow> unit res) \<Rightarrow> py \<Rightarrow> py \<Rightarrow> string list
   \<Rightarrow> doc list \<Rightarrow> doc list" where
  "observe_properties fl ms utcnow read inserted thing host [] docs = docs"
| "observe_properties fl ms utcnow read inserted thing host (n # ns) docs =
     observe_properties fl ms utcnow read inserted thing host ns
       (snd (read_insert_property fl ms utcnow read inserted thing host n docs))"

definition observe_thing_iter ::
  "floats \<Rightarrow> (real \<Rightarrow> real) \<Rightarrow> real \<Rightarrow> string list res \<Rightarrow> (string \<Rightarrow> py res) \<Rightarrow> (string \<Rightarrow> unit res) \<Rightarrow> py \<Rightarrow> py
   \<Rightarrow> (doc list, unit) prog" where
  "observe_thing_iter fl ms utcnow consumed read inserted thing host docs =
     (case consumed of
        Inl e \<Rightarrow> (Inl e, docs)
      | Inr names \<Rightarrow> (Inr (), observe_properties fl ms utcnow read inserted thing host names docs))"

definition things_handler :: "py list \<Rightarrow> py list res" where
  "things_handler observed =
     mapR (\<lambda>item. bindR (py_index item ''servient_host'') (\<lambda>host. bindR (py_index item ''thing_id'') (\<lambda>thing.
       Inr (PDict [(''servient'', host), (''thingId'', thing)])))) observed"

section \<open>Producing the Thing\<close>

definition fallback_db :: string where
  "fallback_db = ''wotemu_mongo_historian''"

text \<open>The argument may be JSON text; whatever does not parse is kept as it is.\<close>

definition parse_observed :: "(string \<Rightarrow> string) \<Rightarrow> py \<Rightarrow> py" where
  "parse_observed canon v =
     (let w = py_or v (PList [])
      in case w of PStr s \<Rightarrow> (case json_loads canon s of Some x \<Rightarrow> x | None \<Rightarrow> w) | _ \<Rightarrow> w)"

datatype observe_task = ObserveThings py | ObserveHistorian py py int int

fun has_len :: "py \<Rightarrow> bool" where
  "has_len (PStr _) = True"
| "has_len (PList _) = True"
| "has_len (PDict _) = True"
| "has_len _ = False"

definition observe_tasks :: "py \<Rightarrow> py \<Rightarrow> py \<Rightarrow> int \<Rightarrow> int \<Rightarrow> observe_task list res" where
  "observe_tasks observed host thing buckets interval =
     (if truthy observed \<and> \<not> has_len observed then Inl TypeError
      else Inr ((if truthy observed then [ObserveThings observed] else [])
                @ (if truthy host \<and> truthy thing then [ObserveHistorian host thing buckets interval] else [])))"

record historian_args =
  ha_db :: py
  ha_service_name :: "string option"
  ha_observed :: py
  ha_host :: py
  ha_thing :: py
  ha_buckets :: py
  ha_interval :: py

record historian_setup =
  hs_db :: py
  hs_observed :: py
  hs_tasks :: "observe_task list res"

definition produce_thing ::
  "floats \<Rightarrow> (string \<Rightarrow> string) \<Rightarrow> unit res \<Rightarrow> bool res \<Rightarrow> unit res \<Rightarrow> historian_args \<Rightarrow> historian_setup res" where
  "produce_thing fl canon waited pinged indexes a =
     (if (truthy (ha_host a) \<or> truthy (ha_thing a)) \<and> \<not> (truthy (ha_host a) \<and> truthy (ha_thing a))
      then Inl (ValueError ''Partially defined downlink parameters'')
      else
        bindR (py_to_int fl (ha_buckets a)) (\<lambda>buckets.
        bindR (py_to_int fl (ha_interval a)) (\<lambda>interval.
        bindR waited (\<lambda>_.
        bindR pinged (\<lambda>ok. if \<not> ok then Inl AssertionError else
        bindR indexes (\<lambda>_.
          let observed = parse_observed canon (ha_observed a)
          in Inr \<lparr>hs_db = py_or (ha_db a) (PStr (case ha_service_name a of Some s \<Rightarrow> s | None \<Rightarrow> fallback_db)),
                  hs_observed = observed,
                  hs_tasks = observe_tasks observed (ha_host a) (ha_thing a) buckets interval\<rparr>))))))"

section \<open>Values are served as they were written\<close>

lemma doc_item_index:
  "py_index (doc_item fl off d) ''thingId'' = Inr (thing_id d)"
  "py_index (doc_item fl off d) ''propertyName'' = Inr (property_name d)"
  "py_index (doc_item fl off d) ''servient'' = Inr (servient d)"
  "py_index (doc_item fl off d) ''value'' = Inr (doc_value d)"
  "py_index (doc_item fl off d) ''unixTime'' = Inr (PFloat (fl_repr fl (naive_timestamp off (utc_date d))))"
  by (simp_all add: doc_item_def dict_index_def dget_Cons)

lemma filter_sort_append:
  "mset (map f (sort_key k (filter P (xs @ [x])))) =
     (if P x then add_mset (f x) (mset (map f (sort_key k (filter P xs)))) else mset (map f (sort_key k (filter P xs))))"
  by simp


text \<open>A collection with its documented answers, floats printed by an injective function, and a written value.\<close>

definition demo_mongo :: mongo where
  "demo_mongo = \<lparr>mg_find = (\<lambda>q docs. Inr (sort_key utc_date (filter (matches q) docs))),
     mg_buckets = (\<lambda>q n docs. Inr (take (nat n) (sort_key utc_date (filter (matches q) docs)))),
     mg_groups = (\<lambda>docs. Inr (remdups (map (\<lambda>d. (property_name d, thing_id d, servient d)) docs)))\<rparr>"

lemma demo_mongo_find_ok: "find_ok demo_mongo"
  by (simp add: find_ok_def demo_mongo_def)

definition demo_write :: "py dict" where
  "demo_write = [(''input'', PDict [(''unixTime'', PInt 100), (''propertyName'', PStr ''time''),
     (''thingId'', PStr ''urn:clock''), (''servient'', PStr ''clock''), (''value'', PInt 7)])]"

definition demo_doc :: doc where
  "demo_doc = \<lparr>utc_date = 100, property_name = PStr ''time'', thing_id = PStr ''urn:clock'', servient = PStr ''clock'', doc_value = PInt 7\<rparr>"

lemma demo_write_doc: "write_doc fl utcnow demo_write = Inr demo_doc"
  by (simp add: write_doc_def demo_write_def demo_doc_def params_input_def py_or_def py_get_def get_default_def
      dict_index_def dget_Cons)

definition demo_floats :: floats where
  "demo_floats = \<lparr>fl_val = \<lambda>r. if r = ''1000.0'' then 1000 else if r = ''940.0'' then 940 else 950,
     fl_repr = \<lambda>x. if x = 1000 then ''1000.0'' else if x = 940 then ''940.0'' else ''950.0''\<rparr>"


section \<open>Forwarding\<close>

text \<open>The window and the filters of the query that the other historian builds from a request.\<close>

definition downlink_query :: "real \<Rightarrow> real \<Rightarrow> int \<Rightarrow> py \<times> py \<times> py \<Rightarrow> query" where
  "downlink_query off utcnow interval g =
     (let to_unix = naive_timestamp off utcnow
      in \<lparr>q_from = int_trunc (to_unix - of_int interval), q_to = Some (int_trunc to_unix),
          q_property = Some (fst g), q_thing = Some (fst (snd g)), q_servient = Some (snd (snd g))\<rparr>)"

definition named :: "py \<times> py \<times> py \<Rightarrow> bool" where
  "named g = (truthy (fst g) \<and> truthy (fst (snd g)) \<and> truthy (snd (snd g)))"

definition forwarded :: "(real \<Rightarrow> real) \<Rightarrow> real \<Rightarrow> doc \<Rightarrow> doc" where
  "forwarded ms off d = d\<lparr>utc_date := ms (naive_timestamp off (utc_date d))\<rparr>"

lemma write_forwarded:
  assumes "is_float fl (naive_timestamp off (utc_date d))" and "naive_timestamp off (utc_date d) \<noteq> 0" and "item_write_params (doc_item fl off d) = Inr p"
  shows "snd (historian_write fl ms utcnow (Inr ()) p docs) = docs @ [forwarded ms off d]"
proof -
  let ?t = "naive_timestamp off (utc_date d)"
  have "p = [(''input'', PDict [(''unixTime'', PFloat (fl_repr fl ?t)), (''propertyName'', property_name d),
      (''thingId'', thing_id d), (''servient'', servient d), (''value'', doc_value d)])]"
    using assms(3) by (simp add: item_write_params_def doc_item_index)
  moreover have "fl_repr fl ?t \<notin> set zero_floats" "fl_val fl (fl_repr fl ?t) = ?t"
    using assms(1,2) by (simp_all add: is_float_def)
  ultimately have "write_doc fl utcnow p = Inr (d\<lparr>utc_date := ?t\<rparr>)"
    by (simp add: write_doc_def params_input_def py_or_def py_get_def get_default_def dict_index_def dget_Cons)
  then show ?thesis by (simp add: historian_write_def forwarded_def)
qed

definition dated :: "floats \<Rightarrow> real \<Rightarrow> doc \<Rightarrow> bool" where
  "dated fl off d = (is_float fl (naive_timestamp off (utc_date d)) \<and> naive_timestamp off (utc_date d) \<noteq> 0)"

lemma write_all_forwarded:
  assumes "\<forall>n. inserted n = Inr ()"
  shows "\<forall>d\<in>set ds. dated fl off d \<Longrightarrow>
    mapR item_write_params (map (doc_item fl off) ds) = Inr ps \<Longrightarrow>
    write_all fl ms utcnow inserted n ps docs = docs @ map (forwarded ms off) ds"
proof (induction ds arbitrary: ps n docs)
  case Nil
  then show ?case by simp
next
  case (Cons d ds)
  then obtain p ps' where p: "item_write_params (doc_item fl off d) = Inr p"
    "mapR item_write_params (map (doc_item fl off) ds) = Inr ps'" "ps = p # ps'"
    by (auto simp: bindR_eq_Inr)
  have "snd (historian_write fl ms utcnow (inserted n) p docs) = docs @ [forwarded ms off d]"
    using write_forwarded [OF _ _ p(1)] Cons.prems(1) assms by (simp add: dated_def)
  then show ?case using Cons p by simp
qed

lemma write_all_append:
  "(\<forall>n. inserted n = Inr ()) \<Longrightarrow> write_all fl ms utcnow inserted n (ps @ qs) docs =
     write_all fl ms utcnow inserted m qs (write_all fl ms utcnow inserted n ps docs)"
proof (induction ps arbitrary: n docs)
  case Nil
  have "write_all fl ms utcnow inserted n qs docs = write_all fl ms utcnow inserted m qs docs" for docs
    using Nil by (induction qs arbitrary: n m docs) simp_all
  then show ?case by simp
next
  case (Cons p ps)
  then show ?case by simp
qed

lemma item_write_params_total: "\<exists>ps. mapR item_write_params (map (doc_item fl off) ds) = Inr ps"
  by (induction ds) (auto simp: item_write_params_def doc_item_index)

lemma results_forwarded:
  assumes "\<forall>n. inserted n = Inr ()" and "\<forall>ds\<in>set dss. \<forall>d\<in>set ds. dated fl off d"
  shows "\<exists>ps. downlink_writes (map (\<lambda>ds. Inr (PList (map (doc_item fl off) ds))) dss) = Inr ps
    \<and> (\<forall>docs n. write_all fl ms utcnow inserted n ps docs = docs @ map (forwarded ms off) (concat dss))"
  using assms(2)
proof (induction dss)
  case Nil
  then show ?case by (simp add: downlink_writes_def)
next
  case (Cons ds dss)
  then obtain qs where qs: "downlink_writes (map (\<lambda>ds. Inr (PList (map (doc_item fl off) ds))) dss) = Inr qs"
    "\<forall>docs n. write_all fl ms utcnow inserted n qs docs = docs @ map (forwarded ms off) (concat dss)" by auto
  obtain ps where ps: "mapR item_write_params (map (doc_item fl off) ds) = Inr ps"
    using item_write_params_total by blast
  have "downlink_writes (map (\<lambda>ds. Inr (PList (map (doc_item fl off) ds))) (ds # dss)) = Inr (ps @ qs)"
    using qs(1) ps by (auto simp: downlink_writes_def iterate_result_def bindR_eq_Inr)
  moreover have "write_all fl ms utcnow inserted n (ps @ qs) docs = docs @ map (forwarded ms off) (concat (ds # dss))" for docs n
    using write_all_append [OF assms(1), of fl ms utcnow n ps qs docs 0] write_all_forwarded [OF assms(1) _ ps] qs(2) Cons.prems by simp
  ultimately show ?case by blast
qed

lemma downlink_request_query:
  assumes "is_float fl (naive_timestamp off utcnow)" and "naive_timestamp off utcnow \<noteq> 0"
    and "is_float fl (naive_timestamp off utcnow - of_int interval)"
    and "named (prop, thing, serv)" and "buckets \<noteq> 0"
    and "mg_buckets mg (downlink_query off utcnow interval (prop, thing, serv)) buckets docs = Inr ds"
  shows "\<exists>r. downlink_request fl off utcnow interval buckets
      (PDict [(''propertyName'', prop), (''thingId'', thing), (''servient'', serv)]) = Inr r
    \<and> historian_get fl off' mg now [(''input'', r)] docs = Inr (map (doc_item fl off') ds)"
proof -
  let ?to = "naive_timestamp off utcnow"
  let ?r = "PDict [(''toUnix'', PFloat (fl_repr fl ?to)), (''fromUnix'', PFloat (fl_repr fl (?to - of_int interval))),
      (''buckets'', PInt buckets), (''propertyName'', prop), (''thingId'', thing), (''servient'', serv)]"
  have fl: "fl_repr fl ?to \<notin> set zero_floats" "fl_val fl (fl_repr fl ?to) = ?to"
    "fl_val fl (fl_repr fl (?to - of_int interval)) = ?to - of_int interval"
    using assms(1-3) by (simp_all add: is_float_def)
  have "build_query fl now ?r = Inr (downlink_query off utcnow interval (prop, thing, serv))"
    using assms(4) fl by (simp add: build_query_def eq_filter_def py_get_def get_default_def dget_Cons downlink_query_def named_def Let_def)
  moreover have "params_input [(''input'', ?r)] = Inr ?r" by (simp add: params_input_def dict_index_def dget_Cons py_or_def)
  ultimately have "historian_get fl off' mg now [(''input'', ?r)] docs = Inr (map (doc_item fl off') ds)"
    using assms(5,6) by (simp add: historian_get_def get_aggregated_def py_get_def get_default_def dget_Cons py_or_def)
  then show ?thesis by (simp add: downlink_request_def dict_index_def dget_Cons Let_def)
qed

text \<open>
  C30. Forwarding copies the other historian: when its buckets can be computed, an iteration appends, for
  every property that it lists, exactly the documents that its aggregation returns for the last
  interval, with the same property, Thing, servient and value, and the date shifted by the offset of
  its local time.
\<close>

theorem downlink_copies:
  assumes "is_float fl (naive_timestamp off utcnow)" and "is_float fl (naive_timestamp off utcnow - of_int (dl_interval dl))"
    and "mg_groups mg rdocs = Inr gs" and "\<forall>g\<in>set gs. named g"
    and "\<forall>g\<in>set gs. mg_buckets mg (downlink_query off utcnow (dl_interval dl) g) (dl_buckets dl) rdocs = Inr (buckets g)"
    and "naive_timestamp off utcnow \<noteq> 0" and "dl_buckets dl \<noteq> 0"
    and "\<forall>g\<in>set gs. \<forall>d\<in>set (buckets g). dated fl off d"
    and "dl_consumed dl = Inr ()" and "\<forall>n. dl_inserted dl n = Inr ()"
    and "dl_listed dl = bindR (historian_list mg rdocs) (\<lambda>xs. Inr (PList xs))"
    and "\<forall>r. dl_get dl r = bindR (historian_get fl off mg now [(''input'', r)] rdocs) (\<lambda>xs. Inr (PList xs))"
  shows "observe_historian_iter fl ms off utcnow dl docs =
    (Inr (), docs @ map (forwarded ms off) (concat (map buckets gs)))"
proof -
  let ?item = "\<lambda>(prop, thing, serv). PDict [(''propertyName'', prop), (''thingId'', thing), (''servient'', serv)]"
  let ?req = "downlink_request fl off utcnow (dl_interval dl) (dl_buckets dl)"
  have "\<exists>reqs. mapR ?req (map ?item hs) = Inr reqs
      \<and> map (dl_get dl) reqs = map (\<lambda>ds. Inr (PList (map (doc_item fl off) ds))) (map buckets hs)"
    if "set hs \<subseteq> set gs" for hs
    using that
  proof (induction hs)
    case Nil
    then show ?case by simp
  next
    case (Cons h hs)
    obtain pn thing serv where h: "h = (pn, thing, serv)" by (cases h) auto
    have "mg_buckets mg (downlink_query off utcnow (dl_interval dl) (pn, thing, serv)) (dl_buckets dl) rdocs = Inr (buckets h)"
      "named (pn, thing, serv)" using assms(4,5) Cons.prems h by auto
    from downlink_request_query [OF assms(1,6,2) this(2) assms(7) this(1), of off now] Cons h assms(12)
    show ?case by auto
  qed
  from this [of gs] obtain reqs where reqs: "mapR ?req (map ?item gs) = Inr reqs"
    "map (dl_get dl) reqs = map (\<lambda>ds. Inr (PList (map (doc_item fl off) ds))) (map buckets gs)" by blast
  obtain ps where ps: "downlink_writes (map (\<lambda>ds. Inr (PList (map (doc_item fl off) ds))) (map buckets gs)) = Inr ps"
    "\<forall>docs n. write_all fl ms utcnow (dl_inserted dl) n ps docs = docs @ map (forwarded ms off) (concat (map buckets gs))"
    using results_forwarded [OF assms(10), of "map buckets gs" fl off ms utcnow] assms(8) by auto
  show ?thesis
    using reqs ps assms(3,9,11) by (simp add: observe_historian_iter_def historian_list_def del: map_map)
qed

definition demo_downlink :: "doc list \<Rightarrow> downlink" where
  "demo_downlink rdocs = \<lparr>dl_interval = 60, dl_buckets = 1, dl_consumed = Inr (),
     dl_listed = bindR (historian_list demo_mongo rdocs) (\<lambda>xs. Inr (PList xs)),
     dl_get = (\<lambda>r. bindR (historian_get demo_floats 0 demo_mongo 0 [(''input'', r)] rdocs) (\<lambda>xs. Inr (PList xs))),
     dl_inserted = (\<lambda>n. Inr ())\<rparr>"

theorem downlink_copies_witness:
  "observe_historian_iter demo_floats (\<lambda>t. t) 0 1000 (demo_downlink [demo_doc\<lparr>utc_date := 950\<rparr>]) [] =
     (Inr (), [demo_doc\<lparr>utc_date := 950\<rparr>])"
proof -
  let ?d = "demo_doc\<lparr>utc_date := 950\<rparr>"
  let ?g = "(PStr ''time'', PStr ''urn:clock'', PStr ''clock'')"
  have fl: "is_float demo_floats 1000" "is_float demo_floats 940" "is_float demo_floats 950"
    by (simp_all add: is_float_def demo_floats_def zero_floats_def)
  have q: "downlink_query 0 1000 60 ?g = \<lparr>q_from = int_trunc 940, q_to = Some (int_trunc 1000),
      q_property = Some (PStr ''time''), q_thing = Some (PStr ''urn:clock''), q_servient = Some (PStr ''clock'')\<rparr>"
    by (simp add: downlink_query_def naive_timestamp_def)
  have "observe_historian_iter demo_floats (\<lambda>t. t) 0 1000 (demo_downlink [?d]) [] =
      (Inr (), [] @ map (forwarded (\<lambda>t. t) 0) (concat (map (\<lambda>g. [?d]) [?g])))"
  proof (rule downlink_copies [where mg = demo_mongo and rdocs = "[?d]" and now = 0])
    show "\<forall>g\<in>set [?g]. mg_buckets demo_mongo (downlink_query 0 1000 (dl_interval (demo_downlink [?d])) g)
        (dl_buckets (demo_downlink [?d])) [?d] = Inr [?d]"
      by (simp add: q demo_downlink_def demo_mongo_def matches_def opt_eq_def demo_doc_def int_trunc_def)
  qed (use fl in \<open>simp_all add: naive_timestamp_def demo_downlink_def demo_mongo_def named_def dated_def demo_doc_def\<close>)
  then show ?thesis by (simp add: forwarded_def naive_timestamp_def)
qed

text \<open>
  One failing query loses the whole iteration: when the query of any listed property raises, the iteration
  writes nothing, although the exceptions were gathered to be skipped.
\<close>

theorem downlink_all_or_nothing:
  assumes "dl_consumed dl = Inr ()" and "dl_listed dl = Inr props" and "as_list props = Inr items"
    and "mapR (downlink_request fl off utcnow (dl_interval dl) (dl_buckets dl)) items = Inr reqs"
    and "r \<in> set reqs" and "dl_get dl r = Inl e"
  shows "\<exists>e'. observe_historian_iter fl ms off utcnow dl docs = (Inl e', docs)"
proof -
  have "iterate_result (Inl e) = Inl TypeError" by (simp add: iterate_result_def)
  then have "\<forall>pss. mapR iterate_result (map (dl_get dl) reqs) \<noteq> Inr pss"
    using mapR_member [of iterate_result "map (dl_get dl) reqs" _ "Inl e"] assms(5,6) by force
  then obtain e' where "downlink_writes (map (dl_get dl) reqs) = Inl e'"
    by (cases "mapR iterate_result (map (dl_get dl) reqs)") (auto simp: downlink_writes_def)
  then show ?thesis using assms by (simp add: observe_historian_iter_def)
qed

theorem downlink_all_or_nothing_witness:
  "\<exists>e. observe_historian_iter demo_floats (\<lambda>t. t) 0 1000
     (demo_downlink [demo_doc]\<lparr>dl_get := \<lambda>r. Inl TimeoutError\<rparr>) [demo_doc] = (Inl e, [demo_doc])"
proof -
  let ?dl = "demo_downlink [demo_doc]\<lparr>dl_get := \<lambda>r. Inl TimeoutError\<rparr>"
  let ?item = "PDict [(''propertyName'', PStr ''time''), (''thingId'', PStr ''urn:clock''), (''servient'', PStr ''clock'')]"
  have listed: "dl_listed ?dl = Inr (PList [?item])"
    by (simp add: demo_downlink_def historian_list_def demo_mongo_def demo_doc_def)
  obtain r where r: "downlink_request demo_floats 0 1000 60 1 ?item = Inr r"
    by (simp add: downlink_request_def dict_index_def dget_Cons Let_def)
  then have reqs: "mapR (downlink_request demo_floats 0 1000 (dl_interval ?dl) (dl_buckets ?dl)) [?item] = Inr [r]"
    by (simp add: demo_downlink_def)
  show ?thesis
    by (rule downlink_all_or_nothing [OF _ listed _ reqs, of r TimeoutError]) (simp_all add: demo_downlink_def)
qed

section \<open>The windows of the iterations\<close>

definition in_window :: "query \<Rightarrow> real \<Rightarrow> bool" where
  "in_window q d = (of_int (q_from q) \<le> d \<and> (case q_to q of None \<Rightarrow> True | Some t \<Rightarrow> d < of_int t))"

lemma downlink_times_from: "t \<in> set (downlink_times i n ts) \<Longrightarrow> 0 \<le> i \<Longrightarrow> n \<le> t"
  by (induction i n ts rule: downlink_times.induct) (fastforce split: if_splits)+

lemma downlink_times_apart: "0 \<le> i \<Longrightarrow> sorted_wrt (\<lambda>a b. a + of_int i \<le> b) (downlink_times i n ts)"
  by (induction i n ts rule: downlink_times.induct) (auto dest: downlink_times_from)

lemma window_trunc:
  "in_window (downlink_query off t i g) d \<longleftrightarrow>
     of_int (int_trunc (t - off - of_int i)) \<le> d \<and> d < of_int (int_trunc (t - off))"
  by (simp add: in_window_def downlink_query_def naive_timestamp_def Let_def)

lemma windows_apart:
  assumes "a + of_int i \<le> b"
  shows "int_trunc (a - off) \<le> int_trunc (b - off - of_int i)"
  using assms by (intro int_trunc_mono) simp

text \<open>
  A value is forwarded at most once: whatever the times at which the task looks at the clock, the windows
  of its iterations do not overlap, so that a date is in the window of at most one of them.
\<close>

theorem downlink_windows_disjoint:
  assumes "0 \<le> interval"
  shows "sorted_wrt (\<lambda>q q'. \<not> (\<exists>d. in_window q d \<and> in_window q' d))
    (map (\<lambda>t. downlink_query off t interval g) (downlink_times interval next_time nows))"
  unfolding sorted_wrt_map
proof (rule sorted_wrt_mono_rel [OF _ downlink_times_apart [OF assms]])
  fix a b :: real assume "a + of_int interval \<le> b"
  from windows_apart [OF this, of off]
  have "(of_int (int_trunc (a - off)) :: real) \<le> of_int (int_trunc (b - off - of_int interval))" by simp
  then show "\<not> (\<exists>d. in_window (downlink_query off a interval g) d \<and> in_window (downlink_query off b interval g) d)"
    unfolding window_trunc by (meson le_less_trans not_less order_less_le_trans)
qed

theorem downlink_windows_disjoint_witness:
  "downlink_times 60 60 [59, 60, 61, 121] = [60, 121]
   \<and> sorted_wrt (\<lambda>q q'. \<not> (\<exists>d. in_window q d \<and> in_window q' d))
       (map (\<lambda>t. downlink_query 0 t 60 (PNone, PNone, PNone)) (downlink_times 60 60 [59, 60, 61, 121]))"
  using downlink_windows_disjoint [of 60 0 "(PNone, PNone, PNone)" 60 "[59, 60, 61, 121]"] by simp

text \<open>
  A late iteration loses values: when an iteration starts a second or more after the interval is over,
  there are dates before its window and after the previous one, and no iteration ever asks for them.
\<close>

theorem downlink_gap_lost:
  assumes "0 \<le> interval" and "downlink_times interval next_time nows = as @ a # b # bs"
    and "0 \<le> a - off" and "a + of_int interval + 1 \<le> b"
  shows "\<exists>d. a - off - 1 < d \<and> d < b - off - of_int interval
    \<and> (\<forall>t\<in>set (downlink_times interval next_time nows). \<not> in_window (downlink_query off t interval g) d)"
proof -
  let ?d = "of_int (int_trunc (a - off)) :: real"
  have d: "a - off - 1 < ?d" "?d \<le> a - off" using int_trunc_gt [of "a - off"] int_trunc_le [of "a - off"] assms(3) by linarith+
  have apart: "sorted_wrt (\<lambda>a b. a + of_int interval \<le> b) (as @ a # b # bs)"
    using downlink_times_apart [OF assms(1), of next_time nows] assms(2) by simp
  have before: "t \<le> a" if "t \<in> set as" for t
    using apart that assms(1) by (fastforce simp: sorted_wrt_append)
  have after: "b \<le> t" if "t \<in> set (b # bs)" for t
    using apart that assms(1) by (fastforce simp: sorted_wrt_append)
  have "int_trunc (a - off + 1) \<le> int_trunc (b - off - of_int interval)"
    by (rule int_trunc_mono) (use assms(4) in simp)
  then have less: "int_trunc (a - off) < int_trunc (b - off - of_int interval)"
    using assms(3) by (simp add: int_trunc_def)
  have late: "\<not> in_window (downlink_query off t interval g) ?d" if "b \<le> t" for t
  proof -
    have "int_trunc (b - off - of_int interval) \<le> int_trunc (t - off - of_int interval)"
      by (rule int_trunc_mono) (use that in simp)
    with less show ?thesis unfolding window_trunc of_int_le_iff of_int_less_iff by linarith
  qed
  have early: "\<not> in_window (downlink_query off t interval g) ?d" if "t \<le> a" for t
  proof -
    have "int_trunc (t - off) \<le> int_trunc (a - off)" by (rule int_trunc_mono) (use that in simp)
    then show ?thesis unfolding window_trunc of_int_le_iff of_int_less_iff by linarith
  qed
  have "\<not> in_window (downlink_query off t interval g) ?d" if "t \<in> set (downlink_times interval next_time nows)" for t
    using that assms(2) before early after late by (metis Un_iff insert_iff list.set(2) order_refl set_append)
  then show ?thesis using d assms(4) by (intro exI [of _ ?d]) auto
qed

theorem downlink_gap_lost_witness:
  "\<exists>d. 119 < d \<and> d < 125 \<and> (\<forall>t\<in>set (downlink_times 60 60 [60, 120, 185]).
     \<not> in_window (downlink_query 0 t 60 (PNone, PNone, PNone)) d)"
  using downlink_gap_lost [of 60 60 "[60, 120, 185]" "[60]" 120 185 "[]" 0 "(PNone, PNone, PNone)"] by simp

end
