(* ===== verification/Camera.thy ===== *)
theory Camera
  imports PyNumbers "HOL-Library.Word"
begin

text \<open>
  \<^verbatim>\<open>wotemu/apps/camera.py\<close>: the mock camera, which plays a video in a loop, looks for motion between
  its last frames and emits the frames with motion. A grey frame is the list of its pixels, unsigned
  bytes as OpenCV gives them; the differences of numpy are taken on these bytes and wrap around. Means
  are exact real numbers, the \<open>nan\<close> of an empty mean is \<open>None\<close>. Reading, grey conversion and JPEG
  encoding are OpenCV's and are parameters.
\<close>

type_synonym grey = "8 word list"

definition motion_threshold :: real where
  "motion_threshold = 25"

definition target_fps :: nat where
  "target_fps = 12"

section \<open>Playing the video\<close>

text \<open>
  \<open>cp_pos\<close> is the position of the capture in the video \<open>frames\<close>, \<open>cp_counter\<close> the counter of the
  generator, \<open>reported\<close> the number of frames that the capture reports.
\<close>

record playback =
  cp_pos :: nat
  cp_counter :: nat

definition next_frame :: "nat \<Rightarrow> 'f list \<Rightarrow> (playback, 'f) prog" where
  "next_frame reported frames s =
     (if length frames \<le> cp_pos s
      then (Inl (RuntimeError ''Error reading video frame''), s\<lparr>cp_counter := cp_counter s + 1\<rparr>)
      else let s1 = \<lparr>cp_pos = cp_pos s + 1, cp_counter = cp_counter s + 1\<rparr>
           in (Inr (frames ! cp_pos s),
               if cp_counter s1 = reported then \<lparr>cp_pos = 0, cp_counter = 0\<rparr> else s1))"

fun play :: "nat \<Rightarrow> 'f list \<Rightarrow> nat \<Rightarrow> (playback, 'f list) prog" where
  "play reported frames 0 = retP []"
| "play reported frames (Suc n) = bindP (next_frame reported frames) (\<lambda>f. bindP (play reported frames n) (\<lambda>fs. retP (f # fs)))"

section \<open>Motion\<close>

fun frame_diffs :: "grey list \<Rightarrow> grey list" where
  "frame_diffs (f # g # fs) = map2 (\<lambda>a b. b - a) f g # frame_diffs (g # fs)"
| "frame_diffs fs = []"

definition mean_of :: "real list \<Rightarrow> real option" where
  "mean_of xs = (if xs = [] then None else Some (sum_list xs / real (length xs)))"

fun all_means :: "grey list \<Rightarrow> real list option" where
  "all_means [] = Some []"
| "all_means (row # rows) =
     (case (mean_of (map (\<lambda>p. real (unat p)) row), all_means rows) of
        (Some m, Some ms) \<Rightarrow> Some (\<bar>m\<bar> # ms) | _ \<Rightarrow> None)"

definition get_motion_score :: "grey list \<Rightarrow> real option" where
  "get_motion_score frames =
     (case all_means (frame_diffs frames) of None \<Rightarrow> None | Some ms \<Rightarrow> mean_of ms)"

definition has_motion :: "real option \<Rightarrow> bool" where
  "has_motion score = (case score of None \<Rightarrow> False | Some x \<Rightarrow> motion_threshold < x)"

text \<open>The buffer of the last frames, a deque of bounded length.\<close>

definition buffer_push :: "nat \<Rightarrow> 'f list \<Rightarrow> 'f \<Rightarrow> 'f list" where
  "buffer_push n buf f = drop (Suc (length buf) - n) (buf @ [f])"

fun video_motion :: "('f \<Rightarrow> grey) \<Rightarrow> 'f list \<Rightarrow> 'f list \<Rightarrow> ('f \<times> bool) list" where
  "video_motion to_grey buf [] = []"
| "video_motion to_grey buf (f # fs) =
     (let buf' = buffer_push target_fps buf f
      in (f, has_motion (get_motion_score (map to_grey buf'))) # video_motion to_grey buf' fs)"

text \<open>The events: \<open>encode f\<close> is the JPEG of the frame, \<open>now\<close> the clock when event \<open>i\<close> is emitted.\<close>

fun frame_emitter :: "('f \<Rightarrow> string res) \<Rightarrow> (nat \<Rightarrow> real) \<Rightarrow> ('f \<times> bool) list \<Rightarrow> ((real \<times> string) list, unit) prog" where
  "frame_emitter encode now [] events = (Inr (), events)"
| "frame_emitter encode now ((f, motion) # fs) events =
     (if motion
      then (case encode f of
              Inl e \<Rightarrow> (Inl e, events)
            | Inr jpg \<Rightarrow> frame_emitter encode now fs (events @ [(now (length events), jpg)]))
      else frame_emitter encode now fs events)"

section \<open>The action\<close>

text \<open>
  \<open>_control_ptz\<close>: the input comes back, with the latency when it names a capture time; \<open>metric\<close> is the
  outcome of writing the metric. The sleep that simulates the movement is left out.
\<close>

definition control_ptz :: "floats \<Rightarrow> (string \<Rightarrow> real option) \<Rightarrow> real \<Rightarrow> unit res \<Rightarrow> py dict \<Rightarrow> (py list, py) prog" where
  "control_ptz fl parse_float now metric params metrics =
     (case bindR (dict_index params ''input'') (\<lambda>v. as_dict (py_or v (PDict []))) of
        Inl e \<Rightarrow> (Inl e, metrics)
      | Inr d \<Rightarrow>
          if truthy (get_default d ''time_capture'' PNone)
          then (case py_to_float fl parse_float (get_default d ''time_capture'' PNone) of
                  Inl e \<Rightarrow> (Inl e, metrics)
                | Inr t \<Rightarrow>
                    (let d' = dset d ''latency_ptz'' (PFloat (fl_repr fl (now - t)))
                     in case metric of Inl e \<Rightarrow> (Inl e, metrics) | Inr _ \<Rightarrow> (Inr (PDict d'), metrics @ [PDict d'])))
          else (Inr (PDict d), metrics))"

section \<open>The video never ends\<close>

lemma next_frame_loop:
  assumes "cp_pos s = cp_counter s" and "cp_pos s < length frames"
  shows "next_frame (length frames) frames s =
    (Inr (frames ! cp_pos s), \<lparr>cp_pos = Suc (cp_pos s) mod length frames, cp_counter = Suc (cp_pos s) mod length frames\<rparr>)"
proof (cases "Suc (cp_pos s) = length frames")
  case True
  then show ?thesis using assms by (simp add: next_frame_def)
next
  case False
  then have "Suc (cp_pos s) < length frames" using assms(2) by simp
  then show ?thesis using assms False by (simp add: next_frame_def)
qed

text \<open>
  The camera plays its video for ever: when the capture reports the true number of frames, the \<open>i\<close>-th
  frame ever played is frame \<open>i\<close> modulo that number, and reading never fails.
\<close>

theorem camera_loops:
  assumes "frames \<noteq> []"
  shows "fst (play (length frames) frames n \<lparr>cp_pos = 0, cp_counter = 0\<rparr>) = Inr (map (\<lambda>i. frames ! (i mod length frames)) [0..<n])"
proof -
  have "play (length frames) frames n \<lparr>cp_pos = k mod length frames, cp_counter = k mod length frames\<rparr> =
      (Inr (map (\<lambda>i. frames ! (i mod length frames)) [k..<k + n]),
       \<lparr>cp_pos = (k + n) mod length frames, cp_counter = (k + n) mod length frames\<rparr>)" for k
  proof (induction n arbitrary: k)
    case 0
    then show ?case by simp
  next
    case (Suc n)
    have "next_frame (length frames) frames \<lparr>cp_pos = k mod length frames, cp_counter = k mod length frames\<rparr> =
        (Inr (frames ! (k mod length frames)), \<lparr>cp_pos = Suc k mod length frames, cp_counter = Suc k mod length frames\<rparr>)"
      using assms by (simp add: next_frame_loop mod_Suc_eq)
    moreover have "[k..<k + Suc n] = k # [Suc k..<Suc k + n]" by (simp add: upt_rec)
    ultimately show ?case using Suc.IH [of "Suc k"] by (simp add: bindP_def)
  qed
  from this [of 0] show ?thesis by simp
qed

theorem camera_loops_witness:
  "fst (play 2 [''a'', ''b''] 5 \<lparr>cp_pos = 0, cp_counter = 0\<rparr>) = Inr [''a'', ''b'', ''a'', ''b'', ''a'']"
proof -
  have "map (\<lambda>i. [''a'', ''b''] ! (i mod length [''a'', ''b''])) [0..<5] = [''a'', ''b'', ''a'', ''b'', ''a'']" by code_simp
  then show ?thesis using camera_loops [of "[''a'', ''b'']" 5] by (simp add: numeral_2_eq_2)
qed

section \<open>The wrap-around of the differences\<close>

lemma map2_shift: "map2 (\<lambda>a b. b - a) f (map (\<lambda>p. p + c) f) = replicate (length f) c"
  for c :: "8 word"
  by (induction f) simp_all

lemma mean_replicate: "0 < n \<Longrightarrow> mean_of (replicate n x) = Some x"
  by (simp add: mean_of_def sum_list_replicate)

lemma score_of_shift:
  assumes "f \<noteq> []"
  shows "get_motion_score [f, map (\<lambda>p. p + c) f] = Some (real (unat c))"
proof -
  have n: "0 < length f" using assms by simp
  have "\<bar>real (unat c)\<bar> = real (unat c)" by (rule abs_of_nonneg) (rule of_nat_0_le_iff)
  then have "all_means [replicate (length f) c] = Some [real (unat c)]"
    using mean_replicate [OF n, of "real (unat c)"] by (simp only: all_means.simps map_replicate option.simps prod.simps)
  then have "all_means (frame_diffs [f, map (\<lambda>p. p + c) f]) = Some [real (unat c)]"
    by (simp only: frame_diffs.simps map2_shift)
  then show ?thesis by (simp add: get_motion_score_def mean_of_def)
qed

text \<open>
  C33. The motion score takes a darker picture for the strongest motion: when every pixel rises by \<open>c\<close> the score
  is \<open>c\<close>, but when every pixel falls by \<open>c\<close> it is \<open>256 - c\<close>, because the differences are unsigned bytes; so
  a picture that gets darker by a single grey level scores 255 and counts as motion, while one that gets
  brighter by 25 levels does not.
\<close>

theorem motion_score_wraps:
  assumes "f \<noteq> []" and "0 < c" and "c < 256"
  shows "get_motion_score [f, map (\<lambda>p. p + of_nat c) f] = Some (real c)
    \<and> get_motion_score [f, map (\<lambda>p. p - of_nat c) f] = Some (256 - real c)
    \<and> (has_motion (get_motion_score [f, map (\<lambda>p. p + of_nat c) f]) \<longleftrightarrow> 25 < c)
    \<and> (has_motion (get_motion_score [f, map (\<lambda>p. p - of_nat c) f]) \<longleftrightarrow> c < 231)"
proof -
  have up: "unat (of_nat c :: 8 word) = c" using assms(3) by (simp add: unat_of_nat)
  have "unat (- (of_nat c) :: 8 word) = 256 - c"
  proof -
    have "(- (of_nat c) :: 8 word) = of_nat (256 - c)" using assms(3) by (simp add: of_nat_diff)
    then show ?thesis using assms(2) by (simp add: unat_of_nat)
  qed
  then have "get_motion_score [f, map (\<lambda>p. p + - of_nat c) f] = Some (real (256 - c))"
    using score_of_shift [OF assms(1), of "- of_nat c"] by simp
  moreover have "get_motion_score [f, map (\<lambda>p. p + of_nat c) f] = Some (real c)"
    using score_of_shift [OF assms(1), of "of_nat c"] up by simp
  ultimately show ?thesis using assms(3) by (auto simp: has_motion_def motion_threshold_def of_nat_diff)
qed

theorem motion_score_wraps_witness:
  "get_motion_score [[100, 7], [99, 6]] = Some 255 \<and> has_motion (get_motion_score [[100, 7], [99, 6]])"
  using motion_score_wraps [of "[100, 7]" 1] by (simp add: has_motion_def motion_threshold_def)

text \<open>The score is never out of the range of a byte, and a still picture has score 0.\<close>

lemma still_picture: "f \<noteq> [] \<Longrightarrow> get_motion_score [f, f] = Some 0"
  using score_of_shift [of f 0] by simp

lemma first_frame_no_motion: "\<not> has_motion (get_motion_score [f])"
  by (simp add: get_motion_score_def mean_of_def has_motion_def)

lemma buffer_push_length: "length buf \<le> n \<Longrightarrow> length (buffer_push n buf f) \<le> n"
  by (simp add: buffer_push_def)

end
