(* ===== verification/SmallApps.thy ===== *)
theory SmallApps
  imports DockerUtils PyNumbers
begin

text \<open>
  The small applications: \<^verbatim>\<open>wotemu/apps/caller.py\<close>, \<^verbatim>\<open>reader.py\<close>, \<^verbatim>\<open>subscriber.py\<close>, \<^verbatim>\<open>clock.py\<close>,
  \<^verbatim>\<open>worker.py\<close> and \<^verbatim>\<open>error.py\<close>. The WoT client is a parameter; an endless loop is a list of rounds,
  at the end of which the application is cancelled.
\<close>

section \<open>The caller\<close>

text \<open>The parameters are JSON text, or kept as they are; a false value becomes the empty dictionary.\<close>

definition caller_params :: "(string \<Rightarrow> string) \<Rightarrow> py \<Rightarrow> py" where
  "caller_params canon v =
     py_or (case v of PStr s \<Rightarrow> (case json_loads canon s of Some x \<Rightarrow> x | None \<Rightarrow> v) | _ \<Rightarrow> v) (PDict [])"

text \<open>
  \<open>_invoke\<close>: \<open>act name v\<close> is the outcome of invoking the action; the state is the list of the
  invocations. The test of the name is outside the \<open>try\<close>.
\<close>

definition invoke_action :: "(string \<Rightarrow> py \<Rightarrow> unit res) \<Rightarrow> py \<Rightarrow> string \<Rightarrow> ((string \<times> py) list, unit) prog" where
  "invoke_action act params name calls =
     (case bindR (py_contains name params) (\<lambda>there.
             if there then bindR (py_index params name) (\<lambda>v. Inr (\<not> truthy v)) else Inr False) of
        Inl e \<Rightarrow> (Inl e, calls)
      | Inr skip \<Rightarrow>
          if skip then (Inr (), calls)
          else (case py_get params name PNone of
                  Inl e \<Rightarrow> if is_Exception e then (Inr (), calls) else (Inl e, calls)
                | Inr v \<Rightarrow>
                    (case act name v of
                       Inl e \<Rightarrow> if is_Exception e then (Inr (), calls @ [(name, v)]) else (Inl e, calls @ [(name, v)])
                     | Inr _ \<Rightarrow> (Inr (), calls @ [(name, v)]))))"

fun invoke_all :: "(string \<Rightarrow> py \<Rightarrow> unit res) \<Rightarrow> py \<Rightarrow> string list \<Rightarrow> ((string \<times> py) list, unit) prog" where
  "invoke_all act params [] calls = (Inr (), calls)"
| "invoke_all act params (n # ns) calls =
     (case invoke_action act params n calls of
        (Inl e, calls') \<Rightarrow> (Inl e, calls')
      | (Inr _, calls') \<Rightarrow> invoke_all act params ns calls')"

section \<open>The reader\<close>

fun read_properties :: "(string \<Rightarrow> py res) \<Rightarrow> string list \<Rightarrow> (string list, unit) prog" where
  "read_properties read [] done = (Inr (), done)"
| "read_properties read (n # ns) done =
     (case read n of
        Inl e \<Rightarrow> if is_Exception e then read_properties read ns (done @ [n]) else (Inl e, done @ [n])
      | Inr _ \<Rightarrow> read_properties read ns (done @ [n]))"

section \<open>The subscriber\<close>

text \<open>
  \<open>_consume_and_subscribe\<close>: the observable properties, then the events, each with the outcome of
  subscribing to it. What was subscribed to before an exception stays live.
\<close>

fun subscribe_all :: "('i \<Rightarrow> 's res) \<Rightarrow> 'i list \<Rightarrow> 's list \<Rightarrow> ('s list, 's list) prog" where
  "subscribe_all sub [] subs live = (Inr subs, live)"
| "subscribe_all sub (i # is) subs live =
     (case sub i of Inl e \<Rightarrow> (Inl e, live) | Inr s \<Rightarrow> subscribe_all sub is (subs @ [s]) (live @ [s]))"

definition consume_and_subscribe ::
  "unit res \<Rightarrow> ('i \<times> bool) list \<Rightarrow> 'i list \<Rightarrow> ('i \<Rightarrow> 's res) \<Rightarrow> ('s list, 's list) prog" where
  "consume_and_subscribe consumed properties events sub live =
     (case consumed of
        Inl e \<Rightarrow> (Inl e, live)
      | Inr _ \<Rightarrow> subscribe_all sub (map fst (filter snd properties) @ events) [] live)"

text \<open>\<open>_cancel_subs\<close>, awaited: a subscription whose disposal fails stays live.\<close>

fun cancel_subs :: "('s \<Rightarrow> unit res) \<Rightarrow> 's list \<Rightarrow> ('s list, unit) prog" where
  "cancel_subs dispose [] live = (Inr (), live)"
| "cancel_subs dispose (s # ss) live =
     (case dispose s of
        Inl e \<Rightarrow> if is_Exception e then cancel_subs dispose ss live else (Inl e, live)
      | Inr _ \<Rightarrow> cancel_subs dispose ss (remove1 s live))"

text \<open>
  \<open>app\<close>: each round subscribes and waits for an error event; the call of \<open>_cancel_subs\<close> that follows
  is not awaited. At the end of the list the application is cancelled while it waits. \<open>round i\<close> is
  the \<open>i\<close>-th \<open>_consume_and_subscribe\<close>.
\<close>

fun subscriber_app ::
  "('s \<Rightarrow> unit res) \<Rightarrow> ('s list, 's list) prog list \<Rightarrow> 's list option \<Rightarrow> ('s list, unit) prog" where
  "subscriber_app dispose [] subs live =
     (case subs of None \<Rightarrow> (Inl UnboundLocalError, live) | Some ss \<Rightarrow> cancel_subs dispose ss live)"
| "subscriber_app dispose (r # rs) subs live =
     (case r live of
        (Inl e, live') \<Rightarrow>
          if e = CancelledError
          then (case subs of None \<Rightarrow> (Inl UnboundLocalError, live') | Some ss \<Rightarrow> cancel_subs dispose ss live')
          else (Inl e, live')
      | (Inr ss, live') \<Rightarrow> subscriber_app dispose rs (Some ss) live')"

section \<open>The clock\<close>

text \<open>\<open>time_millis\<close> of the clock, the pause after an emission, and the emissions of one task: a list of the
  outcomes of the emission and of the sleep of each round, then those of the last one.\<close>

definition time_millis :: "real \<Rightarrow> int" where
  "time_millis now = int_trunc (now * 1000)"

definition emit_sleep :: "real \<Rightarrow> real \<Rightarrow> real \<Rightarrow> real" where
  "emit_sleep interval started ended = max 0 (started + interval - ended)"

fun emitter :: "(unit res \<times> unit res) list \<Rightarrow> unit res \<Rightarrow> (nat, unit) prog" where
  "emitter [] final n = (final, Suc n)"
| "emitter ((emit, sleep) # rounds) final n =
     (case emit of
        Inl e \<Rightarrow> if e = CancelledError then (final, Suc (Suc n)) else (Inl e, Suc n)
      | Inr _ \<Rightarrow>
          (case sleep of
             Inl e \<Rightarrow> if e = CancelledError then (final, Suc (Suc n)) else (Inl e, Suc n)
           | Inr _ \<Rightarrow> emitter rounds final (Suc n)))"

section \<open>The worker and the error application\<close>

definition worker_float :: "floats \<Rightarrow> (string \<Rightarrow> real option) \<Rightarrow> py \<Rightarrow> string \<Rightarrow> string \<Rightarrow> real res" where
  "worker_float fl parse_float inp k dflt =
     bindR (py_get inp k (PFloat dflt)) (py_to_float fl parse_float)"

text \<open>What the action returns; the loop that burns CPU time between is left out.\<close>

definition worker_action :: "floats \<Rightarrow> (string \<Rightarrow> real option) \<Rightarrow> real \<Rightarrow> py \<Rightarrow> py res" where
  "worker_action fl parse_float now params =
     bindR (py_get (py_or params (PDict [])) ''input'' (PDict [])) (\<lambda>i.
     let inp = py_or i (PDict []) in
     bindR (worker_float fl parse_float inp ''step'' ''0.5'') (\<lambda>_.
     bindR (worker_float fl parse_float inp ''total'' ''3.0'') (\<lambda>_.
     bindR (worker_float fl parse_float inp ''sleep'' ''0.1'') (\<lambda>_.
     bindR (py_get inp ''return'' (PFloat (fl_repr fl now))) (\<lambda>ret. Inr (PDict [(''ret'', ret)]))))))"

definition error_app :: "floats \<Rightarrow> (string \<Rightarrow> real option) \<Rightarrow> py \<Rightarrow> (real \<Rightarrow> unit res) \<Rightarrow> string \<Rightarrow> unit res" where
  "error_app fl parse_float mean_time sleep now =
     bindR (py_to_float fl parse_float mean_time) (\<lambda>m.
       if m = 0 then Inl ZeroDivisionError
       else bindR (sleep (1 / m)) (\<lambda>_. Inl (GenericException (''Error raised at '' @ now @ '' UTC''))))"

section \<open>What the caller calls\<close>

definition called :: "py dict \<Rightarrow> string \<Rightarrow> bool" where
  "called d name = (case dget d name of None \<Rightarrow> True | Some v \<Rightarrow> truthy v)"

lemma invoke_action_dict:
  "invoke_action act (PDict d) name calls =
     (if called d name
      then (case act name (get_default d name PNone) of
              Inl e \<Rightarrow> if is_Exception e then (Inr (), calls @ [(name, get_default d name PNone)])
                       else (Inl e, calls @ [(name, get_default d name PNone)])
            | Inr _ \<Rightarrow> (Inr (), calls @ [(name, get_default d name PNone)]))
      else (Inr (), calls))"
proof (cases "dget d name")
  case None
  then have "name \<notin> set (dkeys d)" using od.keys_lookup [of name d] by simp
  then show ?thesis using None
    by (simp add: invoke_action_def called_def py_get_def get_default_def split: sum.split)
next
  case (Some v)
  then have "name \<in> set (dkeys d)" using od.keys_lookup [of name d] by simp
  then show ?thesis using Some
    by (simp add: invoke_action_def called_def py_get_def get_default_def dict_index_def split: sum.split)
qed

text \<open>
  A round of the caller invokes, in the order of the Thing's actions and each once, exactly the actions
  that the parameters do not switch off by a false value, with their parameters (or none); failing
  invocations do not keep the others from being made, only a cancellation does.
\<close>

theorem caller_round:
  assumes "\<forall>name v e. act name v = Inl e \<longrightarrow> is_Exception e"
  shows "invoke_all act (PDict d) names calls =
    (Inr (), calls @ map (\<lambda>n. (n, get_default d n PNone)) (filter (called d) names))"
  using assms
  by (induction names arbitrary: calls) (auto simp: invoke_action_dict split: sum.splits)

theorem caller_round_witness:
  "invoke_all (\<lambda>n v. if n = ''b'' then Inl TimeoutError else Inr ()) (PDict [(''a'', PBool False), (''b'', PInt 1)])
     [''a'', ''b'', ''c''] [] = (Inr (), [(''b'', PInt 1), (''c'', PNone)])"
proof -
  have "\<forall>name v e. (if name = ''b'' then Inl TimeoutError else Inr ()) = Inl e \<longrightarrow> is_Exception e"
    by (auto simp: is_Exception_def)
  from caller_round [OF this, of "[(''a'', PBool False), (''b'', PInt 1)]" "[''a'', ''b'', ''c'']" "[]"]
  show ?thesis by (simp add: called_def get_default_def dget_Cons)
qed

section \<open>What the subscriber leaves\<close>

lemma subscribe_all_ok: "(\<And>i. sub i = Inr (f i)) \<Longrightarrow> subscribe_all sub is subs live = (Inr (subs @ map f is), live @ map f is)"
  by (induction "is" arbitrary: subs live) simp_all

lemma subscribe_all_named:
  "subscribe_all (\<lambda>i. Inr (k, i)) is subs live = (Inr (subs @ map (Pair k) is), live @ map (Pair k) is)"
  by (rule subscribe_all_ok) simp

lemma cancel_subs_all:
  "(\<And>s. dispose s = Inr ()) \<Longrightarrow> set ss \<inter> set live = {} \<Longrightarrow> cancel_subs dispose ss (live @ ss) = (Inr (), live)"
proof (induction ss)
  case Nil
  then show ?case by simp
next
  case (Cons s ss)
  then have "remove1 s (live @ s # ss) = live @ ss" by (simp add: remove1_append)
  with Cons show ?case by simp
qed

lemma subscriber_rounds_live:
  "(\<And>ss live. r ss live = (Inr ss, live @ ss)) \<Longrightarrow>
   subscriber_app dispose (map r rs @ [r ss]) subs live = cancel_subs dispose ss (live @ concat rs @ ss)"
  by (induction rs arbitrary: subs live) simp_all

text \<open>
  Only the subscriptions of the last round are disposed of: a subscriber that is cancelled after \<open>n\<close> error
  events leaves the subscriptions of all earlier rounds live (a subscription is named by its round and
  its interaction); cancelled before its first subscription, it raises instead of ending.
\<close>

theorem subscriber_leaves:
  assumes "\<forall>s. dispose s = Inr ()"
  shows "subscriber_app dispose
      (map (\<lambda>k. consume_and_subscribe (Inr ()) properties events (\<lambda>i. Inr (k :: nat, i))) [0..<Suc n]) None [] =
    (Inr (), concat (map (\<lambda>k. map (Pair k) (map fst (filter snd properties) @ events)) [0..<n]))
   \<and> subscriber_app dispose [\<lambda>live. (Inl CancelledError, live)] None [] = (Inl UnboundLocalError, [])"
proof -
  define items where "items = map fst (filter snd properties) @ events"
  let ?subs = "\<lambda>k :: nat. map (Pair k) items" and ?r = "\<lambda>ss live. (Inr ss, live @ ss)"
  have r: "consume_and_subscribe (Inr ()) properties events (\<lambda>i. Inr (k :: nat, i)) = ?r (?subs k)" for k
    by (intro ext) (simp add: consume_and_subscribe_def subscribe_all_named items_def)
  have "subscriber_app dispose
      (map (\<lambda>k. consume_and_subscribe (Inr ()) properties events (\<lambda>i. Inr (k, i))) [0..<Suc n]) None []
    = cancel_subs dispose (?subs n) (concat (map ?subs [0..<n]) @ ?subs n)"
    using subscriber_rounds_live [of ?r dispose "map ?subs [0..<n]" "?subs n" None "[]"]
    by (simp add: r comp_def)
  also have "\<dots> = (Inr (), concat (map ?subs [0..<n]))"
    by (rule cancel_subs_all) (use assms in auto)
  finally show ?thesis by (simp add: items_def)
qed

theorem subscriber_leaves_witness:
  "subscriber_app (\<lambda>s. Inr ())
      (map (\<lambda>k. consume_and_subscribe (Inr ()) [(''time'', True), (''zone'', False)] [''tick''] (\<lambda>i. Inr (k :: nat, i))) [0..<2]) None [] =
    (Inr (), [(0, ''time''), (0, ''tick'')])"
  using subscriber_leaves [of "\<lambda>s. Inr ()" "[(''time'', True), (''zone'', False)]" "[''tick'']" 1] by (simp add: numeral_2_eq_2)

section \<open>The emissions of the clock\<close>

text \<open>
  A task of the clock emits once in every round and once more when it is cancelled, and an emission
  starts at least an interval after the one before.
\<close>

lemma emitter_count:
  "\<forall>r\<in>set rounds. r = (Inr (), Inr ()) \<Longrightarrow> emitter rounds final n = (final, n + length rounds + 1)"
  by (induction rounds arbitrary: n) auto

lemma emit_spacing: "started + interval \<le> ended + emit_sleep interval started ended"
  by (simp add: emit_sleep_def)

end
