(* ===== verification/RedisStore.thy ===== *)
theory RedisStore
  imports Prelude Complex_Main "HOL-Library.Multiset"
begin

text \<open>
  What the program relies on of Redis: sorted sets, whose members are unique and come out in the order
  of their scores, and the search of keys by a pattern. The interface is a locale; the map of lists
  below provides it, so that it is not empty. Of the patterns only \<open>*\<close> is modelled, the only special
  character in those of the program (names of containers have none).
\<close>

section \<open>Patterns of keys\<close>

fun glob :: "string \<Rightarrow> string \<Rightarrow> bool" where
  "glob [] [] = True"
| "glob [] (x # xs) = False"
| "glob (c # p) [] = (c = CHR ''*'' \<and> glob p [])"
| "glob (c # p) (x # xs) =
     (if c = CHR ''*'' then glob p (x # xs) \<or> glob (c # p) xs else c = x \<and> glob p xs)"

lemma glob_literal: "CHR ''*'' \<notin> set p \<Longrightarrow> glob p k \<longleftrightarrow> k = p"
  by (induction p k rule: glob.induct) auto

lemma glob_literal_append: "CHR ''*'' \<notin> set p \<Longrightarrow> glob (p @ q) k \<longleftrightarrow> (\<exists>r. k = p @ r \<and> glob q r)"
proof (induction p arbitrary: k)
  case Nil
  then show ?case by simp
next
  case (Cons c p)
  then show ?case by (cases k) auto
qed

lemma glob_star: "glob (CHR ''*'' # q) k \<longleftrightarrow> (\<exists>m r. k = m @ r \<and> glob q r)"
proof (induction k)
  case Nil
  then show ?case by auto
next
  case (Cons x xs)
  have "(\<exists>m r. x # xs = m @ r \<and> glob q r) \<longleftrightarrow> glob q (x # xs) \<or> (\<exists>m r. xs = m @ r \<and> glob q r)"
    by (metis append_Cons append_Nil neq_Nil_conv list.inject)
  with Cons show ?case by simp
qed

lemma glob_suffix_star: "CHR ''*'' \<notin> set p \<Longrightarrow> glob (p @ ''*'') k \<longleftrightarrow> (\<exists>r. k = p @ r)"
  by (simp add: glob_literal_append glob_star) (metis append_Nil2 glob.simps(1) glob_literal list.set(1) empty_iff)

lemma glob_infix_star:
  "CHR ''*'' \<notin> set p \<Longrightarrow> CHR ''*'' \<notin> set q \<Longrightarrow> glob (p @ ''*'' @ q) k \<longleftrightarrow> (\<exists>m. k = p @ m @ q)"
  by (auto simp: glob_literal_append glob_star glob_literal)

section \<open>The interface\<close>

locale redis_store =
  fixes empty :: 's
    and zadd :: "'s \<Rightarrow> string \<Rightarrow> real \<Rightarrow> string \<Rightarrow> 's"
    and zrange :: "'s \<Rightarrow> string \<Rightarrow> (string \<times> real) list"
    and keys :: "'s \<Rightarrow> string \<Rightarrow> string list"
  assumes zrange_empty: "zrange empty k = []"
    and zrange_zadd: "set (zrange (zadd s k score m) k') =
      (if k' = k then insert (m, score) {p \<in> set (zrange s k). fst p \<noteq> m} else set (zrange s k'))"
    and zrange_sorted: "sorted (map snd (zrange s k))"
    and zrange_distinct: "distinct (map fst (zrange s k))"
    and keys_match: "set (keys s pat) = {k. zrange s k \<noteq> [] \<and> glob pat k}"
    and keys_distinct: "distinct (keys s pat)"
begin

fun zadd_all :: "'s \<Rightarrow> (string \<times> real \<times> string) list \<Rightarrow> 's" where
  "zadd_all s [] = s"
| "zadd_all s ((k, score, m) # es) = zadd_all (zadd s k score m) es"

lemma zadd_all_append: "zadd_all s (es @ fs) = zadd_all (zadd_all s es) fs"
  by (induction s es rule: zadd_all.induct) auto

lemma zrange_zadd_all_set:
  "distinct (map snd (map (\<lambda>(k, sc, m). (sc, k, m)) es)) \<Longrightarrow> zrange s k = [] \<Longrightarrow>
   set (zrange (zadd_all s es) k) = {(m, sc). (k, sc, m) \<in> set es}"
proof (induction es rule: rev_induct)
  case Nil
  then show ?case by simp
next
  case (snoc e es)
  obtain k' sc m where e: "e = (k', sc, m)" by (cases e)
  have new: "(k', sc', m) \<notin> set es" for sc'
    using snoc.prems(1) by (force simp: e)
  show ?case using snoc new by (auto simp: e zadd_all_append zrange_zadd)
qed

lemma zadd_all_nonempty: "(k, sc, m) \<in> set es \<Longrightarrow> zrange (zadd_all s es) k \<noteq> []"
proof (induction es rule: rev_induct)
  case Nil
  then show ?case by simp
next
  case (snoc e es)
  obtain k' sc' m' where e: "e = (k', sc', m')" by (cases e)
  have "set (zrange (zadd_all s (es @ [e])) k) \<noteq> {}"
    using snoc by (auto simp: e zadd_all_append zrange_zadd split: if_splits)
  then show ?case by auto
qed

lemma zadd_all_other: "k \<notin> fst ` set es \<Longrightarrow> set (zrange (zadd_all s es) k) = set (zrange s k)"
  by (induction s es rule: zadd_all.induct) (auto simp: zrange_zadd)

end

section \<open>A store that keeps the commands\<close>

type_synonym zlog = "(string \<times> real \<times> string) list"

definition zlog_put :: "string \<Rightarrow> (string \<times> real) list \<Rightarrow> string \<times> real \<times> string \<Rightarrow> (string \<times> real) list" where
  "zlog_put k acc e = (case e of (k', score, m) \<Rightarrow>
     if k' = k then filter (\<lambda>p. fst p \<noteq> m) acc @ [(m, score)] else acc)"

definition zlog_range :: "zlog \<Rightarrow> string \<Rightarrow> (string \<times> real) list" where
  "zlog_range es k = sort_key snd (foldl (zlog_put k) [] es)"

definition zlog_add :: "zlog \<Rightarrow> string \<Rightarrow> real \<Rightarrow> string \<Rightarrow> zlog" where
  "zlog_add es k score m = es @ [(k, score, m)]"

definition zlog_keys :: "zlog \<Rightarrow> string \<Rightarrow> string list" where
  "zlog_keys es pat = filter (glob pat) (remdups (map fst es))"

lemma zlog_put_distinct: "distinct (map fst acc) \<Longrightarrow> distinct (map fst (zlog_put k acc e))"
  by (auto simp: zlog_put_def distinct_map_filter split: prod.split)

lemma zlog_put_set:
  "set (zlog_put k acc (k', score, m)) = (if k' = k then insert (m, score) {p \<in> set acc. fst p \<noteq> m} else set acc)"
  by (auto simp: zlog_put_def)

lemma zlog_distinct: "distinct (map fst (foldl (zlog_put k) [] es))"
  by (induction es rule: rev_induct) (simp_all add: zlog_put_distinct)

lemma zlog_empty: "foldl (zlog_put k) [] es = [] \<longleftrightarrow> k \<notin> fst ` set es"
  by (induction es rule: rev_induct) (auto simp: zlog_put_def split: prod.splits)

interpretation zlog: redis_store "[]" zlog_add zlog_range zlog_keys
proof unfold_locales
  fix s :: zlog and k k' pat m :: string and score :: real
  show "zlog_range [] k = []" by (simp add: zlog_range_def)
  show "set (zlog_range (zlog_add s k score m) k') =
      (if k' = k then insert (m, score) {p \<in> set (zlog_range s k). fst p \<noteq> m} else set (zlog_range s k'))"
    by (simp add: zlog_range_def zlog_add_def zlog_put_set)
  show "sorted (map snd (zlog_range s k))" by (simp add: zlog_range_def)
  have "mset (map fst (zlog_range s k)) = mset (map fst (foldl (zlog_put k) [] s))"
    by (simp add: zlog_range_def)
  then show "distinct (map fst (zlog_range s k))" using zlog_distinct mset_eq_imp_distinct_iff by blast
  show "set (zlog_keys s pat) = {k. zlog_range s k \<noteq> [] \<and> glob pat k}"
    using zlog_empty [of _ s] by (auto simp: zlog_keys_def zlog_range_def sort_key_simps simp flip: length_0_conv)
  show "distinct (zlog_keys s pat)" by (simp add: zlog_keys_def)
qed

end
