(* ===== verification/Frames.thy ===== *)
theory Frames
  imports PyNumbers "HOL-Library.Multiset"
begin

text \<open>
  The data frames of the reports. A frame is the list of its columns and of its rows; a row has a cell in
  every column, \<open>NaN\<close> where the frame has none. The levels of an index are kept among the columns, so that
  setting and resetting an index leaves the rows as they are. Selecting rows and columns is written out; the
  algorithms of pandas that the reader rests on (the left join, the sorting by the index and the grouped
  sum) are the parameter \<open>pandas\<close>, and \<open>pandas_laws\<close> is what its documentation says of them. Sums
  are those of the real numbers.
\<close>

datatype cell = NaN | Val py | Num real | Date real

type_synonym row = "string \<Rightarrow> cell"

record data_frame =
  fr_cols :: "string list"
  fr_rows :: "row list"

definition is_na :: "cell \<Rightarrow> bool" where
  "is_na c \<longleftrightarrow> c \<in> {NaN, Val PNone, Val (PFloat ''nan'')}"

definition cell_num :: "floats \<Rightarrow> cell \<Rightarrow> real" where
  "cell_num fl c =
     (if is_na c then 0
      else (case c of
              Val v \<Rightarrow> (case py_number fl v of Inr x \<Rightarrow> x | Inl _ \<Rightarrow> 0)
            | Num x \<Rightarrow> x
            | _ \<Rightarrow> 0))"

definition row_date :: "row \<Rightarrow> real" where
  "row_date r = (case r ''date'' of Date x \<Rightarrow> x | _ \<Rightarrow> 0)"

definition frame_ok :: "data_frame \<Rightarrow> bool" where
  "frame_ok f \<longleftrightarrow> (\<forall>r\<in>set (fr_rows f). \<forall>c. c \<notin> set (fr_cols f) \<longrightarrow> r c = NaN)"

definition frame_empty :: "data_frame \<Rightarrow> bool" where
  "frame_empty f \<longleftrightarrow> fr_cols f = [] \<or> fr_rows f = []"

section \<open>Building frames and reading columns\<close>

definition row_of :: "(string \<times> cell) list \<Rightarrow> row" where
  "row_of d c = (case map_of d c of Some x \<Rightarrow> x | None \<Rightarrow> NaN)"

definition frame_of :: "(string \<times> cell) list list \<Rightarrow> data_frame" where
  "frame_of ds = \<lparr>fr_cols = remdups (concat (map (map fst) ds)), fr_rows = map row_of ds\<rparr>"

fun need_cols :: "data_frame \<Rightarrow> string list \<Rightarrow> unit res" where
  "need_cols f [] = Inr ()"
| "need_cols f (c # cs) = (if c \<in> set (fr_cols f) then need_cols f cs else Inl (KeyError c))"

definition col :: "data_frame \<Rightarrow> string \<Rightarrow> cell list res" where
  "col f c = bindR (need_cols f [c]) (\<lambda>_. Inr (map (\<lambda>r. r c) (fr_rows f)))"

definition set_index :: "data_frame \<Rightarrow> string list \<Rightarrow> data_frame res" where
  "set_index f cs = bindR (need_cols f cs) (\<lambda>_. Inr f)"

section \<open>Rows and columns\<close>

definition drop_cols :: "string list \<Rightarrow> data_frame \<Rightarrow> data_frame" where
  "drop_cols cs f = \<lparr>fr_cols = filter (\<lambda>c. c \<notin> set cs) (fr_cols f),
     fr_rows = map (\<lambda>r c. if c \<in> set cs then NaN else r c) (fr_rows f)\<rparr>"

definition rename_col :: "string \<Rightarrow> string \<Rightarrow> data_frame \<Rightarrow> data_frame" where
  "rename_col a b f =
     (if a \<notin> set (fr_cols f) then f
      else \<lparr>fr_cols = map (\<lambda>c. if c = a then b else c) (fr_cols f),
             fr_rows = map (\<lambda>r c. if c = b then r a else if c = a then NaN else r c) (fr_rows f)\<rparr>)"

definition rename_cols :: "(string \<times> string) list \<Rightarrow> data_frame \<Rightarrow> data_frame" where
  "rename_cols ren f = foldl (\<lambda>g (a, b). rename_col a b g) f ren"

definition set_col :: "string \<Rightarrow> (row \<Rightarrow> cell) \<Rightarrow> data_frame \<Rightarrow> data_frame" where
  "set_col c g f = \<lparr>fr_cols = (if c \<in> set (fr_cols f) then fr_cols f else fr_cols f @ [c]),
     fr_rows = map (\<lambda>r. r(c := g r)) (fr_rows f)\<rparr>"

definition select_rows :: "(row \<Rightarrow> bool) \<Rightarrow> data_frame \<Rightarrow> data_frame" where
  "select_rows p f = f\<lparr>fr_rows := filter p (fr_rows f)\<rparr>"

definition fill_na :: "cell \<Rightarrow> cell \<Rightarrow> cell" where
  "fill_na x y = (if is_na x then y else x)"

definition concat_frames :: "data_frame list \<Rightarrow> data_frame res" where
  "concat_frames fs =
     (if fs = [] then Inl (ValueError ''No objects to concatenate'')
      else Inr \<lparr>fr_cols = remdups (concat (map fr_cols fs)), fr_rows = concat (map fr_rows fs)\<rparr>)"

section \<open>The library\<close>

record pandas =
  pd_merge :: "data_frame \<Rightarrow> data_frame \<Rightarrow> string \<Rightarrow> string \<Rightarrow> data_frame"
  pd_sort_index :: "data_frame \<Rightarrow> data_frame"
  pd_group_sum :: "data_frame \<Rightarrow> string \<Rightarrow> string \<Rightarrow> (cell \<times> real) list"

text \<open>One row joined with the rows that match it: with each of them, or with none when there is none.\<close>

definition join_row :: "string list \<Rightarrow> row \<Rightarrow> row \<Rightarrow> row" where
  "join_row cs l r = (\<lambda>c. if c \<in> set cs then r c else l c)"

definition key_eq :: "cell \<Rightarrow> cell \<Rightarrow> bool" where
  "key_eq x y \<longleftrightarrow> x = y \<or> (is_na x \<and> is_na y)"

definition join_rows :: "data_frame \<Rightarrow> string \<Rightarrow> string \<Rightarrow> row \<Rightarrow> row list" where
  "join_rows R lk rk l =
     (let ms = filter (\<lambda>r. key_eq (r rk) (l lk)) (fr_rows R)
      in if ms = [] then [l] else map (join_row (fr_cols R) l) ms)"

definition group_total :: "floats \<Rightarrow> data_frame \<Rightarrow> string \<Rightarrow> string \<Rightarrow> cell \<Rightarrow> real" where
  "group_total fl f k v x = (\<Sum>r\<leftarrow>filter (\<lambda>r. r k = x) (fr_rows f). cell_num fl (r v))"

lemma sum_by_key:
  assumes "distinct ks" and "\<forall>r\<in>set rs. k r \<in> set ks"
  shows "(\<Sum>x\<leftarrow>ks. \<Sum>r\<leftarrow>filter (\<lambda>r. k r = x) rs. h r :: real) = (\<Sum>r\<leftarrow>rs. h r)"
proof -
  have "(\<Sum>x\<in>set ks. \<Sum>r\<leftarrow>filter (\<lambda>r. k r = x) rs. h r) = (\<Sum>r\<leftarrow>rs. h r)"
    using assms(2)
  proof (induction rs)
    case Nil
    then show ?case by simp
  next
    case (Cons r rs)
    have "(\<Sum>x\<in>set ks. \<Sum>q\<leftarrow>filter (\<lambda>q. k q = x) (r # rs). h q)
        = (\<Sum>x\<in>set ks. (if k r = x then h r else 0) + (\<Sum>q\<leftarrow>filter (\<lambda>q. k q = x) rs. h q))"
      by (rule sum.cong) auto
    with Cons show ?case by (simp add: sum.distrib sum.delta')
  qed
  then show ?thesis by (simp add: sum_list_distinct_conv_sum_set assms(1))
qed

locale pandas_laws =
  fixes fl :: floats and pd :: pandas
  assumes merge_rows: "frame_ok L \<Longrightarrow> frame_ok R \<Longrightarrow> set (fr_cols L) \<inter> set (fr_cols R) = {} \<Longrightarrow>
      lk \<in> set (fr_cols L) \<Longrightarrow> rk \<in> set (fr_cols R) \<Longrightarrow>
      mset (fr_rows (pd_merge pd L R lk rk)) = mset (concat (map (join_rows R lk rk) (fr_rows L)))"
    and merge_cols: "set (fr_cols L) \<inter> set (fr_cols R) = {} \<Longrightarrow>
      lk \<in> set (fr_cols L) \<Longrightarrow> rk \<in> set (fr_cols R) \<Longrightarrow>
      set (fr_cols (pd_merge pd L R lk rk)) = set (fr_cols L) \<union> set (fr_cols R)"
    and sort_rows: "mset (fr_rows (pd_sort_index pd f)) = mset (fr_rows f)"
    and sort_cols: "fr_cols (pd_sort_index pd f) = fr_cols f"
    and sort_dates: "sorted (map row_date (fr_rows (pd_sort_index pd f)))"
    and group_distinct: "distinct (map fst (pd_group_sum pd f k v))"
    and group_sums: "set (pd_group_sum pd f k v) =
      (\<lambda>x. (x, group_total fl f k v x)) ` {x \<in> (\<lambda>r. r k) ` set (fr_rows f). \<not> is_na x}"
begin

lemma group_total_of: "(x, s) \<in> set (pd_group_sum pd f k v) \<Longrightarrow> s = group_total fl f k v x \<and> \<not> is_na x"
  unfolding group_sums by auto

lemma merge_ok:
  assumes "frame_ok L" and "frame_ok R" and "set (fr_cols L) \<inter> set (fr_cols R) = {}"
    and "lk \<in> set (fr_cols L)" and "rk \<in> set (fr_cols R)"
  shows "frame_ok (pd_merge pd L R lk rk)"
proof -
  have "set (fr_rows (pd_merge pd L R lk rk)) = set (concat (map (join_rows R lk rk) (fr_rows L)))"
    using merge_rows [OF assms] by (metis set_mset_mset)
  with assms(1,2) show ?thesis
    by (auto simp: frame_ok_def merge_cols [OF assms(3-5)] join_rows_def join_row_def Let_def split: if_splits)
qed

end

section \<open>The library on lists\<close>

definition list_pandas :: "floats \<Rightarrow> pandas" where
  "list_pandas fl = \<lparr>
     pd_merge = (\<lambda>L R lk rk. \<lparr>fr_cols = fr_cols L @ fr_cols R, fr_rows = concat (map (join_rows R lk rk) (fr_rows L))\<rparr>),
     pd_sort_index = (\<lambda>f. f\<lparr>fr_rows := sort_key row_date (fr_rows f)\<rparr>),
     pd_group_sum = (\<lambda>f k v. map (\<lambda>x. (x, group_total fl f k v x))
        (remdups (filter (\<lambda>x. \<not> is_na x) (map (\<lambda>r. r k) (fr_rows f)))))\<rparr>"

interpretation lp: pandas_laws fl "list_pandas fl" for fl
  by unfold_locales (auto simp: list_pandas_def o_def distinct_map inj_on_def)

section \<open>Facts\<close>

lemma is_na_simps [simp]: "is_na NaN" "is_na (Val PNone)" "\<not> is_na (Val (PStr s))" "\<not> is_na (Num x)" "\<not> is_na (Date x)"
  "\<not> is_na (Val (PInt i))" "\<not> is_na (Val (PBool b))"
  by (simp_all add: is_na_def)

lemma fill_na_simps [simp]: "fill_na NaN y = y" "fill_na (Val PNone) y = y" "\<not> is_na x \<Longrightarrow> fill_na x y = x"
  by (simp_all add: fill_na_def)

lemma need_cols_ok: "need_cols f cs = Inr () \<longleftrightarrow> set cs \<subseteq> set (fr_cols f)"
  by (induction f cs rule: need_cols.induct) auto

lemma need_cols_fail: "need_cols f cs = Inl e \<Longrightarrow> \<exists>c\<in>set cs. e = KeyError c \<and> c \<notin> set (fr_cols f)"
  by (induction f cs rule: need_cols.induct) (auto split: if_splits)

lemma set_index_eq: "set_index f cs = Inr g \<longleftrightarrow> g = f \<and> set cs \<subseteq> set (fr_cols f)"
  by (auto simp: set_index_def bindR_eq_Inr need_cols_ok)

lemma frame_of_ok: "frame_ok (frame_of ds)"
  by (force simp: frame_ok_def frame_of_def row_of_def split: option.split dest: map_of_SomeD)

lemma frame_of_rows [simp]: "fr_rows (frame_of ds) = map row_of ds"
  by (simp add: frame_of_def)

lemma frame_of_cols: "set (fr_cols (frame_of ds)) = (\<Union>d\<in>set ds. fst ` set d)"
  by (auto simp: frame_of_def)

lemma drop_cols_simps [simp]:
  "fr_rows (drop_cols cs f) = map (\<lambda>r c. if c \<in> set cs then NaN else r c) (fr_rows f)"
  "set (fr_cols (drop_cols cs f)) = set (fr_cols f) - set cs"
  by (auto simp: drop_cols_def)

lemma rename_col_simps [simp]:
  "a \<in> set (fr_cols f) \<Longrightarrow>
     fr_rows (rename_col a b f) = map (\<lambda>r c. if c = b then r a else if c = a then NaN else r c) (fr_rows f)"
  "a \<in> set (fr_cols f) \<Longrightarrow> set (fr_cols (rename_col a b f)) = insert b (set (fr_cols f) - {a})"
  by (auto simp: rename_col_def)

lemma rename_cols_simps [simp]:
  "rename_cols [] f = f" "rename_cols ((a, b) # ren) f = rename_cols ren (rename_col a b f)"
  by (simp_all add: rename_cols_def)

lemma set_col_simps [simp]:
  "fr_rows (set_col c g f) = map (\<lambda>r. r(c := g r)) (fr_rows f)"
  "set (fr_cols (set_col c g f)) = insert c (set (fr_cols f))"
  by (auto simp: set_col_def)

lemma select_rows_simps [simp]:
  "fr_rows (select_rows p f) = filter p (fr_rows f)" "fr_cols (select_rows p f) = fr_cols f"
  by (simp_all add: select_rows_def)

lemma drop_cols_ok: "frame_ok f \<Longrightarrow> frame_ok (drop_cols cs f)"
  by (auto simp: frame_ok_def)

lemma rename_col_ok: "frame_ok f \<Longrightarrow> frame_ok (rename_col a b f)"
  by (auto simp: frame_ok_def rename_col_def)

lemma set_col_ok: "frame_ok f \<Longrightarrow> frame_ok (set_col c g f)"
  by (auto simp: frame_ok_def)

lemma select_rows_ok: "frame_ok f \<Longrightarrow> frame_ok (select_rows p f)"
  by (auto simp: frame_ok_def)

lemmas frame_oks = frame_of_ok drop_cols_ok rename_col_ok set_col_ok select_rows_ok

end
