(* ===== verification/ReportReader.thy ===== *)
theory ReportReader
  imports RedisStore Frames NodeMonitor DockerUtils
begin

text \<open>
  \<^verbatim>\<open>wotemu/report/reader.py\<close>: the report reads back what the monitors wrote to Redis. A client of
  Redis is what it answers to the two commands that the reader sends; a read that fails raises in every
  operation and is left out. \<open>canon\<close> reads the floats of JSON, \<open>fl\<close> gives their values, \<open>so\<close> the order
  in which a set is iterated, \<open>netaddr\<close> the library of that name and \<open>pd\<close> the data frame library.
\<close>

record redis_client =
  rc_zrange :: "string \<Rightarrow> (string \<times> real) list"
  rc_keys :: "string \<Rightarrow> string list"

section \<open>The state of tasks\<close>

record datetime =
  dt_year :: nat
  dt_month :: nat
  dt_day :: nat
  dt_hour :: nat
  dt_minute :: nat
  dt_second :: nat
  dt_micro :: nat

definition leap_year :: "nat \<Rightarrow> bool" where
  "leap_year y \<longleftrightarrow> y mod 4 = 0 \<and> (y mod 100 \<noteq> 0 \<or> y mod 400 = 0)"

definition days_in_month :: "nat \<Rightarrow> nat \<Rightarrow> nat" where
  "days_in_month y m =
     (if m = 2 then (if leap_year y then 29 else 28) else if m \<in> {4, 6, 9, 11} then 30 else 31)"

definition date_ok :: "datetime \<Rightarrow> bool" where
  "date_ok d \<longleftrightarrow> 1 \<le> dt_year d \<and> 1 \<le> dt_month d \<and> dt_month d \<le> 12
     \<and> 1 \<le> dt_day d \<and> dt_day d \<le> days_in_month (dt_year d) (dt_month d)
     \<and> dt_hour d < 24 \<and> dt_minute d < 60 \<and> dt_second d < 60"

text \<open>A digit of the shape stands for any digit.\<close>

fun fits_shape :: "string \<Rightarrow> string \<Rightarrow> bool" where
  "fits_shape [] [] = True"
| "fits_shape (p # ps) (c # cs) = ((if is_digit p then is_digit c else c = p) \<and> fits_shape ps cs)"
| "fits_shape _ _ = False"

definition digits_at :: "string \<Rightarrow> nat \<Rightarrow> nat \<Rightarrow> nat" where
  "digits_at s i n = foldl (\<lambda>a c. 10 * a + digit_val c) 0 (take n (drop i s))"

text \<open>The groups of the regular expression: the time to the second and the digits of the fraction.\<close>

definition docker_time_groups :: "string \<Rightarrow> (string \<times> string) option" where
  "docker_time_groups s =
     (let date = take 19 s; sep = take 1 (drop 19 s);
          fraction = takeWhile is_digit (drop 20 s); rest = dropWhile is_digit (drop 20 s)
      in if fits_shape ''0000-00-00T00:00:00'' date \<and> sep \<noteq> [] \<and> sep \<noteq> [CHR 0x0A] \<and> fraction \<noteq> []
            \<and> rest \<in> {''Z'', ''Z'' @ [CHR 0x0A]}
         then Some (date, fraction) else None)"

definition strptime :: "string \<Rightarrow> datetime res" where
  "strptime s =
     (let d = \<lparr>dt_year = digits_at s 0 4, dt_month = digits_at s 5 2, dt_day = digits_at s 8 2,
               dt_hour = digits_at s 11 2, dt_minute = digits_at s 14 2, dt_second = digits_at s 17 2, dt_micro = 0\<rparr>
      in if date_ok d then Inr d else Inl (ValueError ''strptime''))"

fun parse_docker_time :: "py \<Rightarrow> datetime option res" where
  "parse_docker_time (PStr s) =
     (case docker_time_groups s of
        None \<Rightarrow> Inr None
      | Some (date, fraction) \<Rightarrow>
          bindR (strptime date) (\<lambda>d. Inr (Some (d\<lparr>dt_micro := digits_at fraction 0 6\<rparr>))))"
| "parse_docker_time _ = Inl TypeError"

definition is_task_running :: "py \<Rightarrow> bool res" where
  "is_task_running task = bindR (py_index task ''DesiredState'') (\<lambda>v. Inr (v = PStr ''running''))"

definition is_zero :: "py \<Rightarrow> bool" where
  "is_zero v = (case v of PInt i \<Rightarrow> i = 0 | PBool b \<Rightarrow> \<not> b | PFloat r \<Rightarrow> r \<in> set zero_floats | _ \<Rightarrow> False)"

definition is_task_error :: "py \<Rightarrow> bool res" where
  "is_task_error task =
     bindR (is_task_running task) (\<lambda>running.
     bindR (py_get task ''Status'' (PDict [])) (\<lambda>status.
     bindR (py_get status ''ContainerStatus'' (PDict [])) (\<lambda>cs.
     bindR (py_get cs ''ExitCode'' (PInt 0)) (\<lambda>code.
       Inr (\<not> running \<and> \<not> is_zero code)))))"

section \<open>Columns of dictionaries\<close>

definition explode_mapper :: "string \<Rightarrow> cell \<Rightarrow> cell" where
  "explode_mapper key c =
     (case c of Val v \<Rightarrow> (case py_index v key of Inr x \<Rightarrow> Val x | Inl _ \<Rightarrow> NaN) | _ \<Rightarrow> NaN)"

definition unique_keys :: "cell list \<Rightarrow> string list" where
  "unique_keys cs = remdups (concat (map (\<lambda>c. case c of Val (PDict d) \<Rightarrow> dkeys d | _ \<Rightarrow> []) cs))"

definition explode_dict_column :: "set_order \<Rightarrow> data_frame \<Rightarrow> string \<Rightarrow> data_frame" where
  "explode_dict_column so f c =
     (if c \<notin> set (fr_cols f) then f
      else foldl (\<lambda>g key. set_col (c @ ''_'' @ key) (\<lambda>r. explode_mapper key (r c)) g) f
             (so (unique_keys (map (\<lambda>r. r c) (fr_rows f)))))"

section \<open>The connection\<close>

text \<open>The state is whether a client is held, and the number of pools open; \<open>wait\<close> is how the closing ends.\<close>

definition reader_close :: "unit res \<Rightarrow> (bool \<times> nat, unit) prog" where
  "reader_close wait s =
     (case s of (held, pools) \<Rightarrow>
        if \<not> held then (Inr (), s)
        else (case wait of
                Inl e \<Rightarrow> (if is_Exception e then (Inr (), (False, pools - 1)) else (Inl e, (False, pools - 1)))
              | Inr _ \<Rightarrow> (Inr (), (False, pools - 1))))"

definition reader_connect :: "unit res \<Rightarrow> unit res \<Rightarrow> (bool \<times> nat, unit) prog" where
  "reader_connect wait create =
     bindP (reader_close wait) (\<lambda>_ s.
       (case create of Inl e \<Rightarrow> (Inl e, s) | Inr _ \<Rightarrow> (Inr (), (True, snd s + 1))))"

section \<open>Time series\<close>

definition load_member :: "(string \<Rightarrow> string) \<Rightarrow> string \<Rightarrow> py res" where
  "load_member canon m = (case json_loads canon m of None \<Rightarrow> Inl (ValueError ''json'') | Some v \<Rightarrow> Inr v)"

definition load_members :: "(string \<Rightarrow> string) \<Rightarrow> redis_client \<Rightarrow> string \<Rightarrow> py list res" where
  "load_members canon rc key = mapR (\<lambda>p. load_member canon (fst p)) (rc_zrange rc key)"

definition time_of :: "floats \<Rightarrow> py \<Rightarrow> real res" where
  "time_of fl row = bindR (py_index row ''time'') (py_number fl)"

definition date_row :: "floats \<Rightarrow> py \<Rightarrow> (string \<times> cell) list res" where
  "date_row fl row =
     bindR (time_of fl row) (\<lambda>t.
     bindR (as_dict row) (\<lambda>d. Inr (AList.update ''date'' (Date t) (map (\<lambda>(k, v). (k, Val v)) d))))"

definition get_zrange_df :: "(string \<Rightarrow> string) \<Rightarrow> floats \<Rightarrow> redis_client \<Rightarrow> string \<Rightarrow> data_frame res" where
  "get_zrange_df canon fl rc key =
     bindR (load_members canon rc key) (\<lambda>rows.
     bindR (mapR (date_row fl) rows) (\<lambda>ds. Inr (frame_of ds)))"

text \<open>The keys are formatted as the monitors format them.\<close>

definition get_system_df :: "(string \<Rightarrow> string) \<Rightarrow> floats \<Rightarrow> redis_client \<Rightarrow> string \<Rightarrow> data_frame res" where
  "get_system_df canon fl rc task = get_zrange_df canon fl rc (redis_key SYSTEM [task])"

definition get_thing_df :: "(string \<Rightarrow> string) \<Rightarrow> floats \<Rightarrow> redis_client \<Rightarrow> string \<Rightarrow> data_frame res" where
  "get_thing_df canon fl rc task = get_zrange_df canon fl rc (redis_key THING [task])"

section \<open>Tasks and their information\<close>

definition get_tasks :: "set_order \<Rightarrow> redis_client \<Rightarrow> string list" where
  "get_tasks so rc =
     so (remdups (map (\<lambda>key. last (split_on (CHR '':'') key)) (rc_keys rc (redis_key INFO [''*'']))))"

definition get_info :: "(string \<Rightarrow> string) \<Rightarrow> floats \<Rightarrow> redis_client \<Rightarrow> string \<Rightarrow> py list res" where
  "get_info canon fl rc task =
     bindR (load_members canon rc (redis_key INFO [task])) (\<lambda>rows.
     bindR (mapR (time_of fl) rows) (\<lambda>ts. Inr (map snd (sort_key fst (zip ts rows)))))"

definition get_info_latest :: "(string \<Rightarrow> string) \<Rightarrow> floats \<Rightarrow> redis_client \<Rightarrow> string \<Rightarrow> py res" where
  "get_info_latest canon fl rc task =
     bindR (get_info canon fl rc task) (\<lambda>rows. Inr (if rows = [] then PNone else last rows))"

definition get_info_map :: "(string \<Rightarrow> string) \<Rightarrow> floats \<Rightarrow> set_order \<Rightarrow> redis_client \<Rightarrow> (string \<times> py) list res" where
  "get_info_map canon fl so rc =
     bindR (mapR (\<lambda>t. bindR (get_info_latest canon fl rc t) (\<lambda>i. Inr (t, i))) (get_tasks so rc)) (\<lambda>ret.
       Inr (filter (\<lambda>(t, i). truthy i) ret))"

definition get_compose_dict :: "(string \<Rightarrow> string) \<Rightarrow> redis_client \<Rightarrow> py res" where
  "get_compose_dict canon rc =
     (let members = rc_zrange rc (redis_key COMPOSE [])
      in if members = [] then Inr PNone else load_member canon (fst (last members)))"

section \<open>Packets\<close>

definition get_packet_frames :: "(string \<Rightarrow> string) \<Rightarrow> floats \<Rightarrow> redis_client \<Rightarrow> string list \<Rightarrow> data_frame list res" where
  "get_packet_frames canon fl rc keys =
     mapR (\<lambda>key. bindR (get_zrange_df canon fl rc key) (\<lambda>f.
       Inr (set_col ''iface'' (\<lambda>r. Val (PStr (split_on (CHR '':'') key ! 2))) f))) keys"

definition get_packet_df :: "(string \<Rightarrow> string) \<Rightarrow> floats \<Rightarrow> pandas \<Rightarrow> redis_client \<Rightarrow> string \<Rightarrow> data_frame option res" where
  "get_packet_df canon fl pd rc task =
     (let keys = rc_keys rc (redis_key PACKET [''*'', task])
      in if keys = [] then Inr None
         else bindR (get_packet_frames canon fl rc keys) (\<lambda>dfs.
              bindR (concat_frames dfs) (\<lambda>f. Inr (Some (pd_sort_index pd f)))))"

section \<open>Addresses\<close>

record 'ip netaddr =
  na_parse :: "py \<Rightarrow> 'ip res"
  na_has :: "py \<Rightarrow> 'ip \<Rightarrow> bool res"

fun in_any_cidr :: "'ip netaddr \<Rightarrow> 'ip \<Rightarrow> py list \<Rightarrow> bool res" where
  "in_any_cidr na ip [] = Inr False"
| "in_any_cidr na ip (c # cs) = bindR (na_has na c ip) (\<lambda>b. if b then Inr True else in_any_cidr na ip cs)"

fun first_network :: "'ip netaddr \<Rightarrow> 'ip \<Rightarrow> py dict \<Rightarrow> cell res" where
  "first_network na ip [] = Inr NaN"
| "first_network na ip ((name, v) # rest) =
     bindR (as_list v) (\<lambda>cs. bindR (in_any_cidr na ip cs) (\<lambda>b.
       if b then Inr (Val (PStr name)) else first_network na ip rest))"

definition find_network :: "'ip netaddr \<Rightarrow> py \<Rightarrow> py \<Rightarrow> cell res" where
  "find_network na info address =
     bindR (na_parse na address) (\<lambda>ip.
     bindR (py_get info ''networks_cidr'' (PDict [])) (\<lambda>v.
     bindR (as_dict v) (first_network na ip)))"

definition info_service :: "py \<Rightarrow> py res" where
  "info_service info = bindR (py_get info ''env'' (PDict [])) (\<lambda>env. py_get env ''SERVICE_NAME'' PNone)"

definition is_inet :: "floats \<Rightarrow> py \<Rightarrow> bool" where
  "is_inet fl v = (case v of PInt i \<Rightarrow> i = 2 | PFloat r \<Rightarrow> fl_val fl r = 2 | _ \<Rightarrow> False)"

definition address_row ::
  "floats \<Rightarrow> 'ip netaddr \<Rightarrow> string \<Rightarrow> py \<Rightarrow> string \<Rightarrow> py \<Rightarrow> (string \<times> cell) list list res" where
  "address_row fl na task info iface item =
     bindR (py_get item ''family'' PNone) (\<lambda>family.
       if \<not> is_inet fl family then Inr []
       else bindR (time_of fl info) (\<lambda>t.
            bindR (info_service info) (\<lambda>service.
            bindR (py_index item ''address'') (\<lambda>address.
            bindR (find_network na info address) (\<lambda>network.
              Inr [[(''date'', Date t), (''task'', Val (PStr task)), (''service'', Val service),
                    (''iface'', Val (PStr iface)), (''address'', Val address), (''network'', network)]])))))"

text \<open>The rows of a comprehension, in order; the first raise wins.\<close>

definition concatR :: "('a \<Rightarrow> 'b list res) \<Rightarrow> 'a list \<Rightarrow> 'b list res" where
  "concatR f xs = bindR (mapR f xs) (\<lambda>yss. Inr (concat yss))"

definition info_address_rows ::
  "floats \<Rightarrow> 'ip netaddr \<Rightarrow> string \<Rightarrow> py \<Rightarrow> (string \<times> cell) list list res" where
  "info_address_rows fl na task info =
     bindR (py_get info ''net'' (PDict [])) (\<lambda>net. bindR (as_dict net) (\<lambda>ifaces.
       concatR (\<lambda>(iface, v).
         if iface = ''lo'' then Inr []
         else bindR (as_list v) (concatR (address_row fl na task info iface))) ifaces))"

definition tasks_or_all :: "set_order \<Rightarrow> redis_client \<Rightarrow> string list \<Rightarrow> string list" where
  "tasks_or_all so rc tasks = (if tasks \<noteq> [] then tasks else get_tasks so rc)"

definition info_rows ::
  "(string \<Rightarrow> string) \<Rightarrow> floats \<Rightarrow> redis_client \<Rightarrow> (string \<Rightarrow> py \<Rightarrow> 'r list res) \<Rightarrow> string list \<Rightarrow> 'r list res" where
  "info_rows canon fl rc row tasks =
     concatR (\<lambda>task. bindR (get_info canon fl rc task) (concatR (row task))) tasks"

definition get_address_df ::
  "(string \<Rightarrow> string) \<Rightarrow> floats \<Rightarrow> set_order \<Rightarrow> 'ip netaddr \<Rightarrow> redis_client \<Rightarrow> string list \<Rightarrow> data_frame res" where
  "get_address_df canon fl so na rc tasks =
     bindR (info_rows canon fl rc (info_address_rows fl na) (tasks_or_all so rc tasks)) (\<lambda>rows.
       set_index (frame_of rows) [''date'', ''task'', ''iface''])"

definition info_vip_rows :: "floats \<Rightarrow> string \<Rightarrow> py \<Rightarrow> (string \<times> cell) list list res" where
  "info_vip_rows fl task info =
     bindR (py_get info ''service_vips'' (PDict [])) (\<lambda>v. bindR (as_dict v) (\<lambda>vips.
       mapR (\<lambda>(net_name, vip).
         bindR (time_of fl info) (\<lambda>t. bindR (info_service info) (\<lambda>service.
           Inr [(''date'', Date t), (''task'', Val (PStr task)), (''service'', Val service),
                (''network'', Val (PStr net_name)), (''vip'', Val vip)]))) vips))"

definition get_service_vip_df ::
  "(string \<Rightarrow> string) \<Rightarrow> floats \<Rightarrow> set_order \<Rightarrow> redis_client \<Rightarrow> string list \<Rightarrow> data_frame res" where
  "get_service_vip_df canon fl so rc tasks =
     bindR (info_rows canon fl rc (info_vip_rows fl) (tasks_or_all so rc tasks)) (\<lambda>rows.
       set_index (frame_of rows) [''date'', ''task'', ''network''])"

section \<open>Extended packets\<close>

text \<open>The chain of joins, given the frames of the addresses and of the virtual addresses.\<close>

definition join_addresses :: "pandas \<Rightarrow> string \<Rightarrow> string \<Rightarrow> data_frame \<Rightarrow> data_frame \<Rightarrow> data_frame" where
  "join_addresses pd key side addr df =
     rename_cols [(''task'', side @ ''_task''), (''service'', side @ ''_service''), (''network'', side @ ''_network'')]
       (drop_cols [''address''] (pd_merge pd df addr key ''address''))"

definition join_vips :: "pandas \<Rightarrow> string \<Rightarrow> string \<Rightarrow> data_frame \<Rightarrow> data_frame \<Rightarrow> data_frame" where
  "join_vips pd key side vips df =
     rename_cols [(''service'', side @ ''_vip_service'')]
       (drop_cols [''vip'', ''network''] (pd_merge pd df vips key ''vip''))"

definition extend_packets :: "pandas \<Rightarrow> data_frame \<Rightarrow> data_frame \<Rightarrow> data_frame \<Rightarrow> data_frame" where
  "extend_packets pd packets addresses vips =
     (let addr = drop_cols [''iface'', ''date''] addresses;
          vip = drop_cols [''date'', ''task''] vips;
          df = join_addresses pd ''src'' ''src'' addr packets;
          df = join_addresses pd ''dst'' ''dst'' addr df;
          df = join_vips pd ''src'' ''src'' vip df;
          df = join_vips pd ''dst'' ''dst'' vip df;
          df = set_col ''src_service'' (\<lambda>r. fill_na (r ''src_service'') (r ''src_vip_service'')) df;
          df = set_col ''dst_service'' (\<lambda>r. fill_na (r ''dst_service'') (r ''dst_vip_service'')) df;
          df = set_col ''network'' (\<lambda>r. fill_na (r ''src_network'') (r ''dst_network'')) df
      in drop_cols [''src_vip_service'', ''dst_vip_service'', ''src_network'', ''dst_network''] df)"

text \<open>A frame given by the caller is tested for its truth value, which a frame does not have.\<close>

definition frame_or :: "data_frame option \<Rightarrow> data_frame res \<Rightarrow> data_frame res" where
  "frame_or given computed =
     (case given of Some f \<Rightarrow> Inl (ValueError ''The truth value of a DataFrame is ambiguous'') | None \<Rightarrow> computed)"

definition extend_packet_df ::
  "(string \<Rightarrow> string) \<Rightarrow> floats \<Rightarrow> set_order \<Rightarrow> 'ip netaddr \<Rightarrow> pandas \<Rightarrow> redis_client
     \<Rightarrow> data_frame \<Rightarrow> data_frame option \<Rightarrow> data_frame option \<Rightarrow> data_frame res" where
  "extend_packet_df canon fl so na pd rc packets given_addresses given_vips =
     bindR (frame_or given_addresses (get_address_df canon fl so na rc [])) (\<lambda>addresses.
     bindR (frame_or given_vips (get_service_vip_df canon fl so rc [])) (\<lambda>vips.
     bindR (need_cols packets [''src'', ''dst'']) (\<lambda>_.
       set_index (extend_packets pd packets addresses vips) [''date'', ''iface''])))"

definition get_extended_df ::
  "(string \<Rightarrow> string) \<Rightarrow> floats \<Rightarrow> set_order \<Rightarrow> 'ip netaddr \<Rightarrow> pandas \<Rightarrow> redis_client \<Rightarrow> string \<Rightarrow> data_frame option res" where
  "get_extended_df canon fl so na pd rc task =
     bindR (get_packet_df canon fl pd rc task) (\<lambda>f.
       (case f of
          None \<Rightarrow> Inr None
        | Some packets \<Rightarrow> bindR (extend_packet_df canon fl so na pd rc packets None None) (\<lambda>g. Inr (Some g))))"

section \<open>Traffic of the services\<close>

definition task_traffic :: "floats \<Rightarrow> pandas \<Rightarrow> string \<Rightarrow> string \<Rightarrow> string \<Rightarrow> data_frame \<Rightarrow> data_frame" where
  "task_traffic fl pd col_task col_service task df =
     (let sel = select_rows (\<lambda>r. r col_task = Val (PStr task) \<and> \<not> is_na (r col_service)) df
      in \<lparr>fr_cols = [col_service, ''len'', col_task],
          fr_rows = map (\<lambda>(service, total).
            row_of [(col_service, service), (''len'', Num total), (col_task, Val (PStr task))])
            (pd_group_sum pd sel col_service ''len'')\<rparr>)"

definition get_service_traffic_df ::
  "(string \<Rightarrow> string) \<Rightarrow> floats \<Rightarrow> set_order \<Rightarrow> 'ip netaddr \<Rightarrow> pandas \<Rightarrow> redis_client
     \<Rightarrow> string list \<Rightarrow> bool \<Rightarrow> data_frame option res" where
  "get_service_traffic_df canon fl so na pd rc tasks inbound =
     (let col_task = (if inbound then ''src_task'' else ''dst_task'');
          col_service = (if inbound then ''dst_service'' else ''src_service'')
      in bindR (mapR (\<lambda>t. bindR (get_extended_df canon fl so na pd rc t) (\<lambda>f. Inr (t, f)))
                 (tasks_or_all so rc tasks)) (\<lambda>dfs.
         let present = List.map_filter (\<lambda>(t, f). map_option (Pair t) f) dfs
         in bindR (mapR (\<lambda>(t, f). bindR (need_cols f [''len'']) (\<lambda>_.
                     Inr (task_traffic fl pd col_task col_service t f))) present) (\<lambda>parts.
            if parts = [] then Inr None
            else bindR (concat_frames parts) (\<lambda>f. Inr (Some f)))))"

section \<open>The snapshot\<close>

definition get_task_key_map :: "(string \<Rightarrow> string) \<Rightarrow> floats \<Rightarrow> set_order \<Rightarrow> redis_client \<Rightarrow> (py \<times> string) list res" where
  "get_task_key_map canon fl so rc =
     bindR (mapR (\<lambda>t. bindR (get_info canon fl rc t) (\<lambda>rows. Inr (t, rows))) (get_tasks so rc)) (\<lambda>infos.
     concatR (\<lambda>(t, rows).
       if rows = [] then Inr []
       else bindR (py_get (last rows) ''container_id'' PNone) (\<lambda>cid.
         if \<not> truthy cid then Inr []
         else bindR (py_index (last rows) ''task_id'') (\<lambda>tid. Inr [(tid, t)]))) infos)"

text \<open>A missing date in a column that has dates becomes \<open>NaT\<close>.\<close>

datatype dt_cell = NoDate | NaT | DateTime datetime

record snap_row =
  sn_desired :: py
  sn_running :: bool
  sn_error :: bool
  sn_task :: "string option"
  sn_task_id :: string
  sn_node_id :: py
  sn_service_id :: py
  sn_created :: "datetime option"
  sn_updated :: "datetime option"
  sn_container_id :: py
  sn_logs :: py
  sn_stopped :: real

definition date_cells :: "datetime option list \<Rightarrow> dt_cell list" where
  "date_cells ds =
     map (\<lambda>d. case d of Some x \<Rightarrow> DateTime x | None \<Rightarrow> if list_all Option.is_none ds then NoDate else NaT) ds"

definition snapshot_row :: "(py \<times> string) list \<Rightarrow> real \<Rightarrow> string \<Rightarrow> py \<Rightarrow> snap_row res" where
  "snapshot_row keys stopped task_id item =
     bindR (py_index item ''task'') (\<lambda>task.
     bindR (py_get task ''DesiredState'' PNone) (\<lambda>desired.
     bindR (is_task_running task) (\<lambda>running.
     bindR (is_task_error task) (\<lambda>err.
     bindR (py_get task ''NodeID'' PNone) (\<lambda>node.
     bindR (py_get task ''ServiceID'' PNone) (\<lambda>service.
     bindR (bindR (py_get task ''CreatedAt'' PNone) parse_docker_time) (\<lambda>created.
     bindR (bindR (py_get task ''UpdatedAt'' PNone) parse_docker_time) (\<lambda>updated.
     bindR (get_chain task [''Status'', ''ContainerStatus'', ''ContainerID'']) (\<lambda>cid.
     bindR (py_index item ''logs'') (\<lambda>logs.
       Inr \<lparr>sn_desired = desired, sn_running = running, sn_error = err,
            sn_task = map_of (rev keys) (PStr task_id), sn_task_id = task_id, sn_node_id = node,
            sn_service_id = service, sn_created = created, sn_updated = updated,
            sn_container_id = cid, sn_logs = logs, sn_stopped = stopped\<rparr>))))))))))"

definition get_snapshot_df ::
  "(string \<Rightarrow> string) \<Rightarrow> floats \<Rightarrow> set_order \<Rightarrow> redis_client \<Rightarrow> snap_row list option res" where
  "get_snapshot_df canon fl so rc =
     (let members = rc_zrange rc (redis_key SNAPSHOT [])
      in if members = [] then Inr None
         else bindR (load_member canon (fst (last members))) (\<lambda>snapshot.
              bindR (get_task_key_map canon fl so rc) (\<lambda>keys.
              bindR (as_dict snapshot) (\<lambda>items.
              bindR (mapR (\<lambda>(task_id, item). snapshot_row keys (snd (last members)) task_id item) items) (\<lambda>rows.
                Inr (Some rows))))))"

section \<open>Metrics of the applications\<close>

definition get_app_metrics :: "(string \<Rightarrow> string) \<Rightarrow> redis_client \<Rightarrow> (string \<times> string \<times> py list) list res" where
  "get_app_metrics canon rc =
     mapR (\<lambda>key.
       let parts = split_on (CHR '':'') key
       in bindR (load_members canon rc key) (\<lambda>data. Inr (parts ! (length parts - 1), parts ! (length parts - 2), data)))
       (rc_keys rc (redis_key APP [''*'']))"

end
