(* ===== verification/ReportFacts.thy ===== *)
theory ReportFacts
  imports ReportReader
begin

text \<open>
  What the report reader guarantees: the packets that it extends, the traffic it adds up, the information of
  the nodes as the monitors wrote it, and the dates of the tasks.
\<close>

section \<open>Joins\<close>

definition found :: "data_frame \<Rightarrow> string \<Rightarrow> cell \<Rightarrow> string \<Rightarrow> cell" where
  "found f key x c = (case find (\<lambda>r. key_eq (r key) x) (fr_rows f) of Some r \<Rightarrow> r c | None \<Rightarrow> NaN)"

definition unique_key :: "data_frame \<Rightarrow> string \<Rightarrow> bool" where
  "unique_key f key \<longleftrightarrow> (\<forall>x. length (filter (\<lambda>r. key_eq (r key) x) (fr_rows f)) \<le> 1)"

definition matching_rows :: "data_frame \<Rightarrow> string \<Rightarrow> cell \<Rightarrow> nat" where
  "matching_rows f key x = max 1 (length (filter (\<lambda>r. key_eq (r key) x) (fr_rows f)))"

text \<open>The lookup that the extension amounts to: what each packet gets from its two addresses.\<close>

definition annotate_packet :: "data_frame \<Rightarrow> data_frame \<Rightarrow> row \<Rightarrow> row" where
  "annotate_packet A V p =
     (let addr = (\<lambda>side c. found A ''address'' (p side) c); vip = (\<lambda>side. found V ''vip'' (p side) ''service'')
      in p(''src_task'' := addr ''src'' ''task'', ''dst_task'' := addr ''dst'' ''task'',
           ''src_service'' := fill_na (addr ''src'' ''service'') (vip ''src''),
           ''dst_service'' := fill_na (addr ''dst'' ''service'') (vip ''dst''),
           ''network'' := fill_na (addr ''src'' ''network'') (addr ''dst'' ''network'')))"

definition add_address :: "string \<Rightarrow> data_frame \<Rightarrow> row \<Rightarrow> row" where
  "add_address side A r =
     r(side @ ''_task'' := found A ''address'' (r side) ''task'',
       side @ ''_service'' := found A ''address'' (r side) ''service'',
       side @ ''_network'' := found A ''address'' (r side) ''network'')"

definition add_vip :: "string \<Rightarrow> data_frame \<Rightarrow> row \<Rightarrow> row" where
  "add_vip side V r = r(side @ ''_vip_service'' := found V ''vip'' (r side) ''service'')"

lemma filter_find: "filter p xs = [] \<longleftrightarrow> find p xs = None" "filter p xs = y # ys \<Longrightarrow> find p xs = Some y"
  by (induction xs) (auto split: if_splits)

lemma join_rows_unique:
  assumes "unique_key R rk"
  shows "join_rows R lk rk l =
    [case find (\<lambda>r. key_eq (r rk) (l lk)) (fr_rows R) of None \<Rightarrow> l | Some r \<Rightarrow> join_row (fr_cols R) l r]"
proof (cases "filter (\<lambda>r. key_eq (r rk) (l lk)) (fr_rows R)")
  case Nil
  then show ?thesis by (simp add: join_rows_def filter_find)
next
  case (Cons y ys)
  then have "ys = []" using assms by (auto simp: unique_key_def dest!: spec [of _ "l lk"])
  with Cons show ?thesis by (simp add: join_rows_def filter_find(2) [OF Cons])
qed

definition address_cols :: "string set" where
  "address_cols = {''task'', ''service'', ''address'', ''network''}"

definition vip_cols :: "string set" where
  "vip_cols = {''service'', ''network'', ''vip''}"

context pandas_laws
begin

lemma join_addresses_cols:
  assumes "set (fr_cols A) = address_cols" and "set (fr_cols f) \<inter> address_cols = {}" and "key \<in> set (fr_cols f)"
    and "side \<in> {''src'', ''dst''}"
  shows "set (fr_cols (join_addresses pd key side A f))
    = set (fr_cols f) \<union> {side @ ''_task'', side @ ''_service'', side @ ''_network''}"
proof -
  have m: "set (fr_cols (pd_merge pd f A key ''address'')) = set (fr_cols f) \<union> address_cols"
    using merge_cols [of f A key "''address''"] assms by (auto simp: address_cols_def)
  show ?thesis
    using assms(2,4) by (auto simp: join_addresses_def m address_cols_def)
qed

lemma join_vips_cols:
  assumes "set (fr_cols V) = vip_cols" and "set (fr_cols f) \<inter> vip_cols = {}" and "key \<in> set (fr_cols f)"
    and "side \<in> {''src'', ''dst''}"
  shows "set (fr_cols (join_vips pd key side V f)) = set (fr_cols f) \<union> {side @ ''_vip_service''}"
proof -
  have m: "set (fr_cols (pd_merge pd f V key ''vip'')) = set (fr_cols f) \<union> vip_cols"
    using merge_cols [of f V key "''vip''"] assms by (auto simp: vip_cols_def)
  show ?thesis
    using assms(2,4) by (auto simp: join_vips_def m vip_cols_def)
qed

lemma join_addresses_ok:
  assumes "frame_ok f" and "frame_ok A" and "set (fr_cols A) = address_cols"
    and "set (fr_cols f) \<inter> address_cols = {}" and "key \<in> set (fr_cols f)"
  shows "frame_ok (join_addresses pd key side A f)"
  unfolding join_addresses_def rename_cols_simps
  by (intro rename_col_ok drop_cols_ok merge_ok) (use assms in \<open>auto simp: address_cols_def\<close>)

lemma join_vips_ok:
  assumes "frame_ok f" and "frame_ok V" and "set (fr_cols V) = vip_cols"
    and "set (fr_cols f) \<inter> vip_cols = {}" and "key \<in> set (fr_cols f)"
  shows "frame_ok (join_vips pd key side V f)"
  unfolding join_vips_def rename_cols_simps
  by (intro rename_col_ok drop_cols_ok merge_ok) (use assms in \<open>auto simp: vip_cols_def\<close>)

lemma merge_rows_unique:
  assumes "frame_ok f" and "frame_ok R" and "set (fr_cols f) \<inter> set (fr_cols R) = {}"
    and "lk \<in> set (fr_cols f)" and "rk \<in> set (fr_cols R)" and "unique_key R rk"
  shows "mset (fr_rows (pd_merge pd f R lk rk)) = mset (map (\<lambda>l.
    case find (\<lambda>r. key_eq (r rk) (l lk)) (fr_rows R) of None \<Rightarrow> l | Some r \<Rightarrow> join_row (fr_cols R) l r) (fr_rows f))"
  unfolding merge_rows [OF assms(1-5)] join_rows_unique [OF assms(6)] by (simp add: concat_map_singleton)

lemma join_addresses_rows:
  assumes "frame_ok f" and "frame_ok A" and A: "set (fr_cols A) = address_cols"
    and f: "set (fr_cols f) \<inter> address_cols = {}" and "side \<in> set (fr_cols f)"
    and side: "side \<in> {''src'', ''dst''}" and "unique_key A ''address''"
  shows "mset (fr_rows (join_addresses pd side side A f)) = mset (map (add_address side A) (fr_rows f))"
proof -
  have dis: "set (fr_cols f) \<inter> set (fr_cols A) = {}" using f A by simp
  have key: "''address'' \<in> set (fr_cols A)" by (simp add: A address_cols_def)
  have cols: "set (fr_cols (pd_merge pd f A side ''address'')) = set (fr_cols f) \<union> address_cols"
    using merge_cols [OF dis assms(5) key] A by simp
  let ?joined = "\<lambda>l. case find (\<lambda>r. key_eq (r ''address'') (l side)) (fr_rows A) of None \<Rightarrow> l | Some r \<Rightarrow> join_row (fr_cols A) l r"
  define tidy where "tidy = (\<lambda>r c. if c = side @ ''_network'' then r ''network'' else if c = ''network'' then NaN
      else if c = side @ ''_service'' then r ''service'' else if c = ''service'' then NaN
      else if c = side @ ''_task'' then r ''task'' else if c = ''task'' then NaN
      else if c = ''address'' then NaN else r c :: cell)"
  have "fr_rows (join_addresses pd side side A f) = map tidy (fr_rows (pd_merge pd f A side ''address''))"
    using side by (auto simp: join_addresses_def cols address_cols_def tidy_def fun_eq_iff)
  then have "mset (fr_rows (join_addresses pd side side A f)) = mset (map (tidy \<circ> ?joined) (fr_rows f))"
    using merge_rows_unique [OF assms(1,2) dis assms(5) key assms(7)] by (simp add: image_mset.compositionality)
  also have "map (tidy \<circ> ?joined) (fr_rows f) = map (add_address side A) (fr_rows f)"
  proof (rule map_cong [OF refl])
    fix l assume "l \<in> set (fr_rows f)"
    then have l: "l c = NaN" if "c \<in> address_cols" for c
      using assms(1) f that by (auto simp: frame_ok_def)
    have ac: "c \<in> set (fr_cols A) \<longleftrightarrow> c \<in> {''task'', ''service'', ''address'', ''network''}" for c
      unfolding A address_cols_def ..
    show "(tidy \<circ> ?joined) l = add_address side A l"
    proof (cases "find (\<lambda>r. key_eq (r ''address'') (l side)) (fr_rows A)")
      case None
      then show ?thesis
        using l [of "''task''"] l [of "''service''"] l [of "''network''"] l [of "''address''"] side
        by (auto simp: tidy_def add_address_def found_def fun_eq_iff address_cols_def)
    next
      case (Some r)
      then show ?thesis
        using l [of "''task''"] l [of "''service''"] l [of "''network''"] l [of "''address''"] side
        by (auto simp: tidy_def add_address_def found_def fun_eq_iff address_cols_def join_row_def ac)
    qed
  qed
  finally show ?thesis .
qed

lemma join_vips_rows:
  assumes "frame_ok f" and "frame_ok V" and V: "set (fr_cols V) = vip_cols"
    and f: "set (fr_cols f) \<inter> vip_cols = {}" and "side \<in> set (fr_cols f)"
    and side: "side \<in> {''src'', ''dst''}" and "unique_key V ''vip''"
  shows "mset (fr_rows (join_vips pd side side V f)) = mset (map (add_vip side V) (fr_rows f))"
proof -
  have dis: "set (fr_cols f) \<inter> set (fr_cols V) = {}" using f V by simp
  have key: "''vip'' \<in> set (fr_cols V)" by (simp add: V vip_cols_def)
  have cols: "set (fr_cols (pd_merge pd f V side ''vip'')) = set (fr_cols f) \<union> vip_cols"
    using merge_cols [OF dis assms(5) key] V by simp
  let ?joined = "\<lambda>l. case find (\<lambda>r. key_eq (r ''vip'') (l side)) (fr_rows V) of None \<Rightarrow> l | Some r \<Rightarrow> join_row (fr_cols V) l r"
  define tidy where "tidy = (\<lambda>r c. if c = side @ ''_vip_service'' then r ''service'' else if c = ''service'' then NaN
      else if c \<in> {''vip'', ''network''} then NaN else r c :: cell)"
  have "fr_rows (join_vips pd side side V f) = map tidy (fr_rows (pd_merge pd f V side ''vip''))"
    using side by (auto simp: join_vips_def cols vip_cols_def tidy_def fun_eq_iff)
  then have "mset (fr_rows (join_vips pd side side V f)) = mset (map (tidy \<circ> ?joined) (fr_rows f))"
    using merge_rows_unique [OF assms(1,2) dis assms(5) key assms(7)] by (simp add: image_mset.compositionality)
  also have "map (tidy \<circ> ?joined) (fr_rows f) = map (add_vip side V) (fr_rows f)"
  proof (rule map_cong [OF refl])
    fix l assume "l \<in> set (fr_rows f)"
    then have l: "l c = NaN" if "c \<in> vip_cols" for c
      using assms(1) f that by (auto simp: frame_ok_def)
    have ac: "c \<in> set (fr_cols V) \<longleftrightarrow> c \<in> {''service'', ''network'', ''vip''}" for c
      unfolding V vip_cols_def ..
    show "(tidy \<circ> ?joined) l = add_vip side V l"
    proof (cases "find (\<lambda>r. key_eq (r ''vip'') (l side)) (fr_rows V)")
      case None
      then show ?thesis
        using l [of "''service''"] l [of "''network''"] l [of "''vip''"] side
        by (auto simp: tidy_def add_vip_def found_def fun_eq_iff vip_cols_def)
    next
      case (Some r)
      then show ?thesis
        using l [of "''service''"] l [of "''network''"] l [of "''vip''"] side
        by (auto simp: tidy_def add_vip_def found_def fun_eq_iff vip_cols_def join_row_def ac)
    qed
  qed
  finally show ?thesis .
qed

end

lemma filter_drop:
  "key \<notin> set cs \<Longrightarrow> length (filter (\<lambda>r. key_eq (r key) x) (fr_rows (drop_cols cs f)))
     = length (filter (\<lambda>r. key_eq (r key) x) (fr_rows f))"
  by (simp add: filter_map o_def)

lemma found_drop:
  "key \<notin> set cs \<Longrightarrow> c \<notin> set cs \<Longrightarrow> found (drop_cols cs f) key x c = found f key x c"
proof -
  assume key: "key \<notin> set cs" and c: "c \<notin> set cs"
  let ?g = "\<lambda>r c. if c \<in> set cs then NaN else r c"
  have "find (\<lambda>r. key_eq (r key) x) (map ?g rs) = map_option ?g (find (\<lambda>r. key_eq (r key) x) rs)" for rs
    using key by (induction rs) auto
  then show ?thesis using c by (simp add: found_def option.case_eq_if option.map_sel)
qed

lemma unique_key_drop: "key \<notin> set cs \<Longrightarrow> unique_key (drop_cols cs f) key = unique_key f key"
  unfolding unique_key_def filter_drop ..

text \<open>What the frames of the reader look like: their columns, and a packet frame that can be extended.\<close>

definition reserved_cols :: "string set" where
  "reserved_cols = {''task'', ''service'', ''address'', ''network'', ''vip'', ''src_task'', ''src_service'', ''src_network'',
     ''dst_task'', ''dst_service'', ''dst_network'', ''src_vip_service'', ''dst_vip_service''}"

definition packet_frame :: "data_frame \<Rightarrow> bool" where
  "packet_frame P \<longleftrightarrow> frame_ok P \<and> {''src'', ''dst''} \<subseteq> set (fr_cols P) \<and> set (fr_cols P) \<inter> reserved_cols = {}"

definition address_frame :: "data_frame \<Rightarrow> bool" where
  "address_frame A \<longleftrightarrow> frame_ok A
     \<and> set (fr_cols A) = {''date'', ''task'', ''service'', ''iface'', ''address'', ''network''}"

definition vip_frame :: "data_frame \<Rightarrow> bool" where
  "vip_frame V \<longleftrightarrow> frame_ok V \<and> set (fr_cols V) = {''date'', ''task'', ''service'', ''network'', ''vip''}"

lemma dropped_frames:
  "address_frame A \<Longrightarrow> frame_ok (drop_cols [''iface'', ''date''] A) \<and> set (fr_cols (drop_cols [''iface'', ''date''] A)) = address_cols"
  "vip_frame V \<Longrightarrow> frame_ok (drop_cols [''date'', ''task''] V) \<and> set (fr_cols (drop_cols [''date'', ''task''] V)) = vip_cols"
  by (auto simp: address_frame_def vip_frame_def address_cols_def vip_cols_def intro!: drop_cols_ok)

context pandas_laws
begin

lemma extend_stages:
  assumes P: "packet_frame P" and A: "address_frame A" and V: "vip_frame V"
  obtains A' V' f1 f2 f3 f4 where
    "A' = drop_cols [''iface'', ''date''] A" "frame_ok A'" "set (fr_cols A') = address_cols"
    "V' = drop_cols [''date'', ''task''] V" "frame_ok V'" "set (fr_cols V') = vip_cols"
    "f1 = join_addresses pd ''src'' ''src'' A' P" "f2 = join_addresses pd ''dst'' ''dst'' A' f1"
    "f3 = join_vips pd ''src'' ''src'' V' f2" "f4 = join_vips pd ''dst'' ''dst'' V' f3"
    "frame_ok P" "set (fr_cols P) \<inter> address_cols = {}" "''src'' \<in> set (fr_cols P)"
    "frame_ok f1" "set (fr_cols f1) \<inter> address_cols = {}" "''dst'' \<in> set (fr_cols f1)"
    "frame_ok f2" "set (fr_cols f2) \<inter> vip_cols = {}" "''src'' \<in> set (fr_cols f2)"
    "frame_ok f3" "set (fr_cols f3) \<inter> vip_cols = {}" "''dst'' \<in> set (fr_cols f3)"
    "set (fr_cols f4) = set (fr_cols P) \<union> {''src_task'', ''src_service'', ''src_network'', ''dst_task'', ''dst_service'',
       ''dst_network'', ''src_vip_service'', ''dst_vip_service''}"
proof -
  define A' V' where "A' = drop_cols [''iface'', ''date''] A" and "V' = drop_cols [''date'', ''task''] V"
  have A': "frame_ok A'" "set (fr_cols A') = address_cols"
    and V': "frame_ok V'" "set (fr_cols V') = vip_cols"
    using dropped_frames(1) [OF A] dropped_frames(2) [OF V] by (simp_all add: A'_def V'_def)
  define f1 where "f1 = join_addresses pd ''src'' ''src'' A' P"
  define f2 where "f2 = join_addresses pd ''dst'' ''dst'' A' f1"
  define f3 where "f3 = join_vips pd ''src'' ''src'' V' f2"
  define f4 where "f4 = join_vips pd ''dst'' ''dst'' V' f3"
  have c0: "frame_ok P" "set (fr_cols P) \<inter> address_cols = {}" "''src'' \<in> set (fr_cols P)"
    using P by (auto simp: packet_frame_def address_cols_def reserved_cols_def)
  have c1: "set (fr_cols f1) = set (fr_cols P) \<union> {''src_task'', ''src_service'', ''src_network''}" "frame_ok f1"
    using join_addresses_cols [OF A'(2) c0(2,3), of "''src''"] join_addresses_ok [OF c0(1) A' c0(2,3)]
    by (simp_all add: f1_def)
  have d1: "set (fr_cols f1) \<inter> address_cols = {}" "''dst'' \<in> set (fr_cols f1)"
    using P unfolding c1 by (auto simp: packet_frame_def address_cols_def reserved_cols_def)
  have c2: "set (fr_cols f2) = set (fr_cols P) \<union> {''src_task'', ''src_service'', ''src_network'', ''dst_task'', ''dst_service'', ''dst_network''}"
    "frame_ok f2"
    using join_addresses_cols [OF A'(2) d1, of "''dst''"] join_addresses_ok [OF c1(2) A' d1]
    by (auto simp: f2_def c1(1))
  have d2: "set (fr_cols f2) \<inter> vip_cols = {}" "''src'' \<in> set (fr_cols f2)"
    using P unfolding c2 by (auto simp: packet_frame_def vip_cols_def reserved_cols_def)
  have c3: "set (fr_cols f3) = set (fr_cols f2) \<union> {''src_vip_service''}" "frame_ok f3"
    using join_vips_cols [OF V'(2) d2, of "''src''"] join_vips_ok [OF c2(2) V' d2] by (simp_all add: f3_def)
  have d3: "set (fr_cols f3) \<inter> vip_cols = {}" "''dst'' \<in> set (fr_cols f3)"
    using P unfolding c3 c2 by (auto simp: packet_frame_def vip_cols_def reserved_cols_def)
  have c4: "set (fr_cols f4) = set (fr_cols f3) \<union> {''dst_vip_service''}"
    using join_vips_cols [OF V'(2) d3, of "''dst''"] by (simp add: f4_def)
  show thesis
    by (rule that [OF A'_def A' V'_def V' f1_def f2_def f3_def f4_def c0 c1(2) d1 c2(2) d2 c3(2) d3])
      (auto simp: c4 c3 c2)
qed

lemma extend_unique:
  assumes P: "packet_frame P" and A: "address_frame A" and V: "vip_frame V"
    and uA: "unique_key A ''address''" and uV: "unique_key V ''vip''"
  shows "mset (fr_rows (extend_packets pd P A V)) = mset (map (annotate_packet A V) (fr_rows P))"
proof -
  obtain A' V' f1 f2 f3 f4 where A'_def: "A' = drop_cols [''iface'', ''date''] A"
    and A': "frame_ok A'" "set (fr_cols A') = address_cols" and V'_def: "V' = drop_cols [''date'', ''task''] V"
    and V': "frame_ok V'" "set (fr_cols V') = vip_cols"
    and stages: "f1 = join_addresses pd ''src'' ''src'' A' P" "f2 = join_addresses pd ''dst'' ''dst'' A' f1"
      "f3 = join_vips pd ''src'' ''src'' V' f2" "f4 = join_vips pd ''dst'' ''dst'' V' f3"
    and s0: "frame_ok P" "set (fr_cols P) \<inter> address_cols = {}" "''src'' \<in> set (fr_cols P)"
    and s1: "frame_ok f1" "set (fr_cols f1) \<inter> address_cols = {}" "''dst'' \<in> set (fr_cols f1)"
    and s2: "frame_ok f2" "set (fr_cols f2) \<inter> vip_cols = {}" "''src'' \<in> set (fr_cols f2)"
    and s3: "frame_ok f3" "set (fr_cols f3) \<inter> vip_cols = {}" "''dst'' \<in> set (fr_cols f3)"
    by (rule extend_stages [OF P A V])
  have u: "unique_key A' ''address''" "unique_key V' ''vip''"
    using uA uV by (simp_all add: A'_def V'_def unique_key_drop)
  have r1: "mset (fr_rows f1) = image_mset (add_address ''src'' A') (mset (fr_rows P))"
    unfolding stages(1) using join_addresses_rows [OF s0(1) A' s0(2,3) _ u(1)] by simp
  have r2: "mset (fr_rows f2) = image_mset (add_address ''dst'' A') (mset (fr_rows f1))"
    unfolding stages(2) using join_addresses_rows [OF s1(1) A' s1(2,3) _ u(1)] by simp
  have r3: "mset (fr_rows f3) = image_mset (add_vip ''src'' V') (mset (fr_rows f2))"
    unfolding stages(3) using join_vips_rows [OF s2(1) V' s2(2,3) _ u(2)] by simp
  have r4: "mset (fr_rows f4) = image_mset (add_vip ''dst'' V') (mset (fr_rows f3))"
    unfolding stages(4) using join_vips_rows [OF s3(1) V' s3(2,3) _ u(2)] by simp
  define tidy where "tidy = (\<lambda>r c. if c \<in> {''src_vip_service'', ''dst_vip_service'', ''src_network'', ''dst_network''} then NaN
      else (r(''src_service'' := fill_na (r ''src_service'') (r ''src_vip_service''),
              ''dst_service'' := fill_na (r ''dst_service'') (r ''dst_vip_service''),
              ''network'' := fill_na (r ''src_network'') (r ''dst_network''))) c)"
  have "fr_rows (extend_packets pd P A V) = map tidy (fr_rows f4)"
    by (simp add: extend_packets_def stages A'_def V'_def tidy_def fun_eq_iff Let_def)
  then have "mset (fr_rows (extend_packets pd P A V))
      = image_mset (\<lambda>r. tidy (add_vip ''dst'' V' (add_vip ''src'' V' (add_address ''dst'' A' (add_address ''src'' A' r))))) (mset (fr_rows P))"
    by (simp add: r1 r2 r3 r4 image_mset.compositionality o_def)
  also have "\<dots> = image_mset (annotate_packet A V) (mset (fr_rows P))"
  proof (rule image_mset_cong)
    fix p assume "p \<in># mset (fr_rows P)"
    then have p: "p c = NaN" if "c \<in> reserved_cols" for c
      using P that by (auto simp: packet_frame_def frame_ok_def)
    have "p ''src_vip_service'' = NaN" "p ''dst_vip_service'' = NaN" "p ''src_network'' = NaN" "p ''dst_network'' = NaN"
      by (auto intro!: p simp: reserved_cols_def)
    moreover have "found A' ''address'' x c = found A ''address'' x c" if "c \<in> {''task'', ''service'', ''network''}" for x c
      unfolding A'_def by (rule found_drop) (use that in auto)
    moreover have "found V' ''vip'' x ''service'' = found V ''vip'' x ''service''" for x
      unfolding V'_def by (rule found_drop) auto
    ultimately show "tidy (add_vip ''dst'' V' (add_vip ''src'' V' (add_address ''dst'' A' (add_address ''src'' A' p)))) = annotate_packet A V p"
      by (auto simp: tidy_def annotate_packet_def add_vip_def add_address_def fun_eq_iff Let_def)
  qed
  finally show ?thesis by simp
qed

end

text \<open>Quantities of a row that none of the joined columns has a part in, such as its length.\<close>

definition sort_stable :: "(row \<Rightarrow> real) \<Rightarrow> bool" where
  "sort_stable h \<longleftrightarrow> (\<forall>r r'. (\<forall>c. c \<notin> reserved_cols \<longrightarrow> r c = r' c) \<longrightarrow> h r = h r')"

lemma stableD: "sort_stable h \<Longrightarrow> (\<And>c. c \<notin> reserved_cols \<Longrightarrow> r c = r' c) \<Longrightarrow> h r = h r'"
  unfolding sort_stable_def by blast

lemma stable_times: "sort_stable h \<Longrightarrow> key \<notin> reserved_cols \<Longrightarrow> sort_stable (\<lambda>r. g (r key) * h r)"
  unfolding sort_stable_def by metis

lemma sum_concat: "(\<Sum>x\<leftarrow>concat (map g xs). h x :: real) = (\<Sum>y\<leftarrow>xs. \<Sum>x\<leftarrow>g y. h x)"
  by (induction xs) simp_all

lemma join_rows_weight:
  assumes "sort_stable h" and "set (fr_cols R) \<subseteq> reserved_cols"
  shows "(\<Sum>r\<leftarrow>join_rows R lk rk l. h r) = real (matching_rows R rk (l lk)) * h l"
proof -
  have "h (join_row (fr_cols R) l r) = h l" for r
    using assms(1) by (rule stableD) (use assms(2) in \<open>auto simp: join_row_def\<close>)
  then show ?thesis
    by (auto simp: join_rows_def Let_def matching_rows_def o_def sum_list_triv max_def Suc_le_eq)
qed

context pandas_laws
begin

lemma merge_weight:
  assumes "frame_ok f" and "frame_ok R" and "set (fr_cols f) \<inter> set (fr_cols R) = {}"
    and "lk \<in> set (fr_cols f)" and "rk \<in> set (fr_cols R)" and "sort_stable h" and "set (fr_cols R) \<subseteq> reserved_cols"
  shows "(\<Sum>r\<leftarrow>fr_rows (pd_merge pd f R lk rk). h r) = (\<Sum>l\<leftarrow>fr_rows f. real (matching_rows R rk (l lk)) * h l)"
proof -
  have "(\<Sum>r\<leftarrow>fr_rows (pd_merge pd f R lk rk). h r) = sum_mset (image_mset h (mset (fr_rows (pd_merge pd f R lk rk))))"
    by (metis mset_map sum_mset_sum_list)
  also have "\<dots> = (\<Sum>r\<leftarrow>concat (map (join_rows R lk rk) (fr_rows f)). h r)"
    unfolding merge_rows [OF assms(1-5)] by (metis mset_map sum_mset_sum_list)
  also have "\<dots> = (\<Sum>l\<leftarrow>fr_rows f. \<Sum>r\<leftarrow>join_rows R lk rk l. h r)"
    by (rule sum_concat)
  also have "\<dots> = (\<Sum>l\<leftarrow>fr_rows f. real (matching_rows R rk (l lk)) * h l)"
    unfolding join_rows_weight [OF assms(6,7)] ..
  finally show ?thesis .
qed

lemma join_addresses_weight:
  assumes "frame_ok f" and "frame_ok A" and A: "set (fr_cols A) = address_cols"
    and f: "set (fr_cols f) \<inter> address_cols = {}" and "side \<in> set (fr_cols f)"
    and side: "side \<in> {''src'', ''dst''}" and h: "sort_stable h"
  shows "(\<Sum>r\<leftarrow>fr_rows (join_addresses pd side side A f). h r)
    = (\<Sum>l\<leftarrow>fr_rows f. real (matching_rows A ''address'' (l side)) * h l)"
proof -
  have dis: "set (fr_cols f) \<inter> set (fr_cols A) = {}" using f A by simp
  have key: "''address'' \<in> set (fr_cols A)" by (simp add: A address_cols_def)
  have cols: "set (fr_cols (pd_merge pd f A side ''address'')) = set (fr_cols f) \<union> address_cols"
    using merge_cols [OF dis assms(5) key] A by simp
  have "(\<Sum>r\<leftarrow>fr_rows (join_addresses pd side side A f). h r) = (\<Sum>r\<leftarrow>fr_rows (pd_merge pd f A side ''address''). h r)"
    using side by (auto simp: join_addresses_def cols address_cols_def o_def reserved_cols_def
        intro!: arg_cong [where f = sum_list] map_cong stableD [OF h])
  also have "\<dots> = (\<Sum>l\<leftarrow>fr_rows f. real (matching_rows A ''address'' (l side)) * h l)"
    by (rule merge_weight [OF assms(1,2) dis assms(5) key h]) (auto simp: A address_cols_def reserved_cols_def)
  finally show ?thesis .
qed

lemma join_vips_weight:
  assumes "frame_ok f" and "frame_ok V" and V: "set (fr_cols V) = vip_cols"
    and f: "set (fr_cols f) \<inter> vip_cols = {}" and "side \<in> set (fr_cols f)"
    and side: "side \<in> {''src'', ''dst''}" and h: "sort_stable h"
  shows "(\<Sum>r\<leftarrow>fr_rows (join_vips pd side side V f). h r)
    = (\<Sum>l\<leftarrow>fr_rows f. real (matching_rows V ''vip'' (l side)) * h l)"
proof -
  have dis: "set (fr_cols f) \<inter> set (fr_cols V) = {}" using f V by simp
  have key: "''vip'' \<in> set (fr_cols V)" by (simp add: V vip_cols_def)
  have cols: "set (fr_cols (pd_merge pd f V side ''vip'')) = set (fr_cols f) \<union> vip_cols"
    using merge_cols [OF dis assms(5) key] V by simp
  have "(\<Sum>r\<leftarrow>fr_rows (join_vips pd side side V f). h r) = (\<Sum>r\<leftarrow>fr_rows (pd_merge pd f V side ''vip''). h r)"
    using side by (auto simp: join_vips_def cols vip_cols_def o_def reserved_cols_def
        intro!: arg_cong [where f = sum_list] map_cong stableD [OF h])
  also have "\<dots> = (\<Sum>l\<leftarrow>fr_rows f. real (matching_rows V ''vip'' (l side)) * h l)"
    by (rule merge_weight [OF assms(1,2) dis assms(5) key h]) (auto simp: V vip_cols_def reserved_cols_def)
  finally show ?thesis .
qed

lemma extend_weight:
  assumes P: "packet_frame P" and A: "address_frame A" and V: "vip_frame V" and h: "sort_stable h"
  shows "(\<Sum>r\<leftarrow>fr_rows (extend_packets pd P A V). h r)
    = (\<Sum>p\<leftarrow>fr_rows P. real (matching_rows A ''address'' (p ''src'')) * (real (matching_rows A ''address'' (p ''dst''))
        * (real (matching_rows V ''vip'' (p ''src'')) * (real (matching_rows V ''vip'' (p ''dst'')) * h p))))"
proof -
  obtain A' V' f1 f2 f3 f4 where A'_def: "A' = drop_cols [''iface'', ''date''] A"
    and A': "frame_ok A'" "set (fr_cols A') = address_cols" and V'_def: "V' = drop_cols [''date'', ''task''] V"
    and V': "frame_ok V'" "set (fr_cols V') = vip_cols"
    and stages: "f1 = join_addresses pd ''src'' ''src'' A' P" "f2 = join_addresses pd ''dst'' ''dst'' A' f1"
      "f3 = join_vips pd ''src'' ''src'' V' f2" "f4 = join_vips pd ''dst'' ''dst'' V' f3"
    and s0: "frame_ok P" "set (fr_cols P) \<inter> address_cols = {}" "''src'' \<in> set (fr_cols P)"
    and s1: "frame_ok f1" "set (fr_cols f1) \<inter> address_cols = {}" "''dst'' \<in> set (fr_cols f1)"
    and s2: "frame_ok f2" "set (fr_cols f2) \<inter> vip_cols = {}" "''src'' \<in> set (fr_cols f2)"
    and s3: "frame_ok f3" "set (fr_cols f3) \<inter> vip_cols = {}" "''dst'' \<in> set (fr_cols f3)"
    by (rule extend_stages [OF P A V])
  have m: "matching_rows A' ''address'' x = matching_rows A ''address'' x" "matching_rows V' ''vip'' x = matching_rows V ''vip'' x" for x
    by (simp_all add: matching_rows_def A'_def V'_def filter_drop del: drop_cols_simps)
  have ends: "''src'' \<notin> reserved_cols" "''dst'' \<notin> reserved_cols" by (auto simp: reserved_cols_def)
  have h4: "sort_stable (\<lambda>r. real (matching_rows V ''vip'' (r ''dst'')) * h r)" by (rule stable_times [OF h ends(2)])
  have h3: "sort_stable (\<lambda>r. real (matching_rows V ''vip'' (r ''src'')) * (real (matching_rows V ''vip'' (r ''dst'')) * h r))"
    by (rule stable_times [OF h4 ends(1)])
  have h2: "sort_stable (\<lambda>r. real (matching_rows A ''address'' (r ''dst'')) * (real (matching_rows V ''vip'' (r ''src''))
      * (real (matching_rows V ''vip'' (r ''dst'')) * h r)))"
    by (rule stable_times [OF h3 ends(2)])
  have "(\<Sum>r\<leftarrow>fr_rows (extend_packets pd P A V). h r) = (\<Sum>r\<leftarrow>fr_rows f4. h r)"
    by (auto simp: extend_packets_def stages A'_def V'_def Let_def o_def reserved_cols_def
        intro!: arg_cong [where f = sum_list] map_cong stableD [OF h])
  also have "\<dots> = (\<Sum>r\<leftarrow>fr_rows f3. real (matching_rows V ''vip'' (r ''dst'')) * h r)"
    unfolding stages(4) using join_vips_weight [OF s3(1) V' s3(2,3) _ h] by (simp add: m)
  also have "\<dots> = (\<Sum>r\<leftarrow>fr_rows f2. real (matching_rows V ''vip'' (r ''src'')) * (real (matching_rows V ''vip'' (r ''dst'')) * h r))"
    unfolding stages(3) using join_vips_weight [OF s2(1) V' s2(2,3) _ h4] by (simp add: m)
  also have "\<dots> = (\<Sum>r\<leftarrow>fr_rows f1. real (matching_rows A ''address'' (r ''dst'')) * (real (matching_rows V ''vip'' (r ''src''))
      * (real (matching_rows V ''vip'' (r ''dst'')) * h r)))"
    unfolding stages(2) using join_addresses_weight [OF s1(1) A' s1(2,3) _ h3] by (simp add: m)
  also have "\<dots> = (\<Sum>p\<leftarrow>fr_rows P. real (matching_rows A ''address'' (p ''src'')) * (real (matching_rows A ''address'' (p ''dst''))
        * (real (matching_rows V ''vip'' (p ''src'')) * (real (matching_rows V ''vip'' (p ''dst'')) * h p))))"
    unfolding stages(1) using join_addresses_weight [OF s0(1) A' s0(2,3) _ h2] by (simp add: m)
  finally show ?thesis .
qed

end

section \<open>The frames of the reader\<close>

lemma concatR_origin: "concatR f xs = Inr ys \<Longrightarrow> y \<in> set ys \<Longrightarrow> \<exists>x\<in>set xs. \<exists>zs. f x = Inr zs \<and> y \<in> set zs"
  by (fastforce simp: concatR_def bindR_eq_Inr dest: mapR_origin)

lemma info_rows_origin:
  assumes "info_rows canon fl rc row tasks = Inr rs" and "r \<in> set rs"
  obtains task info zs where "row task info = Inr zs" "r \<in> set zs" "task \<in> set tasks"
  using assms unfolding info_rows_def by (fastforce simp: bindR_eq_Inr dest!: concatR_origin)

definition row_keys :: "string set \<Rightarrow> (string \<times> cell) list \<Rightarrow> bool" where
  "row_keys K r \<longleftrightarrow> fst ` set r = K"

lemma address_row_keys:
  "info_address_rows fl na task info = Inr rs \<Longrightarrow> r \<in> set rs
     \<Longrightarrow> row_keys {''date'', ''task'', ''service'', ''iface'', ''address'', ''network''} r"
  unfolding info_address_rows_def
  by (force simp: bindR_eq_Inr address_row_def row_keys_def split: if_splits dest!: concatR_origin)

lemma vip_row_keys:
  "info_vip_rows fl task info = Inr rs \<Longrightarrow> r \<in> set rs
     \<Longrightarrow> row_keys {''date'', ''task'', ''service'', ''network'', ''vip''} r"
  unfolding info_vip_rows_def by (force simp: bindR_eq_Inr row_keys_def dest!: mapR_origin)

lemma frame_of_row_keys:
  assumes "\<And>r. r \<in> set rs \<Longrightarrow> row_keys K r" and "set_index (frame_of rs) cs = Inr f" and "cs \<noteq> []"
  shows "f = frame_of rs" and "frame_ok f" and "set (fr_cols f) = K"
proof -
  show f: "f = frame_of rs" using assms(2) by (simp add: set_index_eq)
  show "frame_ok f" by (simp add: f frame_of_ok)
  have "hd cs \<in> set (fr_cols (frame_of rs))" using assms(2,3) by (auto simp: set_index_eq)
  then have "rs \<noteq> []" by (auto simp: frame_of_cols)
  then show "set (fr_cols f) = K"
    using assms(1) by (fastforce simp: f frame_of_cols row_keys_def)
qed

lemma address_df_frame:
  assumes "get_address_df canon fl so na rc tasks = Inr A"
  shows "address_frame A"
proof -
  obtain rs where rs: "info_rows canon fl rc (info_address_rows fl na) (tasks_or_all so rc tasks) = Inr rs"
    and A: "set_index (frame_of rs) [''date'', ''task'', ''iface''] = Inr A"
    using assms by (auto simp: get_address_df_def bindR_eq_Inr)
  have "row_keys {''date'', ''task'', ''service'', ''iface'', ''address'', ''network''} r" if "r \<in> set rs" for r
    using info_rows_origin [OF rs that] address_row_keys by metis
  from frame_of_row_keys(2,3) [OF this A] show ?thesis by (simp add: address_frame_def)
qed

lemma vip_df_frame:
  assumes "get_service_vip_df canon fl so rc tasks = Inr V"
  shows "vip_frame V"
proof -
  obtain rs where rs: "info_rows canon fl rc (info_vip_rows fl) (tasks_or_all so rc tasks) = Inr rs"
    and V: "set_index (frame_of rs) [''date'', ''task'', ''network''] = Inr V"
    using assms by (auto simp: get_service_vip_df_def bindR_eq_Inr)
  have "row_keys {''date'', ''task'', ''service'', ''network'', ''vip''} r" if "r \<in> set rs" for r
    using info_rows_origin [OF rs that] vip_row_keys by metis
  from frame_of_row_keys(2,3) [OF this V] show ?thesis by (simp add: vip_frame_def)
qed

text \<open>A node without a virtual address in the whole stack makes the frame impossible to index.\<close>

lemma no_vips_no_frame:
  "info_rows canon fl rc (info_vip_rows fl) (tasks_or_all so rc tasks) = Inr [] \<Longrightarrow>
     get_service_vip_df canon fl so rc tasks = Inl (KeyError ''date'')"
  by (simp add: get_service_vip_df_def set_index_def frame_of_def)

context pandas_laws
begin

lemma extend_cols:
  assumes "packet_frame P" and "address_frame A" and "vip_frame V"
  shows "set (fr_cols (extend_packets pd P A V)) =
    set (fr_cols P) \<union> {''src_task'', ''src_service'', ''dst_task'', ''dst_service'', ''network''}"
proof -
  obtain A' V' f1 f2 f3 f4 where stages: "A' = drop_cols [''iface'', ''date''] A" "V' = drop_cols [''date'', ''task''] V"
      "f1 = join_addresses pd ''src'' ''src'' A' P" "f2 = join_addresses pd ''dst'' ''dst'' A' f1"
      "f3 = join_vips pd ''src'' ''src'' V' f2" "f4 = join_vips pd ''dst'' ''dst'' V' f3"
    and c4: "set (fr_cols f4) = set (fr_cols P) \<union> {''src_task'', ''src_service'', ''src_network'', ''dst_task'', ''dst_service'',
       ''dst_network'', ''src_vip_service'', ''dst_vip_service''}"
    by (rule extend_stages [OF assms])
  have "''src_network'' \<notin> set (fr_cols P)" "''dst_network'' \<notin> set (fr_cols P)"
    "''src_vip_service'' \<notin> set (fr_cols P)" "''dst_vip_service'' \<notin> set (fr_cols P)"
    using assms(1) by (auto simp: packet_frame_def reserved_cols_def)
  then show ?thesis by (auto simp: extend_packets_def stages [symmetric] c4 Let_def)
qed

lemma extend_df_eq:
  assumes "get_address_df canon fl so na rc [] = Inr A" and "get_service_vip_df canon fl so rc [] = Inr V"
    and "packet_frame P" and "{''date'', ''iface''} \<subseteq> set (fr_cols P)"
  shows "extend_packet_df canon fl so na pd rc P None None = Inr (extend_packets pd P A V)"
proof -
  have "set (fr_cols (extend_packets pd P A V)) \<supseteq> {''date'', ''iface''}"
    using extend_cols [OF assms(3) address_df_frame [OF assms(1)] vip_df_frame [OF assms(2)]] assms(4) by auto
  moreover have "need_cols P [''src'', ''dst''] = Inr ()"
    using assms(3) by (auto simp: need_cols_ok packet_frame_def)
  ultimately show ?thesis
    by (simp add: extend_packet_df_def frame_or_def assms(1,2) set_index_eq)
qed

end

section \<open>Extended packets\<close>

text \<open>
  C6. When every address and every virtual address is known once, the four joins of a packet frame amount to a
  lookup for each packet: no packet is lost or repeated, its task, service and network are those of the node
  with its address, and the service of a virtual address is taken where the address is of no node.
\<close>

theorem packets_extended_by_lookup:
  assumes "pandas_laws fl pd"
    and "get_address_df canon fl so na rc [] = Inr A" and "get_service_vip_df canon fl so rc [] = Inr V"
    and "packet_frame P" and "{''date'', ''iface''} \<subseteq> set (fr_cols P)"
    and "unique_key A ''address''" and "unique_key V ''vip''"
  shows "\<exists>G. extend_packet_df canon fl so na pd rc P None None = Inr G
    \<and> mset (fr_rows G) = mset (map (annotate_packet A V) (fr_rows P))"
  using pandas_laws.extend_df_eq [OF assms(1-5)]
    pandas_laws.extend_unique [OF assms(1,4) address_df_frame [OF assms(2)] vip_df_frame [OF assms(3)] assms(6,7)]
  by blast

text \<open>
  In general a packet is repeated once for each pair of node informations with its addresses, and again for
  the virtual addresses: the traffic of the extended frame weighs every packet with the number of times
  that its addresses are known. A node that wrote its information twice with the same address, as after a
  restart of its monitor, has its traffic counted twice.
\<close>

theorem traffic_weighed_by_addresses:
  assumes "pandas_laws fl pd"
    and "get_address_df canon fl so na rc [] = Inr A" and "get_service_vip_df canon fl so rc [] = Inr V"
    and "packet_frame P" and "{''date'', ''iface''} \<subseteq> set (fr_cols P)"
  shows "\<exists>G. extend_packet_df canon fl so na pd rc P None None = Inr G
    \<and> (\<Sum>r\<leftarrow>fr_rows G. cell_num fl (r ''len'')) =
      (\<Sum>p\<leftarrow>fr_rows P. real (matching_rows A ''address'' (p ''src'')) * (real (matching_rows A ''address'' (p ''dst''))
        * (real (matching_rows V ''vip'' (p ''src'')) * (real (matching_rows V ''vip'' (p ''dst'')) * cell_num fl (p ''len'')))))"
proof -
  have "sort_stable (\<lambda>r. cell_num fl (r ''len''))" by (simp add: sort_stable_def reserved_cols_def)
  from pandas_laws.extend_weight [OF assms(1,4) address_df_frame [OF assms(2)] vip_df_frame [OF assms(3)] this]
  show ?thesis using pandas_laws.extend_df_eq [OF assms(1-5)] by blast
qed

text \<open>A client that holds printed dictionaries under its keys.\<close>

definition printed_client :: "(string \<times> (real \<times> py dict) list) list \<Rightarrow> redis_client" where
  "printed_client store =
     \<lparr>rc_zrange = (\<lambda>k. case map_of store k of None \<Rightarrow> [] | Some ds \<Rightarrow> map (\<lambda>(t, d). (json_dumps (PDict d), t)) ds),
      rc_keys = (\<lambda>pat. filter (glob pat) (map fst store))\<rparr>"

lemma mapR_map: "mapR f (map h xs) = mapR (\<lambda>x. f (h x)) xs"
  by (induction xs) simp_all

lemma load_printed:
  assumes "\<And>t d. (t, d) \<in> set ds \<Longrightarrow> json_ok canon (PDict d)" and "map_of store k = Some ds"
  shows "load_members canon (printed_client store) k = Inr (map (\<lambda>(t, d). PDict d) ds)"
proof -
  have "load_member canon (fst (case x of (t, d) \<Rightarrow> (json_dumps (PDict d), t))) = Inr (case x of (t, d) \<Rightarrow> PDict d)"
    if "x \<in> set ds" for x
  proof -
    obtain t d where x: "x = (t, d)" by (cases x)
    then have "json_ok canon (PDict d)" using assms(1) that by blast
    from json_loads_dumps [OF this] show ?thesis unfolding x load_member_def by (simp del: json_dumps.simps)
  qed
  then have "mapR (\<lambda>p. load_member canon (fst p)) (map (\<lambda>(t, d). (json_dumps (PDict d), t)) ds)
      = Inr (map (\<lambda>(t, d). PDict d) ds)"
    unfolding mapR_map by (rule mapR_total)
  with assms(2) show ?thesis by (simp add: load_members_def printed_client_def del: json_dumps.simps)
qed

definition demo_info :: "int \<Rightarrow> string \<Rightarrow> py dict" where
  "demo_info t addr =
     [(''net'', PDict [(''eth0'', PList [PDict [(''family'', PInt 2), (''address'', PStr addr)]])]),
      (''env'', PDict [(''SERVICE_NAME'', PStr ''camera'')]),
      (''networks_cidr'', PDict [(''edge'', PList [PStr ''10.0.0.0/24''])]),
      (''service_vips'', PDict [(''edge'', PStr ''10.0.0.9'')]), (''time'', PInt t)]"

definition demo_netaddr :: "string netaddr" where
  "demo_netaddr = \<lparr>na_parse = (\<lambda>v. case v of PStr s \<Rightarrow> Inr s | _ \<Rightarrow> Inl TypeError),
     na_has = (\<lambda>cidr ip. Inr (cidr = PStr ''10.0.0.0/24'' \<and> take 7 ip = ''10.0.0.''))\<rparr>"

definition demo_packet :: "py dict" where
  "demo_packet = [(''src'', PStr ''10.0.0.2''), (''dst'', PStr ''10.0.0.9''), (''len'', PInt 100), (''time'', PInt 7)]"

definition demo_reports :: "int list \<Rightarrow> redis_client" where
  "demo_reports ts =
     printed_client [(''wotemu:info:cam'', map (\<lambda>t. (real_of_int t, demo_info t ''10.0.0.2'')) ts),
       (''wotemu:packet:eth0:cam'', [(7, demo_packet)])]"

definition demo_packets :: data_frame where
  "demo_packets = set_col ''iface'' (\<lambda>r. Val (PStr ''eth0'')) (frame_of [[(''src'', Val (PStr ''10.0.0.2'')),
     (''dst'', Val (PStr ''10.0.0.9'')), (''len'', Val (PInt 100)), (''time'', Val (PInt 7)), (''date'', Date 7)]])"

definition demo_report_floats :: floats where
  "demo_report_floats = \<lparr>fl_val = (\<lambda>s. 0), fl_repr = (\<lambda>x. ''0.0'')\<rparr>"

lemma demo_info_ok: "json_ok canon (PDict (demo_info t addr))"
  by (simp add: demo_info_def dict_ok_def)

lemma demo_get_info:
  "get_info canon fl (demo_reports [t]) ''cam'' = Inr [PDict (demo_info t ''10.0.0.2'')]"
  "get_info canon fl (demo_reports [1, 2]) ''cam'' = Inr [PDict (demo_info 1 ''10.0.0.2''), PDict (demo_info 2 ''10.0.0.2'')]"
proof -
  have load: "load_members canon (demo_reports ts) (redis_key INFO [''cam'']) = Inr (map (\<lambda>t. PDict (demo_info t ''10.0.0.2'')) ts)" for ts
    unfolding demo_reports_def
    by (subst load_printed [where ds = "map (\<lambda>t. (real_of_int t, demo_info t ''10.0.0.2'')) ts"])
      (auto simp: demo_info_ok redis_key_simps simp del: json_ok.simps)
  have time: "time_of fl (PDict (demo_info t a)) = Inr (real_of_int t)" for t a
    by (simp add: time_of_def demo_info_def dict_index_def dget_Cons)
  show "get_info canon fl (demo_reports [t]) ''cam'' = Inr [PDict (demo_info t ''10.0.0.2'')]"
    "get_info canon fl (demo_reports [1, 2]) ''cam'' = Inr [PDict (demo_info 1 ''10.0.0.2''), PDict (demo_info 2 ''10.0.0.2'')]"
    by (simp_all add: get_info_def load time)
qed

lemma demo_tasks: "get_tasks (\<lambda>xs. xs) (demo_reports ts) = [''cam'']"
  by (simp add: get_tasks_def demo_reports_def printed_client_def redis_key_def)

lemma demo_rows:
  "info_address_rows demo_report_floats demo_netaddr ''cam'' (PDict (demo_info t ''10.0.0.2'')) =
     Inr [[(''date'', Date (of_int t)), (''task'', Val (PStr ''cam'')), (''service'', Val (PStr ''camera'')),
           (''iface'', Val (PStr ''eth0'')), (''address'', Val (PStr ''10.0.0.2'')), (''network'', Val (PStr ''edge''))]]"
  "info_vip_rows demo_report_floats ''cam'' (PDict (demo_info t ''10.0.0.2'')) =
     Inr [[(''date'', Date (of_int t)), (''task'', Val (PStr ''cam'')), (''service'', Val (PStr ''camera'')),
           (''network'', Val (PStr ''edge'')), (''vip'', Val (PStr ''10.0.0.9''))]]"
  by (simp_all add: info_address_rows_def info_vip_rows_def demo_info_def py_get_def get_default_def dget_Cons concatR_def
      address_row_def is_inet_def time_of_def dict_index_def info_service_def find_network_def demo_netaddr_def)

definition demo_address_row :: "int \<Rightarrow> (string \<times> cell) list" where
  "demo_address_row t = [(''date'', Date (of_int t)), (''task'', Val (PStr ''cam'')), (''service'', Val (PStr ''camera'')),
     (''iface'', Val (PStr ''eth0'')), (''address'', Val (PStr ''10.0.0.2'')), (''network'', Val (PStr ''edge''))]"

definition demo_vip_row :: "int \<Rightarrow> (string \<times> cell) list" where
  "demo_vip_row t = [(''date'', Date (of_int t)), (''task'', Val (PStr ''cam'')), (''service'', Val (PStr ''camera'')),
     (''network'', Val (PStr ''edge'')), (''vip'', Val (PStr ''10.0.0.9''))]"

lemma demo_frames:
  "get_address_df (\<lambda>s. s) demo_report_floats (\<lambda>xs. xs) demo_netaddr (demo_reports [t]) [] = Inr (frame_of [demo_address_row t])"
  "get_address_df (\<lambda>s. s) demo_report_floats (\<lambda>xs. xs) demo_netaddr (demo_reports [1, 2]) [] = Inr (frame_of [demo_address_row 1, demo_address_row 2])"
  "get_service_vip_df (\<lambda>s. s) demo_report_floats (\<lambda>xs. xs) (demo_reports [t]) [] = Inr (frame_of [demo_vip_row t])"
  "get_service_vip_df (\<lambda>s. s) demo_report_floats (\<lambda>xs. xs) (demo_reports [1, 2]) [] = Inr (frame_of [demo_vip_row 1, demo_vip_row 2])"
  by (simp_all add: get_address_df_def get_service_vip_df_def tasks_or_all_def demo_tasks info_rows_def concatR_def demo_get_info
      demo_rows demo_address_row_def [symmetric] demo_vip_row_def [symmetric] set_index_def)
    (simp_all add: frame_of_def demo_address_row_def demo_vip_row_def)

lemma demo_packet_frame: "packet_frame demo_packets" "{''date'', ''iface''} \<subseteq> set (fr_cols demo_packets)"
  by (auto simp: packet_frame_def demo_packets_def frame_of_ok set_col_ok) (auto simp: frame_of_def reserved_cols_def)

lemma unique_single: "unique_key (frame_of [r]) k"
  by (simp add: unique_key_def)

theorem packets_extended_by_lookup_witness:
  "\<exists>G. extend_packet_df (\<lambda>s. s) demo_report_floats (\<lambda>xs. xs) demo_netaddr (list_pandas demo_report_floats) (demo_reports [1]) demo_packets None None = Inr G
     \<and> map (\<lambda>r. (r ''src_task'', r ''dst_service'', r ''network'')) (fr_rows G)
        = [(Val (PStr ''cam''), Val (PStr ''camera''), Val (PStr ''edge''))]"
proof -
  from packets_extended_by_lookup [OF lp.pandas_laws_axioms demo_frames(1,3) demo_packet_frame unique_single unique_single]
  obtain G where G: "extend_packet_df (\<lambda>s. s) demo_report_floats (\<lambda>xs. xs) demo_netaddr (list_pandas demo_report_floats) (demo_reports [1]) demo_packets None None = Inr G"
    and rows: "mset (fr_rows G) = mset (map (annotate_packet (frame_of [demo_address_row 1]) (frame_of [demo_vip_row 1])) (fr_rows demo_packets))"
    by blast
  have "fr_rows G = map (annotate_packet (frame_of [demo_address_row 1]) (frame_of [demo_vip_row 1])) (fr_rows demo_packets)"
    using rows by (simp add: demo_packets_def)
  with G show ?thesis
    by (simp add: demo_packets_def annotate_packet_def found_def demo_address_row_def demo_vip_row_def row_of_def key_eq_def Let_def)
qed

theorem traffic_weighed_by_addresses_witness:
  "\<exists>G. extend_packet_df (\<lambda>s. s) demo_report_floats (\<lambda>xs. xs) demo_netaddr (list_pandas demo_report_floats) (demo_reports [1, 2]) demo_packets None None = Inr G
     \<and> (\<Sum>r\<leftarrow>fr_rows G. cell_num demo_report_floats (r ''len'')) = 400"
proof -
  from traffic_weighed_by_addresses [OF lp.pandas_laws_axioms demo_frames(2,4) demo_packet_frame]
  obtain G where "extend_packet_df (\<lambda>s. s) demo_report_floats (\<lambda>xs. xs) demo_netaddr (list_pandas demo_report_floats) (demo_reports [1, 2]) demo_packets None None = Inr G"
    and "(\<Sum>r\<leftarrow>fr_rows G. cell_num demo_report_floats (r ''len'')) = 400"
    by (simp add: demo_packets_def matching_rows_def demo_address_row_def demo_vip_row_def row_of_def key_eq_def cell_num_def) blast
  then show ?thesis by blast
qed

end
