(* ===== verification/ReportProps.thy ===== *)
theory ReportProps
  imports ReportFacts
begin

text \<open>
  From the monitors through Redis to the report: what a node wrote is what the reader returns. And the
  traffic of the services, the states and the dates of the tasks.
\<close>

section \<open>The information of the nodes\<close>

text \<open>What the monitors wrote, as the commands that Redis receives: the score is the time as a number.\<close>

definition zadd_args :: "floats \<Rightarrow> redis_entry \<Rightarrow> string \<times> real \<times> string" where
  "zadd_args fl e = (re_key e, (case py_number fl (re_score e) of Inr x \<Rightarrow> x | Inl _ \<Rightarrow> 0), re_member e)"

definition client_of :: "('s \<Rightarrow> string \<Rightarrow> (string \<times> real) list) \<Rightarrow> ('s \<Rightarrow> string \<Rightarrow> string list) \<Rightarrow> 's \<Rightarrow> redis_client" where
  "client_of zrange keys s = \<lparr>rc_zrange = zrange s, rc_keys = keys s\<rparr>"

definition info_entry :: "string \<times> py dict \<Rightarrow> redis_entry" where
  "info_entry w = (case w of (task, info) \<Rightarrow>
     \<lparr>re_key = redis_key INFO [task], re_score = get_default info ''time'' PNone, re_member = json_dumps (PDict info)\<rparr>)"

text \<open>An information that can be written: printable, and with a number as its time; a name without a colon.\<close>

definition info_ok :: "(string \<Rightarrow> string) \<Rightarrow> floats \<Rightarrow> string \<times> py dict \<Rightarrow> bool" where
  "info_ok canon fl w = (case w of (task, info) \<Rightarrow>
     CHR '':'' \<notin> set task \<and> json_ok canon (PDict info)
     \<and> (case dget info ''time'' of None \<Rightarrow> False | Some t \<Rightarrow> \<not> isl (py_number fl t)))"

definition info_time :: "floats \<Rightarrow> py dict \<Rightarrow> real" where
  "info_time fl info = (case py_number fl (get_default info ''time'' PNone) of Inr x \<Rightarrow> x | Inl _ \<Rightarrow> 0)"

lemma redis_key_INFO: "redis_key INFO [t] = ''wotemu:info:'' @ t"
  by (simp add: redis_key_def)

lemma json_dumps_inj:
  "json_ok canon v \<Longrightarrow> json_ok canon w \<Longrightarrow> json_dumps v = json_dumps w \<Longrightarrow> v = w"
  by (metis json_loads_dumps option.inject)

context redis_store
begin

lemma zadd_all_score:
  assumes "zrange s k = []" and "\<And>sc sc' m. (k, sc, m) \<in> set es \<Longrightarrow> (k, sc', m) \<in> set es \<Longrightarrow> sc = sc'"
  shows "set (zrange (zadd_all s es) k) = {(m, sc). (k, sc, m) \<in> set es}"
  using assms(2)
proof (induction es rule: rev_induct)
  case Nil
  then show ?case using assms(1) by simp
next
  case (snoc e es)
  obtain k' sc m where e: "e = (k', sc, m)" by (cases e)
  have same: "sc' = sc" if "(k, sc', m) \<in> set es" "k' = k" for sc'
    using snoc.prems [of sc' m sc] that by (simp add: e)
  have IH: "set (zrange (zadd_all s es) k) = {(m, sc). (k, sc, m) \<in> set es}"
    using snoc.prems by (intro snoc.IH) auto
  show ?case
  proof (cases "k' = k")
    case True
    have "set (zrange (zadd_all s (es @ [e])) k) = insert (m, sc) {p \<in> {(m, sc). (k, sc, m) \<in> set es}. fst p \<noteq> m}"
      by (simp add: e True zadd_all_append zrange_zadd IH)
    with same True show ?thesis by (auto simp: e)
  next
    case False
    then show ?thesis using IH by (simp add: e zadd_all_append zrange_zadd)
  qed
qed

end

lemma sort_key_map: "sort_key g (map h xs) = map h (sort_key (\<lambda>x. g (h x)) xs)"
proof (induction xs)
  case Nil
  then show ?case by simp
next
  case (Cons x xs)
  have "insort_key g (h x) (map h ys) = map h (insort_key (\<lambda>x. g (h x)) x ys)" for ys
    by (induction ys) auto
  with Cons show ?case by simp
qed

lemma sort_by_times: "map snd (sort_key fst (zip (map f xs) xs)) = sort_key f xs"
proof -
  have "zip (map f xs) xs = map (\<lambda>x. (f x, x)) xs" by (induction xs) simp_all
  then show ?thesis by (simp add: sort_key_map o_def)
qed

lemma time_of_info: "info_ok canon fl (task, info) \<Longrightarrow> time_of fl (PDict info) = Inr (info_time fl info)"
  by (auto simp: info_ok_def time_of_def dict_index_def info_time_def get_default_def split: option.splits sum.splits)

lemma info_ok_loads: "info_ok canon fl (task, d) \<Longrightarrow> json_loads canon (json_dumps (PDict d)) = Some (PDict d)"
  unfolding info_ok_def by (simp add: json_loads_dumps del: json_dumps.simps json_ok.simps)

lemma get_info_printed:
  assumes "\<And>p. p \<in> set (rc_zrange rc (redis_key INFO [task])) \<Longrightarrow> \<exists>d. fst p = json_dumps (PDict d) \<and> info_ok canon fl (task, d)"
    and "distinct (map fst (rc_zrange rc (redis_key INFO [task])))"
  obtains rows where "get_info canon fl rc task = Inr rows" "distinct rows"
    "set rows = {PDict d | d. json_dumps (PDict d) \<in> fst ` set (rc_zrange rc (redis_key INFO [task])) \<and> info_ok canon fl (task, d)}"
    "sorted (map (\<lambda>v. case time_of fl v of Inr x \<Rightarrow> x | Inl _ \<Rightarrow> 0) rows)"
proof -
  let ?zs = "rc_zrange rc (redis_key INFO [task])"
  let ?tm = "\<lambda>v. case time_of fl v of Inr x \<Rightarrow> x | Inl _ \<Rightarrow> 0"
  define rows where "rows = map (\<lambda>p. the (json_loads canon (fst p))) ?zs"
  have loads: "\<exists>d. json_loads canon (fst p) = Some (PDict d) \<and> fst p = json_dumps (PDict d) \<and> info_ok canon fl (task, d)"
    if "p \<in> set ?zs" for p
  proof -
    obtain d where d: "fst p = json_dumps (PDict d)" "info_ok canon fl (task, d)" using assms(1) [OF \<open>p \<in> set ?zs\<close>] by blast
    with info_ok_loads [OF d(2)] show ?thesis by metis
  qed
  have load: "load_members canon rc (redis_key INFO [task]) = Inr rows"
    unfolding load_members_def rows_def by (rule mapR_total) (use loads in \<open>fastforce simp: load_member_def simp del: json_dumps.simps\<close>)
  have row: "\<exists>d. v = PDict d \<and> json_dumps (PDict d) \<in> fst ` set ?zs \<and> info_ok canon fl (task, d)" if "v \<in> set rows" for v
  proof -
    obtain p where p: "p \<in> set ?zs" "v = the (json_loads canon (fst p))" using \<open>v \<in> set rows\<close> by (auto simp: rows_def)
    obtain d where d: "json_loads canon (fst p) = Some (PDict d)" "fst p = json_dumps (PDict d)" "info_ok canon fl (task, d)"
      using loads [OF p(1)] by blast
    have "json_dumps (PDict d) \<in> fst ` set ?zs" unfolding d(2) [symmetric] using p(1) by (rule imageI)
    moreover have "v = PDict d" using p(2) d(1) by simp
    ultimately show ?thesis using d(3) by blast
  qed
  have time: "time_of fl v = Inr (?tm v)" if "v \<in> set rows" for v
  proof -
    obtain d where "v = PDict d" "info_ok canon fl (task, d)" using row [OF \<open>v \<in> set rows\<close>] by blast
    then show ?thesis by (simp add: time_of_info)
  qed
  have times: "mapR (time_of fl) rows = Inr (map ?tm rows)"
    by (rule mapR_total) (rule time)
  have get: "get_info canon fl rc task = Inr (sort_key ?tm rows)"
    by (simp add: get_info_def load times sort_by_times del: sum.case)
  have inj: "inj_on (\<lambda>m. the (json_loads canon m)) (fst ` set ?zs)"
  proof (rule inj_onI)
    fix m m' assume "m \<in> fst ` set ?zs" "m' \<in> fst ` set ?zs" and eq: "the (json_loads canon m) = the (json_loads canon m')"
    then obtain p p' where p: "p \<in> set ?zs" "m = fst p" "p' \<in> set ?zs" "m' = fst p'" by blast
    obtain d where d: "json_loads canon m = Some (PDict d)" "m = json_dumps (PDict d)" using loads [OF p(1)] p(2) by blast
    obtain d' where d': "json_loads canon m' = Some (PDict d')" "m' = json_dumps (PDict d')" using loads [OF p(3)] p(4) by blast
    from eq have "d = d'" unfolding d(1) d'(1) by simp
    with d(2) d'(2) show "m = m'" by metis
  qed
  have "rows = map (\<lambda>m. the (json_loads canon m)) (map fst ?zs)" by (simp add: rows_def)
  then have dist: "distinct (sort_key ?tm rows)" using inj assms(2) by (simp add: distinct_map comp_inj_on)
  have "set rows = {PDict d | d. json_dumps (PDict d) \<in> fst ` set ?zs \<and> info_ok canon fl (task, d)}"
  proof (intro set_eqI iffI)
    fix v assume "v \<in> set rows"
    then show "v \<in> {PDict d | d. json_dumps (PDict d) \<in> fst ` set ?zs \<and> info_ok canon fl (task, d)}"
      using row by blast
  next
    fix v assume "v \<in> {PDict d | d. json_dumps (PDict d) \<in> fst ` set ?zs \<and> info_ok canon fl (task, d)}"
    then obtain d where d: "v = PDict d" "json_dumps (PDict d) \<in> fst ` set ?zs" "info_ok canon fl (task, d)" by blast
    then obtain p where p: "p \<in> set ?zs" "fst p = json_dumps (PDict d)" by (metis imageE)
    have "json_loads canon (fst p) = Some v" unfolding p(2) d(1) by (rule info_ok_loads [OF d(3)])
    then have "v = the (json_loads canon (fst p))" by simp
    with p(1) show "v \<in> set rows" unfolding rows_def set_map by (rule image_eqI [rotated])
  qed
  with that [OF get dist] show thesis by simp
qed

context redis_store
begin

lemma info_store:
  assumes "\<forall>w\<in>set W. info_ok canon fl w"
  shows "set (zrange (zadd_all empty (map (\<lambda>w. zadd_args fl (info_entry w)) W)) (redis_key INFO [task]))
      = {(json_dumps (PDict d), info_time fl d) | d. (task, d) \<in> set W}"
    and "set (keys (zadd_all empty (map (\<lambda>w. zadd_args fl (info_entry w)) W)) (redis_key INFO [''*'']))
      = (\<lambda>w. redis_key INFO [fst w]) ` set W"
proof -
  let ?es = "map (\<lambda>w. zadd_args fl (info_entry w)) W"
  have entry: "zadd_args fl (info_entry (t, d)) = (redis_key INFO [t], info_time fl d, json_dumps (PDict d))" for t d
    by (simp add: zadd_args_def info_entry_def info_time_def del: json_dumps.simps)
  have mem: "(redis_key INFO [t], sc, m) \<in> set ?es \<longleftrightarrow> (\<exists>d. (t, d) \<in> set W \<and> sc = info_time fl d \<and> m = json_dumps (PDict d))" for t sc m
    by (force simp: entry redis_key_INFO image_iff simp del: json_dumps.simps)
  have "set (zrange (zadd_all empty ?es) (redis_key INFO [t])) = {(m, sc). (redis_key INFO [t], sc, m) \<in> set ?es}" for t
  proof (rule zadd_all_score)
    show "zrange empty (redis_key INFO [t]) = []" by (rule zrange_empty)
    show "sc = sc'" if "(redis_key INFO [t], sc, m) \<in> set ?es" "(redis_key INFO [t], sc', m) \<in> set ?es" for sc sc' m
      using that assms json_dumps_inj [of canon] unfolding mem
      by (metis (no_types, lifting) case_prod_conv info_ok_def py.inject(6))
  qed
  then show store: "set (zrange (zadd_all empty ?es) (redis_key INFO [task])) = {(json_dumps (PDict d), info_time fl d) | d. (task, d) \<in> set W}" for task
    unfolding mem by auto
  show "set (keys (zadd_all empty ?es) (redis_key INFO [''*''])) = (\<lambda>w. redis_key INFO [fst w]) ` set W"
  proof (intro set_eqI iffI)
    fix k assume k: "k \<in> set (keys (zadd_all empty ?es) (redis_key INFO [''*'']))"
    then have "set (zrange (zadd_all empty ?es) k) \<noteq> {}" by (simp add: keys_match)
    then have "k \<in> fst ` set ?es" using zadd_all_other [of k ?es empty] by (auto simp: zrange_empty)
    then show "k \<in> (\<lambda>w. redis_key INFO [fst w]) ` set W" by (force simp: entry)
  next
    fix k assume "k \<in> (\<lambda>w. redis_key INFO [fst w]) ` set W"
    then obtain t d where td: "(t, d) \<in> set W" "k = redis_key INFO [t]" by auto
    have "set (zrange (zadd_all empty ?es) k) \<noteq> {}" unfolding td(2) store using td(1) by blast
    moreover have "glob (redis_key INFO [''*'']) k"
      using glob_suffix_star [of "''wotemu:info:''" k] by (simp add: td(2) redis_key_INFO)
    ultimately show "k \<in> set (keys (zadd_all empty ?es) (redis_key INFO [''*'']))" by (auto simp: keys_match)
  qed
qed

end

text \<open>The name of a node and the information that its monitor writes when it starts.\<close>

definition reported :: "nm_config \<times> start_world \<Rightarrow> string \<times> py dict" where
  "reported m = (case m of (c, w) \<Rightarrow>
     (nc_key c, dset (case st_info w of Inr info \<Rightarrow> info | Inl _ \<Rightarrow> []) ''time'' (st_time w)))"

lemma start_writes_report:
  assumes "fst (monitor_start c w init_monitor) = Inr ()"
  shows "nm_written (snd (monitor_start c w init_monitor)) = [info_entry (reported (c, w))]"
  using assms
  by (auto simp: monitor_start_def is_running_def init_monitor_def truthy_list_def bindP_def redis_open_def write_node_info_def
      create_system_task_def create_packet_tasks_def info_entry_def reported_def get_default_def dget_dset
      simp del: json_dumps.simps split: sum.splits if_splits)

lemma sorted_last: "sorted xs \<Longrightarrow> x \<in> set xs \<Longrightarrow> x \<le> last xs"
  by (induction xs) (auto intro: last_in_set)

lemma split_info_key: "CHR '':'' \<notin> set t \<Longrightarrow> last (split_on (CHR '':'') (redis_key INFO [t])) = t"
proof -
  assume t: "CHR '':'' \<notin> set t"
  have "split_on (CHR '':'') (redis_key INFO [t]) = [prefix_value NAMESPACE, prefix_value INFO, t]"
    unfolding redis_key_def by (rule split_on_join) (use t in auto)
  then show ?thesis by simp
qed

context redis_store
begin

lemma reports_read_back:
  assumes ok: "\<forall>w\<in>set W. info_ok canon fl w" and so: "set_order_ok so"
    and rc: "rc = client_of zrange keys (zadd_all empty (map (\<lambda>w. zadd_args fl (info_entry w)) W))"
  shows "set (get_tasks so rc) = fst ` set W"
    and "\<exists>rows. get_info canon fl rc task = Inr rows \<and> distinct rows \<and> set rows = {PDict d | d. (task, d) \<in> set W}
      \<and> sorted (map (\<lambda>v. case time_of fl v of Inr x \<Rightarrow> x | Inl _ \<Rightarrow> 0) rows)"
    and "(task, d) \<in> set W \<Longrightarrow> \<exists>d'. get_info_latest canon fl rc task = Inr (PDict d') \<and> (task, d') \<in> set W
      \<and> info_time fl d \<le> info_time fl d'"
proof -
  have okD: "info_ok canon fl (t, d)" if "(t, d) \<in> set W" for t d using ok that by blast
  have z: "set (rc_zrange rc (redis_key INFO [t])) = {(json_dumps (PDict d), info_time fl d) | d. (t, d) \<in> set W}" for t
    unfolding rc client_of_def redis_client.simps by (rule info_store(1) [OF ok])
  have k: "set (rc_keys rc (redis_key INFO [''*''])) = (\<lambda>w. redis_key INFO [fst w]) ` set W"
    unfolding rc client_of_def redis_client.simps by (rule info_store(2) [OF ok])
  have "set (get_tasks so rc) = (\<lambda>key. last (split_on (CHR '':'') key)) ` set (rc_keys rc (redis_key INFO [''*'']))"
    using so unfolding get_tasks_def set_order_ok_def by (metis distinct_remdups set_remdups set_map)
  also have "\<dots> = fst ` set W"
    unfolding k image_image using ok by (intro image_cong refl split_info_key) (auto simp: info_ok_def)
  finally show "set (get_tasks so rc) = fst ` set W" .
  have printed: "\<exists>d. fst p = json_dumps (PDict d) \<and> info_ok canon fl (t, d)" if "p \<in> set (rc_zrange rc (redis_key INFO [t]))" for p t
    using that okD unfolding z by fastforce
  have dist: "distinct (map fst (rc_zrange rc (redis_key INFO [t])))" for t
    unfolding rc client_of_def redis_client.simps by (rule zrange_distinct)
  have members: "{PDict d | d. json_dumps (PDict d) \<in> fst ` set (rc_zrange rc (redis_key INFO [t])) \<and> info_ok canon fl (t, d)}
      = {PDict d | d. (t, d) \<in> set W}" for t
  proof -
    have "fst ` set (rc_zrange rc (redis_key INFO [t])) = {json_dumps (PDict d) | d. (t, d) \<in> set W}"
      unfolding z by force
    moreover have "d = d'" if "json_dumps (PDict d) = json_dumps (PDict d')" "info_ok canon fl (t, d)" "(t, d') \<in> set W" for d d'
    proof -
      have "json_loads canon (json_dumps (PDict d')) = Some (PDict d)" using info_ok_loads [OF that(2)] unfolding that(1) .
      with info_ok_loads [OF okD [OF that(3)]] show ?thesis by (simp del: json_dumps.simps)
    qed
    ultimately show ?thesis using okD by blast
  qed
  show rows: "\<exists>rows. get_info canon fl rc task = Inr rows \<and> distinct rows \<and> set rows = {PDict d | d. (task, d) \<in> set W}
      \<and> sorted (map (\<lambda>v. case time_of fl v of Inr x \<Rightarrow> x | Inl _ \<Rightarrow> 0) rows)" for task
  proof -
    obtain rows where "get_info canon fl rc task = Inr rows" "distinct rows"
      "set rows = {PDict d | d. (task, d) \<in> set W}" "sorted (map (\<lambda>v. case time_of fl v of Inr x \<Rightarrow> x | Inl _ \<Rightarrow> 0) rows)"
      by (rule get_info_printed [OF printed dist, unfolded members])
    then show ?thesis by blast
  qed
  assume d: "(task, d) \<in> set W"
  obtain rows where r: "get_info canon fl rc task = Inr rows" "set rows = {PDict d | d. (task, d) \<in> set W}"
    "sorted (map (\<lambda>v. case time_of fl v of Inr x \<Rightarrow> x | Inl _ \<Rightarrow> 0) rows)" using rows by blast
  have ne: "rows \<noteq> []" and din: "PDict d \<in> set rows" using d r(2) by auto
  obtain d' where d': "last rows = PDict d'" "(task, d') \<in> set W" using last_in_set [OF ne] r(2) by auto
  have le: "f v \<le> f (last rows)" if "sorted (map f rows)" "v \<in> set rows" for v and f :: "py \<Rightarrow> real"
    using sorted_last [OF that(1), of "f v"] that(2) by (cases rows rule: rev_cases) auto
  have "info_time fl d \<le> info_time fl d'"
    using le [OF r(3) din] time_of_info [OF okD [OF d]] time_of_info [OF okD [OF d'(2)]] by (simp add: d'(1))
  with r(1) ne d' show "\<exists>d'. get_info_latest canon fl rc task = Inr (PDict d') \<and> (task, d') \<in> set W \<and> info_time fl d \<le> info_time fl d'"
    by (auto simp: get_info_latest_def)
qed

end

text \<open>
  C12. What the monitors write when they start is what the report reads: for any nodes whose monitors started,
  the tasks of the report are the names of the nodes; the informations of a task are those that its monitors
  wrote, each once and in the order of time; and the latest is one of them that no other of the task is
  later than.
\<close>

theorem started_nodes_reported:
  assumes "redis_store new_store zadd zrange keys" and "set_order_ok so"
    and started: "\<forall>(c, w)\<in>set ms. fst (monitor_start c w init_monitor) = Inr ()"
    and ok: "\<forall>m\<in>set ms. info_ok canon fl (reported m)"
    and rc: "rc = client_of zrange keys (redis_store.zadd_all zadd new_store
      (map (zadd_args fl) (concat (map (\<lambda>(c, w). nm_written (snd (monitor_start c w init_monitor))) ms))))"
  shows "set (get_tasks so rc) = (\<lambda>(c, w). nc_key c) ` set ms
    \<and> (\<exists>rows. get_info canon fl rc task = Inr rows \<and> distinct rows
         \<and> set rows = {PDict d | d. (task, d) \<in> reported ` set ms}
         \<and> sorted (map (\<lambda>v. case time_of fl v of Inr x \<Rightarrow> x | Inl _ \<Rightarrow> 0) rows))
    \<and> (\<forall>(t, d)\<in>reported ` set ms. \<exists>d'. get_info_latest canon fl rc t = Inr (PDict d')
         \<and> (t, d') \<in> reported ` set ms \<and> info_time fl d \<le> info_time fl d')"
proof -
  have "map (\<lambda>(c, w). nm_written (snd (monitor_start c w init_monitor))) ms = map (\<lambda>m. [info_entry (reported m)]) ms"
    using started by (intro map_cong refl) (auto simp: start_writes_report)
  then have "concat (map (\<lambda>(c, w). nm_written (snd (monitor_start c w init_monitor))) ms) = map (\<lambda>m. info_entry (reported m)) ms"
    by (simp only: concat_map_singleton)
  then have rc': "rc = client_of zrange keys (redis_store.zadd_all zadd new_store (map (\<lambda>w. zadd_args fl (info_entry w)) (map reported ms)))"
    unfolding rc by (simp add: o_def)
  have ok': "\<forall>w\<in>set (map reported ms). info_ok canon fl w" using ok by simp
  note reread = redis_store.reports_read_back [OF assms(1) ok' assms(2) rc', unfolded set_map]
  have "fst ` reported ` set ms = (\<lambda>(c, w). nc_key c) ` set ms"
    by (force simp: reported_def image_iff)
  with reread(1) have "set (get_tasks so rc) = (\<lambda>(c, w). nc_key c) ` set ms" by simp
  with reread(2) [of task] reread(3) show ?thesis by blast
qed

definition demo_node_start :: "int \<Rightarrow> start_world" where
  "demo_node_start t = \<lparr>st_create = Inr (), st_info = Inr [(''cpu_count'', PInt 4)], st_time = PInt t, st_zadd = Inr ()\<rparr>"

theorem started_nodes_reported_witness:
  "\<exists>rows. get_info (\<lambda>s. s) demo_report_floats
     (client_of zlog_range zlog_keys (redis_store.zadd_all zlog_add []
       (map (zadd_args demo_report_floats) (concat (map (\<lambda>(c, w). nm_written (snd (monitor_start c w init_monitor)))
         [(demo_monitor, demo_node_start 2), (demo_monitor, demo_node_start 1)]))))) ''host'' = Inr rows
     \<and> set rows = {PDict [(''cpu_count'', PInt 4), (''time'', PInt 2)], PDict [(''cpu_count'', PInt 4), (''time'', PInt 1)]}"
proof -
  let ?ms = "[(demo_monitor, demo_node_start 2), (demo_monitor, demo_node_start 1)]"
  have started: "\<forall>(c, w)\<in>set ?ms. fst (monitor_start c w init_monitor) = Inr ()"
    by (simp add: monitor_start_def is_running_def init_monitor_def truthy_list_def bindP_def redis_open_def
        write_node_info_def create_system_task_def create_packet_tasks_def demo_monitor_def demo_node_start_def)
  have rep: "reported ` set ?ms = {(''host'', [(''cpu_count'', PInt 4), (''time'', PInt 2)]), (''host'', [(''cpu_count'', PInt 4), (''time'', PInt 1)])}"
    by (simp add: reported_def demo_monitor_def demo_node_start_def dset_def)
  have ok: "\<forall>m\<in>set ?ms. info_ok (\<lambda>s. s) demo_report_floats (reported m)"
    by (simp add: reported_def demo_monitor_def demo_node_start_def dset_def info_ok_def dict_ok_def dget_Cons)
  from started_nodes_reported [OF zlog.redis_store_axioms set_order_ok_id started ok refl, of "''host''"]
  show ?thesis unfolding rep by (elim exE conjE) (intro exI conjI, assumption, auto)
qed

section \<open>The traffic of the services\<close>

context pandas_laws
begin

lemma group_sum_total:
  assumes "\<forall>r\<in>set (fr_rows f). \<not> is_na (r k)"
  shows "(\<Sum>g\<leftarrow>pd_group_sum pd f k v. snd g) = (\<Sum>r\<leftarrow>fr_rows f. cell_num fl (r v))"
proof -
  let ?G = "pd_group_sum pd f k v"
  have keys: "set (map fst ?G) = (\<lambda>r. r k) ` set (fr_rows f)"
    using assms by (auto simp: group_sums image_iff)
  have "(\<Sum>g\<leftarrow>?G. snd g) = (\<Sum>g\<leftarrow>?G. group_total fl f k v (fst g))"
    by (intro arg_cong [where f = sum_list] map_cong refl) (metis group_total_of prod.collapse)
  also have "\<dots> = (\<Sum>x\<leftarrow>map fst ?G. \<Sum>r\<leftarrow>filter (\<lambda>r. r k = x) (fr_rows f). cell_num fl (r v))"
    by (simp add: group_total_def o_def)
  also have "\<dots> = (\<Sum>r\<leftarrow>fr_rows f. cell_num fl (r v))"
    by (rule sum_by_key) (use keys group_distinct in auto)
  finally show ?thesis .
qed

lemma task_traffic_rows:
  assumes "col_service \<noteq> ''len''" and "col_service \<noteq> col_task" and "col_task \<noteq> ''len''"
  shows "map (\<lambda>r. (r col_service, r col_task, cell_num fl (r ''len''))) (fr_rows (task_traffic fl pd col_task col_service t f))
    = map (\<lambda>g. (fst g, Val (PStr t), snd g))
        (pd_group_sum pd (select_rows (\<lambda>r. r col_task = Val (PStr t) \<and> \<not> is_na (r col_service)) f) col_service ''len'')"
  using assms by (simp add: task_traffic_def Let_def case_prod_unfold o_def row_of_def cell_num_def)

lemma task_traffic_total:
  assumes "col_service \<noteq> ''len''" and "col_service \<noteq> col_task" and "col_task \<noteq> ''len''"
  shows "(\<Sum>r\<leftarrow>fr_rows (task_traffic fl pd col_task col_service t f). cell_num fl (r ''len''))
      = (\<Sum>r\<leftarrow>filter (\<lambda>r. r col_task = Val (PStr t) \<and> \<not> is_na (r col_service)) (fr_rows f). cell_num fl (r ''len''))"
    and "distinct (map (\<lambda>r. r col_service) (fr_rows (task_traffic fl pd col_task col_service t f)))"
    and "\<forall>r\<in>set (fr_rows (task_traffic fl pd col_task col_service t f)). r col_task = Val (PStr t)"
proof -
  let ?sel = "select_rows (\<lambda>r. r col_task = Val (PStr t) \<and> \<not> is_na (r col_service)) f"
  let ?T = "fr_rows (task_traffic fl pd col_task col_service t f)"
  let ?G = "pd_group_sum pd ?sel col_service ''len''"
  note rows = task_traffic_rows [OF assms, of t f]
  have "map (\<lambda>r. cell_num fl (r ''len'')) ?T = map snd ?G"
    using arg_cong [OF rows, of "map (\<lambda>x. snd (snd x))"] by (simp add: o_def)
  then show "(\<Sum>r\<leftarrow>?T. cell_num fl (r ''len'')) = (\<Sum>r\<leftarrow>filter (\<lambda>r. r col_task = Val (PStr t) \<and> \<not> is_na (r col_service)) (fr_rows f). cell_num fl (r ''len''))"
    using group_sum_total [of ?sel col_service "''len''"] by simp
  have "map (\<lambda>r. r col_service) ?T = map fst ?G"
    using arg_cong [OF rows, of "map fst"] by (simp add: o_def)
  then show "distinct (map (\<lambda>r. r col_service) ?T)" by (simp add: group_distinct)
  show "\<forall>r\<in>set ?T. r col_task = Val (PStr t)"
    using assms by (auto simp: task_traffic_def Let_def row_of_def)
qed

end

lemma distinct_map_fst_pair: "distinct (map g xs) \<Longrightarrow> distinct (map (\<lambda>x. (g x, h x)) xs)"
  by (induction xs) auto

lemma mapR_pairs: "mapR (\<lambda>t. bindR (g t) (\<lambda>f. Inr (t, f))) ts = Inr dfs \<Longrightarrow> map fst dfs = ts"
  by (induction ts arbitrary: dfs) (auto simp: bindR_eq_Inr)

definition col_task_of :: "bool \<Rightarrow> string" where
  "col_task_of inbound = (if inbound then ''src_task'' else ''dst_task'')"

definition col_service_of :: "bool \<Rightarrow> string" where
  "col_service_of inbound = (if inbound then ''dst_service'' else ''src_service'')"

lemma col_names [simp]:
  "col_service_of b \<noteq> ''len''" "col_service_of b \<noteq> col_task_of b" "col_task_of b \<noteq> ''len''"
  by (simp_all add: col_service_of_def col_task_of_def)

lemma present_distinct:
  "distinct (map fst dfs) \<Longrightarrow> distinct (map fst (List.map_filter (\<lambda>(t, f). map_option (Pair t) f) dfs))"
proof (induction dfs)
  case Nil
  then show ?case by (simp add: List.map_filter_simps)
next
  case (Cons d dfs)
  have "fst ` set (List.map_filter (\<lambda>(t, f). map_option (Pair t) f) dfs) \<subseteq> fst ` set dfs"
    by (force simp: List.map_filter_def image_iff split: prod.splits option.splits)
  with Cons show ?case by (cases d; cases "snd d") (auto simp: List.map_filter_simps)
qed

context pandas_laws
begin

lemma traffic_parts:
  fixes present :: "(string \<times> data_frame) list" and b :: bool
  defines "rows \<equiv> concat (map (\<lambda>(t, f). fr_rows (task_traffic fl pd (col_task_of b) (col_service_of b) t f)) present)"
  assumes "distinct (map fst present)"
  shows "distinct (map (\<lambda>r. (r (col_service_of b), r (col_task_of b))) rows)"
    and "(t, f) \<in> set present \<Longrightarrow> (\<Sum>r\<leftarrow>filter (\<lambda>r. r (col_task_of b) = Val (PStr t)) rows. cell_num fl (r ''len''))
      = (\<Sum>r\<leftarrow>filter (\<lambda>r. r (col_task_of b) = Val (PStr t) \<and> \<not> is_na (r (col_service_of b))) (fr_rows f). cell_num fl (r ''len''))"
proof -
  note total = task_traffic_total [OF col_names]
  have "distinct (map (\<lambda>r. (r (col_service_of b), r (col_task_of b))) rows)
    \<and> (\<forall>t f. (t, f) \<in> set present \<longrightarrow>
        filter (\<lambda>r. r (col_task_of b) = Val (PStr t)) rows = fr_rows (task_traffic fl pd (col_task_of b) (col_service_of b) t f))
    \<and> (\<forall>r\<in>set rows. \<exists>t\<in>fst ` set present. r (col_task_of b) = Val (PStr t))"
    using assms(2) unfolding rows_def
  proof (induction present)
    case Nil
    then show ?case by simp
  next
    case (Cons x present)
    obtain t f where x: "x = (t, f)" by (cases x)
    let ?T = "\<lambda>t f. fr_rows (task_traffic fl pd (col_task_of b) (col_service_of b) t f)"
    let ?rest = "concat (map (\<lambda>(t, f). ?T t f) present)"
    have own: "\<forall>r\<in>set (?T t f). r (col_task_of b) = Val (PStr t)" and dist: "distinct (map (\<lambda>r. r (col_service_of b)) (?T t f))"
      by (rule total)+
    have IH: "distinct (map (\<lambda>r. (r (col_service_of b), r (col_task_of b))) ?rest)"
      "\<And>t f. (t, f) \<in> set present \<Longrightarrow> filter (\<lambda>r. r (col_task_of b) = Val (PStr t)) ?rest = ?T t f"
      "\<And>r. r \<in> set ?rest \<Longrightarrow> \<exists>t\<in>fst ` set present. r (col_task_of b) = Val (PStr t)"
      using Cons by auto
    have new: "t \<notin> fst ` set present" using Cons.prems by (simp add: x)
    have none: "r (col_task_of b) \<noteq> Val (PStr t)" if "r \<in> set ?rest" for r using IH(3) [OF that] new by force
    have d: "distinct (map (\<lambda>r. (r (col_service_of b), r (col_task_of b))) (?T t f @ ?rest))"
      unfolding map_append distinct_append
      using distinct_map_fst_pair [OF dist, of "\<lambda>r. r (col_task_of b)"] IH(1) own none by fastforce
    have others: "\<forall>r\<in>set (?T t f). r (col_task_of b) \<noteq> Val (PStr t')" if "t' \<noteq> t" for t'
    proof
      fix r assume "r \<in> set (?T t f)"
      with own have "r (col_task_of b) = Val (PStr t)" by blast
      with that show "r (col_task_of b) \<noteq> Val (PStr t')" by simp
    qed
    have flt: "filter (\<lambda>r. r (col_task_of b) = Val (PStr t')) (?T t f @ ?rest) = ?T t' f'" if "(t', f') \<in> set (x # present)" for t' f'
    proof (cases "(t', f') = (t, f)")
      case True
      have "filter (\<lambda>r. r (col_task_of b) = Val (PStr t)) ?rest = []" using none by (simp add: filter_empty_conv)
      moreover have "filter (\<lambda>r. r (col_task_of b) = Val (PStr t)) (?T t f) = ?T t f" using own by simp
      ultimately show ?thesis using True by simp
    next
      case False
      then have in_rest: "(t', f') \<in> set present" using that by (auto simp: x)
      then have "t' \<noteq> t" using new by force
      then have "filter (\<lambda>r. r (col_task_of b) = Val (PStr t')) (?T t f) = []" using others by (simp add: filter_empty_conv)
      with IH(2) [OF in_rest] show ?thesis by simp
    qed
    have "\<forall>r\<in>set (?T t f @ ?rest). \<exists>t'\<in>fst ` set (x # present). r (col_task_of b) = Val (PStr t')"
    proof
      fix r assume "r \<in> set (?T t f @ ?rest)"
      then consider "r \<in> set (?T t f)" | "r \<in> set ?rest" by auto
      then show "\<exists>t'\<in>fst ` set (x # present). r (col_task_of b) = Val (PStr t')"
        using own IH(3) by cases (auto simp: x)
    qed
    with d flt show ?case by (simp add: x)
  qed
  then have rows: "distinct (map (\<lambda>r. (r (col_service_of b), r (col_task_of b))) rows)"
    "(t, f) \<in> set present \<Longrightarrow> filter (\<lambda>r. r (col_task_of b) = Val (PStr t)) rows = fr_rows (task_traffic fl pd (col_task_of b) (col_service_of b) t f)" for t f
    by blast+
  show "distinct (map (\<lambda>r. (r (col_service_of b), r (col_task_of b))) rows)" by (rule rows)
  show "(t, f) \<in> set present \<Longrightarrow> (\<Sum>r\<leftarrow>filter (\<lambda>r. r (col_task_of b) = Val (PStr t)) rows. cell_num fl (r ''len''))
      = (\<Sum>r\<leftarrow>filter (\<lambda>r. r (col_task_of b) = Val (PStr t) \<and> \<not> is_na (r (col_service_of b))) (fr_rows f). cell_num fl (r ''len''))"
    using total(1) [of b t f] by (simp add: rows(2))
qed

end

lemma service_traffic_parts:
  assumes "get_service_traffic_df canon fl so na pd rc tasks inbound = Inr (Some T)"
  obtains dfs where "mapR (\<lambda>t. bindR (get_extended_df canon fl so na pd rc t) (\<lambda>f. Inr (t, f))) (tasks_or_all so rc tasks) = Inr dfs"
    "fr_rows T = concat (map (\<lambda>(t, f). fr_rows (task_traffic fl pd (col_task_of inbound) (col_service_of inbound) t f))
       (List.map_filter (\<lambda>(t, f). map_option (Pair t) f) dfs))"
    "set (fr_cols T) = {col_service_of inbound, ''len'', col_task_of inbound}"
proof -
  let ?ct = "col_task_of inbound" and ?cs = "col_service_of inbound"
  obtain dfs parts where dfs: "mapR (\<lambda>t. bindR (get_extended_df canon fl so na pd rc t) (\<lambda>f. Inr (t, f))) (tasks_or_all so rc tasks) = Inr dfs"
    and parts: "mapR (\<lambda>(t, f). bindR (need_cols f [''len'']) (\<lambda>_. Inr (task_traffic fl pd ?ct ?cs t f)))
      (List.map_filter (\<lambda>(t, f). map_option (Pair t) f) dfs) = Inr parts"
    and T: "concat_frames parts = Inr T"
    using assms unfolding get_service_traffic_df_def col_task_of_def col_service_of_def Let_def
    by (fastforce simp: bindR_eq_Inr split: if_splits)
  have shape: "parts = map (\<lambda>(t, f). task_traffic fl pd ?ct ?cs t f) ps"
    if "mapR (\<lambda>(t, f). bindR (need_cols f [''len'']) (\<lambda>_. Inr (task_traffic fl pd ?ct ?cs t f))) ps = Inr parts" for ps parts
    using that by (induction ps arbitrary: parts) (auto simp: bindR_eq_Inr)
  from shape [OF parts] have p: "map fr_rows parts = map (\<lambda>(t, f). fr_rows (task_traffic fl pd ?ct ?cs t f)) (List.map_filter (\<lambda>(t, f). map_option (Pair t) f) dfs)"
    by (simp add: case_prod_unfold)
  have "fr_rows T = concat (map fr_rows parts)" using T by (auto simp: concat_frames_def split: if_splits)
  with p have rows: "fr_rows T = concat (map (\<lambda>(t, f). fr_rows (task_traffic fl pd ?ct ?cs t f)) (List.map_filter (\<lambda>(t, f). map_option (Pair t) f) dfs))"
    by simp
  have "parts \<noteq> []" using T by (auto simp: concat_frames_def)
  moreover have "set (fr_cols q) = {?cs, ''len'', ?ct}" if "q \<in> set parts" for q
    using that by (auto simp: shape [OF parts] task_traffic_def Let_def)
  moreover have "set (fr_cols T) = (\<Union>q\<in>set parts. set (fr_cols q))"
    using T by (auto simp: concat_frames_def split: if_splits)
  ultimately have "set (fr_cols T) = {?cs, ''len'', ?ct}" by (cases parts) auto
  with dfs rows show thesis by (rule that)
qed


lemma demo_packet_df:
  "get_packet_df (\<lambda>s. s) demo_report_floats (list_pandas demo_report_floats) (demo_reports ts) ''cam'' = Inr (Some demo_packets)"
proof -
  have load: "load_members (\<lambda>s. s) (demo_reports ts) ''wotemu:packet:eth0:cam'' = Inr [PDict demo_packet]"
    unfolding demo_reports_def
    by (subst load_printed [where ds = "[(7, demo_packet)]"]) (simp_all add: demo_packet_def dict_ok_def)
  have keys: "rc_keys (demo_reports ts) (redis_key PACKET [''*'', ''cam'']) = [''wotemu:packet:eth0:cam'']"
    by (simp add: demo_reports_def printed_client_def redis_key_def)
  have "get_zrange_df (\<lambda>s. s) demo_report_floats (demo_reports ts) ''wotemu:packet:eth0:cam'' =
     Inr (frame_of [[(''src'', Val (PStr ''10.0.0.2'')), (''dst'', Val (PStr ''10.0.0.9'')), (''len'', Val (PInt 100)),
       (''time'', Val (PInt 7)), (''date'', Date 7)]])"
    by (simp add: get_zrange_df_def load date_row_def time_of_def demo_packet_def dict_index_def dget_Cons)
  then show ?thesis
    by (simp add: get_packet_df_def keys get_packet_frames_def concat_frames_def list_pandas_def demo_packets_def)
      (simp add: set_col_def frame_of_def)
qed

lemma demo_extended:
  "\<exists>f. get_extended_df (\<lambda>s. s) demo_report_floats (\<lambda>xs. xs) demo_netaddr (list_pandas demo_report_floats) (demo_reports [1]) ''cam'' = Inr (Some f)
     \<and> fr_rows f = [annotate_packet (frame_of [demo_address_row 1]) (frame_of [demo_vip_row 1]) (hd (fr_rows demo_packets))]
     \<and> ''len'' \<in> set (fr_cols f)"
proof -
  let ?A = "frame_of [demo_address_row 1]" and ?V = "frame_of [demo_vip_row 1]" and ?pd = "list_pandas demo_report_floats"
  have ext: "extend_packet_df (\<lambda>s. s) demo_report_floats (\<lambda>xs. xs) demo_netaddr ?pd (demo_reports [1]) demo_packets None None
      = Inr (extend_packets ?pd demo_packets ?A ?V)"
    by (rule lp.extend_df_eq [OF demo_frames(1,3) demo_packet_frame])
  have rows: "mset (fr_rows (extend_packets ?pd demo_packets ?A ?V)) = mset (map (annotate_packet ?A ?V) (fr_rows demo_packets))"
    by (rule lp.extend_unique [OF demo_packet_frame(1) address_df_frame [OF demo_frames(1)] vip_df_frame [OF demo_frames(3)] unique_single unique_single])
  have "''len'' \<in> set (fr_cols (extend_packets ?pd demo_packets ?A ?V))"
    unfolding lp.extend_cols [OF demo_packet_frame(1) address_df_frame [OF demo_frames(1)] vip_df_frame [OF demo_frames(3)]]
    by (simp add: demo_packets_def frame_of_cols)
  moreover have "fr_rows (extend_packets ?pd demo_packets ?A ?V) = [annotate_packet ?A ?V (hd (fr_rows demo_packets))]"
    using rows by (simp add: demo_packets_def)
  ultimately show ?thesis by (simp add: get_extended_df_def demo_packet_df ext)
qed


section \<open>Dates and states of the tasks\<close>

text \<open>A time as Docker prints it, with any number of digits after the second.\<close>

definition docker_time :: "string \<Rightarrow> string \<Rightarrow> string" where
  "docker_time date ds = date @ ''.'' @ ds @ ''Z''"

definition digits_num :: "string \<Rightarrow> nat" where
  "digits_num ds = foldl (\<lambda>a c. 10 * a + digit_val c) 0 ds"

lemma fits_shape_length: "fits_shape p s \<Longrightarrow> length p = length s"
  by (induction p s rule: fits_shape.induct) auto

lemma docker_time_parses:
  assumes "fits_shape ''0000-00-00T00:00:00'' date" and "ds \<noteq> []" and "\<forall>c\<in>set ds. is_digit c"
  shows "docker_time_groups (docker_time date ds) = Some (date, ds)"
proof -
  have len: "length date = 19" using fits_shape_length [OF assms(1)] by simp
  have "takeWhile is_digit (ds @ ''Z'') = ds" "dropWhile is_digit (ds @ ''Z'') = ''Z''"
    using assms(3) by (simp_all add: takeWhile_append dropWhile_append is_digit_def)
  with len assms(1,2) show ?thesis by (simp add: docker_time_groups_def docker_time_def)
qed

lemma digits_num_append: "digits_num (xs @ replicate n (CHR ''0'')) = digits_num xs * 10 ^ n"
proof (induction n)
  case 0
  then show ?case by (simp add: digits_num_def)
next
  case (Suc n)
  have "digits_num (xs @ replicate (Suc n) (CHR ''0'')) = digits_num ((xs @ replicate n (CHR ''0'')) @ [CHR ''0''])"
    by (simp add: replicate_append_same)
  also have "\<dots> = 10 * digits_num (xs @ replicate n (CHR ''0''))"
    by (simp add: digits_num_def digit_val_def)
  finally show ?case using Suc by simp
qed

text \<open>
  The date of a task as Docker prints it is read to the second, but its first six digits after the second are
  taken as the number of microseconds whatever their number: the microseconds are right exactly when there
  are at least six digits or all are zero. Docker drops the zeros at the end, so that half a second,
  \<open>.5\<close>, is read as five microseconds.
\<close>

theorem docker_time_fraction:
  assumes "fits_shape ''0000-00-00T00:00:00'' date" and "ds \<noteq> []" and "\<forall>c\<in>set ds. is_digit c" and "strptime date = Inr d"
  shows "\<exists>d'. parse_docker_time (PStr (docker_time date ds)) = Inr (Some d') \<and> d'\<lparr>dt_micro := 0\<rparr> = d
    \<and> dt_micro d' = digits_num (take 6 ds)
    \<and> (dt_micro d' = digits_num (take 6 (ds @ ''000000'')) \<longleftrightarrow> 6 \<le> length ds \<or> digits_num ds = 0)"
proof -
  have six: "''000000'' = replicate 6 (CHR ''0'')" by (simp add: numeral_eq_Suc)
  have "digits_num (take 6 ds) = digits_num (take 6 (ds @ ''000000'')) \<longleftrightarrow> 6 \<le> length ds \<or> digits_num ds = 0"
  proof (cases "6 \<le> length ds")
    case False
    then have "take 6 (ds @ ''000000'') = ds @ replicate (6 - length ds) (CHR ''0'')" unfolding six by simp
    moreover have "Suc 0 \<noteq> (10::nat) ^ (6 - length ds)" using False one_less_power [of "10 :: nat" "6 - length ds"] by simp
    ultimately show ?thesis using False by (auto simp: digits_num_append)
  qed simp
  moreover have "d\<lparr>dt_micro := 0\<rparr> = d" using assms(4) by (auto simp: strptime_def Let_def split: if_splits)
  ultimately show ?thesis
    by (simp add: docker_time_parses [OF assms(1-3)] assms(4)) (simp add: digits_at_def digits_num_def)
qed

theorem docker_time_fraction_witness:
  "\<exists>d'. parse_docker_time (PStr ''2021-03-04T10:20:30.5Z'') = Inr (Some d') \<and> dt_micro d' = 5"
proof -
  have "strptime ''2021-03-04T10:20:30'' = Inr \<lparr>dt_year = 2021, dt_month = 3, dt_day = 4, dt_hour = 10, dt_minute = 20, dt_second = 30, dt_micro = 0\<rparr>"
    by (simp add: strptime_def digits_at_def digit_val_def date_ok_def days_in_month_def Let_def eval_nat_numeral)
  from docker_time_fraction [OF _ _ _ this, of "''5''"] show ?thesis
    by (simp add: docker_time_def is_digit_def digits_num_def digit_val_def) blast
qed

text \<open>
  A task is reported in error exactly when it is not to be running and its container ended with a code that
  is not zero; a task without a status or without an exit code is never in error.
\<close>

theorem task_error_iff:
  assumes "dget task ''DesiredState'' = Some desired"
  shows "(is_task_error (PDict task) = Inr True \<longleftrightarrow> desired \<noteq> PStr ''running''
        \<and> (\<exists>status cs code. dget task ''Status'' = Some (PDict status) \<and> dget status ''ContainerStatus'' = Some (PDict cs)
            \<and> dget cs ''ExitCode'' = Some code \<and> \<not> is_zero code))
    \<and> is_task_running (PDict task) = Inr (desired = PStr ''running'')"
proof -
  have run: "is_task_running (PDict task) = Inr (desired = PStr ''running'')"
    by (simp add: is_task_running_def dict_index_def assms)
  have get: "py_get v k dflt = Inr w \<longleftrightarrow> (\<exists>d. v = PDict d \<and> w = get_default d k dflt)" for v k dflt w
    by (cases v) (auto simp: py_get_def)
  let ?bad = "desired \<noteq> PStr ''running''
        \<and> (\<exists>status cs code. dget task ''Status'' = Some (PDict status) \<and> dget status ''ContainerStatus'' = Some (PDict cs)
            \<and> dget cs ''ExitCode'' = Some code \<and> \<not> is_zero code)"
  have "?bad" if "is_task_error (PDict task) = Inr True"
  proof -
    from that obtain status cs code where c: "desired \<noteq> PStr ''running''" "py_get (PDict task) ''Status'' (PDict []) = Inr (PDict status)"
      "py_get (PDict status) ''ContainerStatus'' (PDict []) = Inr (PDict cs)"
      "py_get (PDict cs) ''ExitCode'' (PInt 0) = Inr code" "\<not> is_zero code"
      by (auto simp: run is_task_error_def bindR_eq_Inr get)
    have code: "dget cs ''ExitCode'' = Some code"
      using c(4,5) by (auto simp: get get_default_def is_zero_def split: option.splits)
    then have cs: "dget status ''ContainerStatus'' = Some (PDict cs)"
      using c(3) by (auto simp: get get_default_def split: option.splits)
    then have "dget task ''Status'' = Some (PDict status)"
      using c(2) by (auto simp: get get_default_def split: option.splits)
    with c(1,5) code cs show ?thesis by blast
  qed
  moreover have "is_task_error (PDict task) = Inr True" if "?bad"
    using that by (auto simp: run is_task_error_def py_get_def get_default_def)
  ultimately show ?thesis using run by blast
qed

theorem task_error_iff_witness:
  "is_task_error (PDict [(''DesiredState'', PStr ''shutdown''),
     (''Status'', PDict [(''ContainerStatus'', PDict [(''ExitCode'', PInt 137)])])]) = Inr True"
  using task_error_iff [of "[(''DesiredState'', PStr ''shutdown''),
     (''Status'', PDict [(''ContainerStatus'', PDict [(''ExitCode'', PInt 137)])])]" "PStr ''shutdown''"]
  by (simp add: dget_Cons is_zero_def)

text \<open>
  One node that knows its container but not its task makes the snapshot unreadable: the sections of the
  node's information are written independently of each other, while the reader indexes the task of every
  node that has a container.
\<close>

theorem snapshot_needs_task_ids:
  assumes "t \<in> set (get_tasks so rc)" and "get_info canon fl rc t = Inr rows" and "rows \<noteq> []"
    and "last rows = PDict d" and "dget d ''container_id'' = Some cid" and "truthy cid" and "dget d ''task_id'' = None"
    and "rc_zrange rc (redis_key SNAPSHOT []) \<noteq> []"
  shows "isl (get_snapshot_df canon fl so rc)"
proof -
  have "get_task_key_map canon fl so rc \<noteq> Inr m" for m
  proof
    assume "get_task_key_map canon fl so rc = Inr m"
    then obtain infos where infos: "mapR (\<lambda>t. bindR (get_info canon fl rc t) (\<lambda>rows. Inr (t, rows))) (get_tasks so rc) = Inr infos"
      and m: "concatR (\<lambda>(t, rows).
       if rows = [] then Inr []
       else bindR (py_get (last rows) ''container_id'' PNone) (\<lambda>cid.
         if \<not> truthy cid then Inr []
         else bindR (py_index (last rows) ''task_id'') (\<lambda>tid. Inr [(tid, t)]))) infos = Inr m"
      by (auto simp: get_task_key_map_def bindR_eq_Inr)
    have "(t, rows) \<in> set infos" using mapR_member [OF infos assms(1)] assms(2) by auto
    with m obtain y where "(if rows = [] then Inr []
       else bindR (py_get (last rows) ''container_id'' PNone) (\<lambda>cid.
         if \<not> truthy cid then Inr []
         else bindR (py_index (last rows) ''task_id'') (\<lambda>tid. Inr [(tid, t)]))) = Inr y"
      unfolding concatR_def bindR_eq_Inr by (fastforce dest: mapR_member)
    then show False
      using assms(3-7) by (simp add: py_get_def get_default_def dict_index_def)
  qed
  then have "isl (get_task_key_map canon fl so rc)" by (cases "get_task_key_map canon fl so rc") auto
  then show ?thesis
    using assms(8) by (cases "load_member canon (fst (last (rc_zrange rc (redis_key SNAPSHOT []))))";
        cases "get_task_key_map canon fl so rc") (auto simp: get_snapshot_df_def Let_def)
qed

definition demo_orphan :: redis_client where
  "demo_orphan = printed_client [(''wotemu:info:cam'', [(1, [(''container_id'', PStr ''abc''), (''time'', PInt 1)])]),
     (''wotemu:snapshot'', [(2, [])])]"

theorem snapshot_needs_task_ids_witness: "isl (get_snapshot_df (\<lambda>s. s) demo_report_floats (\<lambda>xs. xs) demo_orphan)"
proof (rule snapshot_needs_task_ids [where cid = "PStr ''abc''" and d = "[(''container_id'', PStr ''abc''), (''time'', PInt 1)]"])
  show "''cam'' \<in> set (get_tasks (\<lambda>xs. xs) demo_orphan)"
    by (simp add: get_tasks_def demo_orphan_def printed_client_def redis_key_def)
  have "load_members (\<lambda>s. s) demo_orphan (redis_key INFO [''cam'']) = Inr [PDict [(''container_id'', PStr ''abc''), (''time'', PInt 1)]]"
    unfolding demo_orphan_def
    by (subst load_printed [where ds = "[(1, [(''container_id'', PStr ''abc''), (''time'', PInt 1)])]"])
      (simp_all add: redis_key_simps dict_ok_def)
  then show "get_info (\<lambda>s. s) demo_report_floats demo_orphan ''cam'' = Inr [PDict [(''container_id'', PStr ''abc''), (''time'', PInt 1)]]"
    by (simp add: get_info_def time_of_def dict_index_def dget_Cons)
  show "rc_zrange demo_orphan (redis_key SNAPSHOT []) \<noteq> []"
    by (simp add: demo_orphan_def printed_client_def redis_key_def)
qed (simp_all add: dget_Cons)

end
