(* ===== verification/ReportFigures.thy ===== *)
theory ReportFigures
  imports ReportProps Things "HOL-Library.Char_ord" "HOL-Library.List_Lexorder"
begin

text \<open>
  \<^verbatim>\<open>wotemu/report/builder.py\<close>, the figures of a report: what each method computes from the frames
  that the reader answers, up to the call that draws it. A figure is the data handed to the plotting library
  with the titles and the height; \<open>None\<close> is the answer of a method without data. How dates fall into
  windows is the parameter \<open>grouper\<close>, the values of the verbs of wotpy are \<open>vv\<close>.
\<close>

section \<open>What a report reads\<close>

text \<open>The answers of the reader: with the cache, each call has one answer.\<close>

record report_data =
  rd_tasks :: "string list"
  rd_system :: "string \<Rightarrow> data_frame res"
  rd_packet :: "string \<Rightarrow> data_frame option res"
  rd_thing :: "string \<Rightarrow> data_frame res"
  rd_traffic :: "bool \<Rightarrow> data_frame option res"
  rd_info_map :: "(string \<times> py) list res"
  rd_info :: "string \<Rightarrow> py res"
  rd_snapshot :: "snap_row list option res"
  rd_compose :: "py res"
  rd_metrics :: "(string \<times> string \<times> py list) list res"

definition read_report ::
  "(string \<Rightarrow> string) \<Rightarrow> floats \<Rightarrow> set_order \<Rightarrow> 'ip netaddr \<Rightarrow> pandas \<Rightarrow> redis_client \<Rightarrow> report_data" where
  "read_report canon fl so na pd rc =
     \<lparr>rd_tasks = get_tasks so rc, rd_system = get_system_df canon fl rc,
      rd_packet = get_extended_df canon fl so na pd rc, rd_thing = get_thing_df canon fl rc,
      rd_traffic = get_service_traffic_df canon fl so na pd rc [], rd_info_map = get_info_map canon fl so rc,
      rd_info = get_info_latest canon fl rc, rd_snapshot = get_snapshot_df canon fl so rc,
      rd_compose = get_compose_dict canon rc, rd_metrics = get_app_metrics canon rc\<rparr>"

record trace =
  tr_name :: cell
  tr_x :: "cell list"
  tr_y :: "cell list"
  tr_secondary :: bool

datatype fig_data =
    Traces "trace list"
  | Heatmap "string list" "string list" "real list list"
  | Chart "(string \<times> cell list) list"

record figure =
  fig_title :: string
  fig_x :: string
  fig_y :: "string list"
  fig_height :: "int option"
  fig_data :: fig_data

definition min_height :: int where
  "min_height = 400"

section \<open>Names of tasks\<close>

text \<open>
  The regular expression takes the longest first part: the last dot that is followed by a number, a dot and
  at least seven characters. A newline at the end is outside of the match.
\<close>

definition cut_at :: "string \<Rightarrow> nat \<Rightarrow> nat option" where
  "cut_at s i =
     (if s ! i \<noteq> CHR ''.'' then None
      else let ds = takeWhile is_digit (drop (i + 1) s); rest = drop (i + 1 + length ds) s
           in if ds \<noteq> [] \<and> rest \<noteq> [] \<and> hd rest = CHR ''.'' \<and> 6 < length (tl rest)
              then Some (i + 1 + length ds + 1 + 6) else None)"

fun last_cut :: "string \<Rightarrow> nat \<Rightarrow> nat option" where
  "last_cut s 0 = None"
| "last_cut s (Suc i) = (case if Suc i < length s then cut_at s (Suc i) else None of Some n \<Rightarrow> Some n | None \<Rightarrow> last_cut s i)"

definition shorten_task_name :: "string \<Rightarrow> string" where
  "shorten_task_name name =
     (let newline = CHR 0x0A; ends = (name \<noteq> [] \<and> last name = newline);
          body = (if ends then butlast name else name); tail = (if ends then [newline] else [])
      in if newline \<in> set body then name
         else (case last_cut body (length body) of None \<Rightarrow> name | Some n \<Rightarrow> take n body @ tail))"

section \<open>Memory and processor of a task\<close>

definition dated_trace :: "data_frame \<Rightarrow> string \<Rightarrow> string \<Rightarrow> bool \<Rightarrow> trace res" where
  "dated_trace df y name secondary =
     bindR (col df ''date'') (\<lambda>xs. bindR (col df y) (\<lambda>ys.
       Inr \<lparr>tr_name = Val (PStr name), tr_x = xs, tr_y = ys, tr_secondary = secondary\<rparr>))"

definition build_task_mem_figure :: "report_data \<Rightarrow> string \<Rightarrow> figure option res" where
  "build_task_mem_figure rd task =
     bindR (rd_system rd task) (\<lambda>df.
       if frame_empty df then Inr None
       else bindR (dated_trace df ''mem_mb'' ''Memory (MB)'' False) (\<lambda>primary.
            bindR (dated_trace df ''mem_percent'' ''Memory (%)'' True) (\<lambda>secondary.
              Inr (Some \<lparr>fig_title = ''Memory usage'', fig_x = ''Date (UTC)'', fig_y = [''MB'', ''%''],
                         fig_height = None, fig_data = Traces [primary, secondary]\<rparr>))))"

definition truthy_cell :: "cell \<Rightarrow> bool" where
  "truthy_cell c = (\<not> is_na c \<and> (case c of Val v \<Rightarrow> truthy v | Num x \<Rightarrow> x \<noteq> 0 | _ \<Rightarrow> True))"

definition build_task_cpu_figure :: "report_data \<Rightarrow> string \<Rightarrow> figure option res" where
  "build_task_cpu_figure rd task =
     bindR (rd_system rd task) (\<lambda>df.
       if frame_empty df then Inr None
       else let has_secondary = (''cpu_percent_constraint'' \<in> set (fr_cols df)
                  \<and> (\<exists>r\<in>set (fr_rows df). truthy_cell (r ''cpu_percent_constraint'')))
            in bindR (dated_trace df ''cpu_percent'' ''CPU total (%)'' False) (\<lambda>primary.
               bindR (if has_secondary
                      then bindR (dated_trace df ''cpu_percent_constraint'' ''CPU constraint (%)'' True) (\<lambda>t. Inr [t])
                      else Inr []) (\<lambda>secondary.
                 Inr (Some \<lparr>fig_title = ''CPU usage'', fig_x = ''Date (UTC)'',
                            fig_y = ''% over total'' # (if has_secondary then [''% over constraint''] else []),
                            fig_height = None, fig_data = Traces (primary # secondary)\<rparr>))))"

section \<open>Packets of a task\<close>

text \<open>
  The windows of a frequency: the window in which a date falls, and all windows from the first to the last
  date of a list, also those without any.
\<close>

record grouper =
  gr_bin :: "string \<Rightarrow> real \<Rightarrow> real"
  gr_windows :: "string \<Rightarrow> real list \<Rightarrow> real list"

locale grouper_laws =
  fixes gr :: grouper
  assumes windows_distinct: "distinct (gr_windows gr freq ds)"
    and windows_cover: "d \<in> set ds \<Longrightarrow> gr_bin gr freq d \<in> set (gr_windows gr freq ds)"
begin

lemma windows_sum:
  "(\<Sum>w\<leftarrow>gr_windows gr freq (map d rs). \<Sum>r\<leftarrow>filter (\<lambda>r. gr_bin gr freq (d r) = w) rs. h r :: real) = (\<Sum>r\<leftarrow>rs. h r)"
  by (rule sum_by_key [where k = "\<lambda>r. gr_bin gr freq (d r)"]) (auto simp: windows_distinct intro: windows_cover)

end

definition floor_grouper :: grouper where
  "floor_grouper = \<lparr>gr_bin = (\<lambda>freq d. of_int \<lfloor>d\<rfloor>), gr_windows = (\<lambda>freq ds. remdups (map (\<lambda>d. of_int \<lfloor>d\<rfloor>) ds))\<rparr>"

interpretation fg: grouper_laws floor_grouper
  by unfold_locales (auto simp: floor_grouper_def)

definition window_sums :: "floats \<Rightarrow> grouper \<Rightarrow> string \<Rightarrow> row list \<Rightarrow> (real \<times> real) list" where
  "window_sums fl gr freq rs =
     map (\<lambda>w. (w, (\<Sum>r\<leftarrow>filter (\<lambda>r. gr_bin gr freq (row_date r) = w) rs. cell_num fl (r ''len'')) / 1024))
       (gr_windows gr freq (map row_date rs))"

text \<open>A missing key is listed among the keys but equals no cell, itself included.\<close>

definition cell_eq :: "cell \<Rightarrow> cell \<Rightarrow> bool" where
  "cell_eq x y \<longleftrightarrow> x = y \<and> \<not> is_na x"

definition packet_trace :: "floats \<Rightarrow> grouper \<Rightarrow> string \<Rightarrow> string \<Rightarrow> row list \<Rightarrow> cell \<Rightarrow> trace" where
  "packet_trace fl gr freq c rs key =
     (let ser = window_sums fl gr freq (filter (\<lambda>r. cell_eq (r c) key) rs)
      in \<lparr>tr_name = key, tr_x = map (\<lambda>s. Date (fst s)) ser, tr_y = map (\<lambda>s. Num (snd s)) ser, tr_secondary = False\<rparr>)"

definition build_task_packet_figure ::
  "floats \<Rightarrow> grouper \<Rightarrow> report_data \<Rightarrow> string \<Rightarrow> string \<Rightarrow> string \<Rightarrow> string \<Rightarrow> figure option res" where
  "build_task_packet_figure fl gr rd title task freq c =
     bindR (rd_packet rd task) (\<lambda>f.
       (case f of
          None \<Rightarrow> Inr None
        | Some df \<Rightarrow>
            if frame_empty df then Inr None
            else bindR (need_cols df [''dstport'', ''srcport'', c]) (\<lambda>_.
              let rs = filter (\<lambda>r. \<not> is_na (r ''dstport'') \<and> \<not> is_na (r ''srcport'')) (fr_rows df)
              in bindR (if rs = [] then Inr () else need_cols df [''len'']) (\<lambda>_. Inr (Some \<lparr>fig_title = title, fig_x = ''Date (UTC)'', fig_y = [''KB''], fig_height = None,
                   fig_data = Traces (map (packet_trace fl gr freq c rs) (remdups (map (\<lambda>r. r c) rs)))\<rparr>)))))"

definition build_task_packet_iface_figure ::
  "floats \<Rightarrow> grouper \<Rightarrow> report_data \<Rightarrow> string \<Rightarrow> string \<Rightarrow> figure option res" where
  "build_task_packet_iface_figure fl gr rd task freq =
     build_task_packet_figure fl gr rd (''Task data transfer by interface ('' @ freq @ '' windows)'') task freq ''iface''"

definition build_task_packet_protocol_figure ::
  "floats \<Rightarrow> grouper \<Rightarrow> report_data \<Rightarrow> string \<Rightarrow> string \<Rightarrow> figure option res" where
  "build_task_packet_protocol_figure fl gr rd task freq =
     build_task_packet_figure fl gr rd (''Task data transfer by protocol ('' @ freq @ '' windows)'') task freq ''proto''"

section \<open>Traffic of services and networks\<close>

definition get_traffic :: "floats \<Rightarrow> data_frame \<Rightarrow> string \<Rightarrow> string \<Rightarrow> string \<Rightarrow> string \<Rightarrow> real res" where
  "get_traffic fl df col_service col_task service task =
     (let df_where = filter (\<lambda>r. r col_service = Val (PStr service) \<and> r col_task = Val (PStr task)) (fr_rows df)
      in if \<not> length df_where \<in> {0, 1} then Inl AssertionError
         else Inr (if df_where = [] then 0 else cell_num fl (hd df_where ''len'') / 1024))"

fun cell_name :: "cell \<Rightarrow> string res" where
  "cell_name (Val (PStr s)) = Inr s"
| "cell_name _ = Inl TypeError"

definition sorted_names :: "cell list \<Rightarrow> string list res" where
  "sorted_names cs = bindR (mapR cell_name (remdups cs)) (\<lambda>ns. Inr (sort ns))"

definition build_service_traffic_figure :: "floats \<Rightarrow> report_data \<Rightarrow> bool \<Rightarrow> figure option res" where
  "build_service_traffic_figure fl rd inbound =
     bindR (rd_traffic rd inbound) (\<lambda>f.
       (case f of
          None \<Rightarrow> Inl AttributeError
        | Some df \<Rightarrow>
            if frame_empty df then Inr None
            else let col_service = (if inbound then ''dst_service'' else ''src_service'');
                     col_task = (if inbound then ''src_task'' else ''dst_task'')
                 in bindR (bindR (col df col_service) sorted_names) (\<lambda>heatmap_x.
                    bindR (bindR (col df col_task) sorted_names) (\<lambda>heatmap_y.
                    bindR (mapR (\<lambda>task. mapR (\<lambda>service. get_traffic fl df col_service col_task service task) heatmap_x) heatmap_y) (\<lambda>heatmap_z.
                      Inr (Some \<lparr>fig_title = (if inbound then ''Task - service'' else ''Service - task'')
                                   @ '' traffic (KB) (service '' @ (if inbound then ''inbound'' else ''outbound'') @ '')'',
                                 fig_x = ''Service'', fig_y = [''Task''],
                                 fig_height = Some (max (70 * int (length heatmap_y)) min_height),
                                 fig_data = Heatmap (map shorten_task_name heatmap_x) (map shorten_task_name heatmap_y) heatmap_z\<rparr>))))))"

definition network_groups :: "floats \<Rightarrow> grouper \<Rightarrow> string \<Rightarrow> row list \<Rightarrow> (real \<times> cell \<times> real) list" where
  "network_groups fl gr freq rs =
     (let known = filter (\<lambda>r. \<not> is_na (r ''network'')) rs
      in map (\<lambda>(w, n). (w, n, (\<Sum>r\<leftarrow>filter (\<lambda>r. gr_bin gr freq (row_date r) = w \<and> r ''network'' = n) known. cell_num fl (r ''len''))))
           (remdups (map (\<lambda>r. (gr_bin gr freq (row_date r), r ''network'')) known)))"

definition build_network_traffic_figure ::
  "floats \<Rightarrow> grouper \<Rightarrow> report_data \<Rightarrow> string \<Rightarrow> int \<Rightarrow> figure option res" where
  "build_network_traffic_figure fl gr rd freq height =
     bindR (mapR (rd_packet rd) (rd_tasks rd)) (\<lambda>df_packets.
     bindR (concat_frames (List.map_filter (\<lambda>f. f) df_packets)) (\<lambda>df.
       if frame_empty df then Inr None
       else let groups = network_groups fl gr freq (fr_rows df)
            in Inr (Some \<lparr>fig_title = ''Data transfer by network ('' @ freq @ '' windows)'', fig_x = ''Date (UTC)'', fig_y = [''KB''],
                 fig_height = Some height,
                 fig_data = Chart [(''date'', map (\<lambda>(w, n, l). Date w) groups), (''network'', map (\<lambda>(w, n, l). n) groups),
                                   (''len_kb'', map (\<lambda>(w, n, l). Num (l / 1024)) groups)]\<rparr>)))"

section \<open>Interactions of the things of a task\<close>

text \<open>The sum of two columns of texts: missing where a part is missing.\<close>

definition cat_cells :: "cell \<Rightarrow> cell \<Rightarrow> cell" where
  "cat_cells a b = (case (a, b) of (Val (PStr x), Val (PStr y)) \<Rightarrow> Val (PStr (x @ y)) | _ \<Rightarrow> NaN)"

definition with_suffix :: "cell \<Rightarrow> cell \<Rightarrow> cell" where
  "with_suffix a b = cat_cells (cat_cells (cat_cells a (Val (PStr '' (''))) b) (Val (PStr '')''))"

definition is_cell :: "cell \<Rightarrow> string \<Rightarrow> bool" where
  "is_cell c s \<longleftrightarrow> c = Val (PStr s)"

text \<open>An interaction that failed: an event that reports an error, or a request with an error.\<close>

definition interaction_failed :: "data_frame \<Rightarrow> row \<Rightarrow> bool" where
  "interaction_failed df r =
     ((''event'' \<in> set (fr_cols df) \<and> is_cell (r ''verb'') ''subscribeevent'' \<and> is_cell (r ''event'') ''on_error'')
      \<or> (''error'' \<in> set (fr_cols df) \<and> \<not> is_cell (r ''verb'') ''subscribeevent'' \<and> \<not> is_na (r ''error'')))"

text \<open>The groups of the rows by a key, rows without a key left out; pandas then sorts the groups.\<close>

definition group_rows :: "(row \<Rightarrow> cell list) \<Rightarrow> row list \<Rightarrow> (cell list \<times> row list) list" where
  "group_rows key rs =
     (let known = filter (\<lambda>r. \<not> list_ex is_na (key r)) rs
      in map (\<lambda>k. (k, filter (\<lambda>r. key r = k) known)) (remdups (map key known)))"

definition build_thing_counts_figure :: "report_data \<Rightarrow> string \<Rightarrow> figure option res" where
  "build_thing_counts_figure rd task =
     bindR (rd_thing rd task) (\<lambda>df.
       if frame_empty df then Inr None
       else bindR (need_cols df [''verb'', ''thing'', ''class'', ''host'']) (\<lambda>_.
         let groups = group_rows (\<lambda>r. [with_suffix (r ''thing'') (r ''class''), r ''verb'',
                        Val (PStr (if interaction_failed df r then ''Error'' else ''OK''))]) (fr_rows df)
         in Inr (Some \<lparr>fig_title = ''Total interaction counts'', fig_x = ''Interaction verb'', fig_y = [''Total count''],
              fig_height = None,
              fig_data = Chart [(''thing'', map (\<lambda>(k, rs). k ! 0) groups), (''verb'', map (\<lambda>(k, rs). k ! 1) groups),
                (''success'', map (\<lambda>(k, rs). k ! 2) groups),
                (''host'', map (\<lambda>(k, rs). Num (real (length (filter (\<lambda>r. \<not> is_na (r ''host'')) rs)))) groups)]\<rparr>)))"

definition build_req_latency_fig :: "(verb \<Rightarrow> py) \<Rightarrow> report_data \<Rightarrow> string \<Rightarrow> string \<Rightarrow> string \<Rightarrow> figure option res" where
  "build_req_latency_fig vv rd title task cls_name =
     bindR (rd_thing rd task) (\<lambda>df.
       if frame_empty df then Inr None
       else bindR (need_cols df [''verb'', ''class'', ''name'']) (\<lambda>_.
         let rs = filter (\<lambda>r. r ''verb'' \<in> {Val (vv INVOKE_ACTION), Val (vv WRITE_PROPERTY), Val (vv READ_PROPERTY)}
                            \<and> is_cell (r ''class'') cls_name) (fr_rows df)
         in if rs = [] then Inr None
            else bindR (need_cols df [''latency'', ''thing'']) (\<lambda>_.
              Inr (Some \<lparr>fig_title = title, fig_x = ''Interaction name & verb'', fig_y = [''Latency (s)''], fig_height = None,
                   fig_data = Chart [(''name_ext'', map (\<lambda>r. with_suffix (r ''name'') (r ''verb'')) rs),
                     (''latency'', map (\<lambda>r. r ''latency'') rs), (''thing'', map (\<lambda>r. r ''thing'') rs)]\<rparr>))))"

definition build_consumed_request_latency_figure :: "(verb \<Rightarrow> py) \<Rightarrow> report_data \<Rightarrow> string \<Rightarrow> figure option res" where
  "build_consumed_request_latency_figure vv rd task =
     build_req_latency_fig vv rd ''Latency distribution of consumed properties and actions'' task ''ConsumedThing''"

definition build_exposed_request_latency_figure :: "(verb \<Rightarrow> py) \<Rightarrow> report_data \<Rightarrow> string \<Rightarrow> figure option res" where
  "build_exposed_request_latency_figure vv rd task =
     build_req_latency_fig vv rd ''Local handler latency distribution of exposed properties and actions'' task ''ExposedThing''"

text \<open>\<open>math.ceil(float(num_facets) / facet_col_wrap) * base_height\<close>\<close>

definition facets_height :: "nat \<Rightarrow> int \<Rightarrow> int \<Rightarrow> int" where
  "facets_height num_facets wrap base = \<lceil>real num_facets / of_int wrap\<rceil> * base"

definition build_events_figure ::
  "(verb \<Rightarrow> py) \<Rightarrow> grouper \<Rightarrow> report_data \<Rightarrow> string \<Rightarrow> string \<Rightarrow> string \<Rightarrow> string \<Rightarrow> int \<Rightarrow> int \<Rightarrow> figure option res" where
  "build_events_figure vv gr rd title task cls_name freq wrap base =
     bindR (rd_thing rd task) (\<lambda>df.
       if frame_empty df then Inr None
       else bindR (need_cols df [''verb'', ''class'']) (\<lambda>_.
         let rs = filter (\<lambda>r. r ''verb'' = Val (vv SUBSCRIBE_EVENT) \<and> is_cell (r ''class'') cls_name) (fr_rows df)
         in if rs = [] then Inr None
            else bindR (need_cols df [''event'', ''name'', ''thing'']) (\<lambda>_.
              let types = remdups (map (\<lambda>r. r ''event'') rs);
                  groups = group_rows (\<lambda>r. [Date (gr_bin gr freq (row_date r)), with_suffix (r ''name'') (r ''thing'')]) rs;
                  facets = remdups (map (\<lambda>(k, q). k ! 1) groups)
              in bindR (mapR cell_name types) (\<lambda>names.
                Inr (Some \<lparr>fig_title = title, fig_x = ''Date (UTC)'', fig_y = [''Total count''],
                   fig_height = Some (facets_height (length facets) wrap base),
                   fig_data = Chart ([(''date'', map (\<lambda>(k, q). k ! 0) groups), (''name'', map (\<lambda>(k, q). k ! 1) groups)]
                     @ map (\<lambda>n. (n, map (\<lambda>(k, q). Num (real (length (filter (\<lambda>r. is_cell (r ''event'') n) q)))) groups)) names)\<rparr>)))))"

definition build_consumed_events_figure :: "(verb \<Rightarrow> py) \<Rightarrow> grouper \<Rightarrow> report_data \<Rightarrow> string \<Rightarrow> string \<Rightarrow> figure option res" where
  "build_consumed_events_figure vv gr rd task freq =
     build_events_figure vv gr rd (''Timeline of consumed events ('' @ freq @ '' windows)'') task ''ConsumedThing'' freq 2 400"

definition build_exposed_events_figure :: "(verb \<Rightarrow> py) \<Rightarrow> grouper \<Rightarrow> report_data \<Rightarrow> string \<Rightarrow> string \<Rightarrow> figure option res" where
  "build_exposed_events_figure vv gr rd task freq =
     build_events_figure vv gr rd (''Timeline of exposed events ('' @ freq @ '' windows)'') task ''ExposedThing'' freq 2 400"

section \<open>Rankings and the timeline\<close>

definition task_frame :: "report_data \<Rightarrow> (string \<times> cell) list \<Rightarrow> string \<Rightarrow> data_frame res" where
  "task_frame rd extra task =
     bindR (rd_system rd task) (\<lambda>df.
       Inr (foldl (\<lambda>g (c, v). set_col c (\<lambda>r. v) g) df
         ([(''task'', Val (PStr (shorten_task_name task))), (''task_short'', Val (PStr (shorten_task_name task)))] @ extra)))"

definition cpu_model_of :: "(string \<times> py) list \<Rightarrow> string \<Rightarrow> py res" where
  "cpu_model_of infos task =
     py_get (case map_of infos task of Some i \<Rightarrow> i | None \<Rightarrow> PDict []) ''cpu_model'' (PStr ''Unknown CPU'')"

definition build_cpu_ranking_figure :: "report_data \<Rightarrow> int \<Rightarrow> int \<Rightarrow> (figure \<times> real list) option res" where
  "build_cpu_ranking_figure rd height_task height_facet =
     (if rd_tasks rd = [] then Inr None
      else bindR (rd_info_map rd) (\<lambda>infos.
           bindR (mapR (\<lambda>task. bindR (rd_system rd task) (\<lambda>_. bindR (cpu_model_of infos task) (\<lambda>m.
                   task_frame rd [(''cpu_model'', Val m)] task))) (rd_tasks rd)) (\<lambda>dfs.
           bindR (concat_frames dfs) (\<lambda>df.
             if frame_empty df then Inr None
             else let rs = fr_rows df;
                      models = remdups (map (\<lambda>r. r ''cpu_model'') rs);
                      tasks_of = (\<lambda>qs. remdups (map (\<lambda>r. r ''task'') qs));
                      rows_of = (\<lambda>m. filter (\<lambda>r. cell_eq (r ''cpu_model'') m) rs);
                      row_heights = map (\<lambda>m. real (length (tasks_of (rows_of m))) / real (length (tasks_of rs))) models
                  in bindR (need_cols df [''cpu_percent'']) (\<lambda>_.
                     Inr (Some (\<lparr>fig_title = ''CPU distribution (by CPU model)'', fig_x = ''CPU (%)'', fig_y = [''Task''],
                       fig_height = Some (max (int (length (rd_tasks rd)) * height_task + height_facet * int (length models)) min_height),
                       fig_data = Traces (map (\<lambda>m. \<lparr>tr_name = m, tr_x = map (\<lambda>r. r ''cpu_percent'') (rows_of m),
                         tr_y = map (\<lambda>r. r ''task_short'') (rows_of m), tr_secondary = False\<rparr>) models)\<rparr>, row_heights)))))))"

definition build_mem_ranking_figure :: "report_data \<Rightarrow> int \<Rightarrow> figure option res" where
  "build_mem_ranking_figure rd height_task =
     (if rd_tasks rd = [] then Inr None
      else bindR (mapR (task_frame rd []) (rd_tasks rd)) (\<lambda>dfs.
           bindR (concat_frames dfs) (\<lambda>df.
             if frame_empty df then Inr None
             else bindR (col df ''mem_mb'') (\<lambda>xs. bindR (col df ''task_short'') (\<lambda>ys.
               Inr (Some \<lparr>fig_title = ''Memory distribution'', fig_x = ''Memory (MB)'', fig_y = [''Task''],
                 fig_height = Some (max (height_task * int (length (rd_tasks rd))) min_height),
                 fig_data = Chart [(''mem_mb'', xs), (''task_short'', ys)]\<rparr>))))))"

text \<open>A bar of the timeline: the task, its start and end, and whether it is in error.\<close>

datatype instant = AtDocker dt_cell | AtSnapshot real

definition snap_finish :: "snap_row \<Rightarrow> dt_cell \<Rightarrow> instant" where
  "snap_finish s updated = (if sn_running s then AtSnapshot (sn_stopped s) else AtDocker updated)"

definition build_task_timeline_figure ::
  "report_data \<Rightarrow> int \<Rightarrow> (int \<times> (string option \<times> dt_cell \<times> instant \<times> bool) list) res" where
  "build_task_timeline_figure rd height_task =
     bindR (rd_snapshot rd) (\<lambda>snap.
       (case snap of
          None \<Rightarrow> Inl TypeError
        | Some rows \<Rightarrow>
            if rows = [] then Inl (KeyError ''is_running'')
            else Inr (max (height_task * int (length (remdups (map sn_task rows)))) min_height,
                   map (\<lambda>(s, created, updated). (map_option shorten_task_name (sn_task s), created, snap_finish s updated, sn_error s))
                     (zip rows (zip (date_cells (map sn_created rows)) (date_cells (map sn_updated rows)))))))"

section \<open>Facts\<close>

lemma sum_matrix:
  assumes "distinct xs" and "distinct ys" and "\<forall>r\<in>set rs. f r \<in> set xs \<and> g r \<in> set ys"
  shows "(\<Sum>y\<leftarrow>ys. \<Sum>x\<leftarrow>xs. \<Sum>r\<leftarrow>filter (\<lambda>r. f r = x \<and> g r = y) rs. h r :: real) = (\<Sum>r\<leftarrow>rs. h r)"
proof -
  have "(\<Sum>x\<leftarrow>xs. \<Sum>r\<leftarrow>filter (\<lambda>r. f r = x \<and> g r = y) rs. h r) = (\<Sum>r\<leftarrow>filter (\<lambda>r. g r = y) rs. h r)" for y
    using sum_by_key [OF assms(1), of "filter (\<lambda>r. g r = y) rs" f h] assms(3) by (simp add: conj_commute)
  with sum_by_key [OF assms(2), of rs g h] assms(3) show ?thesis by simp
qed

definition cell_text :: "cell \<Rightarrow> string" where
  "cell_text c = (case c of Val (PStr s) \<Rightarrow> s | _ \<Rightarrow> [])"

lemma sorted_names_ok:
  assumes "\<forall>c\<in>set cs. \<exists>s. c = Val (PStr s)"
  shows "\<exists>ns. sorted_names cs = Inr ns \<and> distinct ns \<and> sorted ns \<and> (\<lambda>n. Val (PStr n)) ` set ns = set cs"
proof -
  have named: "cell_name c = Inr (cell_text c)" "Val (PStr (cell_text c)) = c" if "c \<in> set cs" for c
    using assms that by (auto simp: cell_text_def)
  then have names: "mapR cell_name xs = Inr (map cell_text xs)" if "set xs \<subseteq> set cs" for xs
    using that named(1) by (intro mapR_total) auto
  let ?ns = "map cell_text (remdups cs)"
  have "inj_on cell_text (set cs)" using named(2) by (intro inj_onI) metis
  then have "distinct ?ns" by (simp add: distinct_map)
  moreover have "(\<lambda>n. Val (PStr n)) ` set ?ns = set cs"
    using named(2) by (simp add: image_image)
  ultimately show ?thesis
    using names [of "remdups cs"] by (intro exI [of _ "sort ?ns"]) (simp add: sorted_names_def)
qed

lemma get_traffic_ok:
  assumes "distinct (map (\<lambda>r. (r cs, r ct)) (fr_rows df))"
  shows "get_traffic fl df cs ct service task = Inr (\<Sum>r\<leftarrow>filter (\<lambda>r. r cs = Val (PStr service) \<and> r ct = Val (PStr task)) (fr_rows df).
    cell_num fl (r ''len'') / 1024)"
proof -
  let ?w = "filter (\<lambda>r. r cs = Val (PStr service) \<and> r ct = Val (PStr task)) (fr_rows df)"
  have "distinct (map (\<lambda>r. (r cs, r ct)) ?w)" using assms by (rule distinct_map_filter)
  moreover have "map (\<lambda>r. (r cs, r ct)) ?w = replicate (length ?w) (Val (PStr service), Val (PStr task))"
    by (rule replicate_eqI) auto
  ultimately have "distinct (replicate (length ?w) (Val (PStr service), Val (PStr task)))" by simp
  then have "length ?w \<le> 1" by (cases "length ?w"; cases "length ?w - 1") auto
  then consider "?w = []" | r where "?w = [r]" by (cases ?w) auto
  then show ?thesis by cases (simp_all add: get_traffic_def)
qed

lemma traffic_pairs_distinct:
  assumes "pandas_laws fl pd" and "distinct (tasks_or_all so rc tasks)"
    and "get_service_traffic_df canon fl so na pd rc tasks inbound = Inr (Some T)"
  shows "distinct (map (\<lambda>r. (r (col_service_of inbound), r (col_task_of inbound))) (fr_rows T))
    \<and> (\<forall>r\<in>set (fr_rows T). \<exists>t. r (col_task_of inbound) = Val (PStr t))
    \<and> set (fr_cols T) = {col_service_of inbound, ''len'', col_task_of inbound}"
proof -
  obtain dfs where dfs: "mapR (\<lambda>t. bindR (get_extended_df canon fl so na pd rc t) (\<lambda>f. Inr (t, f))) (tasks_or_all so rc tasks) = Inr dfs"
    and rows: "fr_rows T = concat (map (\<lambda>(t, f). fr_rows (task_traffic fl pd (col_task_of inbound) (col_service_of inbound) t f))
       (List.map_filter (\<lambda>(t, f). map_option (Pair t) f) dfs))"
    and cols: "set (fr_cols T) = {col_service_of inbound, ''len'', col_task_of inbound}"
    by (rule service_traffic_parts [OF assms(3)])
  have "distinct (map fst (List.map_filter (\<lambda>(t, f). map_option (Pair t) f) dfs))"
    using assms(2) mapR_pairs [OF dfs] by (intro present_distinct) simp
  note dist = pandas_laws.traffic_parts(1) [OF assms(1) this, where b = inbound, folded rows]
  have own: "\<exists>t. r (col_task_of inbound) = Val (PStr t)" if "r \<in> set (fr_rows T)" for r
    using that pandas_laws.task_traffic_total(3) [OF assms(1) col_names, of inbound] unfolding rows by fastforce
  from dist own cols show ?thesis by blast
qed

lemma sum_list_div: "(\<Sum>r\<leftarrow>qs. h r :: real) / k = (\<Sum>r\<leftarrow>qs. h r / k)"
  by (induction qs) (simp_all add: add_divide_distrib)

lemma cell_num_Num: "cell_num fl (Num x) = x"
  by (simp add: cell_num_def)

lemma window_sums_total:
  assumes "grouper_laws gr"
  shows "(\<Sum>s\<leftarrow>window_sums fl gr freq qs. snd s) = (\<Sum>r\<leftarrow>qs. cell_num fl (r ''len'') / 1024)"
  using grouper_laws.windows_sum [OF assms, where d = row_date and h = "\<lambda>r. cell_num fl (r ''len'') / 1024" and freq = freq and rs = qs]
  by (simp add: window_sums_def o_def sum_list_div)

text \<open>
  The heatmap of the service traffic: built on the reader's own table, its assertion that a task and a service
  have at most one row never fails, and the cells add up to the whole traffic of the table in KB.
\<close>

theorem heatmap_total:
  assumes "pandas_laws fl pd" and "distinct (get_tasks so rc)"
    and "get_service_traffic_df canon fl so na pd rc [] inbound = Inr (Some T)" and "fr_rows T \<noteq> []"
    and "\<forall>r\<in>set (fr_rows T). \<exists>s. r (col_service_of inbound) = Val (PStr s)"
  shows "\<exists>fig xs ys z. build_service_traffic_figure fl (read_report canon fl so na pd rc) inbound = Inr (Some fig)
    \<and> fig_data fig = Heatmap xs ys z \<and> length z = length ys \<and> (\<forall>zs\<in>set z. length zs = length xs)
    \<and> (\<Sum>zs\<leftarrow>z. \<Sum>v\<leftarrow>zs. v) = (\<Sum>r\<leftarrow>fr_rows T. cell_num fl (r ''len'')) / 1024"
proof -
  let ?cs = "col_service_of inbound" and ?ct = "col_task_of inbound"
  have dist: "distinct (map (\<lambda>r. (r ?cs, r ?ct)) (fr_rows T))" and own: "\<forall>r\<in>set (fr_rows T). \<exists>t. r ?ct = Val (PStr t)"
    and cols: "set (fr_cols T) = {?cs, ''len'', ?ct}"
    using traffic_pairs_distinct [OF assms(1) _ assms(3)] assms(2) by (auto simp: tasks_or_all_def)
  have ne: "\<not> frame_empty T" using assms(4) cols by (auto simp: frame_empty_def)
  have X: "col T ?cs = Inr (map (\<lambda>r. r ?cs) (fr_rows T))" and Y: "col T ?ct = Inr (map (\<lambda>r. r ?ct) (fr_rows T))"
    using cols by (auto simp: col_def)
  obtain xs where xs: "sorted_names (map (\<lambda>r. r ?cs) (fr_rows T)) = Inr xs" "distinct xs"
    "(\<lambda>n. Val (PStr n)) ` set xs = (\<lambda>r. r ?cs) ` set (fr_rows T)"
    using sorted_names_ok [of "map (\<lambda>r. r ?cs) (fr_rows T)"] assms(5) by auto
  obtain ys where ys: "sorted_names (map (\<lambda>r. r ?ct) (fr_rows T)) = Inr ys" "distinct ys"
    "(\<lambda>n. Val (PStr n)) ` set ys = (\<lambda>r. r ?ct) ` set (fr_rows T)"
    using sorted_names_ok [of "map (\<lambda>r. r ?ct) (fr_rows T)"] own by auto
  let ?h = "\<lambda>r. cell_num fl (r ''len'') / 1024"
  let ?z = "map (\<lambda>t. map (\<lambda>s. \<Sum>r\<leftarrow>filter (\<lambda>r. r ?cs = Val (PStr s) \<and> r ?ct = Val (PStr t)) (fr_rows T). ?h r) xs) ys"
  have "mapR (\<lambda>t. mapR (\<lambda>s. get_traffic fl T ?cs ?ct s t) xs) ys = Inr ?z"
    by (intro mapR_total) (simp add: get_traffic_ok [OF dist] mapR_total)
  then have fig: "\<exists>fig. build_service_traffic_figure fl (read_report canon fl so na pd rc) inbound = Inr (Some fig)
      \<and> fig_data fig = Heatmap (map shorten_task_name xs) (map shorten_task_name ys) ?z"
    unfolding build_service_traffic_figure_def col_task_of_def [symmetric] col_service_of_def [symmetric] Let_def
    using assms(3) ne X Y xs(1) ys(1) by (simp add: read_report_def)
  have mem: "\<forall>r\<in>set (fr_rows T). r ?cs \<in> set (map (\<lambda>n. Val (PStr n)) xs) \<and> r ?ct \<in> set (map (\<lambda>n. Val (PStr n)) ys)"
    using xs(3) ys(3) by simp
  have inj: "distinct (map (\<lambda>n. Val (PStr n)) xs)" "distinct (map (\<lambda>n. Val (PStr n)) ys)"
    using xs(2) ys(2) by (simp_all add: distinct_map inj_on_def)
  have "(\<Sum>zs\<leftarrow>?z. \<Sum>v\<leftarrow>zs. v) = (\<Sum>r\<leftarrow>fr_rows T. ?h r)"
    using sum_matrix [OF inj mem, of ?h] by (simp add: o_def)
  also have "\<dots> = (\<Sum>r\<leftarrow>fr_rows T. cell_num fl (r ''len'')) / 1024"
    by (rule sum_list_div [symmetric])
  finally have "(\<Sum>zs\<leftarrow>?z. \<Sum>v\<leftarrow>zs. v) = (\<Sum>r\<leftarrow>fr_rows T. cell_num fl (r ''len'')) / 1024" .
  with fig show ?thesis by fastforce
qed


lemma demo_traffic:
  "\<exists>T. get_service_traffic_df (\<lambda>s. s) demo_report_floats (\<lambda>xs. xs) demo_netaddr (list_pandas demo_report_floats) (demo_reports [1]) [] True = Inr (Some T)
     \<and> map (\<lambda>r. (r ''dst_service'', cell_num demo_report_floats (r ''len''))) (fr_rows T) = [(Val (PStr ''camera''), 100)]"
proof -
  let ?pd = "list_pandas demo_report_floats"
  obtain f where f: "get_extended_df (\<lambda>s. s) demo_report_floats (\<lambda>xs. xs) demo_netaddr ?pd (demo_reports [1]) ''cam'' = Inr (Some f)"
    and rows: "fr_rows f = [annotate_packet (frame_of [demo_address_row 1]) (frame_of [demo_vip_row 1]) (hd (fr_rows demo_packets))]"
    and len: "''len'' \<in> set (fr_cols f)"
    using demo_extended by blast
  have tasks: "tasks_or_all (\<lambda>xs. xs) (demo_reports [1]) [] = [''cam'']" by (simp add: tasks_or_all_def demo_tasks)
  define r where "r = annotate_packet (frame_of [demo_address_row 1]) (frame_of [demo_vip_row 1]) (hd (fr_rows demo_packets))"
  have cells: "r ''src_task'' = Val (PStr ''cam'')" "r ''dst_service'' = Val (PStr ''camera'')" "r ''len'' = Val (PInt 100)"
    by (simp_all add: r_def demo_packets_def annotate_packet_def found_def demo_address_row_def demo_vip_row_def row_of_def
        key_eq_def Let_def)
  have r: "fr_rows f = [r]" using rows by (simp only: r_def)
  have "map (\<lambda>r. (r ''dst_service'', cell_num demo_report_floats (r ''len''))) (fr_rows (task_traffic demo_report_floats ?pd ''src_task'' ''dst_service'' ''cam'' f))
      = [(Val (PStr ''camera''), 100)]"
    by (simp add: task_traffic_def Let_def r cells list_pandas_def group_total_def row_of_def cell_num_def)
  then show ?thesis
    using len by (simp add: get_service_traffic_df_def Let_def tasks f List.map_filter_simps concat_frames_def)
qed

theorem heatmap_total_witness:
  "\<exists>fig xs ys z. build_service_traffic_figure demo_report_floats
      (read_report (\<lambda>s. s) demo_report_floats (\<lambda>xs. xs) demo_netaddr (list_pandas demo_report_floats) (demo_reports [1])) True = Inr (Some fig)
    \<and> fig_data fig = Heatmap xs ys z \<and> (\<Sum>zs\<leftarrow>z. \<Sum>v\<leftarrow>zs. v) = 100 / 1024"
proof -
  obtain T where T: "get_service_traffic_df (\<lambda>s. s) demo_report_floats (\<lambda>xs. xs) demo_netaddr (list_pandas demo_report_floats) (demo_reports [1]) [] True = Inr (Some T)"
    and rows: "map (\<lambda>r. (r ''dst_service'', cell_num demo_report_floats (r ''len''))) (fr_rows T) = [(Val (PStr ''camera''), 100)]"
    using demo_traffic by (elim exE conjE)
  obtain r where single: "fr_rows T = [r]" using rows unfolding map_eq_Cons_conv by auto
  with rows have r: "fr_rows T = [r]" "r ''dst_service'' = Val (PStr ''camera'')" "cell_num demo_report_floats (r ''len'') = 100" by simp_all
  have "distinct (get_tasks (\<lambda>xs. xs) (demo_reports [1]))" "fr_rows T \<noteq> []"
    "\<forall>r\<in>set (fr_rows T). \<exists>s. r (col_service_of True) = Val (PStr s)"
    by (simp_all add: demo_tasks r col_service_of_def)
  from heatmap_total [OF lp.pandas_laws_axioms this(1) T this(2,3)] show ?thesis by (auto simp: r)
qed

definition demo_report :: report_data where
  "demo_report = \<lparr>rd_tasks = [''cam''], rd_system = (\<lambda>t. Inr (frame_of [])), rd_packet = (\<lambda>t. Inr (Some (frame_of
       [[(''date'', Date 1.5), (''iface'', Val (PStr ''eth0'')), (''dstport'', Val (PInt 80)), (''srcport'', Val (PInt 9)), (''len'', Val (PInt 512))],
        [(''date'', Date 3.5), (''iface'', Val (PStr ''eth0'')), (''dstport'', Val (PInt 80)), (''srcport'', Val (PInt 9)), (''len'', Val (PInt 512))]]))),
     rd_thing = (\<lambda>t. Inr (frame_of [])), rd_traffic = (\<lambda>b. Inr None), rd_info_map = Inr [], rd_info = (\<lambda>t. Inr PNone),
     rd_snapshot = Inr None, rd_compose = Inr PNone, rd_metrics = Inr []\<rparr>"


lemma last_cut_at:
  "cut_at s i = Some n \<Longrightarrow> 0 < i \<Longrightarrow> i \<le> m \<Longrightarrow> i < length s \<Longrightarrow> (\<And>j. i < j \<Longrightarrow> j \<le> m \<Longrightarrow> j < length s \<Longrightarrow> cut_at s j = None) \<Longrightarrow> last_cut s m = Some n"
proof (induction m)
  case 0
  then show ?case by simp
next
  case (Suc m)
  show ?case
  proof (cases "i = Suc m")
    case True
    then show ?thesis using Suc.prems by simp
  next
    case False
    then have "last_cut s m = Some n" using Suc by simp
    moreover have "Suc m < length s \<Longrightarrow> cut_at s (Suc m) = None" using Suc.prems False by simp
    ultimately show ?thesis by simp
  qed
qed

text \<open>
  The name that a figure shows of a task of a service: the service, the slot and the first six characters of
  the task's id.
\<close>

theorem shorten_keeps_slot:
  assumes "svc \<noteq> []" and "slot \<noteq> []" and "\<forall>c\<in>set slot. is_digit c" and "6 < length tid" and "CHR ''.'' \<notin> set tid"
    and "CHR 0x0A \<notin> set (svc @ tid)"
  shows "shorten_task_name (svc @ ''.'' @ slot @ ''.'' @ tid) = svc @ ''.'' @ slot @ ''.'' @ take 6 tid"
proof -
  let ?s = "svc @ ''.'' @ slot @ ''.'' @ tid" and ?i = "length svc" and ?n = "length svc + 1 + length slot + 1 + 6"
  have dig: "takeWhile is_digit (slot @ CHR ''.'' # tid) = slot"
    using assms(3) by (simp add: takeWhile_append is_digit_def)
  have first: "cut_at ?s ?i = Some ?n"
    using assms(2,4) by (simp add: cut_at_def nth_append dig Let_def)
  have none: "cut_at ?s j = None" if j: "?i < j" "j < length ?s" for j
  proof (cases "j = ?i + 1 + length slot")
    case True
    let ?ds = "takeWhile is_digit tid"
    have "drop (length ?ds) tid = dropWhile is_digit tid" by (simp add: dropWhile_eq_drop)
    then have "drop (length ?ds) tid \<noteq> [] \<Longrightarrow> hd (drop (length ?ds) tid) \<noteq> CHR ''.''"
      using assms(5) by (metis hd_in_set set_dropWhileD)
    with True show ?thesis by (auto simp: cut_at_def nth_append Let_def)
  next
    case False
    have "?s ! j \<noteq> CHR ''.''"
    proof (cases "j < ?i + 1 + length slot")
      case True
      define k where "k = j - (?i + 1)"
      have k: "j = ?i + 1 + k" "k < length slot" using True j(1) by (simp_all add: k_def)
      then have "?s ! j = slot ! k" by (simp add: nth_append)
      moreover have "is_digit (slot ! k)" using assms(3) k(2) by simp
      ultimately show ?thesis by (auto simp: is_digit_def)
    next
      case f: False
      define k where "k = j - (?i + 1 + length slot + 1)"
      have "j = ?i + 1 + length slot + 1 + k" using f False by (simp add: k_def)
      then have "?s ! j = tid ! k" "k < length tid" using j(2) by (simp_all add: nth_append)
      then show ?thesis using assms(5) by (metis nth_mem)
    qed
    then show ?thesis by (simp add: cut_at_def)
  qed
  have cut: "last_cut ?s (length ?s) = Some ?n"
    by (rule last_cut_at [OF first]) (use assms(1) none in auto)
  have "CHR 0x0A \<notin> set slot" using assms(3) by (auto simp: is_digit_def)
  then have nl: "CHR 0x0A \<notin> set ?s" and ne: "?s \<noteq> []" using assms(6) by auto
  have "shorten_task_name s = take ?n s" if "CHR 0x0A \<notin> set s" "s \<noteq> []" "last_cut s (length s) = Some ?n" for s
  proof -
    have "last s \<noteq> CHR 0x0A" using that(1,2) last_in_set by metis
    with that show ?thesis by (simp add: shorten_task_name_def)
  qed
  from this [OF nl ne cut] have "shorten_task_name ?s = take ?n ?s" .
  also have "\<dots> = take (length (svc @ ''.'' @ slot @ ''.'') + 6) ((svc @ ''.'' @ slot @ ''.'') @ tid)" by simp
  also have "\<dots> = svc @ ''.'' @ slot @ ''.'' @ take 6 tid" unfolding take_append by simp
  finally show ?thesis .
qed

theorem shorten_keeps_slot_witness: "shorten_task_name ''stack_cam.2.k3v9x1abcdef'' = ''stack_cam.2.k3v9x1''"
  using shorten_keeps_slot [of "''stack_cam''" "''2''" "''k3v9x1abcdef''"] by (simp add: is_digit_def)

end
