(* ===== verification/Html.thy ===== *)
theory Html
  imports ReportFigures
begin

text \<open>
  \<^verbatim>\<open>wotemu/report/components/\<close>: the blocks of the report's pages as trees of elements, and
  \<^verbatim>\<open>wotemu/report/utils.py\<close>, the template of a page. Drawing a figure, printing YAML, printing a tree
  and printing times are library functions: the parameter \<open>page_env\<close>.
\<close>

datatype html = Element (tag: string) (attrs: "(string \<times> string) list") (text_of: string) (children: "html list")

datatype drawing =
    Drawn figure
  | Ranking figure "real list"
  | Timeline int "(string option \<times> dt_cell \<times> instant \<times> bool) list"

record page_env =
  pe_plot :: "drawing \<Rightarrow> html"
  pe_yaml :: "py \<Rightarrow> string"
  pe_template :: html
  pe_print :: "html \<Rightarrow> string"
  pe_iso :: "real \<Rightarrow> string"
  pe_naive :: "real \<Rightarrow> string"
  pe_local :: "real \<Rightarrow> real"
  pe_now :: string

definition elem :: "string \<Rightarrow> string \<Rightarrow> html" where
  "elem t cls = Element t [(''class'', cls)] '''' []"

definition plain :: "string \<Rightarrow> html" where
  "plain t = Element t [] '''' []"

definition with_text :: "string \<Rightarrow> html \<Rightarrow> html" where
  "with_text s e = Element (tag e) (attrs e) s (children e)"

definition append :: "html \<Rightarrow> html list \<Rightarrow> html" where
  "append e cs = Element (tag e) (attrs e) (text_of e) (children e @ cs)"

definition set_attr :: "string \<Rightarrow> string \<Rightarrow> html \<Rightarrow> html" where
  "set_attr k v e = Element (tag e) (AList.update k v (attrs e)) (text_of e) (children e)"

section \<open>Pages\<close>

text \<open>The element is appended to the first element of the body, in document order, whose id is \<open>root\<close>.\<close>

fun add_to_root :: "html \<Rightarrow> html \<Rightarrow> html option"
  and add_to_first :: "html \<Rightarrow> html list \<Rightarrow> html list option" where
  "add_to_root el (Element t a s cs) =
     (if map_of a ''id'' = Some ''root'' then Some (Element t a s (cs @ [el]))
      else map_option (Element t a s) (add_to_first el cs))"
| "add_to_first el [] = None"
| "add_to_first el (c # cs) =
     (case add_to_root el c of
        Some c' \<Rightarrow> Some (c' # cs)
      | None \<Rightarrow> map_option ((#) c) (add_to_first el cs))"

fun add_to_body :: "html \<Rightarrow> html list \<Rightarrow> html list res" where
  "add_to_body el [] = Inl AttributeError"
| "add_to_body el (c # cs) =
     (if tag c = ''body''
      then (case add_to_root el c of Some c' \<Rightarrow> Inr (c' # cs) | None \<Rightarrow> Inl StopIteration)
      else bindR (add_to_body el cs) (\<lambda>cs'. Inr (c # cs')))"

definition to_page_html :: "page_env \<Rightarrow> html \<Rightarrow> string res" where
  "to_page_html env el =
     (let t = pe_template env
      in bindR (add_to_body el (children t)) (\<lambda>cs. Inr (pe_print env (Element (tag t) (attrs t) (text_of t) cs))))"

section \<open>Blocks\<close>

definition code_block :: "page_env \<Rightarrow> py \<Rightarrow> string option \<Rightarrow> string option \<Rightarrow> html" where
  "code_block env content title subtitle =
     (let card_title = (if truthy_str title then [with_text (the title) (elem ''h5'' ''card-title'')] else []);
          card_subtitle = (if truthy_str subtitle then [with_text (the subtitle) (elem ''h6'' ''card-subtitle mb-2'')] else []);
          card_pre = with_text (pe_yaml env content) (elem ''pre'' ''mb-0 text-muted'')
      in append (elem ''div'' ''card'') [append (elem ''div'' ''card-body'') (card_title @ card_subtitle @ [card_pre])])"

text \<open>
  The items of a container are elements or components; a component whose \<open>to_element\<close> raises an
  \<open>AttributeError\<close> is taken for an element, which then cannot be appended.
\<close>

datatype item = Ready html | Component "html res"

definition container_item :: "item \<Rightarrow> html res" where
  "container_item i =
     (case i of
        Ready e \<Rightarrow> Inr e
      | Component (Inr e) \<Rightarrow> Inr e
      | Component (Inl ex) \<Rightarrow> if ex = AttributeError then Inl TypeError else Inl ex)"

definition container :: "item list \<Rightarrow> html res" where
  "container items =
     bindR (mapR container_item items) (\<lambda>els.
       Inr (append (plain ''div'')
         (map (\<lambda>(idx, el). append (elem ''div'' (if 0 < idx then ''row mt-2'' else ''row'')) [append (elem ''div'' ''col'') [el]])
           (List.enumerate 0 els))))"

definition figure_block :: "page_env \<Rightarrow> drawing \<Rightarrow> string option \<Rightarrow> int option \<Rightarrow> string \<Rightarrow> bool \<Rightarrow> html" where
  "figure_block env fig title height col_class with_row =
     (let plot = pe_plot env fig;
          el_plot = (case height of Some h \<Rightarrow> if h \<noteq> 0 then set_attr ''style'' (''height: '' @ int_str h @ ''px;'') plot else plot | None \<Rightarrow> plot);
          el_title = (if truthy_str title then [with_text (the title) (plain ''h4'')] else []);
          el_col = append (elem ''div'' col_class) (el_title @ [el_plot])
      in if with_row then append (elem ''div'' ''row'') [el_col] else el_col)"

definition figures_row :: "page_env \<Rightarrow> drawing list \<Rightarrow> string option \<Rightarrow> int option \<Rightarrow> string \<Rightarrow> html" where
  "figures_row env figs title height col_class =
     (let el_title = (if truthy_str title
            then [append (elem ''div'' ''col-xl-12'') [with_text (the title) (plain ''h4'')]] else [])
      in append (elem ''div'' ''row'') (el_title @ map (\<lambda>f. figure_block env f None height col_class False) figs))"

section \<open>The list of tasks\<close>

definition snap_of_task :: "snap_row list option \<Rightarrow> string \<Rightarrow> snap_row list res" where
  "snap_of_task snap task =
     (case snap of
        None \<Rightarrow> Inl TypeError
      | Some rows \<Rightarrow> if rows = [] then Inl (KeyError ''task'') else Inr (filter (\<lambda>s. sn_task s = Some task) rows))"

definition item_class :: "snap_row list option \<Rightarrow> string \<Rightarrow> string res" where
  "item_class snap task =
     bindR (snap_of_task snap task) (\<lambda>rows.
       Inr (''list-group-item list-group-item-action '' @
         (if list_ex sn_error rows then ''list-group-item-danger''
          else if rows \<noteq> [] \<and> \<not> list_all sn_running rows then ''list-group-item-warning''
          else ''text-primary'')))"

definition init_dtime :: "floats \<Rightarrow> (string \<times> py) list \<Rightarrow> string \<Rightarrow> real option res" where
  "init_dtime fl infos task =
     bindR (py_get (case map_of infos task of Some i \<Rightarrow> i | None \<Rightarrow> PDict []) ''time'' PNone) (\<lambda>t.
       if \<not> truthy t then Inr None else bindR (py_number fl t) (\<lambda>x. Inr (Some x)))"

definition sorted_task_keys :: "page_env \<Rightarrow> floats \<Rightarrow> (string \<times> py) list \<Rightarrow> string list \<Rightarrow> string list res" where
  "sorted_task_keys env fl infos tasks =
     bindR (mapR (init_dtime fl infos) tasks) (\<lambda>ts.
       Inr (map snd (sort_key fst (zip (map (\<lambda>t. case t of Some x \<Rightarrow> pe_local env x | None \<Rightarrow> 0) ts) tasks))))"

definition to_href :: "string \<Rightarrow> string" where
  "to_href task = task @ ''.html''"

definition item_element :: "page_env \<Rightarrow> floats \<Rightarrow> (string \<times> py) list \<Rightarrow> snap_row list option \<Rightarrow> string \<Rightarrow> html res" where
  "item_element env fl infos snap task =
     bindR (item_class snap task) (\<lambda>cls.
     bindR (init_dtime fl infos task) (\<lambda>dtime.
       Inr (append (Element ''a'' [(''class'', cls), (''href'', to_href task)] '''' [])
         (with_text task (plain ''span'') #
          (case dtime of None \<Rightarrow> []
           | Some x \<Rightarrow> [plain ''br'', with_text (pe_naive env x) (elem ''span'' ''text-muted small'')])))))"

definition task_list :: "page_env \<Rightarrow> floats \<Rightarrow> string list \<Rightarrow> (string \<times> py) list \<Rightarrow> snap_row list option \<Rightarrow> html res" where
  "task_list env fl tasks infos snap =
     bindR (bindR (sorted_task_keys env fl infos tasks) (mapR (item_element env fl infos snap))) (\<lambda>links.
       let title = append (plain ''h4'')
             [with_text ''List of tasks in the emulation stack'' (plain ''span''),
              with_text ''Sorted by start time'' (elem ''small'' ''ml-2 text-muted'')]
       in container [Ready title, Ready (append (elem ''div'' ''list-group'') links)])"

section \<open>The section of a task\<close>

definition pad_nat :: "nat \<Rightarrow> nat \<Rightarrow> string" where
  "pad_nat w n = replicate (w - length (nat_str n)) (CHR ''0'') @ nat_str n"

definition isoformat :: "datetime \<Rightarrow> string" where
  "isoformat d = pad_nat 4 (dt_year d) @ ''-'' @ pad_nat 2 (dt_month d) @ ''-'' @ pad_nat 2 (dt_day d) @ ''T''
     @ pad_nat 2 (dt_hour d) @ '':'' @ pad_nat 2 (dt_minute d) @ '':'' @ pad_nat 2 (dt_second d)
     @ (if dt_micro d = 0 then '''' else ''.'' @ pad_nat 6 (dt_micro d)) @ ''+00:00''"

definition get_dt :: "string \<Rightarrow> html" where
  "get_dt s = with_text s (elem ''dt'' ''col-sm-3 text-muted'')"

definition get_dd :: "string \<Rightarrow> bool \<Rightarrow> html" where
  "get_dd s is_code =
     (let dd = elem ''dd'' ''col-sm-9''
      in if is_code then append dd [with_text s (plain ''code'')] else with_text s dd)"

definition text_value :: "py \<Rightarrow> string res" where
  "text_value v = (case v of PStr s \<Rightarrow> Inr s | _ \<Rightarrow> Inl TypeError)"

definition info_field :: "string \<Rightarrow> bool \<Rightarrow> py \<Rightarrow> html list res" where
  "info_field label is_code v =
     (if \<not> truthy v then Inr [] else bindR (text_value v) (\<lambda>s. Inr [get_dt label, get_dd s is_code]))"

definition date_field :: "string \<Rightarrow> dt_cell \<Rightarrow> html list" where
  "date_field label d =
     (case d of
        NoDate \<Rightarrow> []
      | NaT \<Rightarrow> [get_dt label, get_dd ''NaT'' False]
      | DateTime x \<Rightarrow> [get_dt label, get_dd (isoformat x) False])"

definition limit_field :: "string \<Rightarrow> py \<Rightarrow> string \<Rightarrow> html list res" where
  "limit_field label info key =
     bindR (py_get info ''constraints'' (PDict [])) (\<lambda>c.
     bindR (py_get c key PNone) (\<lambda>v.
       Inr (if truthy v then [get_dt label, get_dd (py_str v) False] else [])))"

text \<open>The row of a task in the snapshot, with its dates as they stand in the frame.\<close>

type_synonym snapshot = "snap_row \<times> dt_cell \<times> dt_cell"

definition info_element :: "page_env \<Rightarrow> floats \<Rightarrow> snapshot \<Rightarrow> py \<Rightarrow> html res" where
  "info_element env fl snap info =
     (case snap of (s, created, updated) \<Rightarrow>
        bindR (info_field ''Desired state'' False (sn_desired s)) (\<lambda>desired.
        bindR (info_field ''Node ID'' True (sn_node_id s)) (\<lambda>node.
        bindR (info_field ''Service ID'' True (sn_service_id s)) (\<lambda>service.
        bindR (info_field ''Task ID'' True (PStr (sn_task_id s))) (\<lambda>task.
        bindR (info_field ''Container ID'' True (sn_container_id s)) (\<lambda>cid.
        bindR (py_get info ''time'' PNone) (\<lambda>time.
        bindR (if \<not> truthy time then Inr []
               else bindR (py_number fl time) (\<lambda>x. Inr [get_dt ''Started at'', get_dd (pe_iso env x) False])) (\<lambda>started.
        bindR (limit_field ''CPU limit (%)'' info ''cpu_percent'') (\<lambda>cpu.
        bindR (limit_field ''Memory limit (MB)'' info ''mem_limit_mb'') (\<lambda>mem.
          Inr (append (elem ''div'' ''card'') [append (elem ''div'' ''card-body'')
            [with_text ''Task details'' (elem ''h5'' ''card-title''),
             append (elem ''dl'' ''row mb-0'')
               (desired @ node @ service @ task @ cid @ date_field ''Created at'' created @ date_field ''Updated at'' updated
                @ started @ cpu @ mem)]])))))))))))"

definition logs_element :: "snapshot \<Rightarrow> html list res" where
  "logs_element snap =
     (let s = fst snap; err = sn_error s
      in if \<not> truthy (sn_logs s) then Inr []
         else bindR (text_value (sn_logs s)) (\<lambda>logs.
           Inr [append (elem ''div'' ''card'') [append (elem ''div'' (''card-body small '' @ (if err then ''bg-danger text-white'' else ''bg-light'')))
             [with_text ''Logs'' (elem ''h5'' ''card-title''),
              with_text ''Snapshot of the most recent log entries'' (elem ''h6'' (''card-subtitle mb-2 '' @ (if err then '''' else ''text-muted''))),
              with_text (strip logs) (elem ''pre'' (''mb-0 '' @ (if err then ''text-light'' else '''')))]]]))"

definition alert :: "string \<Rightarrow> string \<Rightarrow> html" where
  "alert kind s = with_text s (elem ''div'' (''alert alert-'' @ kind))"

record task_figs =
  tf_row :: "drawing option list"
  tf_rest :: "drawing option list"

definition task_section :: "page_env \<Rightarrow> floats \<Rightarrow> task_figs \<Rightarrow> snapshot option \<Rightarrow> py \<Rightarrow> string \<Rightarrow> html res" where
  "task_section env fl figs snap info title =
     bindR (case snap of None \<Rightarrow> Inr [] | Some s \<Rightarrow> bindR (info_element env fl s info) (\<lambda>e. Inr [e])) (\<lambda>details.
     bindR (case snap of None \<Rightarrow> Inr [] | Some s \<Rightarrow> logs_element s) (\<lambda>logs.
       let heading = (if title \<noteq> [] then [with_text title (plain ''h4'')] else []);
           stopped = (case snap of Some (s, _) \<Rightarrow> if \<not> sn_running s
             then [alert ''warning'' ''The task was shut down prematurely (before the stack was manually stopped)''] else [] | None \<Rightarrow> []);
           failed = (case snap of Some (s, _) \<Rightarrow> if sn_error s
             then [alert ''danger'' ''It seems there was an error during the task execution''] else [] | None \<Rightarrow> []);
           row = figures_row env (List.map_filter (\<lambda>f. f) (tf_row figs)) None (Some 450) ''col-xl-6'';
           rest = map (\<lambda>f. figure_block env f None (Some 450) ''col'' True) (List.map_filter (\<lambda>f. f) (tf_rest figs))
       in container (map Ready (heading @ stopped @ failed @ details @ [row] @ rest @ logs))))"

end
