(* ===== verification/ReportCache.thy ===== *)
theory ReportCache
  imports PyValues
begin

text \<open>
  \<^verbatim>\<open>wotemu/report/builder.py\<close>, the cache of the report builder: what the reader answered is kept and
  handed out as deep copies, because the builder changes the frames it gets in place. The objects are in an
  explicit store: a reference is an index, allocation appends. The state also has the references that were
  handed out, which the rest of the builder may change, and the calls that reached the reader. The answer of
  the reader to a call is an input of the operation.
\<close>

section \<open>State\<close>

type_synonym params = "py list \<times> (string \<times> py) set"

record 'v builder_state =
  rb_use_cache :: bool
  rb_cache :: "string \<rightharpoonup> (params \<rightharpoonup> nat)"
  rb_heap :: "'v list"
  rb_handed :: "nat list"
  rb_calls :: "(string \<times> params) list"

definition new_builder :: "bool \<Rightarrow> 'v builder_state" where
  "new_builder use = \<lparr>rb_use_cache = use, rb_cache = Map.empty, rb_heap = [], rb_handed = [], rb_calls = []\<rparr>"

definition serialize_params :: "py list \<Rightarrow> (string \<times> py) list \<Rightarrow> params" where
  "serialize_params args kwargs = (args, set kwargs)"

section \<open>Operations\<close>

definition alloc :: "'v \<Rightarrow> ('v builder_state, nat) prog" where
  "alloc v s = (Inr (length (rb_heap s)), s\<lparr>rb_heap := rb_heap s @ [v]\<rparr>)"

text \<open>The exception \<open>CacheMiss\<close> is the outcome \<open>None\<close>.\<close>

definition cache_get :: "string \<Rightarrow> params \<Rightarrow> 'v builder_state \<Rightarrow> nat option" where
  "cache_get func params s =
     (case rb_cache s func of None \<Rightarrow> None | Some entries \<Rightarrow> entries params)"

definition cache_set :: "string \<Rightarrow> params \<Rightarrow> nat \<Rightarrow> ('v builder_state, unit) prog" where
  "cache_set func params result =
     modifyP (\<lambda>s. s\<lparr>rb_cache := (rb_cache s)(func \<mapsto>
       ((case rb_cache s func of None \<Rightarrow> Map.empty | Some entries \<Rightarrow> entries)(params \<mapsto> result)))\<rparr>)"

definition get_copy :: "nat \<Rightarrow> ('v builder_state, nat) prog" where
  "get_copy r s = alloc (rb_heap s ! r) s"

definition call_reader :: "string \<Rightarrow> params \<Rightarrow> 'v res \<Rightarrow> ('v builder_state, nat) prog" where
  "call_reader func params answer =
     bindP (modifyP (\<lambda>s. s\<lparr>rb_calls := rb_calls s @ [(func, params)]\<rparr>)) (\<lambda>_.
     bindP (liftP answer) alloc)"

definition hand_out :: "nat \<Rightarrow> ('v builder_state, nat) prog" where
  "hand_out r = bindP (modifyP (\<lambda>s. s\<lparr>rb_handed := rb_handed s @ [r]\<rparr>)) (\<lambda>_. retP r)"

definition reader_exec :: "string \<Rightarrow> py list \<Rightarrow> (string \<times> py) list \<Rightarrow> 'v res \<Rightarrow> ('v builder_state, nat) prog" where
  "reader_exec func args kwargs answer s =
     (let params = serialize_params args kwargs
      in if \<not> rb_use_cache s then bindP (call_reader func params answer) hand_out s
         else bindP
                (case cache_get func params s of
                   Some r \<Rightarrow> retP r
                 | None \<Rightarrow> bindP (call_reader func params answer) (\<lambda>r. bindP (cache_set func params r) (\<lambda>_. retP r)))
                (\<lambda>r. bindP (get_copy r) hand_out) s)"

text \<open>The methods of the builder that ask the reader, one for each method of the reader.\<close>

datatype reader_method =
    SystemDf | PacketDf | ServiceTrafficDf | ThingDf | Tasks | InfoMap | Info | SnapshotDf

primrec method_name :: "reader_method \<Rightarrow> string" where
  "method_name SystemDf = ''get_system_df''"
| "method_name PacketDf = ''get_packet_df''"
| "method_name ServiceTrafficDf = ''get_service_traffic_df''"
| "method_name ThingDf = ''get_thing_df''"
| "method_name Tasks = ''get_tasks''"
| "method_name InfoMap = ''get_info_map''"
| "method_name Info = ''get_info''"
| "method_name SnapshotDf = ''get_snapshot_df''"

definition get_via :: "reader_method \<Rightarrow> py list \<Rightarrow> (string \<times> py) list \<Rightarrow> 'v res \<Rightarrow> ('v builder_state, nat) prog" where
  "get_via m = reader_exec (method_name m)"

definition reset_cache :: "('v builder_state, unit) prog" where
  "reset_cache = modifyP (\<lambda>s. s\<lparr>rb_cache := Map.empty\<rparr>)"

text \<open>What the rest of the builder does to a frame that it was given: it becomes another value.\<close>

definition mutate :: "nat \<Rightarrow> 'v \<Rightarrow> ('v builder_state, unit) prog" where
  "mutate i v = modifyP (\<lambda>s. s\<lparr>rb_heap := (if i < length (rb_handed s) then (rb_heap s)[rb_handed s ! i := v] else rb_heap s)\<rparr>)"

section \<open>The specification\<close>

text \<open>
  A memo table: a query is answered by the first answer to the same call since the last reset, and only
  the calls that are not in the table reach the reader. A query that raises is not remembered.
\<close>

record 'v memo =
  mm_use :: bool
  mm_table :: "string \<times> params \<rightharpoonup> 'v"
  mm_calls :: "(string \<times> params) list"

datatype 'v builder_op =
    Query string "py list" "(string \<times> py) list" "'v res"
  | Mutate nat 'v
  | Reset

fun memo_step :: "'v builder_op \<Rightarrow> 'v memo \<Rightarrow> 'v res option \<times> 'v memo" where
  "memo_step (Query func args kwargs answer) m =
     (let call = (func, serialize_params args kwargs); m' = m\<lparr>mm_calls := mm_calls m @ [call]\<rparr>
      in if \<not> mm_use m then (Some answer, m')
         else (case mm_table m call of
                 Some v \<Rightarrow> (Some (Inr v), m)
               | None \<Rightarrow> (case answer of
                            Inl e \<Rightarrow> (Some (Inl e), m')
                          | Inr v \<Rightarrow> (Some (Inr v), m'\<lparr>mm_table := (mm_table m)(call \<mapsto> v)\<rparr>))))"
| "memo_step (Mutate i v) m = (None, m)"
| "memo_step Reset m = (None, m\<lparr>mm_table := Map.empty\<rparr>)"

text \<open>A step of the builder; a query shows the value of the object that it returns.\<close>

fun builder_step :: "'v builder_op \<Rightarrow> 'v builder_state \<Rightarrow> 'v res option \<times> 'v builder_state" where
  "builder_step (Query func args kwargs answer) s =
     (case reader_exec func args kwargs answer s of
        (Inl e, s') \<Rightarrow> (Some (Inl e), s')
      | (Inr r, s') \<Rightarrow> (Some (Inr (rb_heap s' ! r)), s'))"
| "builder_step (Mutate i v) s = (None, snd (mutate i v s))"
| "builder_step Reset s = (None, snd (reset_cache s))"

fun run_ops :: "('op \<Rightarrow> 's \<Rightarrow> 'o \<times> 's) \<Rightarrow> 'op list \<Rightarrow> 's \<Rightarrow> 'o list \<times> 's" where
  "run_ops step [] s = ([], s)"
| "run_ops step (op # ops) s =
     (case step op s of (out, s') \<Rightarrow> (case run_ops step ops s' of (outs, s'') \<Rightarrow> (out # outs, s'')))"

section \<open>Refinement\<close>

text \<open>A simulation between two machines with the same operations and outputs.\<close>

locale simulation =
  fixes cstep :: "'op \<Rightarrow> 'c \<Rightarrow> 'o \<times> 'c" and astep :: "'op \<Rightarrow> 'a \<Rightarrow> 'o \<times> 'a"
    and abs :: "'c \<Rightarrow> 'a" and inv :: "'c \<Rightarrow> bool"
  assumes step_inv: "inv s \<Longrightarrow> inv (snd (cstep op s))"
    and step_out: "inv s \<Longrightarrow> fst (cstep op s) = fst (astep op (abs s))"
    and step_abs: "inv s \<Longrightarrow> abs (snd (cstep op s)) = snd (astep op (abs s))"
begin

lemma run_refines:
  "inv s \<Longrightarrow> fst (run_ops cstep ops s) = fst (run_ops astep ops (abs s))
     \<and> abs (snd (run_ops cstep ops s)) = snd (run_ops astep ops (abs s)) \<and> inv (snd (run_ops cstep ops s))"
proof (induction ops arbitrary: s)
  case Nil
  then show ?case by simp
next
  case (Cons op ops)
  from Cons.IH [OF step_inv [OF Cons.prems], of op] step_out [OF Cons.prems, of op] step_abs [OF Cons.prems, of op]
  show ?case by (simp add: case_prod_unfold)
qed

end

definition builder_abs :: "'v builder_state \<Rightarrow> 'v memo" where
  "builder_abs s = \<lparr>mm_use = rb_use_cache s,
     mm_table = (\<lambda>(func, params). map_option ((!) (rb_heap s)) (cache_get func params s)), mm_calls = rb_calls s\<rparr>"

text \<open>The objects of the cache exist and none of them was handed out.\<close>

definition builder_inv :: "'v builder_state \<Rightarrow> bool" where
  "builder_inv s \<longleftrightarrow>
     (\<forall>func params r. cache_get func params s = Some r \<longrightarrow> r < length (rb_heap s) \<and> r \<notin> set (rb_handed s))
     \<and> (\<forall>r\<in>set (rb_handed s). r < length (rb_heap s))"

lemma cache_get_frame [simp]:
  "cache_get f p (s\<lparr>rb_heap := h\<rparr>) = cache_get f p s"
  "cache_get f p (s\<lparr>rb_handed := hs\<rparr>) = cache_get f p s"
  "cache_get f p (s\<lparr>rb_calls := cs\<rparr>) = cache_get f p s"
  by (simp_all add: cache_get_def)

lemma cache_get_set:
  "cache_get f p (snd (cache_set g q r s)) = (if f = g \<and> p = q then Some r else cache_get f p s)"
  by (auto simp: cache_get_def cache_set_def split: option.splits)

lemma heap_append: "r < length h \<Longrightarrow> (h @ [v]) ! r = h ! r"
  by (simp add: nth_append)

text \<open>The four outcomes of a query.\<close>

lemma exec_uncached:
  "\<not> rb_use_cache s \<Longrightarrow> reader_exec f a k (Inr v) s = (Inr (length (rb_heap s)),
     s\<lparr>rb_calls := rb_calls s @ [(f, serialize_params a k)], rb_heap := rb_heap s @ [v],
       rb_handed := rb_handed s @ [length (rb_heap s)]\<rparr>)"
  by (simp add: reader_exec_def call_reader_def bindP_def alloc_def hand_out_def)

lemma exec_hit:
  "rb_use_cache s \<Longrightarrow> cache_get f (serialize_params a k) s = Some r \<Longrightarrow> reader_exec f a k answer s = (Inr (length (rb_heap s)),
     s\<lparr>rb_heap := rb_heap s @ [rb_heap s ! r], rb_handed := rb_handed s @ [length (rb_heap s)]\<rparr>)"
  by (simp add: reader_exec_def bindP_def alloc_def hand_out_def get_copy_def)

lemma exec_miss:
  "rb_use_cache s \<Longrightarrow> cache_get f (serialize_params a k) s = None \<Longrightarrow> reader_exec f a k (Inr v) s = (Inr (Suc (length (rb_heap s))),
     snd (cache_set f (serialize_params a k) (length (rb_heap s))
       (s\<lparr>rb_calls := rb_calls s @ [(f, serialize_params a k)], rb_heap := rb_heap s @ [v, v],
          rb_handed := rb_handed s @ [Suc (length (rb_heap s))]\<rparr>)))"
  by (simp add: reader_exec_def Let_def bindP_def call_reader_def alloc_def hand_out_def get_copy_def cache_set_def nth_append)

lemma exec_raise:
  "\<not> rb_use_cache s \<or> cache_get f (serialize_params a k) s = None \<Longrightarrow> reader_exec f a k (Inl e) s
     = (Inl e, s\<lparr>rb_calls := rb_calls s @ [(f, serialize_params a k)]\<rparr>)"
  by (auto simp: reader_exec_def Let_def bindP_def call_reader_def)

lemma abs_simps [simp]:
  "mm_use (builder_abs s) = rb_use_cache s" "mm_calls (builder_abs s) = rb_calls s"
  "mm_table (builder_abs s) (f, p) = map_option ((!) (rb_heap s)) (cache_get f p s)"
  by (simp_all add: builder_abs_def)

lemma memo_eqI:
  fixes m m' :: "'v memo"
  shows "mm_use m = mm_use m' \<Longrightarrow> mm_calls m = mm_calls m' \<Longrightarrow> (\<And>f p. mm_table m (f, p) = mm_table m' (f, p)) \<Longrightarrow> m = m'"
  by (cases m; cases m') auto

lemma set_frames [simp]:
  "rb_heap (snd (cache_set f p r s)) = rb_heap s" "rb_handed (snd (cache_set f p r s)) = rb_handed s"
  "rb_calls (snd (cache_set f p r s)) = rb_calls s" "rb_use_cache (snd (cache_set f p r s)) = rb_use_cache s"
  by (simp_all add: cache_set_def)

lemma builder_invD:
  "builder_inv s \<Longrightarrow> cache_get f p s = Some r \<Longrightarrow> r < length (rb_heap s) \<and> r \<notin> set (rb_handed s)"
  unfolding builder_inv_def by blast

lemma query_simulated:
  assumes inv: "builder_inv s"
  shows "builder_inv (snd (builder_step (Query f a k answer) s))
    \<and> fst (builder_step (Query f a k answer) s) = fst (memo_step (Query f a k answer) (builder_abs s))
    \<and> builder_abs (snd (builder_step (Query f a k answer) s)) = snd (memo_step (Query f a k answer) (builder_abs s))"
proof -
  let ?p = "serialize_params a k"
  have old: "r < length (rb_heap s)" "r \<notin> set (rb_handed s)" if "cache_get g q s = Some r" for g q r
    using builder_invD [OF inv that] by auto
  have lt: "\<And>r. r \<in> set (rb_handed s) \<Longrightarrow> r < length (rb_heap s)" using inv by (simp add: builder_inv_def)
  have keep: "map_option ((!) (rb_heap s @ xs)) (cache_get g q s) = map_option ((!) (rb_heap s)) (cache_get g q s)" for g q xs
    using old by (cases "cache_get g q s") (auto simp: nth_append)
  consider (raise) e where "answer = Inl e" "\<not> rb_use_cache s \<or> cache_get f ?p s = None"
    | (plain) v where "answer = Inr v" "\<not> rb_use_cache s"
    | (hit) r where "rb_use_cache s" "cache_get f ?p s = Some r"
    | (miss) v where "answer = Inr v" "rb_use_cache s" "cache_get f ?p s = None"
    by (cases answer; cases "cache_get f ?p s") auto
  then show ?thesis
  proof cases
    case raise
    then show ?thesis
      using inv by (auto simp: exec_raise Let_def builder_inv_def intro!: memo_eqI)
  next
    case plain
    then show ?thesis
      using old lt by (auto simp: exec_uncached Let_def keep builder_inv_def less_Suc_eq intro!: memo_eqI)
  next
    case hit
    then show ?thesis
      using old lt by (auto simp: exec_hit Let_def keep builder_inv_def less_Suc_eq intro!: memo_eqI)
  next
    case miss
    have fresh: "cache_get g q s \<noteq> Some (length (rb_heap s))" "cache_get g q s \<noteq> Some (Suc (length (rb_heap s)))" for g q
      using old(1) [of g q] by fastforce+
    moreover have "length (rb_heap s) \<notin> set (rb_handed s)" using lt by blast
    ultimately show ?thesis
      using miss old lt
      by (auto simp: exec_miss Let_def keep builder_inv_def less_Suc_eq cache_get_set nth_append split: if_splits intro!: memo_eqI)
  qed
qed

lemma mutate_simulated:
  assumes "builder_inv s"
  shows "builder_inv (snd (mutate i v s)) \<and> builder_abs (snd (mutate i v s)) = builder_abs s"
proof -
  have "(rb_heap s)[rb_handed s ! i := v] ! r = rb_heap s ! r" if "i < length (rb_handed s)" "cache_get f p s = Some r" for f p r
  proof -
    have "rb_handed s ! i \<noteq> r" using builder_invD [OF assms that(2)] that(1) by auto
    then show ?thesis by simp
  qed
  then have "map_option ((!) (rb_heap (snd (mutate i v s)))) (cache_get f p s) = map_option ((!) (rb_heap s)) (cache_get f p s)" for f p
    by (cases "cache_get f p s") (auto simp: mutate_def)
  then show ?thesis
    using assms by (auto simp: mutate_def builder_inv_def intro!: memo_eqI split: if_splits)
qed

interpretation cache: simulation builder_step memo_step builder_abs builder_inv
proof unfold_locales
  fix s :: "'v builder_state" and op :: "'v builder_op"
  assume inv: "builder_inv s"
  have reset: "builder_inv (snd (reset_cache s)) \<and> builder_abs (snd (reset_cache s)) = (builder_abs s)\<lparr>mm_table := Map.empty\<rparr>"
    using inv by (auto simp: reset_cache_def builder_inv_def cache_get_def intro!: memo_eqI)
  show "builder_inv (snd (builder_step op s))"
    using query_simulated [OF inv] mutate_simulated [OF inv] reset by (cases op) auto
  show "fst (builder_step op s) = fst (memo_step op (builder_abs s))"
    using query_simulated [OF inv] by (cases op) (auto simp del: builder_step.simps(1) memo_step.simps(1))
  show "builder_abs (snd (builder_step op s)) = snd (memo_step op (builder_abs s))"
    using query_simulated [OF inv] mutate_simulated [OF inv] reset by (cases op) (auto simp del: builder_step.simps(1) memo_step.simps(1))
qed

lemma cache_outputs:
  "fst (run_ops builder_step ops (new_builder b)) = fst (run_ops memo_step ops \<lparr>mm_use = b, mm_table = Map.empty, mm_calls = []\<rparr>)
   \<and> rb_calls (snd (run_ops builder_step ops (new_builder b)))
      = mm_calls (snd (run_ops memo_step ops \<lparr>mm_use = b, mm_table = Map.empty, mm_calls = []\<rparr>))"
proof -
  have "builder_inv (new_builder b)" by (simp add: builder_inv_def new_builder_def cache_get_def)
  moreover have "builder_abs (new_builder b) = \<lparr>mm_use = b, mm_table = Map.empty, mm_calls = []\<rparr>"
    by (rule memo_eqI) (simp_all add: new_builder_def cache_get_def)
  ultimately show ?thesis
    using cache.run_refines [of "new_builder b" ops] by (metis abs_simps(2))
qed


lemma memo_keeps:
  assumes "mm_use m" and "mm_table m call = Some v" and "Reset \<notin> set ops"
  shows "mm_table (snd (run_ops memo_step ops m)) call = Some v
    \<and> count_list (mm_calls (snd (run_ops memo_step ops m))) call = count_list (mm_calls m) call
    \<and> (\<forall>i < length ops. \<forall>f a k answer. ops ! i = Query f a k answer \<and> call = (f, serialize_params a k)
         \<longrightarrow> fst (run_ops memo_step ops m) ! i = Some (Inr v))"
  using assms
proof (induction ops arbitrary: m)
  case Nil
  then show ?case by simp
next
  case (Cons op ops)
  have step: "mm_use (snd (memo_step op m)) \<and> mm_table (snd (memo_step op m)) call = Some v
      \<and> count_list (mm_calls (snd (memo_step op m))) call = count_list (mm_calls m) call
      \<and> (\<forall>f a k answer. op = Query f a k answer \<and> call = (f, serialize_params a k) \<longrightarrow> fst (memo_step op m) = Some (Inr v))"
    using Cons.prems by (cases op) (auto simp: Let_def split: option.splits sum.splits)
  have rest: "Reset \<notin> set ops" using Cons.prems(3) by simp
  note IH = Cons.IH [OF step [THEN conjunct1] step [THEN conjunct2, THEN conjunct1] rest]
  show ?case
  proof (intro conjI allI impI)
    show "mm_table (snd (run_ops memo_step (op # ops) m)) call = Some v"
      "count_list (mm_calls (snd (run_ops memo_step (op # ops) m))) call = count_list (mm_calls m) call"
      using IH step by (simp_all add: case_prod_unfold)
    fix i f a k answer
    assume "i < length (op # ops)" "(op # ops) ! i = Query f a k answer \<and> call = (f, serialize_params a k)"
    then show "fst (run_ops memo_step (op # ops) m) ! i = Some (Inr v)"
      using IH step by (cases i) (auto simp: case_prod_unfold)
  qed
qed

text \<open>
  Once a query of a caching builder returned, every query with the same arguments before a reset, given in any
  order, returns the same value, whatever the builder did to the frames in between and whatever the reader
  would answer by then.
\<close>

theorem report_is_consistent:
  assumes "Reset \<notin> set ops" and "set k' = set k" and "i < length ops" and "ops ! i = Query f a k' later"
  shows "fst (run_ops builder_step (pre @ Query f a k (Inr v) # ops) (new_builder True)) ! (length pre + 1 + i)
    = fst (run_ops builder_step (pre @ Query f a k (Inr v) # ops) (new_builder True)) ! length pre"
proof -
  let ?m0 = "\<lparr>mm_use = True, mm_table = Map.empty, mm_calls = []\<rparr>"
  define m where "m = snd (run_ops memo_step pre ?m0)"
  have app: "run_ops memo_step (xs @ ys) s = (case run_ops memo_step xs s of (o1, s1) \<Rightarrow> case run_ops memo_step ys s1 of (o2, s2) \<Rightarrow> (o1 @ o2, s2))" for xs ys s
    by (induction xs arbitrary: s) (simp_all add: case_prod_unfold)
  have use: "mm_use (snd (run_ops memo_step xs s)) = mm_use s" for xs and s :: "'a memo"
  proof (induction xs arbitrary: s)
    case (Cons op xs)
    have "mm_use (snd (memo_step op s)) = mm_use s" by (cases op) (auto simp: Let_def split: option.splits sum.splits)
    with Cons show ?case by (simp add: case_prod_unfold)
  qed simp
  have len: "length (fst (run_ops memo_step xs s)) = length xs" for xs and s :: "'a memo"
    by (induction xs arbitrary: s) (simp_all add: case_prod_unfold)
  let ?q = "Query f a k (Inr v)" and ?call = "(f, serialize_params a k)"
  obtain w where w: "fst (memo_step ?q m) = Some (Inr w)" "mm_table (snd (memo_step ?q m)) ?call = Some w"
    using use [of pre ?m0] by (cases "mm_table m ?call") (auto simp: m_def Let_def)
  have use_q: "mm_use (snd (memo_step ?q m))"
    using use [of "[?q]" m] use [of pre ?m0] by (simp add: m_def case_prod_unfold)
  have "serialize_params a k' = serialize_params a k" by (simp add: assms(2) serialize_params_def)
  with memo_keeps [OF use_q w(2) assms(1)] assms(3,4)
  have "fst (run_ops memo_step ops (snd (memo_step ?q m))) ! i = Some (Inr w)" by auto
  moreover have "fst (run_ops memo_step (pre @ ?q # ops) ?m0)
      = fst (run_ops memo_step pre ?m0) @ fst (memo_step ?q m) # fst (run_ops memo_step ops (snd (memo_step ?q m)))"
    by (simp add: app m_def case_prod_unfold)
  ultimately show ?thesis
    unfolding cache_outputs [THEN conjunct1] using w(1) by (simp add: nth_append len)
qed

theorem report_is_consistent_witness:
  "fst (run_ops builder_step [Query ''get_tasks'' [] [] (Inr 1), Mutate 0 7, Query ''get_tasks'' [] [] (Inr 2)] (new_builder True)) ! 2
    = fst (run_ops builder_step [Query ''get_tasks'' [] [] (Inr (1 :: nat)), Mutate 0 7, Query ''get_tasks'' [] [] (Inr 2)] (new_builder True)) ! 0"
  using report_is_consistent [of "[Mutate 0 7, Query ''get_tasks'' [] [] (Inr 2)]" "[]" "[]" 1 "''get_tasks''" "[]" "Inr 2" "[]" "1 :: nat"]
  by (simp add: numeral_2_eq_2)

end
