(* ===== verification/ReportPages.thy ===== *)
theory ReportPages
  imports Html ReportCache
begin

text \<open>
  \<^verbatim>\<open>wotemu/report/builder.py\<close>, from the figures to the files: the section of each task, the index, the
  pages of a report and the dataset. What the builder asks the reader is in \<open>report_data\<close>.
\<close>

record report_env =
  re_env :: page_env
  re_floats :: floats
  re_grouper :: grouper
  re_verbs :: "verb \<Rightarrow> py"

section \<open>Components\<close>

definition snapshot_records :: "snap_row list \<Rightarrow> snapshot list" where
  "snapshot_records rows = zip rows (zip (date_cells (map sn_created rows)) (date_cells (map sn_updated rows)))"

definition task_records :: "snap_row list option \<Rightarrow> string \<Rightarrow> snapshot list res" where
  "task_records snap task =
     (case snap of
        None \<Rightarrow> Inl TypeError
      | Some rows \<Rightarrow>
          if rows = [] then Inl (KeyError ''task'')
          else Inr (filter (\<lambda>(s, d). sn_task s = Some task) (snapshot_records rows)))"

definition drawn :: "figure option res \<Rightarrow> drawing option res" where
  "drawn r = bindR r (\<lambda>f. Inr (map_option Drawn f))"

definition get_task_section_component :: "report_env \<Rightarrow> report_data \<Rightarrow> string \<Rightarrow> html res" where
  "get_task_section_component e rd task =
     (let fl = re_floats e; gr = re_grouper e; vv = re_verbs e
      in bindR (mapR drawn [build_task_mem_figure rd task, build_task_cpu_figure rd task,
                  build_task_packet_iface_figure fl gr rd task ''10s'', build_task_packet_protocol_figure fl gr rd task ''10s'']) (\<lambda>row.
         bindR (mapR drawn [build_thing_counts_figure rd task, build_consumed_request_latency_figure vv rd task,
                  build_exposed_request_latency_figure vv rd task, build_consumed_events_figure vv gr rd task ''5s'',
                  build_exposed_events_figure vv gr rd task ''5s'']) (\<lambda>rest.
         bindR (bindR (rd_snapshot rd) (\<lambda>snap. task_records snap task)) (\<lambda>records.
         bindR (rd_info rd task) (\<lambda>info.
           task_section (re_env e) fl \<lparr>tf_row = row, tf_rest = rest\<rparr> (if records = [] then None else Some (last records)) info task)))))"

definition optional_block :: "report_env \<Rightarrow> drawing option \<Rightarrow> string \<Rightarrow> int option \<Rightarrow> item list" where
  "optional_block e fig title height =
     (case fig of None \<Rightarrow> [] | Some f \<Rightarrow> [Component (Inr (figure_block (re_env e) f (Some title) height ''col'' True))])"

text \<open>A component is built when its figures are; its element is made when the page is.\<close>

definition get_service_traffic_component :: "report_env \<Rightarrow> report_data \<Rightarrow> item res" where
  "get_service_traffic_component e rd =
     bindR (drawn (build_service_traffic_figure (re_floats e) rd True)) (\<lambda>inb.
     bindR (drawn (build_service_traffic_figure (re_floats e) rd False)) (\<lambda>out.
       Inr (Component (container (optional_block e inb ''Service traffic heatmap (inbound)'' None
              @ optional_block e out ''Service traffic heatmap (outbound)'' None)))))"

definition get_system_ranking_component :: "report_env \<Rightarrow> report_data \<Rightarrow> item res" where
  "get_system_ranking_component e rd =
     bindR (build_cpu_ranking_figure rd 45 50) (\<lambda>cpu.
     bindR (build_mem_ranking_figure rd 45) (\<lambda>mem.
       Inr (Component (container (optional_block e (map_option (\<lambda>(f, h). Ranking f h) cpu) ''CPU usage ranking'' None
              @ optional_block e (map_option Drawn mem) ''Memory usage ranking'' None)))))"

definition get_header_component :: "report_env \<Rightarrow> item" where
  "get_header_component e =
     Component (container [Ready (with_text ''WoTemu report'' (elem ''h1'' ''display-4'')),
       Ready (with_text (''Built at UTC '' @ pe_now (re_env e)) (elem ''p'' ''text-muted lead mb-0'')), Ready (plain ''hr'')])"

definition get_timeline_component :: "report_env \<Rightarrow> report_data \<Rightarrow> item res" where
  "get_timeline_component e rd =
     bindR (build_task_timeline_figure rd 45) (\<lambda>(height, bars).
       Inr (Component (container (optional_block e (Some (Timeline height bars)) ''Tasks lifetime'' (Some 450)))))"

definition get_compose_component :: "report_env \<Rightarrow> report_data \<Rightarrow> html option res" where
  "get_compose_component e rd =
     bindR (rd_compose rd) (\<lambda>c.
       Inr (if \<not> truthy c then None else Some (code_block (re_env e) c (Some ''Compose file of the emulation stack'') None)))"

definition get_network_traffic_component :: "report_env \<Rightarrow> report_data \<Rightarrow> item res" where
  "get_network_traffic_component e rd =
     bindR (drawn (build_network_traffic_figure (re_floats e) (re_grouper e) rd ''10s'' 500)) (\<lambda>f.
       Inr (Component (container (optional_block e f ''Network traffic'' (Some 450)))))"

definition compose_link :: html where
  "compose_link = with_text ''Compose file'' (Element ''a''
     [(''class'', ''btn btn-outline-primary mb-3''), (''href'', ''compose.html''), (''target'', ''_blank'')] '''' [])"

section \<open>The pages\<close>

definition task_pages :: "report_env \<Rightarrow> report_data \<Rightarrow> string list \<Rightarrow> string dict res" where
  "task_pages e rd tasks =
     bindR (mapR (\<lambda>t. bindR (get_task_section_component e rd t) (\<lambda>el.
              bindR (to_page_html (re_env e) el) (\<lambda>page. Inr (t @ ''.html'', page)))) tasks) (\<lambda>ps.
       Inr (dupdate [] ps))"

text \<open>The components of the index, and the element of the compose page when there is one.\<close>

definition report_parts :: "report_env \<Rightarrow> report_data \<Rightarrow> string list \<Rightarrow> (html option \<times> item list) res" where
  "report_parts e rd tasks =
     bindR (rd_snapshot rd) (\<lambda>snap.
     bindR (rd_info_map rd) (\<lambda>infos.
     bindR (get_service_traffic_component e rd) (\<lambda>services.
     bindR (get_network_traffic_component e rd) (\<lambda>networks.
     bindR (get_system_ranking_component e rd) (\<lambda>ranking.
     bindR (get_timeline_component e rd) (\<lambda>timeline.
     bindR (get_compose_component e rd) (\<lambda>compose.
       Inr (compose, get_header_component e # (if compose = None then [] else [Ready compose_link])
              @ [services, networks, ranking, timeline,
                 Component (task_list (re_env e) (re_floats e) tasks infos snap)]))))))))"

definition build_report :: "report_env \<Rightarrow> report_data \<Rightarrow> string dict res" where
  "build_report e rd =
     (let tasks = sort (rd_tasks rd)
      in bindR (task_pages e rd tasks) (\<lambda>tps.
         bindR (report_parts e rd tasks) (\<lambda>(compose, items).
         bindR (case compose of None \<Rightarrow> Inr []
                | Some el \<Rightarrow> bindR (to_page_html (re_env e) el) (\<lambda>page. Inr (dset [] ''compose.html'' page))) (\<lambda>pages.
         bindR (bindR (container items) (to_page_html (re_env e))) (\<lambda>index.
           Inr (dupdate (dset pages ''index.html'' index) tps))))))"

definition join_path :: "string \<Rightarrow> string \<Rightarrow> string" where
  "join_path base name =
     (if startswith name ''/'' then name
      else if base = [] \<or> last base = CHR ''/'' then base @ name else base @ ''/'' @ name)"

definition write_report :: "report_env \<Rightarrow> report_data \<Rightarrow> string \<Rightarrow> (string dict, unit) prog" where
  "write_report e rd base files =
     (case build_report e rd of
        Inl ex \<Rightarrow> (Inl ex, files)
      | Inr pages \<Rightarrow> (Inr (), dupdate files (map (\<lambda>(name, bytes). (join_path base name, bytes)) pages)))"

section \<open>The dataset\<close>

text \<open>\<open>to_json\<close> is the frame as JSON, read back; the snapshot has its own, as its rows are records here.\<close>

definition json_df :: "(data_frame \<Rightarrow> py) \<Rightarrow> data_frame option \<Rightarrow> py" where
  "json_df to_json f = (case f of None \<Rightarrow> PNone | Some df \<Rightarrow> if frame_empty df then PNone else to_json df)"

definition json_snapshot :: "(snap_row list \<Rightarrow> py) \<Rightarrow> snap_row list option \<Rightarrow> py" where
  "json_snapshot to_json s = (case s of None \<Rightarrow> PNone | Some rows \<Rightarrow> if rows = [] then PNone else to_json rows)"

definition task_data :: "(data_frame \<Rightarrow> py) \<Rightarrow> report_data \<Rightarrow> string \<Rightarrow> (string \<times> py) res" where
  "task_data to_json rd t =
     bindR (rd_system rd t) (\<lambda>system.
     bindR (rd_packet rd t) (\<lambda>packet.
     bindR (rd_thing rd t) (\<lambda>things.
     bindR (rd_info rd t) (\<lambda>info.
       Inr (t, PDict [(''system'', json_df to_json (Some system)), (''packet'', json_df to_json packet),
                      (''interaction'', json_df to_json (Some things)), (''info'', info)])))))"

definition report_dataset :: "(data_frame \<Rightarrow> py) \<Rightarrow> (snap_row list \<Rightarrow> py) \<Rightarrow> report_data \<Rightarrow> py res" where
  "report_dataset to_json snap_json rd =
     bindR (mapR (task_data to_json rd) (rd_tasks rd)) (\<lambda>tasks.
     bindR (rd_traffic rd True) (\<lambda>inb.
     bindR (rd_traffic rd False) (\<lambda>out.
     bindR (rd_snapshot rd) (\<lambda>snap.
     bindR (rd_metrics rd) (\<lambda>metrics.
       Inr (PDict [(''service_traffic'', PDict [(''inbound'', json_df to_json inb), (''outbound'', json_df to_json out)]),
                   (''tasks'', PDict (dupdate [] tasks)), (''snapshot'', json_snapshot snap_json snap),
                   (''app_metrics'', PList (map (\<lambda>(k, t, d). PDict [(''key'', PStr k), (''task'', PStr t), (''data'', PList d)]) metrics))]))))))"

definition dataset_file :: "string \<Rightarrow> string option \<Rightarrow> real \<Rightarrow> string" where
  "dataset_file base name now =
     join_path base (if truthy_str name then the name @ ''.json'' else ''wotemu_'' @ int_str (int_trunc (now * 1000)) @ ''.json'')"

text \<open>\<open>print\<close> is \<open>json.dumps\<close> with an indentation and sorted keys.\<close>

definition write_report_dataset ::
  "(data_frame \<Rightarrow> py) \<Rightarrow> (snap_row list \<Rightarrow> py) \<Rightarrow> (py \<Rightarrow> string) \<Rightarrow> report_data \<Rightarrow> string \<Rightarrow> string option \<Rightarrow> real
     \<Rightarrow> (string dict, unit) prog" where
  "write_report_dataset to_json snap_json print rd base name now files =
     (case report_dataset to_json snap_json rd of
        Inl ex \<Rightarrow> (Inl ex, files)
      | Inr content \<Rightarrow> (Inr (), dset files (dataset_file base name now) (print content)))"

end
