(* ===== verification/ReportPagesProps.thy ===== *)
theory ReportPagesProps
  imports ReportPages
begin

text \<open>
  What a report promises: every link of its index leads to a page of the report, the pages carry the states of
  the tasks, and which missing data make it impossible to build.
\<close>

section \<open>Links\<close>

fun links :: "html \<Rightarrow> string list" where
  "links (Element t a s cs) = (case map_of a ''href'' of Some h \<Rightarrow> [h] | None \<Rightarrow> []) @ concat (map links cs)"

lemma links_append [simp]: "links (append e cs) = links e @ concat (map links cs)"
  by (cases e) (simp add: append_def)

lemma links_with_text [simp]: "links (with_text s e) = links e"
  by (cases e) (simp add: with_text_def)

lemma links_elem [simp]: "links (elem t c) = []" "links (plain t) = []"
  by (simp_all add: elem_def plain_def)

lemma links_set_style [simp]: "links (set_attr ''style'' v e) = links e"
  by (cases e) (simp add: set_attr_def update_conv)

lemma container_links:
  "container items = Inr el \<Longrightarrow> \<exists>els. mapR container_item items = Inr els \<and> links el = concat (map links els)"
proof -
  assume "container items = Inr el"
  then obtain els where els: "mapR container_item items = Inr els"
    and el: "el = append (plain ''div'') (map (\<lambda>(idx, el). append (elem ''div'' (if 0 < idx then ''row mt-2'' else ''row''))
        [append (elem ''div'' ''col'') [el]]) (List.enumerate 0 els))"
    by (auto simp: container_def bindR_eq_Inr)
  have "concat (map (links \<circ> (\<lambda>(idx, el). append (elem ''div'' (if 0 < idx then ''row mt-2'' else ''row'')) [append (elem ''div'' ''col'') [el]]))
      (List.enumerate n els)) = concat (map links els)" for n
    by (induction els arbitrary: n) auto
  with els show ?thesis by (simp add: el)
qed

lemma container_item_Inr:
  "container_item i = Inr e \<longleftrightarrow> i = Ready e \<or> i = Component (Inr e)"
  by (auto simp: container_item_def split: item.splits sum.splits if_splits)

lemma container_all:
  assumes "container items = Inr el" and "\<And>e. Ready e \<in> set items \<or> Component (Inr e) \<in> set items \<Longrightarrow> set (links e) \<subseteq> L"
  shows "set (links el) \<subseteq> L"
proof -
  obtain els where els: "mapR container_item items = Inr els" "links el = concat (map links els)"
    using container_links [OF assms(1)] by blast
  have "set (links e) \<subseteq> L" if "e \<in> set els" for e
    using mapR_origin [OF els(1) that] assms(2) by (auto simp: container_item_Inr)
  then show ?thesis by (auto simp: els(2))
qed

lemma container_has:
  assumes "container items = Inr el" and "Ready e \<in> set items \<or> Component (Inr e) \<in> set items"
  shows "set (links e) \<subseteq> set (links el)"
proof -
  obtain els where els: "mapR container_item items = Inr els" "links el = concat (map links els)"
    using container_links [OF assms(1)] by blast
  obtain i where "i \<in> set items" "container_item i = Inr e" using assms(2) container_item_Inr by blast
  with mapR_member [OF els(1)] have "e \<in> set els" by force
  then show ?thesis by (auto simp: els(2))
qed

lemma container_member: "container items = Inr el \<Longrightarrow> i \<in> set items \<Longrightarrow> \<exists>y. container_item i = Inr y"
  by (auto simp: container_def bindR_eq_Inr dest: mapR_member)

definition plots_plain :: "page_env \<Rightarrow> bool" where
  "plots_plain env \<longleftrightarrow> (\<forall>d. links (pe_plot env d) = [])"

lemma figure_block_links: "plots_plain env \<Longrightarrow> links (figure_block env f title height cls row) = []"
  by (auto simp: figure_block_def plots_plain_def Let_def split: option.split)

lemma optional_block_links:
  "plots_plain (re_env e) \<Longrightarrow> i \<in> set (optional_block e f t h) \<Longrightarrow> \<exists>el. i = Component (Inr el) \<and> links el = []"
  by (auto simp: optional_block_def figure_block_links split: option.splits)

lemma blocks_links:
  assumes "container items = Inr el" and "\<And>i. i \<in> set items \<Longrightarrow> \<exists>e. i = Component (Inr e) \<and> links e = []"
  shows "links el = []"
proof -
  have "set (links el) \<subseteq> {}"
    by (rule container_all [OF assms(1)]) (use assms(2) in fastforce)
  then show ?thesis by simp
qed

lemma two_blocks_links:
  "plots_plain (re_env e) \<Longrightarrow> container (optional_block e a t h @ optional_block e b u k) = Inr x \<Longrightarrow> links x = []"
  by (erule blocks_links) (auto dest: optional_block_links)

lemma one_block_links:
  "plots_plain (re_env e) \<Longrightarrow> container (optional_block e a t h) = Inr x \<Longrightarrow> links x = []"
  by (erule blocks_links) (auto dest: optional_block_links)

lemma sorted_keys_set:
  assumes "sorted_task_keys env fl infos tasks = Inr ts"
  shows "set ts = set tasks"
proof -
  obtain ds where ds: "mapR (init_dtime fl infos) tasks = Inr ds"
    and ts: "ts = map snd (sort_key fst (zip (map (\<lambda>t. case t of Some x \<Rightarrow> pe_local env x | None \<Rightarrow> 0) ds) tasks))"
    using assms by (auto simp: sorted_task_keys_def bindR_eq_Inr)
  have "length ds = length tasks" using ds by (auto simp: mapR_Inr dest: list_all2_lengthD)
  then have "map snd (zip (map (\<lambda>t. case t of Some x \<Rightarrow> pe_local env x | None \<Rightarrow> 0) ds) tasks) = tasks" by simp
  then show ?thesis unfolding ts by (metis set_map set_sort)
qed

lemma item_element_links: "item_element env fl infos snap task = Inr el \<Longrightarrow> links el = [to_href task]"
  by (auto simp: item_element_def bindR_eq_Inr split: option.splits)

lemma task_list_links:
  assumes "task_list env fl tasks infos snap = Inr el"
  shows "set (links el) = to_href ` set tasks"
proof -
  obtain ts ls where ts: "sorted_task_keys env fl infos tasks = Inr ts" and ls: "mapR (item_element env fl infos snap) ts = Inr ls"
    and el: "container [Ready (append (plain ''h4'') [with_text ''List of tasks in the emulation stack'' (plain ''span''),
              with_text ''Sorted by start time'' (elem ''small'' ''ml-2 text-muted'')]), Ready (append (elem ''div'' ''list-group'') ls)] = Inr el"
    using assms by (auto simp: task_list_def bindR_eq_Inr Let_def)
  have "set (links el) = (\<Union>l\<in>set ls. set (links l))"
    using container_links [OF el] by (auto simp: container_item_def)
  also have "\<dots> = to_href ` set ts"
    using mapR_member [OF ls] mapR_origin [OF ls] item_element_links by (fastforce simp: image_iff)
  finally show ?thesis using sorted_keys_set [OF ts] by simp
qed

lemma parts_links:
  assumes plain: "plots_plain (re_env e)" and parts: "report_parts e rd tasks = Inr (compose, items)" and el: "container items = Inr el"
  shows "set (links el) = to_href ` set tasks \<union> (if compose = None then {} else {''compose.html''})"
proof -
  obtain snap infos services networks ranking timeline where
    s: "get_service_traffic_component e rd = Inr services" and n: "get_network_traffic_component e rd = Inr networks"
    and r: "get_system_ranking_component e rd = Inr ranking" and t: "get_timeline_component e rd = Inr timeline"
    and items: "items = get_header_component e # (if compose = None then [] else [Ready compose_link])
      @ [services, networks, ranking, timeline, Component (task_list (re_env e) (re_floats e) tasks infos snap)]"
    using parts by (auto simp: report_parts_def bindR_eq_Inr)
  note empty = two_blocks_links [OF plain] one_block_links [OF plain]
  have S: "links x = []" if "services = Component (Inr x)" for x
    using s that by (auto simp: get_service_traffic_component_def bindR_eq_Inr intro: empty)
  have N: "links x = []" if "networks = Component (Inr x)" for x
    using n that by (auto simp: get_network_traffic_component_def bindR_eq_Inr intro: empty)
  have R: "links x = []" if "ranking = Component (Inr x)" for x
    using r that by (auto simp: get_system_ranking_component_def bindR_eq_Inr intro: empty)
  have T: "links x = []" if "timeline = Component (Inr x)" for x
    using t that by (auto simp: get_timeline_component_def bindR_eq_Inr intro: empty split: prod.splits)
  have H: "links x = []" if "get_header_component e = Component (Inr x)" for x
    using that container_all [of _ x "{}"] by (fastforce simp: get_header_component_def)
  have services_item: "\<exists>c. services = Component c" "\<exists>c. networks = Component c" "\<exists>c. ranking = Component c"
    "\<exists>c. timeline = Component c" "\<exists>c. get_header_component e = Component c"
    using s n r t by (auto simp: get_service_traffic_component_def get_network_traffic_component_def
        get_system_ranking_component_def get_timeline_component_def get_header_component_def bindR_eq_Inr)
  have L: "links compose_link = [''compose.html'']" by (simp add: compose_link_def with_text_def)
  obtain tl where tl: "task_list (re_env e) (re_floats e) tasks infos snap = Inr tl"
    using container_member [OF el, of "Component (task_list (re_env e) (re_floats e) tasks infos snap)"]
    by (auto simp: items container_item_Inr)
  have TL: "set (links tl) = to_href ` set tasks" by (rule task_list_links [OF tl])
  show ?thesis
  proof (intro equalityI)
    show "set (links el) \<subseteq> to_href ` set tasks \<union> (if compose = None then {} else {''compose.html''})"
      by (rule container_all [OF el]) (use services_item in \<open>auto simp: items TL tl L dest: S N R T H split: if_splits\<close>)
    have "to_href ` set tasks \<subseteq> set (links el)"
      using container_has [OF el, of tl] by (simp add: items tl TL)
    moreover have "compose \<noteq> None \<Longrightarrow> ''compose.html'' \<in> set (links el)"
      using container_has [OF el, of compose_link] L by (cases compose) (auto simp: items)
    ultimately show "to_href ` set tasks \<union> (if compose = None then {} else {''compose.html''}) \<subseteq> set (links el)" by auto
  qed
qed

section \<open>Pages\<close>

lemma keys_image:
  "fst ` set (dupdate d kvs) = fst ` set d \<union> fst ` set kvs" "fst ` set (dset d k v) = insert k (fst ` set d)"
  using keys_dupdate [of d kvs] od.keys_store [of d k v] by simp_all

lemma task_pages_keys:
  assumes "task_pages e rd tasks = Inr tps"
  shows "set (dkeys tps) = to_href ` set tasks"
proof -
  obtain ps where ps: "mapR (\<lambda>t. bindR (get_task_section_component e rd t) (\<lambda>el.
       bindR (to_page_html (re_env e) el) (\<lambda>page. Inr (t @ ''.html'', page)))) tasks = Inr ps"
    and tps: "tps = dupdate [] ps"
    using assms by (auto simp: task_pages_def bindR_eq_Inr)
  have "map fst ps = map to_href tasks"
    using ps by (induction tasks arbitrary: ps) (auto simp: bindR_eq_Inr to_href_def)
  then have "set (map fst ps) = to_href ` set tasks" by simp
  then have "fst ` set ps = to_href ` set tasks" unfolding set_map .
  moreover have "set (dkeys tps) = fst ` set ps" by (simp add: tps keys_image)
  ultimately show ?thesis by blast
qed

text \<open>
  C29. Every link of the report leads somewhere: the links of the index are the pages of the tasks, each of them
  there, and the page of the Compose file when the emulation left one, and all of them are pages of the
  report. The page \<open>index.html\<close> is that index, unless a task is named \<open>index\<close>, whose page then takes
  its place. (Figures are taken to have no links of their own.)
\<close>

theorem report_links_closed:
  assumes "plots_plain (re_env e)" and "build_report e rd = Inr pages"
  shows "\<exists>compose items el. report_parts e rd (sort (rd_tasks rd)) = Inr (compose, items) \<and> container items = Inr el
    \<and> set (links el) = to_href ` set (rd_tasks rd) \<union> (if compose = None then {} else {''compose.html''})
    \<and> set (links el) \<subseteq> set (dkeys pages) \<and> ''index.html'' \<in> set (dkeys pages)
    \<and> (''index'' \<notin> set (rd_tasks rd) \<longrightarrow> (\<exists>page. to_page_html (re_env e) el = Inr page \<and> dget pages ''index.html'' = Some page))"
proof -
  obtain tps compose items pre el index where tps: "task_pages e rd (sort (rd_tasks rd)) = Inr tps"
    and parts: "report_parts e rd (sort (rd_tasks rd)) = Inr (compose, items)"
    and pre: "(case compose of None \<Rightarrow> Inr [] | Some c \<Rightarrow> bindR (to_page_html (re_env e) c) (\<lambda>page. Inr (dset [] ''compose.html'' page))) = Inr pre"
    and el: "container items = Inr el" and index: "to_page_html (re_env e) el = Inr index"
    and pages: "pages = dupdate (dset pre ''index.html'' index) tps"
    using assms(2) by (auto simp: build_report_def Let_def bindR_eq_Inr)
  have keys: "set (dkeys tps) = to_href ` set (rd_tasks rd)" using task_pages_keys [OF tps] by simp
  have links: "set (links el) = to_href ` set (rd_tasks rd) \<union> (if compose = None then {} else {''compose.html''})"
    using parts_links [OF assms(1) parts el] by simp
  have all: "set (dkeys pages) = insert ''index.html'' (set (dkeys pre)) \<union> to_href ` set (rd_tasks rd)"
    using keys by (simp add: pages keys_image)
  have "compose \<noteq> None \<Longrightarrow> ''compose.html'' \<in> set (dkeys pre)"
    using pre by (auto simp: bindR_eq_Inr keys_image)
  then have sub: "set (links el) \<subseteq> set (dkeys pages)" unfolding links all by auto
  have "dget pages ''index.html'' = Some index" if "''index'' \<notin> set (rd_tasks rd)"
  proof -
    have "''index.html'' \<notin> to_href ` set (rd_tasks rd)"
    proof
      assume "''index.html'' \<in> to_href ` set (rd_tasks rd)"
      then obtain t where t: "t \<in> set (rd_tasks rd)" "''index'' @ ''.html'' = t @ ''.html''" by (auto simp: to_href_def)
      then have "t = ''index''" by (metis append_same_eq)
      with t(1) that show False by simp
    qed
    then have "map_of (rev tps) ''index.html'' = None" using keys by (simp add: map_of_eq_None_iff)
    then show ?thesis by (simp add: pages dget_dupdate dget_dset)
  qed
  with parts el links sub all index show ?thesis by blast
qed

text \<open>
  The colour of a task in the list: dangerous when some container of the task ended in error, otherwise a
  warning when some container of it is not running, otherwise plain, also for a task without a snapshot.
\<close>

theorem item_class_iff:
  assumes "rows \<noteq> []"
  shows "\<exists>state. item_class (Some rows) task = Inr (''list-group-item list-group-item-action '' @ state)
    \<and> (state = ''list-group-item-danger'' \<longleftrightarrow> (\<exists>s\<in>set rows. sn_task s = Some task \<and> sn_error s))
    \<and> (state = ''text-primary'' \<longleftrightarrow> (\<forall>s\<in>set rows. sn_task s = Some task \<longrightarrow> \<not> sn_error s \<and> sn_running s))"
proof -
  let ?rs = "filter (\<lambda>s. sn_task s = Some task) rows"
  have "snap_of_task (Some rows) task = Inr ?rs" using assms by (simp add: snap_of_task_def)
  moreover have "list_ex sn_error ?rs \<longleftrightarrow> (\<exists>s\<in>set rows. sn_task s = Some task \<and> sn_error s)"
    by (auto simp: list_ex_iff)
  moreover have "(?rs \<noteq> [] \<and> \<not> list_all sn_running ?rs) \<longleftrightarrow> (\<exists>s\<in>set rows. sn_task s = Some task \<and> \<not> sn_running s)"
    by (auto simp: list_all_iff filter_empty_conv)
  ultimately show ?thesis by (auto simp: item_class_def)
qed

section \<open>Missing data\<close>

lemma no_packets_no_traffic:
  assumes "\<forall>t\<in>set (get_tasks so rc). rc_keys rc (redis_key PACKET [''*'', t]) = []"
  shows "get_service_traffic_df canon fl so na pd rc [] b = Inr None"
proof -
  have "get_extended_df canon fl so na pd rc t = Inr None" if "t \<in> set (get_tasks so rc)" for t
    using assms that by (simp add: get_extended_df_def get_packet_df_def)
  then have "mapR (\<lambda>t. bindR (get_extended_df canon fl so na pd rc t) (\<lambda>f. Inr (t, f))) (get_tasks so rc)
      = Inr (map (\<lambda>t. (t, None)) (get_tasks so rc))"
    by (intro mapR_total) simp
  moreover have "List.map_filter (\<lambda>(t, f). map_option (Pair t) f) (map (\<lambda>t. (t, None :: data_frame option)) ts) = []" for ts :: "string list"
    by (induction ts) (simp_all add: List.map_filter_simps)
  ultimately show ?thesis by (simp add: get_service_traffic_df_def tasks_or_all_def Let_def)
qed

text \<open>
  A stack without captured packets has no report: the reader answers \<open>None\<close> for the traffic of the
  services, and the builder asks it whether it is empty. Nothing is written then, while the dataset, which
  tests for \<open>None\<close>, is still written.
\<close>

theorem report_needs_packets:
  assumes "\<forall>t\<in>set (get_tasks so rc). rc_keys rc (redis_key PACKET [''*'', t]) = []"
  shows "\<exists>ex. write_report e (read_report canon fl so na pd rc) base files = (Inl ex, files)"
proof -
  let ?rd = "read_report canon fl so na pd rc"
  have "get_service_traffic_component e ?rd = Inl AttributeError"
    using no_packets_no_traffic [OF assms, of canon fl na pd]
    by (simp add: get_service_traffic_component_def drawn_def build_service_traffic_figure_def read_report_def)
  then have "report_parts e ?rd tasks \<noteq> Inr p" for tasks p
    by (auto simp: report_parts_def bindR_eq_Inr)
  then have "build_report e ?rd \<noteq> Inr pages" for pages
    by (auto simp: build_report_def Let_def bindR_eq_Inr)
  then show ?thesis
    by (cases "build_report e ?rd") (auto simp: write_report_def)
qed

text \<open>
  A stack that was not stopped, so that no snapshot was taken, has no report either.
\<close>

theorem report_needs_snapshot:
  assumes "rc_zrange rc (redis_key SNAPSHOT []) = []"
  shows "\<exists>ex. write_report e (read_report canon fl so na pd rc) base files = (Inl ex, files)"
proof -
  let ?rd = "read_report canon fl so na pd rc"
  have "rd_snapshot ?rd = Inr None" using assms by (simp add: read_report_def get_snapshot_df_def)
  then have "get_timeline_component e ?rd = Inl TypeError"
    by (simp add: get_timeline_component_def build_task_timeline_figure_def)
  then have "report_parts e ?rd tasks \<noteq> Inr p" for tasks p
    by (auto simp: report_parts_def bindR_eq_Inr)
  then have "build_report e ?rd \<noteq> Inr pages" for pages
    by (auto simp: build_report_def Let_def bindR_eq_Inr)
  then show ?thesis
    by (cases "build_report e ?rd") (auto simp: write_report_def)
qed

section \<open>Examples\<close>

definition demo_snap :: snap_row where
  "demo_snap = \<lparr>sn_desired = PStr ''shutdown'', sn_running = False, sn_error = True, sn_task = Some ''cam'', sn_task_id = ''t1'',
     sn_node_id = PNone, sn_service_id = PNone, sn_created = None, sn_updated = None, sn_container_id = PNone,
     sn_logs = PStr ''done'', sn_stopped = 9\<rparr>"

definition demo_quiet :: report_data where
  "demo_quiet = \<lparr>rd_tasks = [''cam''], rd_system = (\<lambda>t. Inr (frame_of [])), rd_packet = (\<lambda>t. Inr (Some (frame_of []))),
     rd_thing = (\<lambda>t. Inr (frame_of [])), rd_traffic = (\<lambda>b. Inr (Some (frame_of []))), rd_info_map = Inr [],
     rd_info = (\<lambda>t. Inr (PDict [])), rd_snapshot = Inr (Some [demo_snap]), rd_compose = Inr (PDict [(''version'', PStr ''3.7'')]),
     rd_metrics = Inr []\<rparr>"

definition demo_page_env :: page_env where
  "demo_page_env = \<lparr>pe_plot = (\<lambda>d. plain ''div''), pe_yaml = (\<lambda>v. ''yaml''),
     pe_template = Element ''html'' [] '''' [plain ''head'', Element ''body'' [] '''' [Element ''div'' [(''id'', ''root'')] '''' []]],
     pe_print = (\<lambda>el. ''html''), pe_iso = (\<lambda>x. ''iso''), pe_naive = (\<lambda>x. ''naive''), pe_local = (\<lambda>x. x), pe_now = ''now''\<rparr>"

definition demo_report_env :: report_env where
  "demo_report_env = \<lparr>re_env = demo_page_env, re_floats = demo_report_floats, re_grouper = floor_grouper, re_verbs = (\<lambda>v. PStr ''verb'')\<rparr>"

lemma demo_page: "to_page_html demo_page_env el = Inr ''html''"
  by (simp add: to_page_html_def demo_page_env_def Let_def plain_def)

lemma empty_frame: "frame_empty (frame_of [])"
  by (simp add: frame_empty_def frame_of_def)

lemma demo_figures:
  "drawn (build_task_mem_figure demo_quiet t) = Inr None" "drawn (build_task_cpu_figure demo_quiet t) = Inr None"
  "drawn (build_task_packet_iface_figure fl gr demo_quiet t f) = Inr None"
  "drawn (build_task_packet_protocol_figure fl gr demo_quiet t f) = Inr None"
  "drawn (build_thing_counts_figure demo_quiet t) = Inr None"
  "drawn (build_consumed_request_latency_figure vv demo_quiet t) = Inr None"
  "drawn (build_exposed_request_latency_figure vv demo_quiet t) = Inr None"
  "drawn (build_consumed_events_figure vv gr demo_quiet t f) = Inr None"
  "drawn (build_exposed_events_figure vv gr demo_quiet t f) = Inr None"
  by (simp_all add: drawn_def demo_quiet_def empty_frame build_task_mem_figure_def build_task_cpu_figure_def
      build_task_packet_iface_figure_def build_task_packet_protocol_figure_def build_task_packet_figure_def
      build_thing_counts_figure_def build_consumed_request_latency_figure_def build_exposed_request_latency_figure_def
      build_req_latency_fig_def build_consumed_events_figure_def build_exposed_events_figure_def build_events_figure_def)

lemma demo_section: "\<exists>el. get_task_section_component demo_report_env demo_quiet ''cam'' = Inr el"
proof -
  have rec: "bindR (rd_snapshot demo_quiet) (\<lambda>snap. task_records snap ''cam'') = Inr [(demo_snap, NoDate, NoDate)]"
    by (simp add: demo_quiet_def task_records_def snapshot_records_def date_cells_def demo_snap_def)
  have info: "rd_info demo_quiet ''cam'' = Inr (PDict [])" by (simp add: demo_quiet_def)
  have "\<exists>el. task_section env fl figs (Some (demo_snap, NoDate, NoDate)) (PDict []) title = Inr el" for env fl figs title
  proof -
    have "\<exists>el. info_element env fl (demo_snap, NoDate, NoDate) (PDict []) = Inr el"
      by (simp add: info_element_def demo_snap_def info_field_def text_value_def limit_field_def py_get_def get_default_def)
    then obtain i where i: "info_element env fl (demo_snap, NoDate, NoDate) (PDict []) = Inr i" by (elim exE)
    have "\<exists>els. logs_element (demo_snap, NoDate, NoDate) = Inr els"
      by (simp add: logs_element_def demo_snap_def text_value_def Let_def)
    then obtain ls where ls: "logs_element (demo_snap, NoDate, NoDate) = Inr ls" by (elim exE)
    have "mapR container_item (map Ready els) = Inr els" for els
      by (induction els) (simp_all add: container_item_def)
    then have "\<exists>el. container (map Ready els) = Inr el" for els by (simp add: container_def)
    then show ?thesis by (simp only: task_section_def option.case i ls bindR_simps Let_def)
  qed
  then show ?thesis
    by (simp add: get_task_section_component_def Let_def demo_figures rec info)
qed

lemma demo_blocks:
  "drawn (build_service_traffic_figure fl demo_quiet b) = Inr None"
  "drawn (build_network_traffic_figure fl gr demo_quiet f h) = Inr None"
  "build_cpu_ranking_figure demo_quiet a c = Inr None"
  "build_mem_ranking_figure demo_quiet a = Inr None"
  "build_task_timeline_figure demo_quiet a = Inr (max a min_height, [(Some (shorten_task_name ''cam''), NoDate, AtDocker NoDate, True)])"
  by (simp_all add: drawn_def demo_quiet_def build_service_traffic_figure_def empty_frame build_network_traffic_figure_def
      concat_frames_def List.map_filter_simps build_cpu_ranking_figure_def cpu_model_of_def py_get_def task_frame_def
      build_mem_ranking_figure_def build_task_timeline_figure_def demo_snap_def date_cells_def snap_finish_def frame_empty_def)

lemma container_components: "\<exists>el. container (map (\<lambda>x. Component (Inr x)) els) = Inr el"
proof -
  have "mapR container_item (map (\<lambda>x. Component (Inr x)) els) = Inr els"
    by (induction els) (simp_all add: container_item_def)
  then show ?thesis by (simp add: container_def)
qed

lemma container_ok: "\<forall>i\<in>set items. \<exists>y. container_item i = Inr y \<Longrightarrow> \<exists>el. container items = Inr el"
proof -
  assume "\<forall>i\<in>set items. \<exists>y. container_item i = Inr y"
  then have "mapR container_item items = Inr (map (\<lambda>i. case container_item i of Inr y \<Rightarrow> y) items)"
    by (intro mapR_total) auto
  then show ?thesis by (simp add: container_def)
qed

lemma demo_build: "\<exists>pages. build_report demo_report_env demo_quiet = Inr pages"
proof -
  let ?e = demo_report_env
  have env: "re_env ?e = demo_page_env" by (simp add: demo_report_env_def)
  have tasks: "sort (rd_tasks demo_quiet) = [''cam'']" by (simp add: demo_quiet_def)
  obtain sec where "get_task_section_component ?e demo_quiet ''cam'' = Inr sec" using demo_section by (elim exE)
  then have tps: "\<exists>tps. task_pages ?e demo_quiet [''cam''] = Inr tps"
    by (simp add: task_pages_def env demo_page)
  have services: "get_service_traffic_component ?e demo_quiet = Inr (Component (container []))"
    by (simp add: get_service_traffic_component_def demo_blocks optional_block_def)
  have networks: "get_network_traffic_component ?e demo_quiet = Inr (Component (container []))"
    by (simp add: get_network_traffic_component_def demo_blocks optional_block_def)
  have ranking: "get_system_ranking_component ?e demo_quiet = Inr (Component (container []))"
    by (simp add: get_system_ranking_component_def demo_blocks optional_block_def)
  obtain bar where timeline: "get_timeline_component ?e demo_quiet = Inr (Component (container [Component (Inr bar)]))"
    by (simp add: get_timeline_component_def demo_blocks optional_block_def)
  obtain comp where compose: "get_compose_component ?e demo_quiet = Inr (Some comp)"
    by (simp add: get_compose_component_def demo_quiet_def)
  have item: "\<exists>el. item_element demo_page_env demo_report_floats [] (Some [demo_snap]) ''cam'' = Inr el"
    by (simp add: item_element_def item_class_def snap_of_task_def init_dtime_def py_get_def get_default_def)
  then obtain it where it: "item_element demo_page_env demo_report_floats [] (Some [demo_snap]) ''cam'' = Inr it" by (elim exE)
  have "\<exists>el. task_list (re_env ?e) (re_floats ?e) [''cam''] [] (Some [demo_snap]) = Inr el"
    unfolding task_list_def Let_def
    by (simp add: env demo_report_env_def sorted_task_keys_def init_dtime_def py_get_def get_default_def it)
      (rule container_ok, simp add: container_item_def)
  then obtain tl where tl: "task_list (re_env ?e) (re_floats ?e) [''cam''] [] (Some [demo_snap]) = Inr tl" by (elim exE)
  obtain items where parts: "report_parts ?e demo_quiet [''cam''] = Inr (Some comp, items)"
    and items: "items = [get_header_component ?e, Ready compose_link, Component (container []), Component (container []),
      Component (container []), Component (container [Component (Inr bar)]), Component (Inr tl)]"
    by (simp add: report_parts_def services networks ranking timeline compose tl) (simp add: demo_quiet_def tl)
  have empties: "\<exists>el. container [] = Inr el" "\<exists>el. container [Component (Inr bar)] = Inr el"
    "\<exists>y. container_item (get_header_component ?e) = Inr y"
    using container_ok [of "[]"] container_ok [of "[Component (Inr bar)]"]
      container_ok [of "[Ready (with_text ''WoTemu report'' (elem ''h1'' ''display-4'')),
       Ready (with_text (''Built at UTC '' @ pe_now (re_env ?e)) (elem ''p'' ''text-muted lead mb-0'')), Ready (plain ''hr'')]"]
    by (auto simp: container_item_def get_header_component_def)
  then have "\<exists>el. container items = Inr el"
    by (intro container_ok) (auto simp: items container_item_def)
  then obtain el where "container items = Inr el" by (elim exE)
  with tps parts show ?thesis by (auto simp: build_report_def Let_def tasks env demo_page)
qed

theorem report_links_closed_witness:
  "\<exists>pages. build_report demo_report_env demo_quiet = Inr pages \<and> {''index.html'', ''cam.html''} \<subseteq> set (dkeys pages)"
proof -
  obtain pages where pages: "build_report demo_report_env demo_quiet = Inr pages" using demo_build by (elim exE)
  have plots: "plots_plain (re_env demo_report_env)" by (simp add: plots_plain_def demo_report_env_def demo_page_env_def)
  obtain compose :: "html option" and el where l: "set (links el) = to_href ` set (rd_tasks demo_quiet) \<union> (if compose = None then {} else {''compose.html''})"
    and sub: "set (links el) \<subseteq> set (dkeys pages)" and index: "''index.html'' \<in> set (dkeys pages)"
    using report_links_closed [OF plots pages] by (elim exE conjE) (rule that)
  from l have "''cam.html'' \<in> set (links el)" by (simp add: demo_quiet_def to_href_def)
  with sub have "''cam.html'' \<in> set (dkeys pages)" by (rule subsetD)
  with pages index show ?thesis by (intro exI [of _ pages]) simp
qed

theorem item_class_iff_witness:
  "item_class (Some [demo_snap]) ''cam'' = Inr ''list-group-item list-group-item-action list-group-item-danger''"
  using item_class_iff [of "[demo_snap]" "''cam''"] by (auto simp: demo_snap_def)

theorem report_needs_packets_witness:
  "\<exists>ex. write_report demo_report_env (read_report (\<lambda>s. s) demo_report_floats (\<lambda>xs. xs) demo_netaddr (list_pandas demo_report_floats) demo_orphan) ''out'' [] = (Inl ex, [])"
  by (rule report_needs_packets) (simp add: demo_orphan_def printed_client_def get_tasks_def redis_key_def)

theorem report_needs_snapshot_witness:
  "\<exists>ex. write_report demo_report_env (read_report (\<lambda>s. s) demo_report_floats (\<lambda>xs. xs) demo_netaddr (list_pandas demo_report_floats) (demo_reports [1])) ''out'' [] = (Inl ex, [])"
  by (rule report_needs_snapshot) (simp add: demo_reports_def printed_client_def redis_key_def)

end
