(* ===== verification/ReportTypes.thy ===== *)
theory ReportTypes
  imports ReportFacts
begin

text \<open>
  The type of the extended packet frame of \<^verbatim>\<open>wotemu/report/reader.py\<close>: its columns, the values that the new
  ones can have, and the packets themselves, which the joins neither change nor drop. Nothing is assumed of
  the addresses: they may be known several times or not at all.
\<close>

section \<open>What a join does to the values\<close>

text \<open>The rows cut down to some columns, and the values of a column.\<close>

definition proj :: "string set \<Rightarrow> data_frame \<Rightarrow> row set" where
  "proj C f = (\<lambda>r c. if c \<in> C then r c else NaN) ` set (fr_rows f)"

definition col_in :: "data_frame \<Rightarrow> string \<Rightarrow> cell set \<Rightarrow> bool" where
  "col_in f c S \<longleftrightarrow> (\<lambda>r. r c) ` set (fr_rows f) \<subseteq> S"

lemma col_inD: "col_in f c S \<Longrightarrow> r \<in> set (fr_rows f) \<Longrightarrow> r c \<in> S"
  by (auto simp: col_in_def)

lemma proj_mapped:
  assumes "fr_rows g = map h (fr_rows f)" and "\<And>r c. c \<in> C \<Longrightarrow> h r c = r c"
  shows "proj C g = proj C f"
  unfolding proj_def assms(1) set_map image_image by (rule image_cong) (auto simp: assms(2))

lemma proj_drop: "C \<inter> set cs = {} \<Longrightarrow> proj C (drop_cols cs f) = proj C f"
  by (rule proj_mapped [where h = "\<lambda>r c. if c \<in> set cs then NaN else r c"]) auto

lemma proj_rename: "a \<notin> C \<Longrightarrow> b \<notin> C \<Longrightarrow> proj C (rename_col a b f) = proj C f"
  by (cases "a \<in> set (fr_cols f)")
    (auto simp: rename_col_def intro!: proj_mapped [where h = "\<lambda>r c. if c = b then r a else if c = a then NaN else r c"])

lemma proj_set: "c \<notin> C \<Longrightarrow> proj C (set_col c g f) = proj C f"
  by (rule proj_mapped [where h = "\<lambda>r. r(c := g r)"]) auto

lemma col_in_proj: "proj C g = proj C f \<Longrightarrow> c \<in> C \<Longrightarrow> col_in f c S \<Longrightarrow> col_in g c S"
proof -
  assume p: "proj C g = proj C f" and c: "c \<in> C" and f: "col_in f c S"
  have "(\<lambda>r. r c) ` proj C h = (\<lambda>r. r c) ` set (fr_rows h)" for h
    using c by (simp add: proj_def image_image)
  with p have "(\<lambda>r. r c) ` set (fr_rows g) = (\<lambda>r. r c) ` set (fr_rows f)" by metis
  with f show ?thesis by (simp add: col_in_def)
qed

lemma col_in_proj1: "proj {c} g = proj {c} f \<Longrightarrow> col_in f c S \<Longrightarrow> col_in g c S"
  by (rule col_in_proj [where C = "{c}" and f = f]) simp_all

lemma col_in_drop: "NaN \<in> S \<Longrightarrow> col_in f c S \<Longrightarrow> col_in (drop_cols cs f) c S"
  by (auto simp: col_in_def)

lemma col_in_set: "(\<And>r. r \<in> set (fr_rows f) \<Longrightarrow> g r \<in> S) \<Longrightarrow> col_in (set_col c g f) c S"
  by (auto simp: col_in_def)

lemma col_in_renamed: "a \<in> set (fr_cols f) \<Longrightarrow> col_in f a S \<Longrightarrow> col_in (rename_col a b f) b S"
  by (auto simp: col_in_def)

lemma fill_na_in: "x \<in> S \<Longrightarrow> y \<in> S \<Longrightarrow> fill_na x y \<in> S"
  by (simp add: fill_na_def)

context pandas_laws
begin

lemma merge_set:
  assumes "frame_ok L" and "frame_ok R" and "set (fr_cols L) \<inter> set (fr_cols R) = {}"
    and "lk \<in> set (fr_cols L)" and "rk \<in> set (fr_cols R)"
  shows "set (fr_rows (pd_merge pd L R lk rk)) = (\<Union>l\<in>set (fr_rows L). set (join_rows R lk rk l))"
  using arg_cong [OF merge_rows [OF assms], of set_mset] by simp

lemma proj_join_rows:
  "C \<inter> set (fr_cols R) = {} \<Longrightarrow> (\<lambda>r c. if c \<in> C then r c else NaN) ` set (join_rows R lk rk l) = {\<lambda>c. if c \<in> C then l c else NaN}"
proof -
  assume C: "C \<inter> set (fr_cols R) = {}"
  have one: "(\<lambda>r c. if c \<in> C then r c else NaN) r = (\<lambda>c. if c \<in> C then l c else NaN)" if "r \<in> set (join_rows R lk rk l)" for r
    using that C by (auto simp: join_rows_def Let_def join_row_def fun_eq_iff split: if_splits)
  have "set (join_rows R lk rk l) \<noteq> {}" by (simp add: join_rows_def Let_def)
  with one show ?thesis by (simp add: image_constant_conv cong: image_cong)
qed

lemma merge_proj:
  assumes "frame_ok L" and "frame_ok R" and "set (fr_cols L) \<inter> set (fr_cols R) = {}"
    and "lk \<in> set (fr_cols L)" and "rk \<in> set (fr_cols R)" and "C \<inter> set (fr_cols R) = {}"
  shows "proj C (pd_merge pd L R lk rk) = proj C L"
  unfolding proj_def merge_set [OF assms(1-5)] image_UN proj_join_rows [OF assms(6)] by auto

lemma merge_col_in:
  assumes "frame_ok L" and "frame_ok R" and "set (fr_cols L) \<inter> set (fr_cols R) = {}"
    and "lk \<in> set (fr_cols L)" and "rk \<in> set (fr_cols R)" and "c \<in> set (fr_cols R)" and "col_in R c S" and "NaN \<in> S"
  shows "col_in (pd_merge pd L R lk rk) c S"
proof -
  have l: "l c \<in> S" if "l \<in> set (fr_rows L)" for l
  proof -
    have "c \<notin> set (fr_cols L)" using assms(3,6) by blast
    with assms(1) that have "l c = NaN" unfolding frame_ok_def by blast
    with assms(8) show ?thesis by simp
  qed
  have "r c \<in> S" if "l \<in> set (fr_rows L)" and "r \<in> set (join_rows R lk rk l)" for l r
    using assms(6,7) l [OF that(1)] that(2) by (auto simp: col_in_def join_rows_def Let_def join_row_def split: if_splits)
  then show ?thesis unfolding col_in_def merge_set [OF assms(1-5)] by blast
qed

lemma join_addresses_proj:
  assumes "frame_ok f" and "frame_ok A" and "set (fr_cols A) = address_cols"
    and "set (fr_cols f) \<inter> address_cols = {}" and "key \<in> set (fr_cols f)"
    and "C \<inter> (address_cols \<union> {side @ ''_task'', side @ ''_service'', side @ ''_network''}) = {}"
  shows "proj C (join_addresses pd key side A f) = proj C f"
proof -
  have "proj C (pd_merge pd f A key ''address'') = proj C f"
    using assms by (intro merge_proj) (auto simp: address_cols_def)
  moreover have "C \<inter> set [''address''] = {}" and "''task'' \<notin> C" "''service'' \<notin> C" "''network'' \<notin> C"
    "side @ ''_task'' \<notin> C" "side @ ''_service'' \<notin> C" "side @ ''_network'' \<notin> C"
    using assms(6) by (auto simp: address_cols_def)
  ultimately show ?thesis
    unfolding join_addresses_def rename_cols_simps by (simp add: proj_rename proj_drop)
qed

lemma join_vips_proj:
  assumes "frame_ok f" and "frame_ok V" and "set (fr_cols V) = vip_cols"
    and "set (fr_cols f) \<inter> vip_cols = {}" and "key \<in> set (fr_cols f)"
    and "C \<inter> (vip_cols \<union> {side @ ''_vip_service''}) = {}"
  shows "proj C (join_vips pd key side V f) = proj C f"
proof -
  have "proj C (pd_merge pd f V key ''vip'') = proj C f"
    using assms by (intro merge_proj) (auto simp: vip_cols_def)
  moreover have "C \<inter> set [''vip'', ''network''] = {}" and "''service'' \<notin> C" "side @ ''_vip_service'' \<notin> C"
    using assms(6) by (auto simp: vip_cols_def)
  ultimately show ?thesis
    unfolding join_vips_def rename_cols_simps by (simp add: proj_rename proj_drop)
qed

lemma join_addresses_col_in:
  assumes "frame_ok f" and "frame_ok A" and "set (fr_cols A) = address_cols"
    and "set (fr_cols f) \<inter> address_cols = {}" and "key \<in> set (fr_cols f)" and "side \<in> {''src'', ''dst''}"
    and "NaN \<in> S" and "c \<in> {''task'', ''service'', ''network''}" and "col_in A c S"
  shows "col_in (join_addresses pd key side A f) (side @ ''_'' @ c) S"
proof -
  let ?m = "drop_cols [''address''] (pd_merge pd f A key ''address'')"
  have m: "col_in ?m c S"
    using assms by (intro col_in_drop merge_col_in) (auto simp: address_cols_def)
  have cols: "set (fr_cols ?m) = set (fr_cols f) \<union> {''task'', ''service'', ''network''}"
    using merge_cols [of f A key "''address''"] assms(3-5) by (auto simp: address_cols_def)
  have t: "proj {''service''} (rename_col ''task'' (side @ ''_task'') ?m) = proj {''service''} ?m"
    "proj {''network''} (rename_col ''service'' (side @ ''_service'') (rename_col ''task'' (side @ ''_task'') ?m)) = proj {''network''} ?m"
    "proj {side @ ''_task''} (rename_col ''network'' (side @ ''_network'') (rename_col ''service'' (side @ ''_service'') g)) = proj {side @ ''_task''} g"
    "proj {side @ ''_service''} (rename_col ''network'' (side @ ''_network'') h) = proj {side @ ''_service''} h" for g h
    using assms(6) by (auto simp: proj_rename)
  have r: "''service'' \<in> set (fr_cols (rename_col ''task'' (side @ ''_task'') ?m))"
    "''network'' \<in> set (fr_cols (rename_col ''service'' (side @ ''_service'') (rename_col ''task'' (side @ ''_task'') ?m)))"
    "''task'' \<in> set (fr_cols ?m)"
    using cols by auto
  consider "c = ''task''" | "c = ''service''" | "c = ''network''" using assms(8) by auto
  then show ?thesis
  proof cases
    case 1
    with col_in_renamed [OF r(3) m [unfolded 1], of "side @ ''_task''"] show ?thesis
      unfolding join_addresses_def rename_cols_simps by (simp add: col_in_proj [OF t(3)])
  next
    case 2
    with col_in_renamed [OF r(1) col_in_proj [OF t(1) _ m [unfolded 2]], of "side @ ''_service''"] show ?thesis
      unfolding join_addresses_def rename_cols_simps by (simp add: col_in_proj [OF t(4)])
  next
    case 3
    with col_in_renamed [OF r(2) col_in_proj [OF t(2) _ m [unfolded 3]], of "side @ ''_network''"] show ?thesis
      unfolding join_addresses_def rename_cols_simps by simp
  qed
qed

lemma join_vips_col_in:
  assumes "frame_ok f" and "frame_ok V" and "set (fr_cols V) = vip_cols"
    and "set (fr_cols f) \<inter> vip_cols = {}" and "key \<in> set (fr_cols f)" and "NaN \<in> S" and "col_in V ''service'' S"
  shows "col_in (join_vips pd key side V f) (side @ ''_vip_service'') S"
proof -
  let ?m = "drop_cols [''vip'', ''network''] (pd_merge pd f V key ''vip'')"
  have "col_in ?m ''service'' S"
    using assms by (intro col_in_drop merge_col_in) (auto simp: vip_cols_def)
  moreover have "''service'' \<in> set (fr_cols ?m)"
    using merge_cols [of f V key "''vip''"] assms(3-5) by (auto simp: vip_cols_def)
  ultimately show ?thesis
    unfolding join_vips_def rename_cols_simps by (intro col_in_renamed)
qed

text \<open>The frame after the four joins.\<close>

lemma joined_typed:
  assumes P: "packet_frame P" and A: "address_frame A" and V: "vip_frame V"
    and T: "NaN \<in> T" "col_in A ''task'' T" and N: "NaN \<in> N" "col_in A ''network'' N"
    and S: "NaN \<in> S" "col_in A ''service'' S" "col_in V ''service'' S"
  obtains f4 where "extend_packets pd P A V = drop_cols [''src_vip_service'', ''dst_vip_service'', ''src_network'', ''dst_network'']
      (set_col ''network'' (\<lambda>r. fill_na (r ''src_network'') (r ''dst_network''))
      (set_col ''dst_service'' (\<lambda>r. fill_na (r ''dst_service'') (r ''dst_vip_service''))
      (set_col ''src_service'' (\<lambda>r. fill_na (r ''src_service'') (r ''src_vip_service'')) f4)))"
    and "frame_ok f4" and "proj (set (fr_cols P)) f4 = proj (set (fr_cols P)) P"
    and "col_in f4 ''src_network'' N" "col_in f4 ''dst_network'' N" and "col_in f4 ''src_task'' T" "col_in f4 ''dst_task'' T"
    and "col_in f4 ''src_service'' S" "col_in f4 ''dst_service'' S"
    and "col_in f4 ''src_vip_service'' S" "col_in f4 ''dst_vip_service'' S"
proof -
  obtain A' V' f1 f2 f3 f4 where A'_def: "A' = drop_cols [''iface'', ''date''] A" and A': "frame_ok A'" "set (fr_cols A') = address_cols"
    and V'_def: "V' = drop_cols [''date'', ''task''] V" and V': "frame_ok V'" "set (fr_cols V') = vip_cols"
    and f1: "f1 = join_addresses pd ''src'' ''src'' A' P" and f2: "f2 = join_addresses pd ''dst'' ''dst'' A' f1"
    and f3: "f3 = join_vips pd ''src'' ''src'' V' f2" and f4: "f4 = join_vips pd ''dst'' ''dst'' V' f3"
    and s0: "frame_ok P" "set (fr_cols P) \<inter> address_cols = {}" "''src'' \<in> set (fr_cols P)"
    and s1: "frame_ok f1" "set (fr_cols f1) \<inter> address_cols = {}" "''dst'' \<in> set (fr_cols f1)"
    and s2: "frame_ok f2" "set (fr_cols f2) \<inter> vip_cols = {}" "''src'' \<in> set (fr_cols f2)"
    and s3: "frame_ok f3" "set (fr_cols f3) \<inter> vip_cols = {}" "''dst'' \<in> set (fr_cols f3)"
    by (rule extend_stages [OF P A V])
  have A'_in: "col_in A' ''task'' T" "col_in A' ''network'' N" "col_in A' ''service'' S" and V'_in: "col_in V' ''service'' S"
    using T N S by (simp_all add: A'_def V'_def col_in_drop)
  have p1: "proj C f1 = proj C P" if "C \<inter> (address_cols \<union> {''src_task'', ''src_service'', ''src_network''}) = {}" for C
    unfolding f1 using join_addresses_proj [OF s0(1) A' s0(2,3), of C "''src''"] that by simp
  have p2: "proj C f2 = proj C f1" if "C \<inter> (address_cols \<union> {''dst_task'', ''dst_service'', ''dst_network''}) = {}" for C
    unfolding f2 using join_addresses_proj [OF s1(1) A' s1(2,3), of C "''dst''"] that by simp
  have p3: "proj C f3 = proj C f2" if "C \<inter> (vip_cols \<union> {''src_vip_service''}) = {}" for C
    unfolding f3 using join_vips_proj [OF s2(1) V' s2(2,3), of C "''src''"] that by simp
  have p4: "proj C f4 = proj C f3" if "C \<inter> (vip_cols \<union> {''dst_vip_service''}) = {}" for C
    unfolding f4 using join_vips_proj [OF s3(1) V' s3(2,3), of C "''dst''"] that by simp
  note cols = address_cols_def vip_cols_def
  have src: "col_in f1 (''src'' @ ''_'' @ c) X" if "c \<in> {''task'', ''service'', ''network''}" "NaN \<in> X" "col_in A' c X" for c X
    unfolding f1 by (rule join_addresses_col_in [OF s0(1) A' s0(2,3) _ that(2,1,3)]) simp
  have dst: "col_in f2 (''dst'' @ ''_'' @ c) X" if "c \<in> {''task'', ''service'', ''network''}" "NaN \<in> X" "col_in A' c X" for c X
    unfolding f2 by (rule join_addresses_col_in [OF s1(1) A' s1(2,3) _ that(2,1,3)]) simp
  have v3: "col_in f3 ''src_vip_service'' S" and v4: "col_in f4 ''dst_vip_service'' S"
    using join_vips_col_in [OF s2(1) V' s2(2,3) S(1) V'_in, of "''src''"]
      join_vips_col_in [OF s3(1) V' s3(2,3) S(1) V'_in, of "''dst''"] by (simp_all add: f3 [symmetric] f4 [symmetric])
  have keep1: "col_in f4 c X" if "col_in f1 c X" "c \<in> {''src_task'', ''src_service'', ''src_network''}" for c X
    using col_in_proj [of "{c}" f4 f1 c X] p4 [of "{c}"] p3 [of "{c}"] p2 [of "{c}"] that by (auto simp: cols)
  have keep2: "col_in f4 c X" if "col_in f2 c X" "c \<in> {''dst_task'', ''dst_service'', ''dst_network''}" for c X
    using col_in_proj [of "{c}" f4 f2 c X] p4 [of "{c}"] p3 [of "{c}"] that by (auto simp: cols)
  have keep3: "col_in f4 ''src_vip_service'' S"
    using col_in_proj [of "{''src_vip_service''}" f4 f3 _ S] p4 [of "{''src_vip_service''}"] v3 by (auto simp: cols)
  have n: "col_in f4 ''src_network'' N" "col_in f4 ''dst_network'' N" and t: "col_in f4 ''src_task'' T" "col_in f4 ''dst_task'' T"
    and s: "col_in f4 ''src_service'' S" "col_in f4 ''dst_service'' S"
    using keep1 [OF src [of "''network''" N]] keep2 [OF dst [of "''network''" N]] keep1 [OF src [of "''task''" T]]
      keep2 [OF dst [of "''task''" T]] keep1 [OF src [of "''service''" S]] keep2 [OF dst [of "''service''" S]]
      A'_in T(1) N(1) S(1) by simp_all
  have G: "extend_packets pd P A V = drop_cols [''src_vip_service'', ''dst_vip_service'', ''src_network'', ''dst_network'']
      (set_col ''network'' (\<lambda>r. fill_na (r ''src_network'') (r ''dst_network''))
      (set_col ''dst_service'' (\<lambda>r. fill_na (r ''dst_service'') (r ''dst_vip_service''))
      (set_col ''src_service'' (\<lambda>r. fill_na (r ''src_service'') (r ''src_vip_service'')) f4)))"
    by (simp add: extend_packets_def Let_def f4 f3 f2 f1 A'_def V'_def)
  have ok: "frame_ok f4" unfolding f4 by (rule join_vips_ok [OF s3(1) V' s3(2,3)])
  have pk: "proj (set (fr_cols P)) f4 = proj (set (fr_cols P)) P"
  proof -
    have sub: "set (fr_cols P) \<inter> X = {}" if "X \<subseteq> reserved_cols" for X using P that by (auto simp: packet_frame_def)
    have "set (fr_cols P) \<inter> (address_cols \<union> {''src_task'', ''src_service'', ''src_network''}) = {}"
      "set (fr_cols P) \<inter> (address_cols \<union> {''dst_task'', ''dst_service'', ''dst_network''}) = {}"
      "set (fr_cols P) \<inter> (vip_cols \<union> {''src_vip_service''}) = {}" "set (fr_cols P) \<inter> (vip_cols \<union> {''dst_vip_service''}) = {}"
      by (rule sub; simp add: reserved_cols_def cols)+
    from p1 [OF this(1)] p2 [OF this(2)] p3 [OF this(3)] p4 [OF this(4)] show ?thesis by simp
  qed
  show thesis by (rule that [OF G ok pk n t s keep3 v4])
qed

lemma extend_typed:
  assumes P: "packet_frame P" and A: "address_frame A" and V: "vip_frame V"
    and T: "NaN \<in> T" "col_in A ''task'' T" and N: "NaN \<in> N" "col_in A ''network'' N"
    and S: "NaN \<in> S" "col_in A ''service'' S" "col_in V ''service'' S"
    and ext: "G = extend_packets pd P A V"
  shows "frame_ok G"
    and "proj (set (fr_cols P)) G = proj (set (fr_cols P)) P"
    and "col_in G ''src_task'' T" and "col_in G ''dst_task'' T" and "col_in G ''network'' N"
    and "col_in G ''src_service'' S" and "col_in G ''dst_service'' S"
proof -
  obtain f4 where G4: "extend_packets pd P A V = drop_cols [''src_vip_service'', ''dst_vip_service'', ''src_network'', ''dst_network'']
      (set_col ''network'' (\<lambda>r. fill_na (r ''src_network'') (r ''dst_network''))
      (set_col ''dst_service'' (\<lambda>r. fill_na (r ''dst_service'') (r ''dst_vip_service''))
      (set_col ''src_service'' (\<lambda>r. fill_na (r ''src_service'') (r ''src_vip_service'')) f4)))"
    and f4_ok: "frame_ok f4" and packets: "proj (set (fr_cols P)) f4 = proj (set (fr_cols P)) P"
    and n: "col_in f4 ''src_network'' N" "col_in f4 ''dst_network'' N" and t: "col_in f4 ''src_task'' T" "col_in f4 ''dst_task'' T"
    and s: "col_in f4 ''src_service'' S" "col_in f4 ''dst_service'' S"
    and keep3: "col_in f4 ''src_vip_service'' S" and v4: "col_in f4 ''dst_vip_service'' S"
    by (rule joined_typed [OF P A V T N S])
  define h1 where "h1 = set_col ''src_service'' (\<lambda>r. fill_na (r ''src_service'') (r ''src_vip_service'')) f4"
  define h2 where "h2 = set_col ''dst_service'' (\<lambda>r. fill_na (r ''dst_service'') (r ''dst_vip_service'')) h1"
  define h3 where "h3 = set_col ''network'' (\<lambda>r. fill_na (r ''src_network'') (r ''dst_network'')) h2"
  have G: "G = drop_cols [''src_vip_service'', ''dst_vip_service'', ''src_network'', ''dst_network''] h3"
    by (simp add: ext G4 h3_def h2_def h1_def)
  show "frame_ok G" using f4_ok unfolding G h3_def h2_def h1_def by (intro drop_cols_ok set_col_ok)
  have q: "proj C h1 = proj C f4" if "''src_service'' \<notin> C" for C using proj_set [OF that] by (simp add: h1_def)
  have q2: "proj C h2 = proj C h1" if "''dst_service'' \<notin> C" for C using proj_set [OF that] by (simp add: h2_def)
  have q3: "proj C h3 = proj C h2" if "''network'' \<notin> C" for C using proj_set [OF that] by (simp add: h3_def)
  have dis: "set (fr_cols P) \<inter> reserved_cols = {}" using P by (simp add: packet_frame_def)
  show "proj (set (fr_cols P)) G = proj (set (fr_cols P)) P"
  proof -
    have "x \<notin> set (fr_cols P)" if "x \<in> reserved_cols" for x using dis that by blast
    then have no: "''src_service'' \<notin> set (fr_cols P)" "''dst_service'' \<notin> set (fr_cols P)" "''network'' \<notin> set (fr_cols P)"
      "''src_vip_service'' \<notin> set (fr_cols P)" "''dst_vip_service'' \<notin> set (fr_cols P)" "''src_network'' \<notin> set (fr_cols P)"
      "''dst_network'' \<notin> set (fr_cols P)" by (simp_all add: reserved_cols_def)
    then show ?thesis unfolding G using packets by (simp add: proj_drop q q2 q3)
  qed
  have to_G: "col_in G c X" if "col_in h3 c X" "NaN \<in> X" for c X
    unfolding G by (rule col_in_drop [OF that(2,1)])
  have to_h3: "col_in h3 c X" if "col_in f4 c X" "c \<notin> {''src_service'', ''dst_service'', ''network''}" for c X
  proof -
    have "proj {c} h3 = proj {c} f4" using that(2) q [of "{c}"] q2 [of "{c}"] q3 [of "{c}"] by fastforce
    from col_in_proj [OF this _ that(1)] show ?thesis by simp
  qed
  show "col_in G ''src_task'' T" "col_in G ''dst_task'' T"
    using t T(1) by (auto intro!: to_G to_h3)
  have n2: "col_in h2 ''src_network'' N" "col_in h2 ''dst_network'' N"
  proof -
    have k: "proj {''src_network''} h2 = proj {''src_network''} f4" "proj {''dst_network''} h2 = proj {''dst_network''} f4"
      by (simp_all add: q q2)
    show "col_in h2 ''src_network'' N" by (rule col_in_proj1 [OF k(1) n(1)])
    show "col_in h2 ''dst_network'' N" by (rule col_in_proj1 [OF k(2) n(2)])
  qed
  have "col_in h3 ''network'' N"
    unfolding h3_def by (rule col_in_set) (blast intro: fill_na_in col_inD [OF n2(1)] col_inD [OF n2(2)])
  then show "col_in G ''network'' N" using N(1) by (rule to_G)
  have "col_in h1 ''src_service'' S"
    unfolding h1_def by (rule col_in_set) (blast intro: fill_na_in col_inD [OF s(1)] col_inD [OF keep3])
  then have "col_in h3 ''src_service'' S"
    by (rule col_in_proj1 [rotated]) (simp add: q2 q3)
  then show "col_in G ''src_service'' S" using S(1) by (rule to_G)
  have d: "col_in h1 ''dst_service'' S" "col_in h1 ''dst_vip_service'' S"
    by (rule col_in_proj1 [OF _ s(2)], simp add: q) (rule col_in_proj1 [OF _ v4], simp add: q)
  have "col_in h2 ''dst_service'' S"
    unfolding h2_def by (rule col_in_set) (blast intro: fill_na_in col_inD [OF d(1)] col_inD [OF d(2)])
  then have "col_in h3 ''dst_service'' S"
    by (rule col_in_proj1 [rotated]) (simp add: q3)
  then show "col_in G ''dst_service'' S" using S(1) by (rule to_G)
qed

end

section \<open>The values of the new columns\<close>

text \<open>The tasks of the stack, the services that their information names, and names of networks.\<close>

definition task_cells :: "set_order \<Rightarrow> redis_client \<Rightarrow> cell set" where
  "task_cells so rc = insert NaN ((\<lambda>t. Val (PStr t)) ` set (get_tasks so rc))"

definition service_cells :: "(string \<Rightarrow> string) \<Rightarrow> floats \<Rightarrow> set_order \<Rightarrow> redis_client \<Rightarrow> cell set" where
  "service_cells canon fl so rc = insert NaN {Val v | v t infos info. t \<in> set (get_tasks so rc)
     \<and> get_info canon fl rc t = Inr infos \<and> info \<in> set infos \<and> info_service info = Inr v}"

definition network_cells :: "cell set" where
  "network_cells = insert NaN (range (\<lambda>n. Val (PStr n)))"

lemma first_network_cell: "first_network na ip nets = Inr c \<Longrightarrow> c \<in> network_cells"
  by (induction nets) (auto simp: network_cells_def bindR_eq_Inr split: if_splits)

lemma find_network_cell: "find_network na info a = Inr c \<Longrightarrow> c \<in> network_cells"
  by (auto simp: find_network_def bindR_eq_Inr dest: first_network_cell)

lemma info_rows_from:
  assumes "info_rows canon fl rc row tasks = Inr rs" and "r \<in> set rs"
  obtains t infos info zs where "t \<in> set tasks" "get_info canon fl rc t = Inr infos" "info \<in> set infos"
    "row t info = Inr zs" "r \<in> set zs"
  using assms unfolding info_rows_def by (fastforce simp: bindR_eq_Inr dest!: concatR_origin)

lemma address_row_values:
  assumes "info_address_rows fl na t info = Inr zs" and "r \<in> set zs"
  shows "\<exists>d v i a n. r = [(''date'', Date d), (''task'', Val (PStr t)), (''service'', Val v), (''iface'', i), (''address'', a), (''network'', n)]
    \<and> info_service info = Inr v \<and> n \<in> network_cells"
  using assms unfolding info_address_rows_def
  by (fastforce simp: bindR_eq_Inr address_row_def split: if_splits dest!: concatR_origin dest: find_network_cell)

lemma vip_row_values:
  assumes "info_vip_rows fl t info = Inr zs" and "r \<in> set zs"
  shows "\<exists>d v n x. r = [(''date'', Date d), (''task'', Val (PStr t)), (''service'', Val v), (''network'', n), (''vip'', x)]
    \<and> info_service info = Inr v"
  using assms unfolding info_vip_rows_def by (fastforce simp: bindR_eq_Inr dest!: mapR_origin)

lemma address_df_values:
  assumes "get_address_df canon fl so na rc [] = Inr A"
  shows "col_in A ''task'' (task_cells so rc)" and "col_in A ''service'' (service_cells canon fl so rc)"
    and "col_in A ''network'' network_cells"
proof -
  obtain rs where rs: "info_rows canon fl rc (info_address_rows fl na) (get_tasks so rc) = Inr rs"
    and A: "A = frame_of rs"
    using assms by (auto simp: get_address_df_def bindR_eq_Inr tasks_or_all_def set_index_eq split: if_splits)
  have row: "row_of r ''task'' \<in> task_cells so rc \<and> row_of r ''service'' \<in> service_cells canon fl so rc
      \<and> row_of r ''network'' \<in> network_cells" if r: "r \<in> set rs" for r
  proof -
    obtain t infos info zs where o: "t \<in> set (get_tasks so rc)" "get_info canon fl rc t = Inr infos" "info \<in> set infos"
      "info_address_rows fl na t info = Inr zs" "r \<in> set zs"
      by (rule info_rows_from [OF rs r])
    then show ?thesis
      using address_row_values [OF o(4,5)] by (auto simp: row_of_def task_cells_def service_cells_def)
  qed
  show "col_in A ''task'' (task_cells so rc)" "col_in A ''service'' (service_cells canon fl so rc)" "col_in A ''network'' network_cells"
    using row by (auto simp: col_in_def A frame_of_def)
qed

lemma vip_df_values:
  assumes "get_service_vip_df canon fl so rc [] = Inr V"
  shows "col_in V ''service'' (service_cells canon fl so rc)"
proof -
  obtain rs where rs: "info_rows canon fl rc (info_vip_rows fl) (get_tasks so rc) = Inr rs" and V: "V = frame_of rs"
    using assms by (auto simp: get_service_vip_df_def bindR_eq_Inr tasks_or_all_def set_index_eq split: if_splits)
  have "row_of r ''service'' \<in> service_cells canon fl so rc" if r: "r \<in> set rs" for r
  proof -
    obtain t infos info zs where o: "t \<in> set (get_tasks so rc)" "get_info canon fl rc t = Inr infos" "info \<in> set infos"
      "info_vip_rows fl t info = Inr zs" "r \<in> set zs"
      by (rule info_rows_from [OF rs r])
    then show ?thesis using vip_row_values [OF o(4,5)] by (auto simp: row_of_def service_cells_def)
  qed
  then show ?thesis by (auto simp: col_in_def V frame_of_def)
qed

text \<open>
  C32. The type of an extended frame: its columns are those of the packets and five new ones; a task in it is a
  task of the stack, a service one that a task's information names, a network has a name, and each of them
  may be missing; the rows, cut down to the columns of the packets, are the packets, however many nodes
  share an address.
\<close>

theorem extended_frame_typed:
  assumes "pandas_laws fl pd"
    and "get_address_df canon fl so na rc [] = Inr A" and "get_service_vip_df canon fl so rc [] = Inr V"
    and "packet_frame P" and "{''date'', ''iface''} \<subseteq> set (fr_cols P)"
  shows "\<exists>G. extend_packet_df canon fl so na pd rc P None None = Inr G \<and> frame_ok G
    \<and> set (fr_cols G) = set (fr_cols P) \<union> {''src_task'', ''src_service'', ''dst_task'', ''dst_service'', ''network''}
    \<and> (\<forall>r\<in>set (fr_rows G). {r ''src_task'', r ''dst_task''} \<subseteq> task_cells so rc
         \<and> {r ''src_service'', r ''dst_service''} \<subseteq> service_cells canon fl so rc \<and> r ''network'' \<in> network_cells)
    \<and> (\<lambda>r c. if c \<in> set (fr_cols P) then r c else NaN) ` set (fr_rows G) = set (fr_rows P)"
proof -
  note A = address_df_frame [OF assms(2)] and V = vip_df_frame [OF assms(3)]
  have na: "NaN \<in> task_cells so rc" "NaN \<in> network_cells" "NaN \<in> service_cells canon fl so rc"
    by (simp_all add: task_cells_def network_cells_def service_cells_def)
  note typed = pandas_laws.extend_typed [OF assms(1,4) A V na(1) address_df_values(1) [OF assms(2)] na(2)
    address_df_values(3) [OF assms(2)] na(3) address_df_values(2) [OF assms(2)] vip_df_values [OF assms(3)] refl]
  have "(\<lambda>r c. if c \<in> set (fr_cols P) then r c else NaN) r = r" if "r \<in> set (fr_rows P)" for r
    using assms(4) that by (auto simp: packet_frame_def frame_ok_def fun_eq_iff)
  then have "proj (set (fr_cols P)) P = set (fr_rows P)"
    unfolding proj_def by (metis (no_types, lifting) image_cong image_ident)
  with typed(2) have rows: "(\<lambda>r c. if c \<in> set (fr_cols P) then r c else NaN) ` set (fr_rows (extend_packets pd P A V)) = set (fr_rows P)"
    unfolding proj_def by metis
  show ?thesis
    using pandas_laws.extend_df_eq [OF assms] pandas_laws.extend_cols [OF assms(1,4) A V] rows typed(1)
      col_inD [OF typed(3)] col_inD [OF typed(4)] col_inD [OF typed(5)] col_inD [OF typed(6)] col_inD [OF typed(7)]
    by (intro exI [of _ "extend_packets pd P A V"]) simp
qed

theorem extended_frame_typed_witness:
  "\<exists>G. extend_packet_df (\<lambda>s. s) demo_report_floats (\<lambda>xs. xs) demo_netaddr (list_pandas demo_report_floats) (demo_reports [1, 2]) demo_packets None None = Inr G
     \<and> (\<forall>r\<in>set (fr_rows G). r ''src_task'' \<in> {NaN, Val (PStr ''cam'')} \<and> r ''src'' = Val (PStr ''10.0.0.2''))"
proof -
  obtain G where G: "extend_packet_df (\<lambda>s. s) demo_report_floats (\<lambda>xs. xs) demo_netaddr (list_pandas demo_report_floats) (demo_reports [1, 2]) demo_packets None None = Inr G"
    and tasks: "\<forall>r\<in>set (fr_rows G). {r ''src_task'', r ''dst_task''} \<subseteq> task_cells (\<lambda>xs. xs) (demo_reports [1, 2])
         \<and> {r ''src_service'', r ''dst_service''} \<subseteq> service_cells (\<lambda>s. s) demo_report_floats (\<lambda>xs. xs) (demo_reports [1, 2]) \<and> r ''network'' \<in> network_cells"
    and rows: "(\<lambda>r c. if c \<in> set (fr_cols demo_packets) then r c else NaN) ` set (fr_rows G) = set (fr_rows demo_packets)"
    using extended_frame_typed [OF lp.pandas_laws_axioms demo_frames(2,4) demo_packet_frame] by (elim exE conjE)
  have src: "''src'' \<in> set (fr_cols demo_packets)" and p: "\<forall>q\<in>set (fr_rows demo_packets). q ''src'' = Val (PStr ''10.0.0.2'')"
    by (simp_all add: demo_packets_def frame_of_def row_of_def)
  have "r ''src'' = Val (PStr ''10.0.0.2'')" if "r \<in> set (fr_rows G)" for r
  proof -
    have "(\<lambda>c. if c \<in> set (fr_cols demo_packets) then r c else NaN) \<in> set (fr_rows demo_packets)"
      unfolding rows [symmetric] using that by (rule imageI)
    from p [rule_format, OF this] src show ?thesis by simp
  qed
  with G tasks show ?thesis by (simp add: task_cells_def demo_tasks)
qed

end
