(* ===== verification/Examples.thy ===== *)
theory Examples
  imports TopologyProps Json
begin

text \<open>
  \<^verbatim>\<open>examples/\<close>: the topologies that come with the program, as the functions that build them. \<open>us\<close> is
  \<open>inflection.underscore\<close>, which keeps the names used here, and \<open>rp\<close> is \<open>RestartPolicy\<close> of the Docker package,
  from the condition to the dictionary that it is. An object that is used twice is one value; the identity
  of a service is a number.
\<close>

section \<open>What the examples share\<close>

definition host_on :: "node \<Rightarrow> network \<Rightarrow> string" where
  "host_on n m = node_name n @ ''.'' @ net_name m"

definition no_app_flag :: py where
  "no_app_flag = PBool False"

definition plain_network :: "(string \<Rightarrow> string) \<Rightarrow> string \<Rightarrow> network_conditions \<Rightarrow> network res" where
  "plain_network us name c = mk_network us name None (CMember c) PNone PNone"

text \<open>A node with the default arguments except the scale, and with resources.\<close>

definition plain_node ::
  "(string \<Rightarrow> string) \<Rightarrow> string \<Rightarrow> node_app \<Rightarrow> network list \<Rightarrow> node_resources option \<Rightarrow> py \<Rightarrow> node res" where
  "plain_node us name a networks resources scale = mk_node us name a networks None None None resources scale PNone []"

definition mongo_service :: "(string \<Rightarrow> string) \<Rightarrow> (string \<Rightarrow> py) \<Rightarrow> service" where
  "mongo_service us rp = mk_service us 0 ''mongo'' ''mongo:4'' [(''restart_policy'', rp ''on-failure'')]"

definition default_topology :: "set_order \<Rightarrow> node list \<Rightarrow> topology res" where
  "default_topology so nodes = mk_topology so nodes None None None None"

definition http_app :: "app_path \<Rightarrow> py dict option \<Rightarrow> node_app" where
  "http_app path params = mk_app path (PBool True) no_app_flag no_app_flag no_app_flag params"

definition silent_app :: "app_path \<Rightarrow> py dict option \<Rightarrow> node_app" where
  "silent_app path params = mk_app path no_app_flag no_app_flag no_app_flag no_app_flag params"

definition ws_app :: "app_path \<Rightarrow> node_app" where
  "ws_app path = mk_app path no_app_flag (PBool True) no_app_flag no_app_flag None"

definition mqtt_app :: "app_path \<Rightarrow> py dict option \<Rightarrow> node_app" where
  "mqtt_app path params = mk_app path no_app_flag no_app_flag (PBool True) no_app_flag params"

definition remote_params :: "string \<Rightarrow> string \<Rightarrow> py dict" where
  "remote_params host thing = [(''servient_host'', PStr host), (''thing_id'', PStr thing)]"

definition things_param :: "(string \<times> string) list \<Rightarrow> string" where
  "things_param things = json_dumps (PList (map (\<lambda>(h, thing). PDict (remote_params h thing)) things))"

definition cameras_param :: "string list \<Rightarrow> string" where
  "cameras_param hosts = json_dumps (PList (map (\<lambda>h. PDict [(''servient_host'', PStr h)]) hosts))"

section \<open>The quick start\<close>

definition server_gist :: string where
  "server_gist = ''https://gist.github.com/agmangas/94cc5c3d9d5dcb473cff774b3522bbb6/raw''"

definition quickstart :: "set_order \<Rightarrow> (string \<Rightarrow> string) \<Rightarrow> topology res" where
  "quickstart so us =
     bindR (plain_network us ''3g'' REGULAR_3G) (\<lambda>network_3g.
     bindR (plain_node us ''server'' (http_app (RawPath server_gist) None) [network_3g] None (PInt 1)) (\<lambda>node_server.
     bindR (mk_resources PNone (PStr ''150M'') PNone PNone PNone) (\<lambda>res.
     bindR (plain_node us ''reader''
              (silent_app (BuiltinPath READER_APP) (Some (remote_params (host_on node_server network_3g) ''urn:wotemu:quickstart:thing'')))
              [network_3g] (Some res) (PInt 4)) (\<lambda>node_reader.
       default_topology so [node_server, node_reader]))))"

section \<open>Historians\<close>

definition historian_example :: "set_order \<Rightarrow> (string \<Rightarrow> string) \<Rightarrow> (string \<Rightarrow> py) \<Rightarrow> topology res" where
  "historian_example so us rp =
     bindR (plain_network us ''wifi'' WIFI) (\<lambda>network_wifi.
     bindR (mapR (\<lambda>idx. plain_node us (''clock_'' @ nat_str idx) (ws_app (BuiltinPath CLOCK_APP)) [network_wifi] None PNone) [0..<5]) (\<lambda>nodes_clock.
     let mongo = mongo_service us rp;
         observed_things = things_param (map (\<lambda>n. (host_on n network_wifi, ''urn:org:fundacionctic:thing:clock'')) nodes_clock)
     in bindR (plain_node us ''historian''
                 (http_app (BuiltinPath MONGO_HISTORIAN_APP)
                    (Some [(''mongo_uri'', PStr ''mongodb://mongo''), (''observed_things'', PStr observed_things)]))
                 [network_wifi] None PNone) (\<lambda>historian.
        bindR (link_service historian mongo) (\<lambda>node_historian.
        bindR (plain_node us ''historian_uplink''
                 (http_app (BuiltinPath MONGO_HISTORIAN_APP)
                    (Some [(''mongo_uri'', PStr ''mongodb://mongo''),
                           (''downlink_servient_host'', PStr (host_on node_historian network_wifi)),
                           (''downlink_thing_id'', PStr ''urn:org:fundacionctic:thing:historian''),
                           (''downlink_buckets'', PInt 1), (''downlink_interval'', PInt 60)]))
                 [network_wifi] None PNone) (\<lambda>uplink.
        bindR (link_service uplink mongo) (\<lambda>node_uplink_historian.
          default_topology so (nodes_clock @ [node_historian, node_uplink_historian])))))))"

section \<open>A mixture\<close>

definition mishmash :: "set_order \<Rightarrow> (string \<Rightarrow> string) \<Rightarrow> (string \<Rightarrow> py) \<Rightarrow> topology res" where
  "mishmash so us rp =
     bindR (plain_network us ''wifi'' WIFI) (\<lambda>network_wifi.
     bindR (plain_network us ''mobile_2g'' EDGE) (\<lambda>network_2g.
     let broker = mk_broker us ''broker'' [network_2g] PNone; mongo = mongo_service us rp
     in bindR (mk_node us ''clock_mqtt'' (mqtt_app (BuiltinPath CLOCK_APP) None) [network_wifi] (Some broker) None None None (PInt 2) PNone []) (\<lambda>node_clock_mqtt.
        bindR (plain_node us ''clock_http'' (http_app (BuiltinPath CLOCK_APP) None) [network_wifi] None (PInt 2)) (\<lambda>clock_http.
        let host_clock_http = host_on clock_http network_wifi
        in bindR (mk_resources PNone (PStr ''200M'') PNone PNone (PInt 200)) (\<lambda>sub_resources.
           bindR (plain_node us ''clock_sub_mqtt''
                    (silent_app (BuiltinPath SUBSCRIBER_APP) (Some (remote_params (host_on node_clock_mqtt network_wifi) ''urn:org:fundacionctic:thing:clock'')))
                    [network_wifi, network_2g] (Some sub_resources) (PInt 2)) (\<lambda>node_sub_mqtt.
           bindR (plain_node us ''clock_sub_http''
                    (silent_app (BuiltinPath SUBSCRIBER_APP) (Some (remote_params host_clock_http ''urn:org:fundacionctic:thing:clock'')))
                    [network_wifi] (Some sub_resources) (PInt 4)) (\<lambda>sub_http.
           bindR (plain_node us ''clock_property_reader''
                    (silent_app (BuiltinPath READER_APP) (Some (remote_params host_clock_http ''urn:org:fundacionctic:thing:clock'')))
                    [network_wifi] None (PInt 2)) (\<lambda>node_reader.
           bindR (plain_node us ''error'' (silent_app (BuiltinPath ERROR_APP) None) [network_wifi] None (PInt 1)) (\<lambda>node_error.
           bindR (plain_node us ''worker'' (ws_app (BuiltinPath WORKER_APP)) [network_2g] None (PInt 1)) (\<lambda>node_worker.
           bindR (plain_node us ''worker_caller''
                    (silent_app (BuiltinPath CALLER_APP) (Some (remote_params (host_on node_worker network_2g) ''urn:org:fundacionctic:thing:worker'')))
                    [network_2g] None (PInt 2)) (\<lambda>node_caller.
           bindR (link_service clock_http mongo) (\<lambda>node_clock_http.
           bindR (link_service sub_http mongo) (\<lambda>node_sub_http.
             default_topology so [node_clock_mqtt, node_clock_http, node_sub_mqtt, node_sub_http, node_reader, node_error,
               node_worker, node_caller])))))))))))))"

section \<open>Cameras, detectors and a historian\<close>

definition caller_of_historian :: "node \<Rightarrow> network \<Rightarrow> node_app" where
  "caller_of_historian historian m =
     silent_app (BuiltinPath CALLER_APP)
       (Some (remote_params (host_on historian m) ''urn:org:fundacionctic:thing:historian''
              @ [(''params'', PStr (json_dumps (PDict [(''write'', PNone), (''list'', PNone)]))), (''lambd'', PInt 5)]))"

definition historian_of :: "(string \<times> string) list \<Rightarrow> node_app" where
  "historian_of things =
     http_app (BuiltinPath MONGO_HISTORIAN_APP)
       (Some [(''mongo_uri'', PStr ''mongodb://mongo''), (''observed_things'', PStr (things_param things))])"

definition cloud_cameras ::
  "(string \<Rightarrow> string) \<Rightarrow> node_resources \<Rightarrow> broker \<Rightarrow> network \<Rightarrow> string \<Rightarrow> nat \<Rightarrow> node list res" where
  "cloud_cameras us resources broker network cluster_id n =
     mapR (\<lambda>idx. mk_node us (''camera_'' @ cluster_id @ ''_'' @ nat_str idx) (mqtt_app (BuiltinPath CAMERA_APP) None) [network]
       (Some broker) (Some network) None (Some resources) PNone PNone []) [0..<n]"

definition surveillance_cloud :: "set_order \<Rightarrow> (string \<Rightarrow> string) \<Rightarrow> (string \<Rightarrow> py) \<Rightarrow> topology res" where
  "surveillance_cloud so us rp =
     bindR (plain_network us (''edge_2g_'' @ ''loc1'') GPRS) (\<lambda>network_edge_1.
     bindR (plain_network us (''edge_3g_'' @ ''loc2'') REGULAR_3G) (\<lambda>network_edge_2.
     bindR (plain_network us ''cloud'' CABLE) (\<lambda>network_cloud.
     bindR (plain_network us ''cloud_user'' CABLE) (\<lambda>network_cloud_user.
     let broker = mk_broker us ''broker'' [network_edge_1, network_edge_2] PNone
     in bindR (mk_resources PNone (PStr ''256M'') PNone PNone (PInt 200)) (\<lambda>camera_resources.
        bindR (cloud_cameras us camera_resources broker network_edge_1 ''loc1'' 2) (\<lambda>nodes_camera_1.
        bindR (cloud_cameras us camera_resources broker network_edge_2 ''loc2'' 6) (\<lambda>nodes_camera_2.
        let param_cameras = cameras_param (map (\<lambda>n. host_on n network_edge_1) nodes_camera_1 @ map (\<lambda>n. host_on n network_edge_2) nodes_camera_2)
        in bindR (plain_node us ''detector'' (http_app (BuiltinPath DETECTOR_APP) (Some [(''cameras'', PStr param_cameras)]))
                    [network_edge_1, network_edge_2, network_cloud] None PNone) (\<lambda>node_detector.
           bindR (plain_node us ''cloud'' (historian_of [(host_on node_detector network_cloud, ''urn:org:fundacionctic:thing:wotemu:detector'')])
                    [network_cloud, network_cloud_user] None PNone) (\<lambda>historian.
           bindR (link_service historian (mongo_service us rp)) (\<lambda>node_historian.
           bindR (plain_node us ''user'' (caller_of_historian node_historian network_cloud_user) [network_cloud_user] None (PInt 5)) (\<lambda>node_user.
             default_topology so (nodes_camera_1 @ nodes_camera_2 @ [node_detector, node_historian, node_user]))))))))))))"

definition build_detector_cluster ::
  "(string \<Rightarrow> string) \<Rightarrow> string \<Rightarrow> network \<Rightarrow> nat \<Rightarrow> broker \<Rightarrow> node_resources option \<Rightarrow> node_resources option
     \<Rightarrow> (node list \<times> node) res" where
  "build_detector_cluster us cluster_id network_edge num_cameras broker camera_resources detector_resources =
     bindR (plain_network us (''field_'' @ cluster_id) WIFI) (\<lambda>network.
     bindR (mapR (\<lambda>idx. plain_node us (''camera_'' @ cluster_id @ ''_'' @ nat_str idx) (http_app (BuiltinPath CAMERA_APP) None) [network] camera_resources PNone)
              [0..<num_cameras]) (\<lambda>nodes_camera.
     bindR (mk_node us (''detector_'' @ cluster_id)
              (mqtt_app (BuiltinPath DETECTOR_APP) (Some [(''cameras'', PStr (cameras_param (map (\<lambda>n. host_on n network) nodes_camera)))]))
              [network, network_edge] (Some broker) (Some network_edge) None detector_resources PNone PNone []) (\<lambda>node_detector.
       Inr (nodes_camera, node_detector))))"

definition surveillance_edge :: "set_order \<Rightarrow> (string \<Rightarrow> string) \<Rightarrow> (string \<Rightarrow> py) \<Rightarrow> topology res" where
  "surveillance_edge so us rp =
     bindR (plain_network us (''edge_2g_'' @ ''loc1'') GPRS) (\<lambda>network_edge_1.
     bindR (plain_network us (''edge_3g_'' @ ''loc2'') REGULAR_3G) (\<lambda>network_edge_2.
     bindR (plain_network us ''cloud_user'' CABLE) (\<lambda>network_cloud_user.
     let broker = mk_broker us ''broker'' [network_edge_1, network_edge_2] PNone
     in bindR (mk_resources PNone (PStr ''256M'') PNone PNone (PInt 200)) (\<lambda>camera_resources.
        bindR (mk_resources PNone (PStr ''1G'') PNone PNone (PInt 600)) (\<lambda>detector_resources.
        bindR (build_detector_cluster us ''loc1'' network_edge_1 2 broker (Some camera_resources) (Some detector_resources)) (\<lambda>(nodes_camera_1, node_detector_1).
        bindR (build_detector_cluster us ''loc2'' network_edge_2 6 broker (Some camera_resources) (Some detector_resources)) (\<lambda>(nodes_camera_2, node_detector_2).
        bindR (plain_node us ''cloud''
                 (historian_of [(host_on node_detector_1 network_edge_1, ''urn:org:fundacionctic:thing:wotemu:detector''),
                                (host_on node_detector_2 network_edge_2, ''urn:org:fundacionctic:thing:wotemu:detector'')])
                 [network_edge_1, network_edge_2, network_cloud_user] None PNone) (\<lambda>historian.
        bindR (link_service historian (mongo_service us rp)) (\<lambda>node_historian.
        bindR (plain_node us ''user'' (caller_of_historian node_historian network_cloud_user) [network_cloud_user] None (PInt 5)) (\<lambda>node_user.
          default_topology so (nodes_camera_1 @ [node_detector_1] @ nodes_camera_2 @ [node_detector_2, node_historian, node_user])))))))))))"

end
