(* ===== verification/RunApp.thy ===== *)
theory RunApp
  imports AppRunner
begin

text \<open>
  The composition of \<^verbatim>\<open>wotemu/cli/app.py\<close> and \<^verbatim>\<open>wotemu/cli/broker.py\<close>: what \<open>run_app\<close> sets up, the tasks that
  share its event loop as a step relation, and \<open>run_mqtt_broker\<close>. The event loop runs one coroutine until it
  waits; the steps are the pieces of the coroutines between their awaits.
\<close>

section \<open>Setting up an application\<close>

datatype thing_cb = DummyCb | RedisCb py

text \<open>\<open>_build_thing_cb\<close>: the callback, and with it the pool that it needs (\<open>created\<close> is its creation).\<close>

definition build_thing_cb :: "py \<Rightarrow> unit res \<Rightarrow> thing_cb res" where
  "build_thing_cb url created =
     (if \<not> truthy url then Inr DummyCb else bindR created (\<lambda>_. Inr (RedisCb url)))"

definition has_pool :: "thing_cb \<Rightarrow> bool" where
  "has_pool cb = (cb \<noteq> DummyCb)"

record run_args =
  ra_path :: string
  ra_func :: string
  ra_params :: "(string \<times> string) list"
  ra_hostname :: "string option"
  ra_flags :: app_flags
  ra_disable_monitor :: bool

record run_env =
  re_files :: app_files
  re_modules :: "string \<Rightarrow> string list res"
  re_pool :: "unit res"
  re_coap :: bool
  re_docker :: docker_api
  re_cgroup :: "string option"
  re_net :: host_net

record app_setup =
  as_func :: "string \<times> string"
  as_kwargs :: "string dict"
  as_servers :: "server list"
  as_catalogue :: py
  as_hostname :: "string option"
  as_cb :: thing_cb
  as_ifaces :: "string list option"

datatype run_warning = NoProtocolBindings | BrokerUndefined

definition run_warnings :: "env_config \<Rightarrow> app_flags \<Rightarrow> run_warning list" where
  "run_warnings conf f =
     (if \<not> fl_http f \<and> \<not> fl_mqtt f \<and> \<not> fl_coap f \<and> \<not> fl_ws f then [NoProtocolBindings] else [])
     @ (if fl_mqtt f \<and> \<not> truthy (mqtt_url conf) then [BrokerUndefined] else [])"

text \<open>
  The part of \<open>run_app\<close> before the loop runs. The state is the set of files. The interfaces are looked up
  after the tasks of the servient and the application were scheduled; an error there ends \<open>run_app\<close> with
  the tasks never started.
\<close>

definition setup_app :: "run_env \<Rightarrow> env_config \<Rightarrow> run_args \<Rightarrow> (string set, app_setup) prog" where
  "setup_app w conf a =
     bindP (import_app_func (re_files w) (re_modules w) (ra_path a) (ra_func a)) (\<lambda>func.
     bindP (liftP (build_thing_cb (redis_url conf) (re_pool w))) (\<lambda>cb.
     bindP (liftP (if ra_disable_monitor a then Inr None
                   else bindR (get_monitor_ifaces (re_docker w) (re_cgroup w) (re_net w)) (\<lambda>ifaces. Inr (Some ifaces)))) (\<lambda>ifaces.
       retP \<lparr>as_func = func, as_kwargs = app_kwargs (ra_params a),
             as_servers = app_servers (re_coap w) conf (ra_flags a), as_catalogue = port_catalogue conf,
             as_hostname = ra_hostname a, as_cb = cb, as_ifaces = ifaces\<rparr>)))"

section \<open>The tasks of the event loop\<close>

text \<open>
  The task of the application (\<open>None\<close> while it runs), whether it was asked to cancel, the exit code, the calls of
  \<open>_stop\<close> that are scheduled, the one that holds the lock, what the stops have done, and whether the loop runs.
\<close>

datatype stop_phase =
    Idle
  | Waiting
  | TimedOut
  | Working "(stop_action \<times> unit res) list"

record loop_state =
  lp_task :: "task_end option"
  lp_cancel :: bool
  lp_code :: "int option"
  lp_stops :: nat
  lp_phase :: stop_phase
  lp_acts :: "stop_action list"
  lp_open :: bool

definition loop_init :: loop_state where
  "loop_init = \<lparr>lp_task = None, lp_cancel = False, lp_code = None, lp_stops = 0, lp_phase = Idle, lp_acts = [],
     lp_open = True\<rparr>"

text \<open>The end of the application's task calls \<open>_app_done_cb\<close>.\<close>

definition task_ends :: "task_end \<Rightarrow> loop_state \<Rightarrow> loop_state" where
  "task_ends e s =
     (let (code, schedule) = app_done_cb e (lp_code s)
      in s\<lparr>lp_task := Some e, lp_code := code, lp_stops := lp_stops s + (if schedule then 1 else 0)\<rparr>)"

text \<open>What \<open>wait_for\<close> gives for a task that has ended.\<close>

definition wait_outcome :: "task_end \<Rightarrow> unit res" where
  "wait_outcome e = (case e of TaskCancelled \<Rightarrow> Inl CancelledError | TaskReturned \<Rightarrow> Inr () | TaskRaised x \<Rightarrow> Inl x)"

text \<open>The rest of a stop after the wait; an exception that escapes releases the lock and ends the stop.\<close>

definition after_wait :: "unit res \<Rightarrow> app_world \<Rightarrow> loop_state \<Rightarrow> loop_state" where
  "after_wait r w s =
     (case guarded r of
        Inl e \<Rightarrow> s\<lparr>lp_phase := Idle\<rparr>
      | Inr _ \<Rightarrow> s\<lparr>lp_phase := Working (tl (stop_steps w))\<rparr>)"

fun stop_work :: "loop_state \<Rightarrow> loop_state" where
  "stop_work s =
     (case lp_phase s of
        Working ((a, r) # rest) \<Rightarrow>
          (let s1 = s\<lparr>lp_acts := lp_acts s @ [a]\<rparr>
           in if isl r then s1\<lparr>lp_phase := Idle\<rparr>
              else if a = StopLoop then s1\<lparr>lp_phase := Idle, lp_open := False\<rparr>
              else s1\<lparr>lp_phase := Working rest\<rparr>)
      | _ \<Rightarrow> s)"

text \<open>
  A step of the loop. Unless \<open>prompt\<close>, waiting for the application may take longer than its timeout: \<open>wait_for\<close>
  then cancels the task once more, waits for its end and raises \<open>TimeoutError\<close> however it ended.
\<close>

inductive loop_step :: "bool \<Rightarrow> loop_state \<Rightarrow> loop_state \<Rightarrow> bool" for prompt where
  app_ends: "lp_open s \<Longrightarrow> lp_task s = None \<Longrightarrow> loop_step prompt s (task_ends e s)"
| signal: "lp_open s \<Longrightarrow> loop_step prompt s (s\<lparr>lp_stops := Suc (lp_stops s)\<rparr>)"
| stop_locked: "lp_open s \<Longrightarrow> lp_stops s = Suc n \<Longrightarrow> lp_phase s \<noteq> Idle \<Longrightarrow> loop_step prompt s (s\<lparr>lp_stops := n\<rparr>)"
| stop_begins: "lp_open s \<Longrightarrow> lp_stops s = Suc n \<Longrightarrow> lp_phase s = Idle \<Longrightarrow>
    loop_step prompt s (s\<lparr>lp_stops := n, lp_cancel := True, lp_phase := Waiting, lp_acts := lp_acts s @ [CancelApp]\<rparr>)"
| waited: "lp_open s \<Longrightarrow> lp_phase s = Waiting \<Longrightarrow> lp_task s = Some e \<Longrightarrow>
    loop_step prompt s (after_wait (wait_outcome e) w s)"
| times_out: "\<not> prompt \<Longrightarrow> lp_open s \<Longrightarrow> lp_phase s = Waiting \<Longrightarrow> lp_task s = None \<Longrightarrow>
    loop_step prompt s (s\<lparr>lp_phase := TimedOut\<rparr>)"
| timed_out: "lp_open s \<Longrightarrow> lp_phase s = TimedOut \<Longrightarrow> lp_task s = Some e \<Longrightarrow>
    loop_step prompt s (after_wait (Inl TimeoutError) w s)"
| works: "lp_open s \<Longrightarrow> lp_phase s = Working (x # rest) \<Longrightarrow> loop_step prompt s (stop_work s)"

inductive loop_reach :: "bool \<Rightarrow> loop_state \<Rightarrow> bool" for prompt where
  reach_init: "loop_reach prompt loop_init"
| reach_step: "loop_reach prompt s \<Longrightarrow> loop_step prompt s s' \<Longrightarrow> loop_reach prompt s'"

inductive_cases loop_stepE: "loop_step prompt s s'"

section \<open>The stops of one application\<close>

definition stop_actions :: "app_world \<Rightarrow> stop_action list" where
  "stop_actions w = map fst (stop_steps w)"

definition stop_run :: "stop_action list \<Rightarrow> bool" where
  "stop_run acts \<longleftrightarrow> (\<exists>w k. acts = take k (stop_actions w))"

text \<open>The stop in progress: what it has done, given its phase.\<close>

definition current_run :: "loop_state \<Rightarrow> stop_action list \<Rightarrow> bool" where
  "current_run s acts =
     (case lp_phase s of
        Idle \<Rightarrow> (if lp_open s then acts = [] else (\<exists>w. acts = stop_actions w))
      | Working rest \<Rightarrow> lp_open s \<and> (\<exists>w. acts @ map fst rest = stop_actions w)
      | _ \<Rightarrow> lp_open s \<and> acts = [CancelApp])"

definition exit_inv :: "loop_state \<Rightarrow> bool" where
  "exit_inv s \<longleftrightarrow> lp_code s = (case lp_task s of Some (TaskRaised _) \<Rightarrow> Some 1 | _ \<Rightarrow> None)"

definition serial_inv :: "loop_state \<Rightarrow> bool" where
  "serial_inv s \<longleftrightarrow> (\<exists>runs acts. lp_acts s = concat runs @ acts \<and> (\<forall>r\<in>set runs. stop_run r) \<and> current_run s acts)"

definition cancel_inv :: "bool \<Rightarrow> loop_state \<Rightarrow> bool" where
  "cancel_inv prompt s \<longleftrightarrow>
     (prompt \<longrightarrow> lp_phase s \<noteq> TimedOut)
     \<and> ((\<exists>rest. lp_phase s = Working rest) \<or> \<not> lp_open s \<longrightarrow>
          (\<exists>e. lp_task s = Some e \<and> (prompt \<longrightarrow> e \<noteq> TaskCancelled)))"

lemma stop_actions_shape: "stop_actions w = CancelApp # map fst (tl (stop_steps w))"
  by (simp add: stop_actions_def stop_steps_def)

lemma stop_loop_last: "d @ StopLoop # map fst rest = stop_actions w \<Longrightarrow> d @ [StopLoop] = stop_actions w"
  by (cases rest rule: rev_cases)
    (auto simp: stop_actions_def stop_steps_def append_eq_Cons_conv Cons_eq_append_conv split: option.splits)

lemma stop_runI: "d @ rest = stop_actions w \<Longrightarrow> stop_run d"
  unfolding stop_run_def by (metis append_eq_conv_conj)

lemma serialI: "lp_acts s = concat runs @ acts \<Longrightarrow> \<forall>r\<in>set runs. stop_run r \<Longrightarrow> current_run s acts \<Longrightarrow> serial_inv s"
  unfolding serial_inv_def by blast

lemma serial_ended:
  assumes "lp_acts s = concat runs @ acts" and "\<forall>r\<in>set runs. stop_run r" and "stop_run acts"
    and "lp_phase s = Idle" and "lp_open s"
  shows "serial_inv s"
  by (rule serialI [of s "runs @ [acts]" "[]"]) (use assms in \<open>auto simp: current_run_def\<close>)

lemma after_wait_fields [simp]:
  "lp_acts (after_wait r w s) = lp_acts s" "lp_open (after_wait r w s) = lp_open s"
  "lp_task (after_wait r w s) = lp_task s" "lp_code (after_wait r w s) = lp_code s"
  by (simp_all add: after_wait_def split: sum.split)

lemma task_ends_fields [simp]:
  "lp_acts (task_ends e s) = lp_acts s" "lp_open (task_ends e s) = lp_open s"
  "lp_phase (task_ends e s) = lp_phase s" "lp_task (task_ends e s) = Some e"
  by (simp_all add: task_ends_def split: prod.split)

lemma serial_after_wait:
  assumes "serial_inv s" and phase: "lp_phase s = Waiting \<or> lp_phase s = TimedOut"
  shows "serial_inv (after_wait r w s)"
proof -
  obtain runs where runs: "lp_acts s = concat runs @ [CancelApp]" "\<forall>r\<in>set runs. stop_run r" "lp_open s"
    using assms by (auto simp: serial_inv_def current_run_def)
  show ?thesis
  proof (cases "guarded r")
    case (Inl e)
    have "stop_run [CancelApp]" using stop_actions_shape [of w] by (intro stop_runI [where w = w]) simp
    then show ?thesis by (intro serial_ended [OF _ runs(2)]) (simp_all add: runs Inl after_wait_def)
  next
    case (Inr u)
    show ?thesis
      by (rule serialI [OF _ runs(2), of _ "[CancelApp]"])
        (simp_all add: runs current_run_def after_wait_def Inr exI [of _ w] stop_actions_shape)
  qed
qed

lemma serial_work:
  assumes "serial_inv s" and "lp_phase s = Working ((a, r) # rest)"
  shows "serial_inv (stop_work s)"
proof -
  obtain runs d w where runs: "lp_acts s = concat runs @ d" "\<forall>r\<in>set runs. stop_run r" "lp_open s"
      and w: "d @ a # map fst rest = stop_actions w"
    using assms by (auto simp: serial_inv_def current_run_def)
  have run: "stop_run (d @ [a])" using w by (intro stop_runI [where rest = "map fst rest" and w = w]) simp
  show ?thesis
  proof (cases "isl r")
    case True
    then show ?thesis using assms(2) by (intro serial_ended [OF _ runs(2) run]) (simp_all add: runs Let_def)
  next
    case False
    show ?thesis
    proof (cases "a = StopLoop")
      case True
      then have "d @ [a] = stop_actions w" using w stop_loop_last by simp
      then show ?thesis using False True assms(2)
        by (intro serialI [OF _ runs(2), of _ "d @ [a]"]) (auto simp: runs current_run_def Let_def)
    next
      case other: False
      show ?thesis using False other assms(2) w
        by (intro serialI [OF _ runs(2), of _ "d @ [a]"]) (auto simp: runs current_run_def Let_def)
    qed
  qed
qed

lemma serial_keep:
  "serial_inv s \<Longrightarrow> lp_acts s' = lp_acts s \<Longrightarrow> lp_phase s' = lp_phase s \<Longrightarrow> lp_open s' = lp_open s \<Longrightarrow> serial_inv s'"
  by (simp only: serial_inv_def current_run_def)

lemma serial_step: "loop_step prompt s s' \<Longrightarrow> serial_inv s \<Longrightarrow> serial_inv s'"
proof (induction rule: loop_step.induct)
  case (app_ends s e)
  then show ?case by - (rule serial_keep [of s], simp_all)
next
  case (signal s)
  then show ?case by - (rule serial_keep [of s], simp_all)
next
  case (stop_locked s n)
  then show ?case by - (rule serial_keep [of s], simp_all)
next
  case (stop_begins s n)
  then obtain runs where "lp_acts s = concat runs" "\<forall>r\<in>set runs. stop_run r"
    by (auto simp: serial_inv_def current_run_def)
  then show ?case by (intro serialI [of _ runs "[CancelApp]"]) (simp_all add: current_run_def stop_begins)
next
  case (waited s e w)
  then show ?case by (intro serial_after_wait) simp_all
next
  case (times_out s)
  then show ?case by (auto simp: serial_inv_def current_run_def)
next
  case (timed_out s e w)
  then show ?case by (intro serial_after_wait) simp_all
next
  case (works s x rest)
  then show ?case by (cases x) (auto intro: serial_work simp del: stop_work.simps)
qed

lemma exit_step: "loop_step prompt s s' \<Longrightarrow> exit_inv s \<Longrightarrow> exit_inv s'"
proof (induction rule: loop_step.induct)
  case (app_ends s e)
  then show ?case by (cases e) (simp_all add: exit_inv_def task_ends_def app_done_cb_def)
next
  case (works s x rest)
  then show ?case by (cases x) (simp add: exit_inv_def Let_def)
qed (simp_all add: exit_inv_def)

lemma cancel_step: "loop_step prompt s s' \<Longrightarrow> cancel_inv prompt s \<Longrightarrow> cancel_inv prompt s'"
proof (induction rule: loop_step.induct)
  case (app_ends s e)
  then show ?case by (auto simp: cancel_inv_def)
next
  case (waited s e w)
  then show ?case
    by (cases e) (auto simp: cancel_inv_def after_wait_def wait_outcome_def guarded_def is_Exception_def split: if_splits)
next
  case (timed_out s e w)
  then show ?case by (auto simp: cancel_inv_def after_wait_def guarded_def is_Exception_def)
next
  case (works s x rest)
  then show ?case by (cases x) (auto simp: cancel_inv_def Let_def)
qed (auto simp: cancel_inv_def)

lemma reach_inv:
  "loop_reach prompt s \<Longrightarrow> serial_inv s \<and> exit_inv s \<and> cancel_inv prompt s"
proof (induction rule: loop_reach.induct)
  case reach_init
  have "serial_inv loop_init" by (rule serialI [of _ "[]" "[]"]) (simp_all add: loop_init_def current_run_def)
  then show ?case by (simp add: loop_init_def exit_inv_def cancel_inv_def)
next
  case (reach_step s s')
  then show ?case using serial_step exit_step cancel_step by blast
qed

section \<open>A stop alone\<close>

lemma works_all:
  assumes "lp_open s" and "lp_phase s = Working steps" and "StopLoop \<notin> fst ` set (butlast steps)"
    and "steps \<noteq> []" and "last steps = (StopLoop, Inr ())" and "run_steps steps acts = (r, acts')"
  shows "\<exists>s'. (loop_step prompt)\<^sup>*\<^sup>* s s' \<and> lp_phase s' = Idle \<and> (\<exists>done. acts' = acts @ done \<and> lp_acts s' = lp_acts s @ done)
    \<and> (lp_open s' \<longleftrightarrow> r \<noteq> Inr ()) \<and> lp_code s' = lp_code s"
  using assms
proof (induction steps arbitrary: s acts)
  case Nil
  then show ?case by simp
next
  case (Cons x rest)
  obtain a q where x: "x = (a, q)" by (cases x)
  let ?s = "stop_work s"
  have step: "loop_step prompt s ?s" using Cons.prems(1,2) by (rule works)
  show ?case
  proof (cases q)
    case (Inl e)
    then have "r = Inl e" "acts' = acts @ [a]" using Cons.prems(6) by (simp_all add: x)
    then show ?thesis using step Cons.prems(1,2) Inl
      by (intro exI [of _ ?s]) (auto simp: x Let_def)
  next
    case (Inr u)
    show ?thesis
    proof (cases "rest = []")
      case True
      then have "a = StopLoop" "r = Inr ()" "acts' = acts @ [a]" using Cons.prems(5,6) Inr by (simp_all add: x)
      then show ?thesis using step Cons.prems(1,2) Inr by (intro exI [of _ ?s]) (auto simp: x Let_def)
    next
      case False
      then have a: "a \<noteq> StopLoop" using Cons.prems(3) by (auto simp: x)
      have run: "run_steps rest (acts @ [a]) = (r, acts')" using Cons.prems(6) Inr by (simp add: x)
      have s: "lp_open ?s" "lp_phase ?s = Working rest" "lp_acts ?s = lp_acts s @ [a]" "lp_code ?s = lp_code s"
        using Cons.prems(1,2) a Inr by (simp_all add: x Let_def)
      have ends: "StopLoop \<notin> fst ` set (butlast rest)" "last rest = (StopLoop, Inr ())"
        using Cons.prems(3,5) False by auto
      obtain s' d where s': "(loop_step prompt)\<^sup>*\<^sup>* ?s s'" "lp_phase s' = Idle" "acts' = (acts @ [a]) @ d"
          "lp_acts s' = lp_acts ?s @ d" "lp_open s' \<longleftrightarrow> r \<noteq> Inr ()" "lp_code s' = lp_code ?s"
        using Cons.IH [OF s(1,2) ends(1) False ends(2) run] by blast
      have "(loop_step prompt)\<^sup>*\<^sup>* s s'" using step s'(1) by (rule converse_rtranclp_into_rtranclp)
      then show ?thesis using s' s by (intro exI [of _ s']) auto
    qed
  qed
qed


lemma reach_steps: "(loop_step prompt)\<^sup>*\<^sup>* s s' \<Longrightarrow> loop_reach prompt s \<Longrightarrow> loop_reach prompt s'"
  by (induction rule: rtranclp_induct) (auto intro: reach_step)

lemma failed_app_reach: "loop_reach True (task_ends (TaskRaised TypeError) loop_init)"
  by (rule reach_step [OF reach_init app_ends]) (simp_all add: loop_init_def)


lemma cancelled_step:
  assumes "loop_step True s s'" and "cancel_inv True s" and "lp_task s = Some TaskCancelled"
  shows "lp_task s' = Some TaskCancelled \<and> (\<exists>xs. lp_acts s' = lp_acts s @ xs \<and> StopLoop \<notin> set xs)"
  using assms by (induction rule: loop_step.induct) (auto simp: cancel_inv_def)

text \<open>
  An application that ends cancelled keeps its container from stopping: when it answers the cancellation
  within the timeout, no number of signals and stops closes the loop afterwards.
\<close>

theorem cancelled_app_blocks_stop:
  assumes "loop_reach True s" and "lp_task s = Some TaskCancelled" and "(loop_step True)\<^sup>*\<^sup>* s s'"
  shows "lp_open s' \<and> StopLoop \<notin> set (drop (length (lp_acts s)) (lp_acts s'))"
proof -
  have "lp_task s' = Some TaskCancelled \<and> (\<exists>xs. lp_acts s' = lp_acts s @ xs \<and> StopLoop \<notin> set xs)"
    using assms(3)
  proof (induction rule: rtranclp_induct)
    case base
    then show ?case using assms(2) by simp
  next
    case (step s1 s2)
    have "cancel_inv True s1" using reach_inv [OF reach_steps [OF step(1) assms(1)]] by blast
    then show ?case using cancelled_step [OF step(2)] step.IH by fastforce
  qed
  moreover have "cancel_inv True s'" using reach_inv [OF reach_steps [OF assms(3,1)]] by blast
  ultimately show ?thesis by (auto simp: cancel_inv_def)
qed

lemma cancelled_reach:
  "loop_reach True (task_ends TaskCancelled (loop_init\<lparr>lp_cancel := True, lp_phase := Waiting, lp_acts := [CancelApp]\<rparr>))"
proof -
  let ?s1 = "loop_init\<lparr>lp_stops := Suc 0\<rparr>"
  let ?s2 = "?s1\<lparr>lp_stops := 0, lp_cancel := True, lp_phase := Waiting, lp_acts := [CancelApp]\<rparr>"
  have "loop_step True loop_init ?s1" using signal [of loop_init True] by (simp add: loop_init_def)
  moreover have "loop_step True ?s1 ?s2" using stop_begins [of ?s1 0 True] by (simp add: loop_init_def)
  moreover have "loop_step True ?s2 (task_ends TaskCancelled ?s2)"
    using app_ends [of ?s2 True TaskCancelled] by (simp add: loop_init_def)
  moreover have "?s2 = loop_init\<lparr>lp_cancel := True, lp_phase := Waiting, lp_acts := [CancelApp]\<rparr>"
    by (simp add: loop_init_def)
  ultimately show ?thesis using reach_init [of True] by (metis reach_step)
qed

theorem cancelled_app_blocks_stop_witness:
  "lp_open (after_wait (Inl CancelledError) w
     (task_ends TaskCancelled (loop_init\<lparr>lp_cancel := True, lp_phase := Waiting, lp_acts := [CancelApp]\<rparr>)))"
proof -
  let ?s = "task_ends TaskCancelled (loop_init\<lparr>lp_cancel := True, lp_phase := Waiting, lp_acts := [CancelApp]\<rparr>)"
  have "loop_step True ?s (after_wait (wait_outcome TaskCancelled) w ?s)"
    by (rule waited) (simp_all add: loop_init_def)
  from cancelled_app_blocks_stop [OF cancelled_reach _ r_into_rtranclp [of "loop_step True", OF this]]
  show ?thesis by (simp add: wait_outcome_def)
qed

lemma stop_alone:
  assumes "lp_open s" and "lp_phase s = Idle" and "lp_stops s = Suc n" and "lp_task s = Some e"
    and "aw_app w = wait_outcome e" and "app_stop False w [] = (r, acts)"
  shows "\<exists>s'. (loop_step prompt)\<^sup>*\<^sup>* s s' \<and> lp_acts s' = lp_acts s @ acts \<and> (lp_open s' \<longleftrightarrow> r \<noteq> Inr ()) \<and> lp_code s' = lp_code s"
proof -
  define s1 where "s1 = s\<lparr>lp_stops := n, lp_cancel := True, lp_phase := Waiting, lp_acts := lp_acts s @ [CancelApp]\<rparr>"
  define s2 where "s2 = after_wait (wait_outcome e) w s1"
  have s1: "loop_step prompt s s1" unfolding s1_def using assms(1,3,2) by (rule stop_begins)
  have s2: "loop_step prompt s1 s2" unfolding s2_def by (rule waited) (simp_all add: s1_def assms(1,4))
  have steps: "stop_steps w = (CancelApp, guarded (wait_outcome e)) # tl (stop_steps w)"
    by (simp add: stop_steps_def assms(5))
  show ?thesis
  proof (cases "guarded (wait_outcome e)")
    case (Inl x)
    then have "r = Inl x" "acts = [CancelApp]" using assms(6) by (auto simp: app_stop_def stop_steps_def assms(5))
    then show ?thesis using s1 s2 Inl assms(1)
      by (intro exI [of _ s2]) (auto simp: s2_def s1_def after_wait_def)
  next
    case (Inr u)
    let ?rest = "tl (stop_steps w)"
    have rest: "StopLoop \<notin> fst ` set (butlast ?rest)" "?rest \<noteq> []" "last ?rest = (StopLoop, Inr ())"
      by (auto simp: stop_steps_def split: option.splits)
    have run: "run_steps ?rest [CancelApp] = (r, acts)"
      using assms(6) by (simp add: app_stop_def, subst (asm) steps) (simp add: Inr)
    have "lp_open s2" "lp_phase s2 = Working ?rest" "lp_acts s2 = lp_acts s @ [CancelApp]" "lp_code s2 = lp_code s"
      using assms(1) by (simp_all add: s2_def s1_def after_wait_def Inr)
    from works_all [OF this(1,2) rest(1,2,3) run, of prompt] this s1 s2 show ?thesis
      by (auto intro: converse_rtranclp_into_rtranclp)
  qed
qed



section \<open>The end of a run\<close>

text \<open>
  \<open>_start_servient\<close> leaves the interpreter when the servient does not start; the exit is raised through the loop.
  In the end the exit code replaces whatever ended the loop.
\<close>

definition start_servient :: "unit res \<Rightarrow> unit res" where
  "start_servient started = (case started of Inl e \<Rightarrow> if is_Exception e then Inl (SystemExit 1) else Inl e | Inr _ \<Rightarrow> Inr ())"

definition run_result :: "int option \<Rightarrow> unit res \<Rightarrow> unit res" where
  "run_result code ended = (case final_exit code of None \<Rightarrow> ended | Some c \<Rightarrow> Inl (SystemExit c))"

section \<open>Running the broker\<close>

datatype broker_effect = SpawnMosquitto "string list" | RunLoop | CloseLoop | TerminateMosquitto

definition mosquitto_cmd :: "env_config \<Rightarrow> string list" where
  "mosquitto_cmd conf = [''-p'', py_str (port_mqtt conf)]"

definition err_mosquitto :: string where
  "err_mosquitto = ''error''"

definition ascii_lower :: "char \<Rightarrow> char" where
  "ascii_lower c = (let n = of_char c :: nat in if 65 \<le> n \<and> n \<le> 90 then char_of (n + 32) else c)"

text \<open>\<open>_out\<close>: the printed line, and whether it is a warning.\<close>

definition broker_out :: "string \<Rightarrow> string \<times> bool" where
  "broker_out line =
     (let s = strip_ansi_codes (strip line) in (s, sublist err_mosquitto (map ascii_lower s)))"

text \<open>
  \<open>run_mqtt_broker\<close>: whether the executable is found, whether it starts and how the loop ends. Terminating the
  process catches every error, also that there is none.
\<close>

definition run_mqtt_broker :: "unit res \<Rightarrow> env_config \<Rightarrow> unit res \<Rightarrow> unit res \<Rightarrow> (broker_effect list, unit) prog" where
  "run_mqtt_broker found conf spawned looped =
     bindP (liftP found) (\<lambda>_ acts.
       case spawned of
         Inl e \<Rightarrow> (Inl e, acts @ [SpawnMosquitto (mosquitto_cmd conf), CloseLoop])
       | Inr _ \<Rightarrow> (looped, acts @ [SpawnMosquitto (mosquitto_cmd conf), RunLoop, CloseLoop, TerminateMosquitto]))"

end
