(* ===== verification/ThingApps.thy ===== *)
theory ThingApps
  imports Historian Detector Camera SmallApps RunApp
begin

text \<open>
  The Things that the built-in applications expose, and how their \<open>app\<close> functions end: \<^verbatim>\<open>wotemu/apps/clock.py\<close>,
  \<^verbatim>\<open>worker.py\<close>, \<^verbatim>\<open>camera.py\<close>, \<^verbatim>\<open>detector.py\<close>, \<^verbatim>\<open>historian.py\<close>, \<^verbatim>\<open>caller.py\<close> and \<^verbatim>\<open>reader.py\<close>. \<open>dt\<close> gives the text of
  a member of \<open>wotpy.wot.enums.DataType\<close>.
\<close>

section \<open>Descriptions\<close>

definition clock_description :: "(string \<Rightarrow> string) \<Rightarrow> py" where
  "clock_description dt =
     PDict
       [(''id'', PStr ''urn:org:fundacionctic:thing:clock''),
      (''name'', PStr ''Clock Thing''),
      (''properties'', PDict [(''time'', PDict [(''type'', PStr (dt ''INTEGER'')), (''readOnly'', PBool True)])]),
      (''events'', PDict
         [(''timeEvent'', PDict [(''data'', PDict [(''type'', PStr (dt ''INTEGER''))])]),
          (''dateEvent'', PDict [(''data'', PDict [(''type'', PStr (dt ''STRING''))])])])]"

definition worker_description :: "(string \<Rightarrow> string) \<Rightarrow> py" where
  "worker_description dt =
     PDict
       [(''id'', PStr ''urn:org:fundacionctic:thing:worker''),
      (''name'', PStr ''Dummy worker Thing''),
      (''actions'', PDict
         [(''doWork'', PDict
             [(''safe'', PBool True),
              (''idempotent'', PBool False),
              (''input'', PDict [(''type'', PStr (dt ''OBJECT''))]),
              (''output'', PDict [(''type'', PStr (dt ''OBJECT''))])])])]"

definition camera_description :: py where
  "camera_description =
     PDict
       [(''id'', PStr ''urn:org:fundacionctic:thing:wotemu:camera''),
      (''name'', PStr ''Mock video camera''),
      (''actions'', PDict
         [(''controlPTZ'', PDict
             [(''safe'', PBool True),
              (''idempotent'', PBool False),
              (''input'', PDict [(''type'', PStr ''object'')])])]),
      (''events'', PDict [(''jpgVideoFrame'', PDict [(''data'', PDict [(''type'', PStr ''object'')])])])]"

definition detector_description :: py where
  "detector_description =
     PDict
       [(''id'', PStr ''urn:org:fundacionctic:thing:wotemu:detector''),
      (''name'', PStr ''Camera detection''),
      (''properties'', PDict
         [(''cameras'', PDict
             [(''readOnly'', PBool True),
              (''type'', PStr ''array''),
              (''items'', PDict
                 [(''type'', PStr ''object''),
                  (''properties'', PDict
                     [(''servient_host'', PDict [(''type'', PStr ''string'')]),
                      (''thing_id'', PDict [(''type'', PStr ''string'')]),
                      (''frame_event'', PDict [(''type'', PStr ''string'')])]),
                  (''required'', PList [PStr ''servient_host''])])]),
          (''latestDetections'', PDict
             [(''type'', PStr ''array''),
              (''items'', PDict
                 [(''type'', PStr ''object''),
                  (''properties'', PDict
                     [(''cameraId'', PDict [(''type'', PStr ''string'')]),
                      (''jpgB64'', PDict [(''type'', PStr ''string'')]),
                      (''faceLocations'', PDict [(''type'', PStr ''array'')]),
                      (''unixTime'', PDict [(''type'', PStr ''number'')])]),
                  (''required'', PList [PStr ''cameraId'', PStr ''jpgB64'', PStr ''faceLocations'', PStr ''unixTime''])])])])]"

definition historian_description :: py where
  "historian_description =
     PDict
       [(''id'', PStr ''urn:org:fundacionctic:thing:historian''),
      (''name'', PStr ''MongoDB historian Thing''),
      (''properties'', PDict
         [(''observedThings'', PDict
             [(''readOnly'', PBool True),
              (''type'', PStr ''array''),
              (''items'', PDict
                 [(''type'', PStr ''object''),
                  (''properties'', PDict
                     [(''servient'', PDict [(''type'', PStr ''string'')]),
                      (''thingId'', PDict [(''type'', PStr ''string'')])]),
                  (''required'', PList [PStr ''servient'', PStr ''thingId''])])])]),
      (''actions'', PDict
         [(''list'', PDict
             [(''safe'', PBool True),
              (''idempotent'', PBool False),
              (''output'', PDict
                 [(''type'', PStr ''array''),
                  (''items'', PDict
                     [(''type'', PStr ''object''),
                      (''properties'', PDict
                         [(''thingId'', PDict [(''type'', PStr ''string'')]),
                          (''propertyName'', PDict [(''type'', PStr ''string'')]),
                          (''servient'', PDict [(''type'', PStr ''string'')])]),
                      (''required'', PList [PStr ''propertyName'', PStr ''thingId'', PStr ''servient''])])])]),
          (''get'', PDict
             [(''safe'', PBool True),
              (''idempotent'', PBool False),
              (''input'', PDict
                 [(''type'', PStr ''object''),
                  (''properties'', PDict
                     [(''fromUnix'', PDict [(''type'', PStr ''number'')]),
                      (''toUnix'', PDict [(''type'', PStr ''number'')]),
                      (''thingId'', PDict [(''type'', PStr ''string'')]),
                      (''propertyName'', PDict [(''type'', PStr ''string'')]),
                      (''servient'', PDict [(''type'', PStr ''string'')]),
                      (''buckets'', PDict [(''type'', PStr ''number'')])])]),
              (''output'', PDict
                 [(''type'', PStr ''array''),
                  (''items'', PDict
                     [(''type'', PStr ''object''),
                      (''properties'', PDict
                         [(''unixTime'', PDict [(''type'', PStr ''number'')]),
                          (''thingId'', PDict [(''type'', PStr ''string'')]),
                          (''propertyName'', PDict [(''type'', PStr ''string'')]),
                          (''servient'', PDict [(''type'', PStr ''string'')]),
                          (''value'', PDict [(''type'', PStr ''string'')])]),
                      (''required'', PList [PStr ''unixTime'', PStr ''propertyName'', PStr ''thingId'', PStr ''servient'', PStr ''value''])])])]),
          (''write'', PDict
             [(''safe'', PBool False),
              (''idempotent'', PBool False),
              (''input'', PDict
                 [(''type'', PStr ''object''),
                  (''properties'', PDict
                     [(''unixTime'', PDict [(''type'', PStr ''number'')]),
                      (''propertyName'', PDict [(''type'', PStr ''string'')]),
                      (''thingId'', PDict [(''type'', PStr ''string'')]),
                      (''servient'', PDict [(''type'', PStr ''string'')]),
                      (''value'', PDict [(''type'', PStr ''string'')])]),
                  (''required'', PList [PStr ''propertyName'', PStr ''thingId'', PStr ''servient'', PStr ''value''])])])])]"

section \<open>Exposing a Thing\<close>

text \<open>The calls of an application on \<open>wot\<close> and on its exposed Thing, in order.\<close>

datatype wot_call = Produce string | SetPropertyRead string | SetAction string | Expose

definition exposes :: "py \<Rightarrow> wot_call list \<Rightarrow> wot_call list" where
  "exposes desc handlers = Produce (json_dumps desc) # handlers @ [Expose]"

definition clock_exposes :: "(string \<Rightarrow> string) \<Rightarrow> wot_call list" where
  "clock_exposes dt = exposes (clock_description dt) [SetPropertyRead ''time'']"

definition worker_exposes :: "(string \<Rightarrow> string) \<Rightarrow> wot_call list" where
  "worker_exposes dt = exposes (worker_description dt) [SetAction ''doWork'']"

definition camera_exposes :: "wot_call list" where
  "camera_exposes = exposes camera_description [SetAction ''controlPTZ'']"

definition detector_exposes :: "wot_call list" where
  "detector_exposes = exposes detector_description [SetPropertyRead ''latestDetections'', SetPropertyRead ''cameras'']"

definition historian_exposes :: "wot_call list" where
  "historian_exposes =
     exposes historian_description
       [SetAction ''get'', SetAction ''write'', SetAction ''list'', SetPropertyRead ''observedThings'']"

text \<open>The events that an application emits with their data, and the action that the detector invokes on a camera.\<close>

definition emit_time :: "real \<Rightarrow> string \<times> py" where
  "emit_time now = (''timeEvent'', PInt (time_millis now))"

definition emit_date :: "string \<Rightarrow> string \<times> py" where
  "emit_date date = (''dateEvent'', PStr date)"

definition emit_frame :: "floats \<Rightarrow> real \<times> string \<Rightarrow> string \<times> py" where
  "emit_frame fl f = (''jpgVideoFrame'', PDict [(''time_capture'', PFloat (fl_repr fl (fst f))), (''b64_jpg'', PStr (snd f))])"

definition clock_emits :: "string list" where
  "clock_emits = [fst (emit_time 0), fst (emit_date [])]"

definition camera_emits :: "string list" where
  "camera_emits = [fst (emit_frame \<lparr>fl_val = (\<lambda>r. 0), fl_repr = (\<lambda>x. [])\<rparr> (0, []))]"

definition ptz_action :: string where
  "ptz_action = ''controlPTZ''"

section \<open>What a description declares\<close>

definition declared :: "py \<Rightarrow> string \<Rightarrow> string list" where
  "declared td key =
     (case td of PDict d \<Rightarrow> (case dget d key of Some (PDict i) \<Rightarrow> dkeys i | _ \<Rightarrow> []) | _ \<Rightarrow> [])"

definition thing_of :: "(string \<Rightarrow> string) \<Rightarrow> wot_call list \<Rightarrow> py option" where
  "thing_of canon calls = (case calls of Produce text # _ \<Rightarrow> json_loads canon text | _ \<Rightarrow> None)"

definition action_handlers :: "wot_call list \<Rightarrow> string list" where
  "action_handlers calls = List.map_filter (\<lambda>c. case c of SetAction n \<Rightarrow> Some n | _ \<Rightarrow> None) calls"

definition property_handlers :: "wot_call list \<Rightarrow> string list" where
  "property_handlers calls = List.map_filter (\<lambda>c. case c of SetPropertyRead n \<Rightarrow> Some n | _ \<Rightarrow> None) calls"

text \<open>A Thing is complete when the exposed text is its description, every declared action and property has its
  handler and no other has one, and every event that is emitted is declared.\<close>

definition complete_thing :: "(string \<Rightarrow> string) \<Rightarrow> py \<Rightarrow> wot_call list \<Rightarrow> string list \<Rightarrow> bool" where
  "complete_thing canon desc calls emits \<longleftrightarrow>
     thing_of canon calls = Some desc \<and> last calls = Expose
     \<and> set (action_handlers calls) = set (declared desc ''actions'')
     \<and> set (property_handlers calls) = set (declared desc ''properties'')
     \<and> set emits = set (declared desc ''events'')"

lemmas descriptions = clock_description_def worker_description_def camera_description_def detector_description_def
  historian_description_def

lemma descriptions_json:
  "json_ok canon (clock_description dt)" "json_ok canon (worker_description dt)" "json_ok canon camera_description"
  "json_ok canon detector_description" "json_ok canon historian_description"
  by (simp_all add: descriptions json_ok.simps dict_ok_def)

lemma exposes_complete:
  assumes "json_ok canon desc" and "set (action_handlers handlers) = set (declared desc ''actions'')"
    and "set (property_handlers handlers) = set (declared desc ''properties'')" and "set emits = set (declared desc ''events'')"
  shows "complete_thing canon desc (exposes desc handlers) emits"
  using assms
  by (simp add: complete_thing_def exposes_def thing_of_def json_loads_dumps action_handlers_def property_handlers_def
      List.map_filter_def)

text \<open>
  C19. Every Thing of the built-in applications is complete: what is exposed reads back as its description, each of its actions and
  properties has a handler and each event that is emitted is declared. What the detector asks of a camera by
  default, its Thing, its event and its action, is what the camera exposes.
\<close>

theorem things_complete:
  "complete_thing canon (clock_description dt) (clock_exposes dt) clock_emits
   \<and> complete_thing canon (worker_description dt) (worker_exposes dt) []
   \<and> complete_thing canon camera_description camera_exposes camera_emits
   \<and> complete_thing canon detector_description detector_exposes []
   \<and> complete_thing canon historian_description historian_exposes []
   \<and> py_index camera_description ''id'' = Inr (PStr default_camera_id)
   \<and> default_frame_event \<in> set camera_emits \<and> ptz_action \<in> set (action_handlers camera_exposes)"
proof (intro conjI)
  show "complete_thing canon (clock_description dt) (clock_exposes dt) clock_emits"
    unfolding clock_exposes_def
    by (rule exposes_complete [OF descriptions_json(1)])
      (simp_all add: declared_def clock_description_def dget_Cons action_handlers_def property_handlers_def List.map_filter_def clock_emits_def emit_time_def emit_date_def)
  show "complete_thing canon (worker_description dt) (worker_exposes dt) []"
    unfolding worker_exposes_def
    by (rule exposes_complete [OF descriptions_json(2)])
      (simp_all add: declared_def worker_description_def dget_Cons action_handlers_def property_handlers_def List.map_filter_def)
  show "complete_thing canon camera_description camera_exposes camera_emits"
    unfolding camera_exposes_def
    by (rule exposes_complete [OF descriptions_json(3)])
      (simp_all add: declared_def camera_description_def dget_Cons action_handlers_def property_handlers_def List.map_filter_def camera_emits_def emit_frame_def)
  show "complete_thing canon detector_description detector_exposes []"
    unfolding detector_exposes_def
    by (rule exposes_complete [OF descriptions_json(4)])
      (simp_all add: declared_def detector_description_def dget_Cons action_handlers_def property_handlers_def List.map_filter_def insert_commute)
  show "complete_thing canon historian_description historian_exposes []"
    unfolding historian_exposes_def
    by (rule exposes_complete [OF descriptions_json(5)])
      (simp_all add: declared_def historian_description_def dget_Cons action_handlers_def property_handlers_def List.map_filter_def insert_commute)
qed (simp_all add: camera_description_def dict_index_def dget_Cons default_camera_id_def default_frame_event_def camera_emits_def emit_frame_def
    ptz_action_def camera_exposes_def exposes_def action_handlers_def List.map_filter_def)

section \<open>Schemas\<close>

text \<open>What the schemas of the descriptions say of a value: types, items, properties and required properties.\<close>

fun has_type :: "string \<Rightarrow> py \<Rightarrow> bool" where
  "has_type t (PStr _) = (t = ''string'')"
| "has_type t (PInt _) = (t \<in> {''number'', ''integer''})"
| "has_type t (PFloat _) = (t = ''number'')"
| "has_type t (PBool _) = (t = ''boolean'')"
| "has_type t (PList _) = (t = ''array'')"
| "has_type t (PDict _) = (t = ''object'')"
| "has_type t PNone = (t = ''null'')"

lemma dget_size [termination_simp]: "dget d k = Some v \<Longrightarrow> size v < size (PDict d)"
  by (induction d) (auto simp: dget_Cons split: if_splits)

lemma member_size [termination_simp]: "(k, v) \<in> set d \<Longrightarrow> size v < size (PDict d)"
  by (induction d) auto

function conforms :: "py \<Rightarrow> py \<Rightarrow> bool" where
  "conforms schema v =
     (case schema of
        PDict s \<Rightarrow>
          (case dget s ''type'' of Some (PStr t) \<Rightarrow> has_type t v | _ \<Rightarrow> True)
          \<and> (case v of
               PList xs \<Rightarrow> (case dget s ''items'' of Some sub \<Rightarrow> list_all (\<lambda>x. conforms sub x) xs | None \<Rightarrow> True)
             | PDict d \<Rightarrow>
                 (case dget s ''properties'' of
                    Some (PDict ps) \<Rightarrow> list_all (\<lambda>(k, sub). case dget d k of Some x \<Rightarrow> conforms sub x | None \<Rightarrow> True) ps
                  | _ \<Rightarrow> True)
                 \<and> (case dget s ''required'' of
                      Some (PList ks) \<Rightarrow> list_all (\<lambda>k. case k of PStr n \<Rightarrow> dget d n \<noteq> None | _ \<Rightarrow> True) ks
                    | _ \<Rightarrow> True)
             | _ \<Rightarrow> True)
      | _ \<Rightarrow> True)"
  by pat_completeness auto

termination conforms
proof (relation "measure (size \<circ> fst)", goal_cases)
  case 1
  then show ?case by simp
next
  case (2 schema v s xs sub x)
  then show ?case using dget_size by fastforce
next
  case (3 schema v s d p ps kv k sub x)
  then show ?case using dget_size member_size by fastforce
qed

declare conforms.simps [simp del]

definition schema_of :: "py \<Rightarrow> string list \<Rightarrow> py" where
  "schema_of desc keys = (case index_chain desc keys of Inr s \<Rightarrow> s | Inl _ \<Rightarrow> PNone)"

definition is_str :: "py \<Rightarrow> bool" where
  "is_str v = (case v of PStr _ \<Rightarrow> True | _ \<Rightarrow> False)"

lemma conforms_simple: "conforms (PDict [(''type'', PStr t)]) v = has_type t v"
  by (subst conforms.simps) (auto simp: dget_Cons split: py.split)

lemma conforms_array:
  "conforms (PDict [(''type'', PStr ''array''), (''items'', sub)]) (PList xs) = list_all (conforms sub) xs"
  by (subst conforms.simps) (simp add: dget_Cons)

lemma conforms_object:
  "conforms (PDict [(''type'', PStr ''object''), (''properties'', PDict ps), (''required'', PList ks)]) (PDict d) =
     (list_all (\<lambda>(k, sub). case dget d k of Some x \<Rightarrow> conforms sub x | None \<Rightarrow> True) ps
      \<and> list_all (\<lambda>k. case k of PStr n \<Rightarrow> dget d n \<noteq> None | _ \<Rightarrow> True) ks)"
  by (subst conforms.simps) (simp add: dget_Cons)

lemma has_type_string: "has_type ''string'' v = is_str v"
  by (cases v) (simp_all add: is_str_def)

definition get_output :: py where
  "get_output = schema_of historian_description [''actions'', ''get'', ''output'']"

definition list_output :: py where
  "list_output = schema_of historian_description [''actions'', ''list'', ''output'']"

definition observed_schema :: py where
  "observed_schema = schema_of historian_description [''properties'', ''observedThings'']"

definition doc_named :: "doc \<Rightarrow> bool" where
  "doc_named d = (is_str (property_name d) \<and> is_str (thing_id d) \<and> is_str (servient d))"

lemma get_output_items:
  assumes "list_all doc_named ds"
  shows "conforms get_output (PList (map (doc_item fl off) ds)) = list_all (\<lambda>d. is_str (doc_value d)) ds"
proof -
  have "conforms get_output (PList xs) = list_all (conforms (schema_of historian_description [''actions'', ''get'', ''output'', ''items''])) xs" for xs
    by (simp add: get_output_def schema_of_def historian_description_def dict_index_def dget_Cons conforms_array)
  moreover have "conforms (schema_of historian_description [''actions'', ''get'', ''output'', ''items'']) (doc_item fl off d) = is_str (doc_value d)"
    if "doc_named d" for d
    using that by (simp add: schema_of_def historian_description_def dict_index_def dget_Cons doc_item_def conforms_object
        conforms_simple has_type_string doc_named_def)
  ultimately show ?thesis using assms by (auto simp: list_all_iff)
qed

text \<open>
  What the historian's action \<open>get\<close> returns, with or without buckets, conforms to the output schema of its description exactly
  when the stored values are strings, for documents whose names are strings; so the number that it reads from a
  clock is returned against the schema.
\<close>

theorem historian_get_schema:
  assumes "historian_get fl off mg now params docs = Inr items"
  shows "\<exists>ds. items = map (doc_item fl off) ds
    \<and> (list_all doc_named ds \<longrightarrow> conforms get_output (PList items) = list_all (\<lambda>d. is_str (doc_value d)) ds)"
proof -
  obtain ds where "items = map (doc_item fl off) ds"
    using assms by (auto simp: historian_get_def get_aggregated_def bindR_eq_Inr split: if_splits)
  then show ?thesis using get_output_items by blast
qed

theorem historian_get_schema_witness:
  "\<exists>items. historian_get demo_floats 0 demo_mongo 110 [(''input'', PDict [(''fromUnix'', PInt 90), (''toUnix'', PInt 105)])] [demo_doc] = Inr items
     \<and> \<not> conforms get_output (PList items)"
proof -
  let ?i = "PDict [(''fromUnix'', PInt 90), (''toUnix'', PInt 105)]"
  have get: "historian_get demo_floats 0 demo_mongo 110 [(''input'', ?i)] [demo_doc] = Inr [doc_item demo_floats 0 demo_doc]"
    by (simp add: historian_get_def params_input_def dict_index_def dget_Cons py_or_def build_query_def eq_filter_def py_get_def
        get_default_def demo_mongo_def matches_def demo_doc_def opt_eq_def)
  obtain d where d: "doc_item demo_floats 0 demo_doc = doc_item demo_floats 0 d"
      and c: "doc_named d \<longrightarrow> conforms get_output (PList [doc_item demo_floats 0 demo_doc]) = is_str (doc_value d)"
    using historian_get_schema [OF get] by (auto simp: Cons_eq_map_conv)
  have "thing_id d = PStr ''urn:clock''" "property_name d = PStr ''time''" "servient d = PStr ''clock''" "doc_value d = PInt 7"
    using d by (simp_all add: doc_item_def demo_doc_def)
  then have "\<not> conforms get_output (PList [doc_item demo_floats 0 demo_doc])"
    using c by (simp add: doc_named_def is_str_def)
  with get show ?thesis by blast
qed

text \<open>The lists of observed Things and of stored properties conform to their schemas.\<close>

lemma things_handler_schema:
  assumes "things_handler observed = Inr items"
    and "\<And>item h. item \<in> set observed \<Longrightarrow> py_index item ''servient_host'' = Inr h \<Longrightarrow> is_str h"
    and "\<And>item t. item \<in> set observed \<Longrightarrow> py_index item ''thing_id'' = Inr t \<Longrightarrow> is_str t"
  shows "conforms observed_schema (PList items)"
proof -
  have "\<exists>h t. x = PDict [(''servient'', h), (''thingId'', t)] \<and> is_str h \<and> is_str t" if "x \<in> set items" for x
    using mapR_origin [OF assms(1) [unfolded things_handler_def] that] assms(2,3) by (auto simp: bindR_eq_Inr)
  moreover have "conforms observed_schema (PList items) =
      list_all (conforms (schema_of historian_description [''properties'', ''observedThings'', ''items''])) items"
    by (subst conforms.simps)
      (simp add: observed_schema_def schema_of_def historian_description_def dict_index_def dget_Cons)
  ultimately show ?thesis
    by (fastforce simp: list_all_iff schema_of_def historian_description_def dict_index_def dget_Cons conforms_object
        conforms_simple has_type_string)
qed

lemma historian_list_schema:
  assumes "historian_list mg docs = Inr items"
    and "\<And>gs p t s. mg_groups mg docs = Inr gs \<Longrightarrow> (p, t, s) \<in> set gs \<Longrightarrow> is_str p \<and> is_str t \<and> is_str s"
  shows "conforms list_output (PList items)"
proof -
  obtain gs where gs: "mg_groups mg docs = Inr gs" and items: "items = map (\<lambda>(prop, thing, serv).
       PDict [(''propertyName'', prop), (''thingId'', thing), (''servient'', serv)]) gs"
    using assms(1) by (auto simp: historian_list_def bindR_eq_Inr)
  have "conforms list_output (PList items) = list_all (conforms (schema_of historian_description [''actions'', ''list'', ''output'', ''items''])) items"
    by (simp add: list_output_def schema_of_def historian_description_def dict_index_def dget_Cons conforms_array)
  then show ?thesis
    using assms(2) [OF gs] unfolding items
    by (fastforce simp: list_all_iff schema_of_def historian_description_def dict_index_def dget_Cons conforms_object
        conforms_simple has_type_string)
qed

section \<open>How the applications end\<close>

text \<open>A sleep with an argument of the command line: \<open>asyncio.sleep\<close> compares it with a number.\<close>

definition sleep_arg :: "floats \<Rightarrow> py \<Rightarrow> unit res" where
  "sleep_arg fl v = bindR (py_number fl v) (\<lambda>_. Inr ())"

text \<open>
  \<open>asyncio.gather\<close> without \<open>return_exceptions\<close>, of coroutines with these outcomes; of several exceptions the one that comes
  first in time is raised, here the first of the list.
\<close>

fun gather_all :: "unit res list \<Rightarrow> unit res" where
  "gather_all [] = Inr ()"
| "gather_all (Inl e # rs) = Inl e"
| "gather_all (Inr _ # rs) = gather_all rs"

text \<open>
  The clock: a task converts its interval and emits; when the application is cancelled, so are its tasks, which then emit once more,
  and \<open>app\<close> waits for both.
\<close>

definition clock_task :: "floats \<Rightarrow> (string \<Rightarrow> real option) \<Rightarrow> py \<Rightarrow> (unit res \<times> unit res) list \<Rightarrow> unit res \<Rightarrow> (nat, unit) prog" where
  "clock_task fl parse_float interval rounds final =
     bindP (liftP (py_to_float fl parse_float interval)) (\<lambda>_. emitter rounds final)"

definition clock_app :: "unit res \<Rightarrow> unit res \<Rightarrow> unit res" where
  "clock_app time_task date_task = gather_all [time_task, date_task]"

definition worker_app :: "unit res" where
  "worker_app = Inr ()"

text \<open>The caller and the reader: a round and the sleep after it, until the application is cancelled.\<close>

fun caller_rounds :: "real \<Rightarrow> py \<Rightarrow> string list \<Rightarrow> ((string \<Rightarrow> py \<Rightarrow> unit res) \<times> unit res) list \<Rightarrow> ((string \<times> py) list, unit) prog" where
  "caller_rounds lambd params names [] = raiseP CancelledError"
| "caller_rounds lambd params names ((act, slept) # rounds) =
     bindP (invoke_all act params names) (\<lambda>_.
     bindP (liftP (if lambd = 0 then Inl ZeroDivisionError else slept)) (\<lambda>_. caller_rounds lambd params names rounds))"

definition caller_app ::
  "floats \<Rightarrow> (string \<Rightarrow> real option) \<Rightarrow> (string \<Rightarrow> string) \<Rightarrow> py \<Rightarrow> py \<Rightarrow> unit res \<Rightarrow> string list res
     \<Rightarrow> ((string \<Rightarrow> py \<Rightarrow> unit res) \<times> unit res) list \<Rightarrow> ((string \<times> py) list, unit) prog" where
  "caller_app fl parse_float canon params lambd waited consumed rounds =
     bindP (liftP (py_to_float fl parse_float lambd)) (\<lambda>rate.
     bindP (liftP waited) (\<lambda>_.
     bindP (liftP consumed) (\<lambda>names. caller_rounds rate (caller_params canon params) names rounds)))"

fun reader_rounds :: "floats \<Rightarrow> py \<Rightarrow> string list \<Rightarrow> ((string \<Rightarrow> py res) \<times> unit res) list \<Rightarrow> (string list, unit) prog" where
  "reader_rounds fl interval names [] = raiseP CancelledError"
| "reader_rounds fl interval names ((read, slept) # rounds) =
     bindP (read_properties read names) (\<lambda>_.
     bindP (liftP (bindR (sleep_arg fl interval) (\<lambda>_. slept))) (\<lambda>_. reader_rounds fl interval names rounds))"

definition reader_app ::
  "floats \<Rightarrow> py \<Rightarrow> unit res \<Rightarrow> string list res \<Rightarrow> ((string \<Rightarrow> py res) \<times> unit res) list \<Rightarrow> (string list, unit) prog" where
  "reader_app fl interval waited consumed rounds =
     bindP (liftP waited) (\<lambda>_. bindP (liftP consumed) (\<lambda>names. reader_rounds fl interval names rounds))"

text \<open>The camera emits the frames of a video that does not end, until it is cancelled.\<close>

definition camera_app :: "('f \<Rightarrow> string res) \<Rightarrow> (nat \<Rightarrow> real) \<Rightarrow> ('f \<times> bool) list \<Rightarrow> ((real \<times> string) list, unit) prog" where
  "camera_app encode now video = bindP (frame_emitter encode now video) (\<lambda>_. raiseP CancelledError)"

text \<open>
  The detector: its cameras are JSON text; the bound of the queue is compared when a frame is put, so a bound that is
  no number shows there. \<open>process\<close> and \<open>subscribed\<close> are the ends of its two tasks, which only end with an exception.
\<close>

definition detector_cameras :: "(string \<Rightarrow> string) \<Rightarrow> py \<Rightarrow> py res" where
  "detector_cameras canon cameras =
     (case cameras of
        PStr s \<Rightarrow> (case json_loads canon s of Some v \<Rightarrow> Inr v | None \<Rightarrow> Inl (ValueError ''json''))
      | _ \<Rightarrow> Inl TypeError)"

definition detector_app :: "(string \<Rightarrow> string) \<Rightarrow> py \<Rightarrow> (py \<Rightarrow> unit res) \<Rightarrow> (py \<Rightarrow> unit res) \<Rightarrow> unit res" where
  "detector_app canon cameras process subscribed =
     bindR (detector_cameras canon cameras) (\<lambda>cams. gather_all [process cams, subscribed cams])"

definition default_queue_maxsize :: py where
  "default_queue_maxsize = PInt 50"

definition queue_bound :: "floats \<Rightarrow> py \<Rightarrow> int res" where
  "queue_bound fl maxsize = bindR (py_number fl maxsize) (\<lambda>x. Inr \<lceil>x\<rceil>)"

text \<open>\<open>_on_next\<close> with the bound that \<open>app\<close> was given; the bound is compared after the entry is made.\<close>

definition on_next_arg :: "floats \<Rightarrow> py \<Rightarrow> string \<Rightarrow> real \<Rightarrow> real \<Rightarrow> event_item \<Rightarrow> nat dict \<Rightarrow> (entry list, unit) prog" where
  "on_next_arg fl maxsize cam now arrival ev counters =
     (case queue_bound fl maxsize of
        Inr n \<Rightarrow> on_next n cam now arrival ev counters
      | Inl e \<Rightarrow> bindP (liftP (frame_entry cam now arrival ev counters)) (\<lambda>_. raiseP e))"

text \<open>The indexes of the historian's collection: a name and the keys, all descending; the second is created after the first.\<close>

definition index_dates :: "string \<times> string list" where
  "index_dates = (''utc_date_property_name_thing_id_servient'', [''utc_date'', ''property_name'', ''thing_id'', ''servient''])"

definition index_names :: "string \<times> string list" where
  "index_names = (''property_name_thing_id_servient'', [''property_name'', ''thing_id'', ''servient''])"

definition create_indexes :: "(string \<times> string list \<Rightarrow> unit res) \<Rightarrow> ((string \<times> string list) list, unit) prog" where
  "create_indexes created = run_steps [(index_dates, created index_dates), (index_names, created index_names)]"

text \<open>
  The historian: the loop over the observed Things, whose names are looked up in every round and whose interval is
  compared in the sleep after it; the loop that forwards another historian; and \<open>app\<close>. A cancellation reaches the
  observing task first; waiting for that task again gives its cancellation.
\<close>

definition observed_hosts :: "py \<Rightarrow> (py \<times> py) list res" where
  "observed_hosts observed =
     bindR (as_list observed)
       (mapR (\<lambda>item. bindR (py_index item ''servient_host'') (\<lambda>h. bindR (py_index item ''thing_id'') (\<lambda>t. Inr (h, t)))))"

fun observe_things_task ::
  "floats \<Rightarrow> py \<Rightarrow> py \<Rightarrow> ((py \<times> py \<Rightarrow> (doc list, unit) prog) \<times> unit res) list \<Rightarrow> (doc list, unit) prog" where
  "observe_things_task fl interval observed [] = raiseP CancelledError"
| "observe_things_task fl interval observed ((iter, slept) # rounds) =
     bindP (liftP (observed_hosts observed)) (\<lambda>hosts.
     bindP (modifyP (\<lambda>docs. foldl (\<lambda>ds h. snd (iter h ds)) docs hosts)) (\<lambda>_.
     bindP (liftP (bindR (sleep_arg fl interval) (\<lambda>_. slept))) (\<lambda>_. observe_things_task fl interval observed rounds)))"

text \<open>One look at the clock per element: the time and, if it is due, the iteration; its exceptions are logged.\<close>

fun observe_historian_task ::
  "int \<Rightarrow> real \<Rightarrow> (real \<times> (doc list, unit) prog) list \<Rightarrow> (doc list, unit) prog" where
  "observe_historian_task interval next_time [] docs = (Inl CancelledError, docs)"
| "observe_historian_task interval next_time ((now, iter) # looks) docs =
     (if next_time \<le> now
      then (case iter docs of
              (Inl e, docs') \<Rightarrow>
                if is_Exception e then observe_historian_task interval (now + of_int interval) looks docs' else (Inl e, docs')
            | (Inr _, docs') \<Rightarrow> observe_historian_task interval (now + of_int interval) looks docs')
      else observe_historian_task interval next_time looks docs)"

definition historian_app :: "historian_setup res \<Rightarrow> (observe_task \<Rightarrow> unit res) \<Rightarrow> unit res" where
  "historian_app produced run =
     bindR produced (\<lambda>hs. bindR (hs_tasks hs) (\<lambda>tasks. gather_all (map run tasks)))"

text \<open>The end of the application's task, as \<open>run_app\<close> sees it.\<close>

definition app_end :: "'a res \<Rightarrow> task_end" where
  "app_end r = (case r of Inr _ \<Rightarrow> TaskReturned | Inl CancelledError \<Rightarrow> TaskCancelled | Inl e \<Rightarrow> TaskRaised e)"

section \<open>Applications without an end\<close>

lemma caller_rounds_endless: "caller_rounds lambd params names rounds calls \<noteq> (Inr u, calls')"
  by (induction lambd params names rounds arbitrary: calls rule: caller_rounds.induct) (auto simp: bindP_eq_Inr)

lemma reader_rounds_endless: "reader_rounds fl interval names rounds done \<noteq> (Inr u, done')"
  by (induction fl interval names rounds arbitrary: "done" rule: reader_rounds.induct) (auto simp: bindP_eq_Inr)

lemma observe_things_endless: "observe_things_task fl interval observed rounds docs \<noteq> (Inr u, docs')"
  by (induction fl interval observed rounds arbitrary: docs rule: observe_things_task.induct) (auto simp: bindP_eq_Inr)

lemma observe_historian_endless: "fst (observe_historian_task interval next_time looks docs) \<noteq> Inr u"
  by (induction interval next_time looks docs rule: observe_historian_task.induct) (auto split: prod.splits sum.splits)

lemma subscribe_rounds_endless: "fst (subscribe_rounds rounds subs live) \<noteq> Inr u"
  by (induction rounds subs live rule: subscribe_rounds.induct) (auto simp: Let_def split: option.splits)

lemma gather_all_ok: "gather_all rs = Inr () \<longleftrightarrow> (\<forall>r\<in>set rs. r = Inr ())"
  by (induction rs rule: gather_all.induct) auto

text \<open>
  The outcomes of the applications that run until they fail or are cancelled. A detector's tasks are its processing, whose rounds
  end with an exception, and its subscriptions; a historian has something to observe.
\<close>

definition caller_outcome :: "unit res \<Rightarrow> bool" where
  "caller_outcome r \<longleftrightarrow> (\<exists>fl pf canon params lambd waited consumed rounds calls.
     r = fst (caller_app fl pf canon params lambd waited consumed rounds calls))"

definition reader_outcome :: "unit res \<Rightarrow> bool" where
  "reader_outcome r \<longleftrightarrow> (\<exists>fl interval waited consumed rounds done. r = fst (reader_app fl interval waited consumed rounds done))"

definition camera_outcome :: "unit res \<Rightarrow> bool" where
  "camera_outcome r \<longleftrightarrow> (\<exists>(encode :: nat \<Rightarrow> string res) now video events. r = fst (camera_app encode now video events))"

definition detector_outcome :: "unit res \<Rightarrow> bool" where
  "detector_outcome r \<longleftrightarrow> (\<exists>canon cameras process (rounds :: nat res list list).
     r = detector_app canon cameras process (\<lambda>cams. bindR (fst (subscribe_rounds rounds None [])) (\<lambda>_. Inr ())))"

definition historian_outcome :: "unit res \<Rightarrow> bool" where
  "historian_outcome r \<longleftrightarrow> (\<exists>produced fl interval things times next_time docs.
     (\<forall>hs. produced = Inr hs \<longrightarrow> hs_tasks hs \<noteq> Inr [])
     \<and> r = historian_app produced (\<lambda>task. case task of
             ObserveThings observed \<Rightarrow> fst (observe_things_task fl interval observed things docs)
           | ObserveHistorian host thing buckets every \<Rightarrow> fst (observe_historian_task every next_time times docs)))"

lemma endless_outcomes:
  "caller_outcome r \<Longrightarrow> r \<noteq> Inr ()" "reader_outcome r \<Longrightarrow> r \<noteq> Inr ()" "camera_outcome r \<Longrightarrow> r \<noteq> Inr ()"
  "detector_outcome r \<Longrightarrow> r \<noteq> Inr ()" "historian_outcome r \<Longrightarrow> r \<noteq> Inr ()"
proof -
  have prog: "fst x \<noteq> Inr ()" if "\<And>s. x \<noteq> (Inr (), s)" for x :: "unit res \<times> 's"
    using that by (cases x) auto
  show "caller_outcome r \<Longrightarrow> r \<noteq> Inr ()"
    unfolding caller_outcome_def caller_app_def
    by (elim exE) (use caller_rounds_endless in \<open>auto simp: bindP_eq_Inr intro!: prog\<close>)
  show "reader_outcome r \<Longrightarrow> r \<noteq> Inr ()"
    unfolding reader_outcome_def reader_app_def
    by (elim exE) (use reader_rounds_endless in \<open>auto simp: bindP_eq_Inr intro!: prog\<close>)
  show "camera_outcome r \<Longrightarrow> r \<noteq> Inr ()"
    unfolding camera_outcome_def camera_app_def
    by (elim exE) (auto simp: bindP_eq_Inr intro!: prog)
  show "detector_outcome r \<Longrightarrow> r \<noteq> Inr ()"
    unfolding detector_outcome_def detector_app_def
    by (elim exE) (use subscribe_rounds_endless in \<open>auto simp: bindR_eq_Inr gather_all_ok\<close>)
  show "historian_outcome r \<Longrightarrow> r \<noteq> Inr ()"
  proof -
    assume "historian_outcome r"
    then obtain produced fl interval things times next_time docs where
      some: "\<And>hs. produced = Inr hs \<Longrightarrow> hs_tasks hs \<noteq> Inr []"
      and r: "r = historian_app produced (\<lambda>task. case task of
             ObserveThings observed \<Rightarrow> fst (observe_things_task fl interval observed things docs)
           | ObserveHistorian host thing buckets every \<Rightarrow> fst (observe_historian_task every next_time times docs))"
      unfolding historian_outcome_def by blast
    have "(case task of
             ObserveThings observed \<Rightarrow> fst (observe_things_task fl interval observed things docs)
           | ObserveHistorian host thing buckets every \<Rightarrow> fst (observe_historian_task every next_time times docs)) \<noteq> Inr ()" for task
      using observe_things_endless observe_historian_endless by (auto intro!: prog split: observe_task.split)
    then show "r \<noteq> Inr ()"
      using some unfolding r historian_app_def by (fastforce simp: bindR_eq_Inr gather_all_ok neq_Nil_conv)
  qed
qed


lemma failed_app_closed:
  "\<exists>s. loop_reach True s \<and> \<not> lp_open s \<and> lp_task s = Some (TaskRaised TypeError) \<and> lp_code s = Some 1"
proof -
  let ?s = "task_ends (TaskRaised TypeError) loop_init"
  let ?w = "\<lparr>aw_app = Inl TypeError, aw_servient = Inr (), aw_monitor = None, aw_redis = None\<rparr>"
  have "app_stop False ?w [] = (Inr (), [CancelApp, ShutdownServient, StopLoop])" by code_simp
  then obtain s' where s': "(loop_step True)\<^sup>*\<^sup>* ?s s'" "\<not> lp_open s'" "lp_code s' = lp_code ?s"
    using stop_alone [of ?s 0 "TaskRaised TypeError" ?w "Inr ()" "[CancelApp, ShutdownServient, StopLoop]" True]
    by (auto simp: loop_init_def task_ends_def app_done_cb_def wait_outcome_def)
  have reach: "loop_reach True s'" by (rule reach_steps [OF s'(1) failed_app_reach])
  have "lp_task s' = Some (TaskRaised TypeError)"
    using s'(1)
  proof (induction rule: rtranclp_induct)
    case (step s1 s2)
    then show ?case by (induction rule: loop_step.induct [OF step(2)]) (auto simp: Let_def)
  qed simp
  then show ?thesis using reach s' by (auto simp: task_ends_def app_done_cb_def)
qed


section \<open>Parameters are text\<close>

text \<open>
  C38. A parameter of the command line reaches its application as text: a reader or a historian that was given an
  interval fails with \<open>TypeError\<close> at the sleep after its first round, and a detector that was given a bound for its
  queue never puts a frame into it.
\<close>

theorem text_parameters_fail:
  assumes "\<forall>name e. read name = Inl e \<longrightarrow> is_Exception e" and "observed_hosts observed = Inr hosts"
  shows "reader_app fl (PStr interval) (Inr ()) (Inr names) ((read, slept) # rounds) done = (Inl TypeError, done @ names)
    \<and> observe_things_task fl (PStr interval) observed ((iter, slept) # loops) docs =
        (Inl TypeError, foldl (\<lambda>ds h. snd (iter h ds)) docs hosts)
    \<and> (\<exists>e. on_next_arg fl (PStr bound) cam now arrival ev counters q = (Inl e, q))"
proof -
  have reads: "read_properties read names done = (Inr (), done @ names)" for "done"
    using assms(1) by (induction names arbitrary: "done") (auto split: sum.split)
  show ?thesis
    using assms(2)
    by (auto simp: reader_app_def bindP_def reads sleep_arg_def on_next_arg_def queue_bound_def raiseP_def liftP_def split: sum.split)
qed

theorem text_parameters_fail_witness:
  "fst (observe_things_task demo_floats (PStr ''5'') (PList [PDict [(''servient_host'', PStr ''clock''), (''thing_id'', PStr ''urn:clock'')]])
     [(\<lambda>h docs. (Inr (), docs), Inr ())] []) = Inl TypeError"
proof -
  let ?obs = "PList [PDict [(''servient_host'', PStr ''clock''), (''thing_id'', PStr ''urn:clock'')]]"
  have 1: "\<forall>name e. (\<lambda>n. Inr PNone :: py res) (name :: string) = Inl e \<longrightarrow> is_Exception e" by simp
  have 2: "observed_hosts ?obs = Inr [(PStr ''clock'', PStr ''urn:clock'')]"
    by (simp add: observed_hosts_def dict_index_def dget_Cons)
  show ?thesis
    using text_parameters_fail [OF 1 2, of demo_floats "''5''" "[]" "Inr ()" "[]" "[]" "\<lambda>h docs. (Inr (), docs)" "[]" "[]"] by simp
qed

end
