(* ===== verification/ExamplesProps.thy ===== *)
theory ExamplesProps
  imports Examples ThingApps
begin

text \<open>
  The example topologies are accepted, their Compose files are built and closed, and every host and Thing that
  an application gets as a parameter is the name of a node on a network that both nodes are attached to, and the Thing
  that the application of that node exposes.
\<close>

section \<open>The Things in the parameters of an application\<close>

text \<open>A host with the Thing that is consumed there; a camera without a Thing has the detector's default.\<close>

definition dict_remotes :: "string option \<Rightarrow> py dict \<Rightarrow> (string \<times> string) list" where
  "dict_remotes dflt d =
     List.map_filter
       (\<lambda>(hk, tk). case dget d hk of
          Some (PStr h) \<Rightarrow> (case dget d tk of Some (PStr t) \<Rightarrow> Some (h, t) | _ \<Rightarrow> map_option (Pair h) dflt)
        | _ \<Rightarrow> None)
       [(''servient_host'', ''thing_id''), (''downlink_servient_host'', ''downlink_thing_id'')]"

definition json_remotes :: "(string \<Rightarrow> string) \<Rightarrow> string option \<Rightarrow> py option \<Rightarrow> (string \<times> string) list" where
  "json_remotes canon dflt v =
     (case v of
        Some (PStr s) \<Rightarrow>
          (case json_loads canon s of
             Some (PList xs) \<Rightarrow> concat (map (\<lambda>x. case x of PDict d \<Rightarrow> dict_remotes dflt d | _ \<Rightarrow> []) xs)
           | _ \<Rightarrow> [])
      | _ \<Rightarrow> [])"

definition param_remotes :: "(string \<Rightarrow> string) \<Rightarrow> py dict \<Rightarrow> (string \<times> string) list" where
  "param_remotes canon d =
     dict_remotes None d @ json_remotes canon (Some default_camera_id) (dget d ''cameras'')
     @ json_remotes canon None (dget d ''observed_things'')"

text \<open>
  A host resolves on a node when it is \<open>node.network\<close> for a network that the two nodes share; the Thing is found when it
  is the one of the built-in application that runs there (what another application exposes is not known).
\<close>

definition builtin_thing :: "(string \<Rightarrow> string) \<Rightarrow> builtin_app \<Rightarrow> py res" where
  "builtin_thing dt b =
     (case b of
        CLOCK_APP \<Rightarrow> py_index (clock_description dt) ''id''
      | WORKER_APP \<Rightarrow> py_index (worker_description dt) ''id''
      | CAMERA_APP \<Rightarrow> py_index camera_description ''id''
      | DETECTOR_APP \<Rightarrow> py_index detector_description ''id''
      | MONGO_HISTORIAN_APP \<Rightarrow> py_index historian_description ''id''
      | _ \<Rightarrow> Inl (KeyError ''id''))"

definition runs_thing :: "(string \<Rightarrow> string) \<Rightarrow> node \<Rightarrow> string \<Rightarrow> bool" where
  "runs_thing dt n thing =
     (case app_raw_path (node_app n) of RawPath _ \<Rightarrow> True | BuiltinPath b \<Rightarrow> builtin_thing dt b = Inr (PStr thing))"

definition remote_found :: "(string \<Rightarrow> string) \<Rightarrow> node list \<Rightarrow> node \<Rightarrow> string \<times> string \<Rightarrow> bool" where
  "remote_found dt nodes n r =
     list_ex (\<lambda>n'. list_ex (\<lambda>m. fst r = host_on n' m \<and> has_name net_name (net_name m) (node_networks n')) (node_networks n)
       \<and> runs_thing dt n' (snd r)) nodes"

definition remotes_found :: "(string \<Rightarrow> string) \<Rightarrow> (string \<Rightarrow> string) \<Rightarrow> node list \<Rightarrow> bool" where
  "remotes_found canon dt nodes =
     list_all (\<lambda>n. list_all (remote_found dt nodes n) (param_remotes canon (app_params (node_app n)))) nodes"

lemma json_ok_hosts:
  "json_ok canon (PList (map (\<lambda>(h, thing). PDict (remote_params h thing)) things))"
  "json_ok canon (PList (map (\<lambda>h. PDict [(''servient_host'', PStr h)]) hosts))"
  by (simp_all add: list_all_iff remote_params_def dict_ok_def case_prod_unfold)

lemma dict_remotes_simps:
  "dict_remotes dflt (remote_params h t) = [(h, t)]" "dict_remotes (Some t) [(''servient_host'', PStr h)] = [(h, t)]"
  by (simp_all add: dict_remotes_def remote_params_def dget_Cons List.map_filter_def)

lemma json_remotes_things: "json_remotes canon dflt (Some (PStr (things_param things))) = things"
  unfolding json_remotes_def things_param_def py.case json_loads_dumps [OF json_ok_hosts(1)] option.case
  by (induction things) (auto simp: dict_remotes_simps)

lemma json_remotes_cameras: "json_remotes canon (Some t) (Some (PStr (cameras_param hosts))) = map (\<lambda>h. (h, t)) hosts"
  unfolding json_remotes_def cameras_param_def py.case json_loads_dumps [OF json_ok_hosts(2)] option.case
  by (induction hosts) (simp_all add: dict_remotes_simps)

lemma json_remotes_None: "json_remotes canon dflt None = []"
  by (simp add: json_remotes_def)

lemma builtin_things:
  "builtin_thing dt CLOCK_APP = Inr (PStr ''urn:org:fundacionctic:thing:clock'')"
  "builtin_thing dt WORKER_APP = Inr (PStr ''urn:org:fundacionctic:thing:worker'')"
  "builtin_thing dt CAMERA_APP = Inr (PStr default_camera_id)"
  "builtin_thing dt DETECTOR_APP = Inr (PStr ''urn:org:fundacionctic:thing:wotemu:detector'')"
  "builtin_thing dt MONGO_HISTORIAN_APP = Inr (PStr ''urn:org:fundacionctic:thing:historian'')"
  by (simp_all add: builtin_thing_def descriptions dict_index_def dget_Cons default_camera_id_def)

section \<open>Topologies of plain nodes\<close>

text \<open>
  The nodes of an example override nothing, use at most one broker and one service, and their names
  differ from each other and from the service's.
\<close>

definition plain_networks :: "network list \<Rightarrow> bool" where
  "plain_networks ms = list_all (\<lambda>m. net_args_compose_gw m = PNone) ms"

definition example_node :: "broker \<Rightarrow> service \<Rightarrow> node \<Rightarrow> bool" where
  "example_node brk srv n =
     (node_args_compose n = PNone \<and> broker_usable n \<and> (node_broker n = None \<or> node_broker n = Some brk)
      \<and> (node_services n = [] \<or> node_services n = [srv]) \<and> node_name n \<noteq> srv_name srv
      \<and> plain_networks (node_networks n))"

lemma example_nodeD:
  assumes "list_all (example_node brk srv) nodes" and "n \<in> set nodes"
  shows "node_args_compose n = PNone" "broker_usable n" "b \<in> set_option (node_broker n) \<Longrightarrow> b = brk"
    "s \<in> set (node_services n) \<Longrightarrow> s = srv" "node_name n \<noteq> srv_name srv"
    "distinct (map srv_name (node_services n))"
    "m \<in> set (node_networks n) \<Longrightarrow> net_args_compose_gw m = PNone"
proof -
  have "example_node brk srv n" using assms by (simp add: list_all_iff)
  note n = this [unfolded example_node_def plain_networks_def]
  show "node_args_compose n = PNone" "broker_usable n" "node_name n \<noteq> srv_name srv" using n by simp_all
  show "b \<in> set_option (node_broker n) \<Longrightarrow> b = brk" "s \<in> set (node_services n) \<Longrightarrow> s = srv"
    "distinct (map srv_name (node_services n))" using n by auto
  show "m \<in> set (node_networks n) \<Longrightarrow> net_args_compose_gw m = PNone" using n by (simp add: list_all_iff)
qed

lemma topology_networks_origin:
  assumes so: "set_order_ok so" and m: "m \<in> set (topology_networks so t)"
  obtains n where "n \<in> set (top_nodes t)" "m \<in> set (node_networks n)"
    | b where "b \<in> set (topology_brokers so t)" "m \<in> set (brk_networks b)"
proof -
  let ?ns = "concat (map node_networks (top_nodes t))" and ?bs = "concat (map brk_networks (topology_brokers so t))"
  have "m \<in> set (py_set net_name ?ns) \<union> set (set_list so net_name ?bs)"
    using m foldl_set_add_subset unfolding topology_networks_set [OF so] by (rule rev_subsetD)
  moreover have "set (py_set net_name ?ns) \<union> set (set_list so net_name ?bs) \<subseteq> set ?ns \<union> set ?bs"
    by (rule Un_mono [OF py_set_subset set_list_subset [OF so]])
  ultimately have "m \<in> set ?ns \<union> set ?bs" by (rule rev_subsetD)
  then show thesis using that unfolding set_concat set_map by blast
qed

definition example_topology :: "broker \<Rightarrow> service \<Rightarrow> topology \<Rightarrow> bool" where
  "example_topology brk srv t =
     (list_all (example_node brk srv) (top_nodes t) \<and> top_brokers t = None
      \<and> brk_args_compose brk = PNone \<and> plain_networks (brk_networks brk) \<and> params_ok (srv_params srv))"

lemma in_node_brokers: "b \<in> set (node_brokers ns) \<Longrightarrow> \<exists>n\<in>set ns. b \<in> set_option (node_broker n)"
  by (auto simp: node_brokers_def List.map_filter_def)

lemma example_brokers:
  assumes "example_topology brk srv t" and "b \<in> set (brokers_arg t @ node_brokers (top_nodes t))"
  shows "b = brk"
proof -
  have "brokers_arg t = []" using assms(1) by (simp add: example_topology_def brokers_arg_def truthy_list_def)
  then obtain n where "n \<in> set (top_nodes t)" "b \<in> set_option (node_broker n)"
    using assms(2) in_node_brokers by fastforce
  then show ?thesis using assms(1) example_nodeD(3) unfolding example_topology_def by blast
qed

lemma example_topologyD:
  assumes so: "set_order_ok so" and t: "example_topology brk srv t"
  shows "b \<in> set (topology_brokers so t) \<Longrightarrow> b = brk"
    and "s \<in> set (topology_services so t) \<Longrightarrow> s = srv"
    and "m \<in> set (topology_networks so t) \<Longrightarrow> net_args_compose_gw m = PNone"
proof -
  note nodes = t [unfolded example_topology_def, THEN conjunct1]
  have brk: "b = brk" if "b \<in> set (topology_brokers so t)" for b
    by (rule example_brokers [OF t], rule subsetD [OF set_list_subset [OF so]])
      (rule that [unfolded topology_brokers_def])
  then show "b \<in> set (topology_brokers so t) \<Longrightarrow> b = brk" .
  show "s = srv" if "s \<in> set (topology_services so t)"
  proof -
    have "s \<in> set (concat (map (\<lambda>n. set_iter so srv_name (node_services n)) (top_nodes t)))"
      using that unfolding topology_services_def by (rule subsetD [OF set_list_subset [OF so]])
    then obtain n where n: "n \<in> set (top_nodes t)" and s: "s \<in> set (set_iter so srv_name (node_services n))" by auto
    show "s = srv" by (rule example_nodeD(4) [OF nodes n]) (rule subsetD [OF set_iter_subset s])
  qed
  assume "m \<in> set (topology_networks so t)"
  then show "net_args_compose_gw m = PNone"
    proof (rule topology_networks_origin [OF so])
    fix n assume "n \<in> set (top_nodes t)" "m \<in> set (node_networks n)"
    then show ?thesis by (rule example_nodeD(7) [OF nodes])
  next
    fix b assume b: "b \<in> set (topology_brokers so t)" and m: "m \<in> set (brk_networks b)"
    have "m \<in> set (brk_networks brk)" using m unfolding brk [OF b] .
    then show ?thesis using t by (simp add: example_topology_def plain_networks_def list_all_iff)
  qed
qed

lemma plain_args: "args_env_ok PNone" "args_keep_refs PNone"
  by (simp_all add: args_env_ok_def args_keep_refs_def)

lemma example_buildable:
  assumes "set_order_ok so" and t: "example_topology brk srv t"
  shows "buildable so t" "list_all broker_usable (top_nodes t)"
proof -
  note nodes = t [unfolded example_topology_def, THEN conjunct1] and sets = example_topologyD [OF assms]
  show "buildable so t"
    unfolding buildable_def list_all_iff
    using t by (intro conjI ballI)
      (auto dest!: sets example_nodeD(1) [OF nodes] simp: plain_args example_topology_def)
  show "list_all broker_usable (top_nodes t)"
    using example_nodeD(2) [OF nodes] by (simp add: list_all_iff)
qed

lemma example_shared:
  assumes "set_order_ok so" and t: "example_topology brk srv t"
  shows "services_shared t" "brokers_agree t" "overrides_keep_refs so t"
proof -
  note nodes = t [unfolded example_topology_def, THEN conjunct1] and sets = example_topologyD [OF assms]
  have "s \<in> set (concat (map node_services (top_nodes t))) \<Longrightarrow> s = srv" for s
    using example_nodeD(4) [OF nodes] by auto
  then show "services_shared t" unfolding services_shared_def Let_def list_all_iff by metis
  show "brokers_agree t" unfolding brokers_agree_def Let_def list_all_iff using example_brokers [OF t] by metis
  show "overrides_keep_refs so t"
    unfolding overrides_keep_refs_def list_all_iff
    using t by (intro conjI ballI)
      (auto dest!: sets example_nodeD(1) [OF nodes] simp: plain_args example_topology_def)
qed

definition works :: "(string \<Rightarrow> string) \<Rightarrow> (string \<Rightarrow> string) \<Rightarrow> set_order \<Rightarrow> environ \<Rightarrow> merger \<Rightarrow> topology res \<Rightarrow> bool" where
  "works canon dt so env merge r \<longleftrightarrow>
     (\<exists>t d. r = Inr t \<and> remotes_found canon dt (top_nodes t) \<and> topology_definition so env merge t = Inr d \<and> compose_closed d)"

lemma example_works:
  assumes so: "set_order_ok so" and merge: "merge_keeps_dicts merge" "merge_keeps_other_keys merge"
    and nodes: "list_all (example_node brk srv) ns" "distinct (map node_name ns)"
    and parts: "brk_args_compose brk = PNone" "plain_networks (brk_networks brk)" "params_ok (srv_params srv)"
    and hosts: "remotes_found canon dt ns"
  shows "works canon dt so env merge (default_topology so ns)"
proof -
  have "\<forall>n\<in>set ns. \<forall>n'\<in>set ns. \<forall>s\<in>set (node_services n'). srv_name s \<noteq> node_name n"
    using example_nodeD(4,5) [OF nodes(1)] by metis
  then obtain t where t: "default_topology so ns = Inr t"
    using mk_topology_accepts [OF so, of ns] example_nodeD(6) [OF nodes(1)] nodes(2)
    unfolding default_topology_def by blast
  then have tn: "top_nodes t = ns" "top_brokers t = None"
    by (auto simp: default_topology_def mk_topology_def Let_def split: if_splits)
  have ex: "example_topology brk srv t" using nodes(1) parts by (simp add: example_topology_def tn)
  obtain d where d: "topology_definition so env merge t = Inr d"
    using topology_definition_total [OF merge(1) example_buildable [OF so ex]] by blast
  have "compose_closed d"
    using topology_definition_closed [OF d so merge(2)] example_shared [OF so ex] by blast
  with t d hosts show ?thesis unfolding works_def by (auto simp: tn)
qed

section \<open>The examples, built\<close>

text \<open>
  What the examples rely on: \<open>underscore\<close> keeps names of lower case letters, digits and underscores, and a
  restart policy is a dictionary with its condition.
\<close>

definition plain_name :: "string \<Rightarrow> bool" where
  "plain_name s = list_all (\<lambda>c. c \<in> set ''abcdefghijklmnopqrstuvwxyz0123456789_'') s"

definition names_kept :: "(string \<Rightarrow> string) \<Rightarrow> bool" where
  "names_kept us \<longleftrightarrow> (\<forall>s. plain_name s \<longrightarrow> us s = s)"

definition policy_ok :: "(string \<Rightarrow> py) \<Rightarrow> bool" where
  "policy_ok rp = (case rp ''on-failure'' of PDict d \<Rightarrow> dget d ''Condition'' \<noteq> None | _ \<Rightarrow> False)"

definition a_network :: "string \<Rightarrow> network_conditions \<Rightarrow> network" where
  "a_network name c = \<lparr>net_name = name, net_netem = Some (netem_conditions c), net_args_compose_net = PNone,
     net_args_compose_gw = PNone\<rparr>"

definition a_node ::
  "string \<Rightarrow> node_app \<Rightarrow> network list \<Rightarrow> (broker \<times> network option) option \<Rightarrow> node_resources option \<Rightarrow> py \<Rightarrow> service list \<Rightarrow> node" where
  "a_node name a ms b res scale srvs =
     \<lparr>node_name = name, node_app = a, node_networks = ms, node_broker = map_option fst b,
      node_broker_network = Option.bind b snd, node_image = None, node_resources = res, node_scale = scale,
      node_args_compose = PNone, node_services = srvs\<rparr>"

lemma a_network_simps [simp]:
  "net_name (a_network name c) = name" "net_args_compose_gw (a_network name c) = PNone"
  by (simp_all add: a_network_def)

lemma a_node_simps [simp]:
  "node_name (a_node name a ms b res scale srvs) = name"
  "node_app (a_node name a ms b res scale srvs) = a"
  "node_networks (a_node name a ms b res scale srvs) = ms"
  "node_broker (a_node name a ms b res scale srvs) = map_option fst b"
  "node_broker_network (a_node name a ms b res scale srvs) = Option.bind b snd"
  "node_args_compose (a_node name a ms b res scale srvs) = PNone"
  "node_services (a_node name a ms b res scale srvs) = srvs"
  by (simp_all add: a_node_def)

lemma host_on_simps [simp]: "host_on (a_node name a ms b res scale srvs) (a_network m c) = name @ CHR ''.'' # m"
  by (simp add: host_on_def)

lemma names_keptD: "names_kept us \<Longrightarrow> plain_name s \<Longrightarrow> us s = s"
  by (simp add: names_kept_def)

lemma plain_name_append [simp]: "plain_name (s @ s') \<longleftrightarrow> plain_name s \<and> plain_name s'"
  by (simp add: plain_name_def)

lemma plain_network_eq:
  "names_kept us \<Longrightarrow> plain_name name \<Longrightarrow> plain_network us name c = Inr (a_network name c)"
  by (simp add: plain_network_def mk_network_def check_conditions_def a_network_def names_keptD truthy_list_def)

lemma plain_node_eq:
  "names_kept us \<Longrightarrow> plain_name name \<Longrightarrow> \<not> enabled_mqtt a \<Longrightarrow>
   plain_node us name a ms res scale = Inr (a_node name a ms None res scale [])"
  by (simp add: plain_node_def mk_node_def check_broker_def check_broker_network_def a_node_def names_keptD py_set_def)

lemma broker_node_eq:
  "names_kept us \<Longrightarrow> plain_name name \<Longrightarrow> set_option bn \<subseteq> set (brk_networks b) \<Longrightarrow>
   mk_node us name a ms (Some b) bn None res scale PNone [] = Inr (a_node name a ms (Some (b, bn)) res scale [])"
  by (cases bn) (auto simp: mk_node_def check_broker_def check_broker_network_def a_node_def names_keptD
      py_set_def has_name_def)

lemma link_eq:
  "link_service (a_node name a ms b res scale []) s = Inr (a_node name a ms b res scale [s])"
  by (simp add: link_service_def has_name_def set_add_def a_node_def)

lemma app_mqtt_simps [simp]:
  "\<not> enabled_mqtt (http_app p ps)" "\<not> enabled_mqtt (silent_app p ps)" "\<not> enabled_mqtt (ws_app p)"
  "\<not> enabled_mqtt (historian_of things)" "\<not> enabled_mqtt (caller_of_historian n m)"
  by (simp_all add: historian_of_def caller_of_historian_def http_app_def silent_app_def ws_app_def mk_app_def enabled_mqtt_def no_app_flag_def)

lemma app_params_simps [simp]:
  "app_params (http_app p ps) = (case ps of None \<Rightarrow> [] | Some d \<Rightarrow> d)"
  "app_params (silent_app p ps) = (case ps of None \<Rightarrow> [] | Some d \<Rightarrow> d)"
  "app_params (mqtt_app p ps) = (case ps of None \<Rightarrow> [] | Some d \<Rightarrow> d)"
  "app_params (ws_app p) = []"
  by (simp_all add: http_app_def silent_app_def ws_app_def mqtt_app_def mk_app_def)

lemma mongo_simps:
  "names_kept us \<Longrightarrow> srv_name (mongo_service us rp) = ''mongo''"
  "policy_ok rp \<Longrightarrow> params_ok (srv_params (mongo_service us rp))"
  by (simp_all add: mongo_service_def mk_service_def names_keptD plain_name_def policy_ok_def params_ok_def
      get_default_def dget_Cons truthy.simps split: py.splits)

definition no_broker :: broker where
  "no_broker = mk_broker id [] [] PNone"

lemmas example_simps = example_node_def broker_usable_def plain_networks_def has_name_def Let_def
  plain_network_eq plain_node_eq link_eq mongo_simps mk_resources_def truthy.simps

lemma mk_broker_simps [simp]:
  "brk_args_compose (mk_broker us name ms args) = args" "brk_networks (mk_broker us name ms args) = ms"
  by (simp_all add: mk_broker_def)

lemma upt_small: "[0..<2] = [0, 1]" "[0..<5] = [0, 1, 2, 3, 4]" "[0..<6] = [0, 1, 2, 3, 4, 5]"
  by code_simp+

lemma nat_str_small:
  "nat_str 0 = ''0''" "nat_str (Suc 0) = ''1''" "nat_str 2 = ''2''" "nat_str 3 = ''3''" "nat_str 4 = ''4''" "nat_str 5 = ''5''"
  by code_simp+

lemma app_raw_path_simps [simp]:
  "app_raw_path (http_app p ps) = p" "app_raw_path (silent_app p ps) = p" "app_raw_path (mqtt_app p ps) = p"
  "app_raw_path (ws_app p) = p" "app_raw_path (historian_of things) = BuiltinPath MONGO_HISTORIAN_APP"
  "app_raw_path (caller_of_historian n m) = BuiltinPath CALLER_APP"
  by (simp_all add: historian_of_def caller_of_historian_def http_app_def silent_app_def ws_app_def mqtt_app_def mk_app_def)

lemmas hosts_simps = remotes_found_def list_all_iff remote_params_def remote_found_def historian_of_def
  caller_of_historian_def param_remotes_def json_remotes_things json_remotes_cameras json_remotes_None dict_remotes_def
  dget_Cons List.map_filter_def runs_thing_def builtin_things

lemma quickstart_works:
  assumes "set_order_ok so" "merge_keeps_dicts merge" "merge_keeps_other_keys merge" "names_kept us" "policy_ok rp"
  shows "works canon dt so env merge (quickstart so us)"
  using assms
  by (simp add: quickstart_def example_simps plain_name_def,
      intro example_works [where brk = no_broker and srv = "mongo_service us rp"])
    (simp_all add: no_broker_def example_simps hosts_simps)

lemma historian_example_works:
  assumes "set_order_ok so" "merge_keeps_dicts merge" "merge_keeps_other_keys merge" "names_kept us" "policy_ok rp"
  shows "works canon dt so env merge (historian_example so us rp)"
  using assms
  by (simp add: historian_example_def example_simps plain_name_def upt_small nat_str_small,
      intro example_works [where brk = no_broker and srv = "mongo_service us rp"])
    (simp_all add: no_broker_def example_simps hosts_simps)

lemma mishmash_works:
  assumes "set_order_ok so" "merge_keeps_dicts merge" "merge_keeps_other_keys merge" "names_kept us" "policy_ok rp"
  shows "works canon dt so env merge (mishmash so us rp)"
  using assms
  by (simp add: mishmash_def example_simps plain_name_def broker_node_eq,
      intro example_works [where brk = "mk_broker us ''broker'' [a_network ''mobile_2g'' EDGE] PNone" and srv = "mongo_service us rp"])
    (simp_all add: example_simps hosts_simps)

abbreviation edge_broker :: "(string \<Rightarrow> string) \<Rightarrow> broker" where
  "edge_broker us \<equiv> mk_broker us ''broker'' [a_network ''edge_2g_loc1'' GPRS, a_network ''edge_3g_loc2'' REGULAR_3G] PNone"

lemma surveillance_cloud_works:
  assumes "set_order_ok so" "merge_keeps_dicts merge" "merge_keeps_other_keys merge" "names_kept us" "policy_ok rp"
  shows "works canon dt so env merge (surveillance_cloud so us rp)"
  using assms
  by (simp add: surveillance_cloud_def cloud_cameras_def example_simps plain_name_def broker_node_eq upt_small nat_str_small,
      intro example_works [where brk = "edge_broker us" and srv = "mongo_service us rp"])
    (simp_all add: example_simps hosts_simps)

lemma surveillance_edge_works:
  assumes "set_order_ok so" "merge_keeps_dicts merge" "merge_keeps_other_keys merge" "names_kept us" "policy_ok rp"
  shows "works canon dt so env merge (surveillance_edge so us rp)"
  using assms
  by (simp add: surveillance_edge_def build_detector_cluster_def example_simps plain_name_def broker_node_eq upt_small nat_str_small,
      intro example_works [where brk = "edge_broker us" and srv = "mongo_service us rp"])
    (simp_all add: example_simps hosts_simps)

section \<open>The property\<close>


definition docker_policy :: "string \<Rightarrow> py" where
  "docker_policy c = PDict [(''Condition'', PStr c), (''Delay'', PInt 0), (''MaxAttempts'', PInt 0), (''Window'', PInt 0)]"


end
