(* ===== verification/Cli.thy ===== *)
theory Cli
  imports RunApp Operations ReportPages
begin

text \<open>
  \<^verbatim>\<open>wotemu/cli/main.py\<close>, \<^verbatim>\<open>compose.py\<close> and \<^verbatim>\<open>report.py\<close>: the options of every command, how a command ends, and
  the two commands that run outside the stack. Click's parsing is a parameter: for every option the values that
  the command line gave, or none.
\<close>

section \<open>The options of the commands\<close>

datatype cli_type = TextArg | IntArg | FloatArg | FlagArg | PairArg

record cli_option =
  co_name :: string
  co_type :: cli_type
  co_required :: bool
  co_multiple :: bool
  co_default :: py

definition option_with :: "string \<Rightarrow> cli_type \<Rightarrow> py \<Rightarrow> cli_option" where
  "option_with name ty dflt = \<lparr>co_name = name, co_type = ty, co_required = False, co_multiple = False, co_default = dflt\<rparr>"

definition option_required :: "string \<Rightarrow> cli_type \<Rightarrow> cli_option" where
  "option_required name ty = \<lparr>co_name = name, co_type = ty, co_required = True, co_multiple = False, co_default = PNone\<rparr>"

definition option_multiple :: "string \<Rightarrow> cli_type \<Rightarrow> cli_option" where
  "option_multiple name ty = \<lparr>co_name = name, co_type = ty, co_required = False, co_multiple = True, co_default = PList []\<rparr>"

definition option_flag :: "string \<Rightarrow> cli_option" where
  "option_flag name = option_with name FlagArg (PBool False)"

definition default_docker_sock :: string where
  "default_docker_sock = ''unix://'' @ default_docker_socket"

datatype cli_command =
  CmdRoute | CmdChaos | CmdApp | CmdCompose | CmdLimits | CmdWait | CmdBroker | CmdStop | CmdReport

definition route_options :: "cli_option list" where
  "route_options =
     [option_with ''--rtable-name'' TextArg (PStr ''wotemu''), option_with ''--rtable-mark'' IntArg (PInt 1),
      option_flag ''--apply'']"

definition chaos_options :: "cli_option list" where
  "chaos_options = [option_multiple ''--netem'' TextArg]"

definition run_options :: "cli_option list" where
  "run_options =
     [option_required ''--path'' TextArg, option_with ''--func'' TextArg (PStr ''app''),
      option_multiple ''--func-param'' PairArg, option_with ''--hostname'' TextArg PNone,
      option_flag ''--enable-http'', option_flag ''--enable-coap'', option_flag ''--enable-mqtt'', option_flag ''--enable-ws'',
      option_flag ''--disable-monitor'']"

definition compose_options :: "cli_option list" where
  "compose_options =
     [option_required ''--path'' TextArg, option_with ''--output'' TextArg PNone, option_with ''--func'' TextArg (PStr ''topology'')]"

definition limits_options :: "cli_option list" where
  "limits_options =
     [option_with ''--docker-url'' TextArg (PStr default_docker_sock), option_required ''--speed'' IntArg,
      option_with ''--timeout'' IntArg (PInt 300), option_with ''--wait'' IntArg (PInt 2), option_flag ''--local'']"

definition wait_options :: "cli_option list" where
  "wait_options =
     [option_with ''--sleep'' FloatArg (PFloat ''1.0''), option_with ''--timeout'' FloatArg (PFloat ''60.0''),
      option_flag ''--waiter-base'', option_flag ''--waiter-mqtt'']"

definition broker_options :: "cli_option list" where
  "broker_options = [option_flag ''--disable-monitor'']"

definition stop_options :: "cli_option list" where
  "stop_options =
     [option_required ''--compose-file'' TextArg, option_required ''--stack'' TextArg,
      option_with ''--redis-url'' TextArg PNone, option_with ''--tail'' IntArg (PInt 60)]"

definition report_options :: "cli_option list" where
  "report_options =
     [option_required ''--out'' TextArg, option_with ''--stack'' TextArg PNone, option_with ''--redis-url'' TextArg PNone,
      option_flag ''--json'']"

fun command_options :: "cli_command \<Rightarrow> cli_option list" where
  "command_options CmdRoute = route_options"
| "command_options CmdChaos = chaos_options"
| "command_options CmdApp = run_options"
| "command_options CmdCompose = compose_options"
| "command_options CmdLimits = limits_options"
| "command_options CmdWait = wait_options"
| "command_options CmdBroker = broker_options"
| "command_options CmdStop = stop_options"
| "command_options CmdReport = report_options"

text \<open>
  The keyword arguments of a command: click's name of an option is its text without the hyphens in front, with
  underscores; a missing required option is a usage error.
\<close>

definition option_dest :: "cli_option \<Rightarrow> string" where
  "option_dest o1 = map (\<lambda>c. if c = CHR ''-'' then CHR ''_'' else c) (drop 2 (co_name o1))"

definition option_value :: "(string \<Rightarrow> py option) \<Rightarrow> cli_option \<Rightarrow> (string \<times> py) res" where
  "option_value given o1 =
     (case given (co_name o1) of
        Some v \<Rightarrow> Inr (option_dest o1, v)
      | None \<Rightarrow> if co_required o1 then Inl (SystemExit 2) else Inr (option_dest o1, co_default o1))"

definition pop_json :: "py dict \<Rightarrow> py dict" where
  "pop_json kwargs = dset (filter (\<lambda>(k, v). k \<noteq> ''json'') kwargs) ''as_json'' (get_default kwargs ''json'' (PBool False))"

definition command_kwargs :: "cli_command \<Rightarrow> (string \<Rightarrow> py option) \<Rightarrow> py dict res" where
  "command_kwargs c given =
     bindR (mapR (option_value given) (command_options c)) (\<lambda>kvs.
       Inr (if c = CmdReport then pop_json kvs else kvs))"

text \<open>The parameters, after the configuration, of the function that a command calls.\<close>

fun command_params :: "cli_command \<Rightarrow> string list" where
  "command_params CmdRoute = [''rtable_name'', ''rtable_mark'', ''apply'']"
| "command_params CmdChaos = [''netem'']"
| "command_params CmdApp = [''path'', ''func'', ''func_param'', ''hostname'', ''enable_http'', ''enable_mqtt'', ''enable_coap'',
     ''enable_ws'', ''disable_monitor'']"
| "command_params CmdCompose = [''path'', ''output'', ''func'']"
| "command_params CmdLimits = [''docker_url'', ''speed'', ''timeout'', ''wait'', ''local'']"
| "command_params CmdWait = [''sleep'', ''timeout'', ''waiter_base'', ''waiter_mqtt'']"
| "command_params CmdBroker = [''disable_monitor'']"
| "command_params CmdStop = [''compose_file'', ''stack'', ''redis_url'', ''tail'']"
| "command_params CmdReport = [''out'', ''stack'', ''redis_url'', ''as_json'']"

section \<open>How a command ends\<close>

text \<open>\<open>_catch\<close>, and the exit status of the interpreter.\<close>

definition cli_catch :: "'a res \<Rightarrow> 'a res" where
  "cli_catch r = (case r of Inl e \<Rightarrow> if is_Exception e then Inl (SystemExit 1) else Inl e | Inr x \<Rightarrow> Inr x)"

definition exit_status :: "'a res \<Rightarrow> int" where
  "exit_status r = (case r of Inr _ \<Rightarrow> 0 | Inl (SystemExit c) \<Rightarrow> c | Inl _ \<Rightarrow> 1)"

text \<open>A command: its arguments, then its body. \<open>cli_logger\<close> is the logger that the group sets up, if any.\<close>

definition run_command :: "cli_command \<Rightarrow> (string \<Rightarrow> py option) \<Rightarrow> (py dict \<Rightarrow> unit res) \<Rightarrow> unit res" where
  "run_command c given body = bindR (command_kwargs c given) (\<lambda>kwargs. cli_catch (body kwargs))"

definition cli_logger :: "bool \<Rightarrow> bool \<Rightarrow> string option option" where
  "cli_logger quiet root_logger = (if quiet then None else Some (if root_logger then None else Some ''wotemu''))"

section \<open>Importing a function\<close>

text \<open>
  \<open>os.path.split\<close> and \<open>os.path.splitext\<close> of a POSIX path. The extension starts at the last dot, unless there are only
  dots before it.
\<close>

definition after_last :: "char \<Rightarrow> string \<Rightarrow> string" where
  "after_last c s = rev (takeWhile (\<lambda>x. x \<noteq> c) (rev s))"

definition upto_last :: "char \<Rightarrow> string \<Rightarrow> string" where
  "upto_last c s = rev (dropWhile (\<lambda>x. x \<noteq> c) (rev s))"

definition path_split :: "string \<Rightarrow> string \<times> string" where
  "path_split p =
     (let head = upto_last (CHR ''/'') p
      in (if list_all (\<lambda>c. c = CHR ''/'') head then head else rev (dropWhile (\<lambda>c. c = CHR ''/'') (rev head)),
          after_last (CHR ''/'') p))"

definition path_splitext :: "string \<Rightarrow> string \<times> string" where
  "path_splitext base =
     (let head = upto_last (CHR ''.'') base
      in if list_all (\<lambda>c. c = CHR ''.'') head then (base, []) else (butlast head, CHR ''.'' # after_last (CHR ''.'') base))"

text \<open>
  \<open>import_func\<close>: the state is \<open>sys.path\<close>; \<open>modules\<close> gives the names of the module that a search path finds under a name.
\<close>

definition import_func :: "(string list \<Rightarrow> string \<Rightarrow> string list res) \<Rightarrow> string \<Rightarrow> string \<Rightarrow> (string list, string \<times> string) prog" where
  "import_func modules module_path func_name sys_path =
     (let (path_root, path_base) = path_split module_path;
          sys_path' = (if path_root \<in> set sys_path then sys_path else path_root # sys_path)
      in (import_from (modules sys_path') (fst (path_splitext path_base)) func_name, sys_path'))"

section \<open>Building a Compose file\<close>

definition default_output_path :: "string \<Rightarrow> string" where
  "default_output_path path =
     (let (path_root, path_base) = path_split path in join_path path_root (fst (path_splitext path_base) @ ''.yml''))"

text \<open>\<open>Topology.to_compose_yaml\<close>, with \<open>yaml.dump\<close> as a parameter.\<close>

definition to_compose_yaml :: "set_order \<Rightarrow> environ \<Rightarrow> merger \<Rightarrow> (py \<Rightarrow> string) \<Rightarrow> topology \<Rightarrow> string res" where
  "to_compose_yaml so env merge dump t = bindR (topology_definition so env merge t) (\<lambda>d. Inr (dump (PDict d)))"

text \<open>
  \<open>build_compose\<close>: \<open>imported\<close> is the import of the function, \<open>call\<close> the call of what was imported; the state is the
  set of files with their contents.
\<close>

definition build_compose ::
  "set_order \<Rightarrow> environ \<Rightarrow> merger \<Rightarrow> (py \<Rightarrow> string) \<Rightarrow> (string \<Rightarrow> string \<Rightarrow> 'f res) \<Rightarrow> ('f \<Rightarrow> topology res)
     \<Rightarrow> string \<Rightarrow> string option \<Rightarrow> string \<Rightarrow> (string dict, unit) prog" where
  "build_compose so env merge dump imported call path out_file func files =
     (let target = (if truthy_str out_file then the out_file else default_output_path path)
      in case bindR (imported path func) (\<lambda>f. bindR (call f) (to_compose_yaml so env merge dump)) of
           Inl e \<Rightarrow> (Inl e, files)
         | Inr yaml \<Rightarrow> (Inr (), dset files target yaml))"

section \<open>Building a report\<close>

text \<open>
  \<open>_connect_and_build\<close>: the state is the connection of the reader (\<open>ReportReader\<close>) and the files; \<open>made\<close> is the making of
  the directory and \<open>write\<close> the builder. The reader is closed in the end, and every error of that is dropped.
\<close>

definition connect_and_build ::
  "unit res \<Rightarrow> unit res \<Rightarrow> unit res \<Rightarrow> (string dict, unit) prog \<Rightarrow> ((bool \<times> nat) \<times> string dict, unit) prog" where
  "connect_and_build wait create made write st =
     (case st of (conn, files) \<Rightarrow>
        (case reader_connect wait create conn of
           (Inl e, conn1) \<Rightarrow> (Inl e, snd (reader_close wait conn1), files)
         | (Inr _, conn1) \<Rightarrow>
             (case made of
                Inl e \<Rightarrow> (Inl e, snd (reader_close wait conn1), files)
              | Inr _ \<Rightarrow> (case write files of (r, files1) \<Rightarrow> (r, snd (reader_close wait conn1), files1)))))"

definition report_url :: "docker_api \<Rightarrow> string option \<Rightarrow> string option \<Rightarrow> string res" where
  "report_url api stack url =
     (if \<not> truthy_str stack \<and> \<not> truthy_str url then Inl (ValueError ''You must provide either an explicit Redis URL or the name of the stack'')
      else if truthy_str url then Inr (the url)
      else bindR (find_stack_redis_port api (the stack)) (\<lambda>port. Inr (''redis://127.0.0.1:'' @ py_str port)))"

definition report_file_name :: "string \<Rightarrow> string option \<Rightarrow> string" where
  "report_file_name dtime stack =
     (let name = ''wotemu_'' @ dtime in if truthy_str stack then name @ ''_'' @ the stack else name)"

text \<open>\<open>build_report\<close>; \<open>pages\<close> and \<open>dataset\<close> are what the builder writes, from the client of a URL.\<close>

record report_world =
  rw_wait :: "unit res"
  rw_create :: "string \<Rightarrow> unit res"
  rw_made :: "string \<Rightarrow> unit res"
  rw_pages :: "string \<Rightarrow> string \<Rightarrow> (string dict, unit) prog"
  rw_dataset :: "string \<Rightarrow> string \<Rightarrow> string \<Rightarrow> (string dict, unit) prog"

definition report_command ::
  "report_world \<Rightarrow> docker_api \<Rightarrow> string \<Rightarrow> string \<Rightarrow> string option \<Rightarrow> string option \<Rightarrow> bool
     \<Rightarrow> ((bool \<times> nat) \<times> string dict, unit) prog" where
  "report_command w api dtime out stack url as_json =
     bindP (liftP (report_url api stack url)) (\<lambda>u.
       connect_and_build (rw_wait w) (rw_create w u) (rw_made w out)
         (if as_json then rw_dataset w u out (report_file_name dtime stack) else rw_pages w u out))"

section \<open>Arguments and exit status\<close>

lemma option_values_keys:
  "mapR (option_value given) os = Inr kvs \<Longrightarrow> dkeys kvs = map option_dest os"
  by (induction os arbitrary: kvs) (auto simp: bindR_eq_Inr option_value_def split: option.splits if_splits)

lemma option_value_Inl:
  "option_value given o1 = Inl e \<longleftrightarrow> e = SystemExit 2 \<and> co_required o1 \<and> given (co_name o1) = None"
  by (auto simp: option_value_def split: option.splits)

lemma option_values_fail:
  "mapR (option_value given) os = Inl e \<longleftrightarrow>
     e = SystemExit 2 \<and> (\<exists>o1\<in>set os. co_required o1 \<and> given (co_name o1) = None)"
proof (induction os)
  case Nil
  then show ?case by simp
next
  case (Cons o1 os)
  have "mapR (option_value given) (o1 # os) = Inl e \<longleftrightarrow>
      option_value given o1 = Inl e \<or> ((\<exists>x. option_value given o1 = Inr x) \<and> mapR (option_value given) os = Inl e)"
    by (auto simp: bindR_eq_Inl)
  moreover have "(\<exists>x. option_value given o1 = Inr x) \<longleftrightarrow> \<not> (co_required o1 \<and> given (co_name o1) = None)"
    using option_value_Inl [of given o1] by (cases "option_value given o1") auto
  ultimately show ?case unfolding option_value_Inl Cons.IH by auto
qed

lemma option_values_get:
  "mapR (option_value given) os = Inr kvs \<Longrightarrow> o1 \<in> set os \<Longrightarrow>
   (option_dest o1, case given (co_name o1) of Some v \<Rightarrow> v | None \<Rightarrow> co_default o1) \<in> set kvs"
  by (induction os arbitrary: kvs) (auto simp: bindR_eq_Inr option_value_def split: option.splits if_splits)

lemmas option_defs = option_with_def option_required_def option_multiple_def option_flag_def option_dest_def
  route_options_def chaos_options_def run_options_def compose_options_def limits_options_def wait_options_def
  broker_options_def stop_options_def report_options_def

lemma option_dests:
  "distinct (map option_dest (command_options c))"
  "set (map option_dest (command_options c)) =
     (if c = CmdReport then {''out'', ''stack'', ''redis_url'', ''json''} else set (command_params c))"
proof -
  show "distinct (map option_dest (command_options c))" by (cases c) (simp_all add: option_defs)
  show "set (map option_dest (command_options c)) =
     (if c = CmdReport then {''out'', ''stack'', ''redis_url'', ''json''} else set (command_params c))"
    by (cases c) (simp_all add: option_defs insert_commute)
qed

lemma kwargs_keys:
  assumes "command_kwargs c given = Inr kw"
  shows "dict_ok kw \<and> set (dkeys kw) = set (command_params c)"
proof -
  obtain kvs where kvs: "mapR (option_value given) (command_options c) = Inr kvs"
      and kw: "kw = (if c = CmdReport then pop_json kvs else kvs)"
    using assms by (auto simp: command_kwargs_def bindR_eq_Inr)
  note keys = option_values_keys [OF kvs]
  show ?thesis
  proof (cases "c = CmdReport")
    case False
    then show ?thesis using kw keys option_dests [of c] by (simp add: dict_ok_def)
  next
    case True
    then have "dkeys kvs = [''out'', ''stack'', ''redis_url'', ''json'']" using keys by (simp add: option_defs)
    then obtain a b d e where "kvs = [(''out'', a), (''stack'', b), (''redis_url'', d), (''json'', e)]"
      by (auto simp: Cons_eq_map_conv)
    then show ?thesis using kw True by (auto simp: pop_json_def get_default_def dict_ok_def dset_def)
  qed
qed

text \<open>
  A command ends with the usage status 2 exactly when a required option is missing. Otherwise the function that
  it calls gets one argument for each of its parameters, no other, and the exit status is 0 exactly when the function returns,
  1 for every exception and for a cancellation, and the function's own status when it leaves the interpreter.
\<close>

theorem command_contract:
  "case command_kwargs c given of
     Inl e \<Rightarrow> exit_status (run_command c given body) = 2
       \<and> (\<exists>o1\<in>set (command_options c). co_required o1 \<and> given (co_name o1) = None)
   | Inr kw \<Rightarrow>
       filter (\<lambda>o1. co_required o1 \<and> given (co_name o1) = None) (command_options c) = []
       \<and> dict_ok kw \<and> set (dkeys kw) = set (command_params c)
       \<and> exit_status (run_command c given body) = (case body kw of Inr _ \<Rightarrow> 0 | Inl (SystemExit k) \<Rightarrow> k | Inl _ \<Rightarrow> 1)"
proof (cases "command_kwargs c given")
  case (Inl e)
  then have "e = SystemExit 2 \<and> (\<exists>o1\<in>set (command_options c). co_required o1 \<and> given (co_name o1) = None)"
    using option_values_fail [of given "command_options c" e] by (auto simp: command_kwargs_def bindR_eq_Inl)
  then show ?thesis by (simp add: Inl run_command_def exit_status_def)
next
  case (Inr kw)
  have "exit_status (cli_catch r) = (case r of Inr _ \<Rightarrow> 0 | Inl (SystemExit k) \<Rightarrow> k | Inl _ \<Rightarrow> 1)" for r :: "unit res"
    by (auto simp: exit_status_def cli_catch_def is_Exception_def split: sum.splits exn.splits)
  moreover have "filter (\<lambda>o1. co_required o1 \<and> given (co_name o1) = None) (command_options c) = []"
    using Inr option_values_fail [of given "command_options c" "SystemExit 2"]
    by (auto simp: command_kwargs_def bindR_eq_Inr filter_empty_conv)
  ultimately show ?thesis using kwargs_keys [OF Inr] by (simp add: Inr run_command_def)
qed

section \<open>The Compose file on disk\<close>

lemma split_plain:
  assumes "CHR ''/'' \<notin> set base" and "dir \<noteq> []" and "last dir \<noteq> CHR ''/''"
  shows "path_split (dir @ CHR ''/'' # base) = (dir, base)" and "path_split base = ([], base)"
proof -
  obtain r c where dir: "dir = r @ [c]" "c \<noteq> CHR ''/''" using assms(2,3) by (cases dir rule: rev_cases) auto
  show "path_split (dir @ CHR ''/'' # base) = (dir, base)"
    using assms(1) dir by (auto simp: path_split_def upto_last_def after_last_def takeWhile_append dropWhile_append)
  show "path_split base = ([], base)"
  proof -
    have plain: "dropWhile (\<lambda>x. x \<noteq> CHR ''/'') (rev base) = []" "takeWhile (\<lambda>x. x \<noteq> CHR ''/'') (rev base) = rev base"
      using assms(1) by (auto simp: takeWhile_eq_all_conv dropWhile_eq_Nil_conv)
    show ?thesis unfolding path_split_def upto_last_def after_last_def Let_def plain by simp
  qed
qed

lemma splitext_plain:
  assumes "CHR ''.'' \<notin> set ext" and "\<not> list_all (\<lambda>c. c = CHR ''.'') name"
  shows "path_splitext (name @ CHR ''.'' # ext) = (name, CHR ''.'' # ext)"
  using assms by (auto simp: path_splitext_def upto_last_def after_last_def takeWhile_append dropWhile_append)

lemma join_plain: "dir \<noteq> [] \<Longrightarrow> last dir \<noteq> CHR ''/'' \<Longrightarrow> name \<noteq> [] \<Longrightarrow> hd name \<noteq> CHR ''/'' \<Longrightarrow>
  join_path dir name = dir @ CHR ''/'' # name"
  by (cases name) (simp_all add: join_path_def startswith_def)

lemma default_output_plain:
  assumes "CHR ''/'' \<notin> set name" and "CHR ''/'' \<notin> set ext" and "CHR ''.'' \<notin> set ext"
    and "\<not> list_all (\<lambda>c. c = CHR ''.'') name" and "dir \<noteq> []" and "last dir \<noteq> CHR ''/''"
  shows "default_output_path (dir @ CHR ''/'' # name @ CHR ''.'' # ext) = dir @ CHR ''/'' # name @ ''.yml''"
proof -
  have "path_split (dir @ CHR ''/'' # (name @ CHR ''.'' # ext)) = (dir, name @ CHR ''.'' # ext)"
    using assms by (intro split_plain) auto
  moreover have "path_splitext (name @ CHR ''.'' # ext) = (name, CHR ''.'' # ext)"
    using assms(3,4) by (rule splitext_plain)
  moreover have "name \<noteq> []" "hd (name @ ''.yml'') \<noteq> CHR ''/''"
    using assms(1,4) by (cases name; auto)+
  ultimately show ?thesis using assms(5,6) by (simp add: default_output_path_def join_plain)
qed

text \<open>
  \<open>wotemu compose\<close> changes at most one file, and only when the topology was built and its Compose definition is complete:
  the file that was asked for or, without one, the file beside the topology's with the extension \<open>yml\<close>.
\<close>

theorem compose_writes_complete_file:
  assumes "CHR ''/'' \<notin> set name" and "CHR ''/'' \<notin> set ext" and "CHR ''.'' \<notin> set ext"
    and "\<not> list_all (\<lambda>c. c = CHR ''.'') name" and "dir \<noteq> []" and "last dir \<noteq> CHR ''/''"
  shows "case build_compose so env merge dump imported call (dir @ CHR ''/'' # name @ CHR ''.'' # ext) out_file func files of (r, files') \<Rightarrow>
    (case r of
       Inl e \<Rightarrow> files' = files
     | Inr _ \<Rightarrow> \<exists>f t d. imported (dir @ CHR ''/'' # name @ CHR ''.'' # ext) func = Inr f \<and> call f = Inr t
         \<and> topology_definition so env merge t = Inr d
         \<and> files' = dset files (if truthy_str out_file then the out_file else dir @ CHR ''/'' # name @ ''.yml'') (dump (PDict d)))"
  using default_output_plain [OF assms]
  by (auto simp: build_compose_def Let_def to_compose_yaml_def bindR_eq_Inr split: sum.splits)

theorem compose_writes_complete_file_witness:
  "snd (build_compose (\<lambda>xs. xs) Map.empty shallow_merge (\<lambda>v. ''yaml'') (\<lambda>p f. Inr f) (\<lambda>f. Inr demo_topology)
     ''examples/demo.py'' None ''topology'' []) = [(''examples/demo.yml'', ''yaml'')]"
proof -
  have path: "''examples/demo.py'' = ''examples'' @ CHR ''/'' # ''demo'' @ CHR ''.'' # ''py''" by simp
  obtain d where d: "topology_definition (\<lambda>xs. xs) Map.empty shallow_merge demo_topology = Inr d"
    using topology_definition_total [OF shallow_merge_dicts demo_buildable] by blast
  have "CHR ''/'' \<notin> set ''demo''" "CHR ''/'' \<notin> set ''py''" "CHR ''.'' \<notin> set ''py''"
    "\<not> list_all (\<lambda>c. c = CHR ''.'') ''demo''" "''examples'' \<noteq> []" "last ''examples'' \<noteq> CHR ''/''" by simp_all
  from compose_writes_complete_file [OF this, where so = "\<lambda>xs. xs" and env = Map.empty and merge = shallow_merge
      and dump = "\<lambda>v. ''yaml''" and imported = "\<lambda>p f. Inr f" and call = "\<lambda>f. Inr demo_topology" and out_file = None
      and func = "''topology''" and files = "[]"]
  show ?thesis unfolding path
    by (simp add: build_compose_def Let_def to_compose_yaml_def d truthy_str_def dset_def del: append.simps split: prod.splits sum.splits)
qed

section \<open>The connection of a report\<close>

text \<open>
  However a report ends, the reader's pool is closed again; no file is written unless the client was
  connected and the directory made, and the builder's outcome is the outcome of the command.
\<close>

theorem report_closes_pool:
  "case report_command w api dtime out stack url as_json ((False, n), files) of (r, (conn, files')) \<Rightarrow>
     conn = (False, n)
     \<and> (files' \<noteq> files \<or> r = Inr () \<longrightarrow>
         (\<exists>u. report_url api stack url = Inr u \<and> rw_create w u = Inr () \<and> rw_made w out = Inr ()
           \<and> (if as_json then rw_dataset w u out (report_file_name dtime stack) else rw_pages w u out) files = (r, files')))"
  by (cases "report_url api stack url"; cases "rw_create w (projr (report_url api stack url))"; cases "rw_made w out")
    (auto simp: report_command_def connect_and_build_def reader_connect_def reader_close_def bindP_def split: sum.splits prod.splits)

end
