(* ===== verification/SeriesFacts.thy ===== *)
theory SeriesFacts
  imports ReportProps
begin

text \<open>
  A time series of Redis read as a frame: a sorted set whose members are printed dictionaries gives one row for each of
  them, with their fields. Shared by the interactions and the packets.
\<close>

text \<open>A dictionary that can be written and read: printable, and with a number as its time.\<close>

definition report_ok :: "(string \<Rightarrow> string) \<Rightarrow> floats \<Rightarrow> py dict \<Rightarrow> bool" where
  "report_ok canon F d =
     (json_ok canon (PDict d) \<and> (case dget d ''time'' of None \<Rightarrow> False | Some t \<Rightarrow> \<not> isl (py_number F t)))"

definition report_row :: "floats \<Rightarrow> py dict \<Rightarrow> row" where
  "report_row F d = (\<lambda>c. if c = ''date'' then Date (info_time F d) else (case dget d c of None \<Rightarrow> NaN | Some v \<Rightarrow> Val v))"

definition series_args :: "floats \<Rightarrow> string \<Rightarrow> py dict \<Rightarrow> string \<times> real \<times> string" where
  "series_args F k d = (k, info_time F d, json_dumps (PDict d))"

definition loaded :: "(string \<Rightarrow> string) \<Rightarrow> string \<Rightarrow> py dict" where
  "loaded canon m = (case json_loads canon m of Some (PDict d) \<Rightarrow> d | _ \<Rightarrow> [])"

lemma loads_dumps: "report_ok canon F d \<Longrightarrow> json_loads canon (json_dumps (PDict d)) = Some (PDict d)"
  by (rule json_loads_dumps) (simp add: report_ok_def)

lemma loaded_dumps: "report_ok canon F d \<Longrightarrow> loaded canon (json_dumps (PDict d)) = d"
  unfolding loaded_def loads_dumps by simp

lemma report_ok_time: "report_ok canon F d \<Longrightarrow> \<exists>t. dget d ''time'' = Some t \<and> py_number F t = Inr (info_time F d)"
  by (cases "dget d ''time''"; cases "py_number F (the (dget d ''time''))") (auto simp: report_ok_def info_time_def get_default_def)

lemma date_row_report:
  assumes "report_ok canon F d"
  shows "\<exists>ds. date_row F (PDict d) = Inr ds \<and> row_of ds = report_row F d"
proof -
  obtain t where t: "dget d ''time'' = Some t" "py_number F t = Inr (info_time F d)" using report_ok_time [OF assms] by blast
  have upd: "map_of (AList.update ''date'' x (map (\<lambda>(k, v). (k, Val v)) d)) c =
      (if c = ''date'' then Some x else map_option Val (dget d c))" for x c
    by (simp add: update_conv map_of_map dget_def)
  show ?thesis
    by (auto simp: date_row_def time_of_def dict_index_def t row_of_def report_row_def upd fun_eq_iff split: option.split)
qed

lemma row_date_report [simp]: "row_date (report_row F d) = info_time F d"
  by (simp add: row_date_def report_row_def)

text \<open>The members of a set, whatever their scores.\<close>

context redis_store
begin

lemma zadd_all_members:
  "fst ` set (zrange (zadd_all s es) k) = fst ` set (zrange s k) \<union> {m. \<exists>score. (k, score, m) \<in> set es}"
proof (induction s es rule: zadd_all.induct)
  case (1 s)
  then show ?case by simp
next
  case (2 s k' score m es)
  have "fst ` set (zrange (zadd s k' score m) k) = fst ` set (zrange s k) \<union> (if k' = k then {m} else {})"
    by (force simp: zrange_zadd)
  with 2 show ?case by auto
qed

lemma series_store:
  assumes "\<forall>d\<in>set ds. report_ok canon F d"
  shows "set (zrange (zadd_all empty (map (series_args F k) ds)) k) = (\<lambda>d. (json_dumps (PDict d), info_time F d)) ` set ds"
proof -
  let ?es = "map (series_args F k) ds"
  have mem: "(k, sc, m) \<in> set ?es \<longleftrightarrow> (\<exists>d\<in>set ds. sc = info_time F d \<and> m = json_dumps (PDict d))" for sc m
    by (auto simp: series_args_def simp del: json_dumps.simps)
  have "set (zrange (zadd_all empty ?es) k) = {(m, sc). (k, sc, m) \<in> set ?es}"
  proof (rule zadd_all_score)
    show "zrange empty k = []" by (rule zrange_empty)
    fix sc sc' m
    assume "(k, sc, m) \<in> set ?es" "(k, sc', m) \<in> set ?es"
    then obtain d d' where d: "d \<in> set ds" "sc = info_time F d" "m = json_dumps (PDict d)"
        and d': "d' \<in> set ds" "sc' = info_time F d'" "m = json_dumps (PDict d')"
      unfolding mem by blast
    have "d = d'" using loaded_dumps [OF bspec [OF assms d(1)]] loaded_dumps [OF bspec [OF assms d'(1)]] d(3) d'(3) by metis
    then show "sc = sc'" using d(2) d'(2) by simp
  qed
  then show ?thesis unfolding mem by blast
qed

end

lemma read_series:
  assumes "\<forall>p\<in>set (rc_zrange rc k). \<exists>d. fst p = json_dumps (PDict d) \<and> report_ok canon F d"
  shows "\<exists>f. get_zrange_df canon F rc k = Inr f \<and> fr_rows f = map (\<lambda>p. report_row F (loaded canon (fst p))) (rc_zrange rc k)"
proof -
  let ?zs = "rc_zrange rc k"
  have load: "load_member canon (fst p) = Inr (PDict (loaded canon (fst p))) \<and> report_ok canon F (loaded canon (fst p))"
    if "p \<in> set ?zs" for p
  proof -
    obtain d where d: "fst p = json_dumps (PDict d)" "report_ok canon F d" using assms \<open>p \<in> set ?zs\<close> by blast
    show ?thesis unfolding d(1) load_member_def loads_dumps [OF d(2)] loaded_dumps [OF d(2)] using d(2) by simp
  qed
  define row where "row p = projr (date_row F (PDict (loaded canon (fst p))))" for p :: "string \<times> real"
  have row: "date_row F (PDict (loaded canon (fst p))) = Inr (row p) \<and> row_of (row p) = report_row F (loaded canon (fst p))"
    if "p \<in> set ?zs" for p
  proof -
    obtain ds where "date_row F (PDict (loaded canon (fst p))) = Inr ds" "row_of ds = report_row F (loaded canon (fst p))"
      using date_row_report load [OF \<open>p \<in> set ?zs\<close>] by blast
    then show ?thesis by (simp add: row_def)
  qed
  have "load_members canon rc k = Inr (map (\<lambda>p. PDict (loaded canon (fst p))) ?zs)"
    unfolding load_members_def by (rule mapR_total) (use load in blast)
  moreover have "mapR (date_row F) (map (\<lambda>p. PDict (loaded canon (fst p))) ?zs) = Inr (map row ?zs)"
    unfolding mapR_map by (rule mapR_total) (use row in blast)
  ultimately have "get_zrange_df canon F rc k = Inr (frame_of (map row ?zs))"
    by (simp add: get_zrange_df_def)
  moreover have "fr_rows (frame_of (map row ?zs)) = map (\<lambda>p. report_row F (loaded canon (fst p))) ?zs"
    using row by simp
  ultimately show ?thesis by blast
qed

text \<open>When the members are the prints of a set of dictionaries, so are the rows, each once.\<close>

lemma read_members:
  assumes ds: "\<forall>d\<in>D. report_ok canon F d"
    and zs: "fst ` set (rc_zrange rc k) = (\<lambda>d. json_dumps (PDict d)) ` D" and dist: "distinct (map fst (rc_zrange rc k))"
  shows "\<exists>f. get_zrange_df canon F rc k = Inr f \<and> set (fr_rows f) = report_row F ` D \<and> length (fr_rows f) = card D
    \<and> fr_rows f = map (\<lambda>p. report_row F (loaded canon (fst p))) (rc_zrange rc k)"
proof -
  let ?zs = "rc_zrange rc k"
  have "\<forall>p\<in>set ?zs. \<exists>d. fst p = json_dumps (PDict d) \<and> report_ok canon F d"
  proof
    fix p assume "p \<in> set ?zs"
    then have "fst p \<in> (\<lambda>d. json_dumps (PDict d)) ` D" unfolding zs [symmetric] by (rule imageI)
    then show "\<exists>d. fst p = json_dumps (PDict d) \<and> report_ok canon F d" using ds by blast
  qed
  then obtain f where f: "get_zrange_df canon F rc k = Inr f" "fr_rows f = map (\<lambda>p. report_row F (loaded canon (fst p))) ?zs"
    using read_series by blast
  have inj: "inj_on (\<lambda>d. json_dumps (PDict d)) D"
    by (rule inj_on_inverseI [where g = "loaded canon"]) (use ds loaded_dumps in blast)
  have "length ?zs = card (fst ` set ?zs)" using distinct_card [OF dist] by simp
  also have "\<dots> = card D" unfolding zs by (rule card_image [OF inj])
  finally have len: "length (fr_rows f) = card D" by (simp add: f(2))
  have "set (fr_rows f) = (\<lambda>m. report_row F (loaded canon m)) ` (fst ` set ?zs)"
    unfolding f(2) set_map by (simp add: image_image)
  also have "\<dots> = (\<lambda>d. report_row F (loaded canon (json_dumps (PDict d)))) ` D" unfolding zs by (simp add: image_image del: json_dumps.simps)
  also have "\<dots> = report_row F ` D" by (rule image_cong [OF refl], rule arg_cong [where f = "report_row F"], rule loaded_dumps) (use ds in blast)
  finally show ?thesis using f len by blast
qed

end
