(* ===== verification/ThingCalls.thy ===== *)
theory ThingCalls
  imports SeriesFacts RunApp
begin

text \<open>
  The classes of \<^verbatim>\<open>wotemu/wotpy/things.py\<close> and \<^verbatim>\<open>wot.py\<close> and their way through an application: which decorator
  each method of a Thing has, which callback \<open>run_app\<close> gives to the Things that an application produces and
  consumes, and that what this callback writes to Redis is what the report reads as the interactions of a task.
\<close>

section \<open>The classes\<close>

datatype thing_method = InvokeAction | WriteProperty | ReadProperty | OnEvent | OnPropertyChange

datatype deco = RequestDeco verb | SubscribeDeco verb

primrec exposed_thing_deco :: "thing_method \<Rightarrow> deco" where
  "exposed_thing_deco InvokeAction = RequestDeco INVOKE_ACTION"
| "exposed_thing_deco WriteProperty = RequestDeco WRITE_PROPERTY"
| "exposed_thing_deco ReadProperty = RequestDeco READ_PROPERTY"
| "exposed_thing_deco OnEvent = SubscribeDeco SUBSCRIBE_EVENT"
| "exposed_thing_deco OnPropertyChange = SubscribeDeco OBSERVE_PROPERTY"

primrec consumed_thing_deco :: "thing_method \<Rightarrow> deco" where
  "consumed_thing_deco InvokeAction = RequestDeco INVOKE_ACTION"
| "consumed_thing_deco WriteProperty = RequestDeco WRITE_PROPERTY"
| "consumed_thing_deco ReadProperty = RequestDeco READ_PROPERTY"
| "consumed_thing_deco OnEvent = SubscribeDeco SUBSCRIBE_EVENT"
| "consumed_thing_deco OnPropertyChange = SubscribeDeco OBSERVE_PROPERTY"

text \<open>A \<open>WoT\<close> with the name of its servient, its two callbacks and the Things that the servient exposes.\<close>

record wot =
  wo_host :: string
  wo_exposed_cb :: "thing_cb option"
  wo_consumed_cb :: "thing_cb option"
  wo_exposed :: "thing list"

definition consume :: "wot \<Rightarrow> string \<Rightarrow> thing" where
  "consume w td_id =
     \<lparr>th_id = td_id, th_class = ''ConsumedThing'', th_host = wo_host w, th_has_callback = (wo_consumed_cb w \<noteq> None)\<rparr>"

definition produced :: "wot \<Rightarrow> string \<Rightarrow> thing" where
  "produced w model_id =
     \<lparr>th_id = model_id, th_class = ''ExposedThing'', th_host = wo_host w, th_has_callback = (wo_exposed_cb w \<noteq> None)\<rparr>"

definition produce :: "wot \<Rightarrow> string \<Rightarrow> thing \<times> wot" where
  "produce w model_id =
     (produced w model_id, w\<lparr>wo_exposed := wo_exposed w @ [produced w model_id]\<rparr>)"

text \<open>
  The entry point that \<open>run_app\<close> calls: both callbacks are the one that was built. The name of a servient that is given
  none is wotpy's, so the name is a function of the argument.
\<close>

definition run_wot :: "(string option \<Rightarrow> string) \<Rightarrow> app_setup \<Rightarrow> wot" where
  "run_wot servient_host s =
     \<lparr>wo_host = servient_host (as_hostname s), wo_exposed_cb = Some (as_cb s), wo_consumed_cb = Some (as_cb s), wo_exposed = []\<rparr>"

section \<open>Interactions\<close>

text \<open>
  A call of a method of a Thing with everything that comes from outside: the clock and the outcome of a request, the
  identifier, the clock and the events of a subscription.
\<close>

record interaction =
  in_exposed :: bool
  in_method :: thing_method
  in_id :: string
  in_args :: "py list"
  in_kwargs :: "py dict"
  in_clock :: call_clock
  in_outcome :: "py res"
  in_sub :: string
  in_now :: "nat \<Rightarrow> py"
  in_events :: "obs_event list"

definition verb_call_of :: "wot \<Rightarrow> interaction \<Rightarrow> verb \<Rightarrow> verb_call" where
  "verb_call_of w x v =
     \<lparr>vc_verb = v, vc_thing = (if in_exposed x then produced w (in_id x) else consume w (in_id x)),
      vc_args = in_args x, vc_kwargs = in_kwargs x\<rparr>"

text \<open>The data of the callback tasks that the call creates.\<close>

definition interaction_tasks ::
  "exn_view \<Rightarrow> (real \<Rightarrow> py) \<Rightarrow> (verb \<Rightarrow> py) \<Rightarrow> wot \<Rightarrow> interaction \<Rightarrow> py dict list" where
  "interaction_tasks xv fl vv w x =
     (case (if in_exposed x then exposed_thing_deco else consumed_thing_deco) (in_method x) of
        RequestDeco v \<Rightarrow> snd (request_wrapper xv fl vv (verb_call_of w x v) (in_clock x) (in_outcome x))
      | SubscribeDeco v \<Rightarrow> snd (decorate_observable xv vv (verb_call_of w x v) (in_sub x) (in_now x) (in_events x)))"

text \<open>A task calls the callback of its Thing; each has its own answer of Redis.\<close>

definition run_thing_cb :: "thing_cb \<Rightarrow> cb_world \<Rightarrow> py dict \<Rightarrow> (redis_entry list, unit) prog" where
  "run_thing_cb cb w data =
     (case cb of DummyCb \<Rightarrow> retP () | RedisCb url \<Rightarrow> redis_thing_callback w True data)"

fun run_tasks :: "thing_cb \<Rightarrow> (cb_world \<times> py dict) list \<Rightarrow> redis_entry list \<Rightarrow> redis_entry list" where
  "run_tasks cb [] s = s"
| "run_tasks cb ((w, data) # ts) s = run_tasks cb ts (snd (run_thing_cb cb w data s))"

section \<open>From the callbacks to the report\<close>

lemma request_data_host_time:
  "dget (request_data xv fl vv c now r) ''host'' = Some (PStr (th_host (vc_thing c)))"
  "dget (request_data xv fl vv c now r) ''time'' = Some (fl now)"
  by (rule request_data_get)+

lemma subscription_data_host:
  "dget (dupdate (event_data xv ev) (subscription_data vv c sub now)) ''host'' = Some (PStr (th_host (vc_thing c)))"
  by (simp add: dget_def subscription_data_def call_data_def dset_def update_conv)

lemma watch_events_host:
  "d \<in> set (watch_events xv vv c sub now i evs) \<Longrightarrow> dget d ''host'' = Some (PStr (th_host (vc_thing c)))"
  by (induction evs arbitrary: i) (auto simp: subscription_data_host)

lemma interaction_host:
  assumes "d \<in> set (interaction_tasks xv fl vv w x)"
  shows "dget d ''host'' = Some (PStr (wo_host w))"
proof -
  have host: "th_host (vc_thing (verb_call_of w x v)) = wo_host w" for v
    by (simp add: verb_call_of_def produced_def consume_def)
  show ?thesis
    using assms watch_events_host [of d xv vv "verb_call_of w x _"] request_data_host_time(1) [of xv fl vv "verb_call_of w x _"]
    by (auto simp: interaction_tasks_def host request_wrapper_def Let_def decorate_observable_def
        split: deco.splits sum.splits if_splits)
qed

lemma run_tasks_entries:
  assumes "\<forall>(w, d)\<in>set ts. dget d ''host'' = Some (PStr h) \<and> report_ok canon F d"
  shows "map (zadd_args F) (run_tasks (RedisCb url) ts s) =
    map (zadd_args F) s @ map (series_args F (redis_key THING [h])) (map snd (filter (\<lambda>(w, d). \<not> isl (cw_zadd w)) ts))"
  using assms
proof (induction ts arbitrary: s)
  case Nil
  then show ?case by simp
next
  case (Cons t ts)
  obtain w d where t: "t = (w, d)" by (cases t)
  have d: "dget d ''host'' = Some (PStr h)" "report_ok canon F d" using Cons.prems by (auto simp: t)
  obtain tm where tm: "dget d ''time'' = Some tm" using d(2) by (auto simp: report_ok_def split: option.splits)
  have "snd (run_thing_cb (RedisCb url) w d s) =
      s @ (if isl (cw_zadd w) then [] else [\<lparr>re_key = redis_key THING [h], re_score = tm, re_member = json_dumps (PDict d)\<rparr>])"
    by (auto simp: run_thing_cb_def redis_thing_callback_def swallow_def write_thing_def thing_entry_def dict_index_def d(1) tm
        simp del: json_dumps.simps split: sum.split)
  moreover have "zadd_args F \<lparr>re_key = redis_key THING [h], re_score = tm, re_member = json_dumps (PDict d)\<rparr> = series_args F (redis_key THING [h]) d"
    by (simp add: zadd_args_def series_args_def info_time_def get_default_def tm del: json_dumps.simps)
  ultimately show ?case using Cons by (simp add: t)
qed

lemma read_reports:
  assumes ds: "\<forall>d\<in>D. report_ok canon F d"
    and zs: "set (rc_zrange rc (redis_key THING [h])) = (\<lambda>d. (json_dumps (PDict d), info_time F d)) ` D"
    and sorted: "sorted (map snd (rc_zrange rc (redis_key THING [h])))" and dist: "distinct (map fst (rc_zrange rc (redis_key THING [h])))"
  shows "\<exists>f. get_thing_df canon F rc h = Inr f \<and> sorted (map row_date (fr_rows f)) \<and> set (fr_rows f) = report_row F ` D
    \<and> length (fr_rows f) = card D"
proof -
  let ?zs = "rc_zrange rc (redis_key THING [h])"
  have "fst ` set ?zs = (\<lambda>d. json_dumps (PDict d)) ` D" unfolding zs by (simp add: image_image del: json_dumps.simps)
  from read_members [OF ds this dist] obtain f where f: "get_zrange_df canon F rc (redis_key THING [h]) = Inr f"
      "set (fr_rows f) = report_row F ` D" "length (fr_rows f) = card D"
      "fr_rows f = map (\<lambda>p. report_row F (loaded canon (fst p))) ?zs" by blast
  have "map row_date (fr_rows f) = map snd ?zs"
    unfolding f(4) map_map
  proof (rule map_cong [OF refl])
    fix p assume "p \<in> set ?zs"
    then obtain d where d: "d \<in> D" "p = (json_dumps (PDict d), info_time F d)" unfolding zs by blast
    show "(row_date \<circ> (\<lambda>p. report_row F (loaded canon (fst p)))) p = snd p"
      using loaded_dumps [OF bspec [OF ds d(1)]] by (simp add: d(2) del: json_dumps.simps)
  qed
  then have "sorted (map row_date (fr_rows f))" using sorted by (rule ssubst)
  then show ?thesis using f(1,2,3) unfolding get_thing_df_def by blast
qed

text \<open>
  C14. Every interaction with a Thing of an application that runs with a Redis URL is shown in the report: the interactions of
  its host are, in the order of their times, exactly the reports of the callback tasks whose write succeeded, with
  every field as it was reported, each once; a write that fails loses nothing but its own report, and the order in which the
  tasks run does not matter.
\<close>

theorem interactions_reported:
  assumes "redis_store new_store zadd zrange keys" and "as_cb s = RedisCb url" and w: "w = run_wot servient_host s"
    and tasks: "mset (map snd done) = mset (concat (map (interaction_tasks xv fl vv w) xs))"
    and ok: "\<forall>x\<in>set xs. \<forall>d\<in>set (interaction_tasks xv fl vv w x). report_ok canon F d"
    and rc: "rc = client_of zrange keys (redis_store.zadd_all zadd new_store (map (zadd_args F) (run_tasks (as_cb s) done [])))"
  shows "\<exists>f. get_thing_df canon F rc (wo_host w) = Inr f \<and> sorted (map row_date (fr_rows f))
    \<and> set (fr_rows f) = report_row F ` {d. \<exists>cw. (cw, d) \<in> set done \<and> \<not> isl (cw_zadd cw)}
    \<and> length (fr_rows f) = card {d. \<exists>cw. (cw, d) \<in> set done \<and> \<not> isl (cw_zadd cw)}"
proof -
  let ?ok = "\<lambda>(cw, d). \<not> isl (cw_zadd cw)" and ?h = "wo_host w"
  let ?ds = "map snd (filter ?ok done)"
  have "set (map snd done) = (\<Union>x\<in>set xs. set (interaction_tasks xv fl vv w x))"
    using arg_cong [OF tasks, of set_mset] by simp
  then have each: "dget d ''host'' = Some (PStr ?h)" "report_ok canon F d" if "(cw, d) \<in> set done" for cw d
    using that ok interaction_host by (metis (no_types, lifting) UN_E in_set_zipE snd_conv image_eqI set_map)+
  have "map (zadd_args F) (run_tasks (as_cb s) done []) = map (series_args F (redis_key THING [?h])) ?ds"
    unfolding assms(2)
  proof (subst run_tasks_entries [where h = ?h and canon = canon])
    show "\<forall>(cw, d)\<in>set done. dget d ''host'' = Some (PStr ?h) \<and> report_ok canon F d" using each by blast
  qed simp
  then have rc': "rc = client_of zrange keys (redis_store.zadd_all zadd new_store (map (series_args F (redis_key THING [?h])) ?ds))"
    using rc by simp
  have ds: "\<forall>d\<in>set ?ds. report_ok canon F d" using each(2) by auto
  have D: "set ?ds = {d. \<exists>cw. (cw, d) \<in> set done \<and> \<not> isl (cw_zadd cw)}" by force
  show ?thesis
    unfolding D [symmetric]
    by (rule read_reports [OF ds]) (simp_all only: rc' client_of_def redis_client.simps redis_store.series_store [OF assms(1) ds]
      redis_store.zrange_sorted [OF assms(1)] redis_store.zrange_distinct [OF assms(1)])
qed

definition demo_interaction :: interaction where
  "demo_interaction = \<lparr>in_exposed = False, in_method = ReadProperty, in_id = ''urn:clock'', in_args = [PStr ''time''], in_kwargs = [],
     in_clock = \<lparr>cl_begin = 1, cl_end = 2, cl_data = 2\<rparr>, in_outcome = Inr (PInt 5), in_sub = [], in_now = (\<lambda>i. PNone), in_events = []\<rparr>"

definition demo_setup :: app_setup where
  "demo_setup = \<lparr>as_func = (''app'', ''app''), as_kwargs = [], as_servers = [], as_catalogue = PInt 9090, as_hostname = Some ''reader'',
     as_cb = RedisCb (PStr ''redis://redis''), as_ifaces = None\<rparr>"

theorem interactions_reported_witness:
  "\<exists>done f. get_thing_df (\<lambda>s. s) demo_report_floats
       (client_of zlog_range zlog_keys (redis_store.zadd_all zlog_add []
         (map (zadd_args demo_report_floats) (run_tasks (as_cb demo_setup) done [])))) ''reader'' = Inr f
     \<and> (\<exists>r\<in>set (fr_rows f). r ''name'' = Val (PStr ''time'') \<and> r ''result'' = Val (PInt 5) \<and> r ''error'' = Val PNone)"
proof -
  let ?xv = "\<lparr>ex_type = (\<lambda>e. ''E''), ex_str = (\<lambda>e. [])\<rparr>" and ?fl = "\<lambda>t :: real. PInt 7" and ?vv = "\<lambda>v :: verb. PStr ''readProperty''"
  let ?cw = "\<lparr>cw_url = PNone, cw_create = Inr (), cw_zadd = Inr (), cw_closing = Inr ()\<rparr>"
  define w where "w = run_wot (case_option ''node'' (\<lambda>h. h)) demo_setup"
  define d where "d = [(''thing'', PStr ''urn:clock''), (''verb'', PStr ''readProperty''), (''name'', PStr ''time''), (''time'', PInt 7),
    (''host'', PStr ''reader''), (''class'', PStr ''ConsumedThing''), (''latency'', PInt 7), (''error'', PNone), (''result'', PInt 5)]"
  have tasks: "interaction_tasks ?xv ?fl ?vv w demo_interaction = [d]"
    by (simp add: interaction_tasks_def demo_interaction_def request_wrapper_def Let_def verb_call_of_def consume_def w_def run_wot_def
        demo_setup_def request_data_def call_data_def interaction_name_def get_default_def set_result_def new_request_def
        update_latency_def json_ex_def dset_def d_def)
  have ok: "report_ok (\<lambda>s. s) demo_report_floats d"
    by (simp add: report_ok_def d_def dict_ok_def dget_Cons)
  have host: "wo_host w = ''reader''" by (simp add: w_def run_wot_def demo_setup_def)
  have cb: "as_cb demo_setup = RedisCb (PStr ''redis://redis'')" by (simp add: demo_setup_def)
  have "mset (map snd [(?cw, d)]) = mset (concat (map (interaction_tasks ?xv ?fl ?vv w) [demo_interaction]))"
    "\<forall>x\<in>set [demo_interaction]. \<forall>d\<in>set (interaction_tasks ?xv ?fl ?vv w x). report_ok (\<lambda>s. s) demo_report_floats d"
    using ok by (simp_all add: tasks)
  from interactions_reported [OF zlog.redis_store_axioms cb w_def this refl]
  obtain f where f: "get_thing_df (\<lambda>s. s) demo_report_floats
       (client_of zlog_range zlog_keys (redis_store.zadd_all zlog_add []
         (map (zadd_args demo_report_floats) (run_tasks (as_cb demo_setup) [(?cw, d)] [])))) ''reader'' = Inr f"
      "set (fr_rows f) = {report_row demo_report_floats d}"
    unfolding host by auto
  have "report_row demo_report_floats d ''name'' = Val (PStr ''time'') \<and> report_row demo_report_floats d ''result'' = Val (PInt 5)
      \<and> report_row demo_report_floats d ''error'' = Val PNone"
    by (simp add: report_row_def d_def dget_Cons)
  then have "\<exists>r\<in>set (fr_rows f). r ''name'' = Val (PStr ''time'') \<and> r ''result'' = Val (PInt 5) \<and> r ''error'' = Val PNone"
    unfolding f(2) by blast
  with f(1) show ?thesis by blast
qed

end
