(* ===== verification/StopReport.thy ===== *)
theory StopReport
  imports Operations ReportProps
begin

text \<open>
  From the command \<open>stop\<close> to the report: what \<^verbatim>\<open>cli/stop.py\<close> writes to Redis at the end of a stack is what
  \<^verbatim>\<open>report/reader.py\<close> reads as its Compose definition and its snapshot.
\<close>

text \<open>The commands that Redis gets from a stop; each effect has its own answers.\<close>

definition added :: "redis_call list \<Rightarrow> redis_entry list" where
  "added cs = concat (map (\<lambda>c. case c of AddMember e \<Rightarrow> [e] | _ \<Rightarrow> []) cs)"

fun run_effects :: "(stack_effect \<Rightarrow> zadd_world) \<Rightarrow> stack_effect list \<Rightarrow> redis_call list \<Rightarrow> redis_call list" where
  "run_effects w [] cs = cs"
| "run_effects w (e # es) cs = run_effects w es (snd (run_effect (w e) e cs))"

lemma added_append: "added (xs @ ys) = added xs @ added ys"
  by (simp add: added_def)

lemma stop_success:
  assumes "stop_stack api run now deploy content stack url0 tail [] = (Inr (), es)"
  shows "\<exists>target snapshot url. es = [DeployStack target, WriteSnapshot url ''wotemu:snapshot'' snapshot, WriteCompose url ''wotemu:compose'' content]
    \<and> stack_snapshot api run tail now stack = Inr snapshot"
  using assms
  by (auto simp: stop_stack_def assert_stack_exists_def bindP_def bindR_def snapshot_key_def compose_key_def
      split: sum.splits if_splits)

lemma last_of_sorted:
  assumes "sorted (map snd zs)" and "p \<in> set zs" and "\<forall>q\<in>set zs. q = p \<or> snd q < (snd p :: real)"
  shows "zs \<noteq> [] \<and> last zs = p"
proof -
  obtain ys y where ys: "zs = ys @ [y]" using assms(2) by (cases zs rule: rev_cases) auto
  then have "snd p \<le> snd y" using assms(1,2) by (auto simp: sorted_append)
  then show ?thesis using assms(3) ys by auto
qed

lemma stop_entries:
  assumes "\<forall>e\<in>set es. \<not> isl (zw_create (w e)) \<and> \<not> isl (zw_zadd (w e)) \<and> py_number F (zw_time (w e)) = Inr (clock e)"
    and "es = [DeployStack target, WriteSnapshot url ''wotemu:snapshot'' snapshot, WriteCompose url ''wotemu:compose'' content]"
  shows "map (zadd_args F) (added (run_effects w es [])) =
    [(''wotemu:snapshot'', clock (es ! 1), json_dumps (PDict snapshot)), (''wotemu:compose'', clock (es ! 2), json_dumps (PDict content))]"
  using assms(1) unfolding assms(2)
  by (simp add: zadd_json_def added_def zadd_args_def retP_def del: json_dumps.simps)

lemma report_keys: "redis_key SNAPSHOT [] = ''wotemu:snapshot''" "redis_key COMPOSE [] = ''wotemu:compose''"
  by (simp_all add: redis_key_def)

text \<open>
  C15. What the report reads of a stopped stack is what the last stop wrote: when its writes reach Redis later than those of
  the stops before, the report shows the Compose definition as it was before it was scaled down, and
  one row for each task that the snapshot found, dated with the time of the snapshot.
\<close>

theorem stopped_stack_reported:
  assumes "redis_store new_store zadd zrange keys"
    and stop: "stop_stack api run now deploy content stack url0 tail [] = (Inr (), es)"
    and ok: "\<forall>e\<in>set es. \<not> isl (zw_create (w e)) \<and> \<not> isl (zw_zadd (w e)) \<and> py_number F (zw_time (w e)) = Inr (clock e)"
    and later: "\<forall>e\<in>set es. \<forall>k\<in>{''wotemu:snapshot'', ''wotemu:compose''}. \<forall>p\<in>set (zrange s k). snd p < clock e"
    and json: "json_ok canon (PDict content)" "\<forall>d. stack_snapshot api run tail now stack = Inr d \<longrightarrow> json_ok canon (PDict d)"
    and rc: "rc = client_of zrange keys (redis_store.zadd_all zadd s (map (zadd_args F) (added (run_effects w es []))))"
  shows "get_compose_dict canon rc = Inr (PDict content)
    \<and> (\<exists>snapshot. stack_snapshot api run tail now stack = Inr snapshot
         \<and> get_snapshot_df canon F so rc =
             bindR (get_task_key_map canon F so rc) (\<lambda>ks.
             bindR (mapR (\<lambda>(tid, item). snapshot_row ks (clock (es ! 1)) tid item) snapshot) (\<lambda>rows. Inr (Some rows))))"
proof -
  obtain target snapshot url where es: "es = [DeployStack target, WriteSnapshot url ''wotemu:snapshot'' snapshot,
      WriteCompose url ''wotemu:compose'' content]" and snap: "stack_snapshot api run tail now stack = Inr snapshot"
    using stop_success [OF stop] by blast
  let ?s1 = "zadd s ''wotemu:snapshot'' (clock (es ! 1)) (json_dumps (PDict snapshot))"
  let ?s2 = "zadd ?s1 ''wotemu:compose'' (clock (es ! 2)) (json_dumps (PDict content))"
  have rc2: "rc = client_of zrange keys ?s2"
    unfolding rc stop_entries [OF ok es] by (simp add: redis_store.zadd_all.simps [OF assms(1)] del: json_dumps.simps)
  note added = redis_store.zrange_zadd [OF assms(1)] and sorted = redis_store.zrange_sorted [OF assms(1)]
  have earlier: "\<forall>p\<in>set (zrange s ''wotemu:snapshot''). snd p < clock (es ! 1)" "\<forall>p\<in>set (zrange s ''wotemu:compose''). snd p < clock (es ! 2)"
    using later by (simp_all add: es)
  have "zrange ?s2 ''wotemu:compose'' \<noteq> [] \<and> last (zrange ?s2 ''wotemu:compose'') = (json_dumps (PDict content), clock (es ! 2))"
    by (rule last_of_sorted [OF sorted]) (use earlier(2) in \<open>auto simp: added simp del: json_dumps.simps\<close>)
  moreover have "zrange ?s2 ''wotemu:snapshot'' \<noteq> [] \<and> last (zrange ?s2 ''wotemu:snapshot'') = (json_dumps (PDict snapshot), clock (es ! 1))"
    by (rule last_of_sorted [OF sorted]) (use earlier(1) in \<open>auto simp: added simp del: json_dumps.simps\<close>)
  moreover have "load_member canon (json_dumps (PDict d)) = Inr (PDict d)" if "json_ok canon (PDict d)" for d
    unfolding load_member_def json_loads_dumps [OF that] by simp
  ultimately show ?thesis
    using json snap
    by (simp add: rc2 client_of_def get_compose_dict_def get_snapshot_df_def report_keys Let_def del: json_dumps.simps json_ok.simps)
qed

definition demo_stack :: docker_api where
  "demo_stack = \<lparr>api_tasks = (\<lambda>f. Inr [PDict [(''ID'', PStr ''t1'')]]), api_inspect_network = (\<lambda>n v. Inr PNone),
     api_inspect_task = (\<lambda>t. Inr PNone),
     api_services = Inr [PDict [(''ID'', PStr ''s1''), (''Spec'', PDict [(''Labels'', PDict [(stack_namespace, PStr ''demo'')])])]],
     api_ping = Inr ()\<rparr>"

definition demo_content :: "py dict" where
  "demo_content = [(''services'', PDict [(''node'', PDict [(''image'', PStr ''wotemu'')])])]"

theorem stopped_stack_reported_witness:
  "\<exists>es. stop_stack demo_stack (\<lambda>cmd. Inr ''log'') (\<lambda>t. PInt 5) (Inr ()) demo_content ''demo'' (PStr ''redis://r'') (PInt 30) [] = (Inr (), es)
     \<and> get_compose_dict (\<lambda>x. x) (client_of zlog_range zlog_keys (redis_store.zadd_all zlog_add []
          (map (zadd_args demo_report_floats) (added (run_effects (\<lambda>e. \<lparr>zw_create = Inr (), zw_time = PInt 7, zw_zadd = Inr ()\<rparr>) es [])))))
       = Inr (PDict demo_content)"
proof -
  let ?w = "\<lambda>e :: stack_effect. \<lparr>zw_create = Inr (), zw_time = PInt 7, zw_zadd = Inr ()\<rparr>"
  let ?item = "PDict [(''task'', PDict [(''ID'', PStr ''t1'')]), (''time'', PInt 5), (''logs'', PStr ''log'')]"
  have find: "find_stack_services demo_stack ''demo'' =
      Inr [PDict [(''ID'', PStr ''s1''), (''Spec'', PDict [(''Labels'', PDict [(stack_namespace, PStr ''demo'')])])]]"
    by (simp add: find_stack_services_def demo_stack_def py_get_def get_default_def dget_Cons)
  have snap: "stack_snapshot demo_stack (\<lambda>cmd. Inr ''log'') (PInt 30) (\<lambda>t. PInt 5) ''demo'' = Inr [(''t1'', ?item)]"
    unfolding stack_snapshot_def find
    by (simp add: get_task_logs_def dict_index_def dget_Cons demo_stack_def dset_def)
  obtain es where stop: "stop_stack demo_stack (\<lambda>cmd. Inr ''log'') (\<lambda>t. PInt 5) (Inr ()) demo_content ''demo'' (PStr ''redis://r'') (PInt 30) [] = (Inr (), es)"
    by (simp add: stop_stack_def assert_stack_exists_def find snap bindP_def scale_down_def demo_content_def get_default_def dget_Cons
        scale_service_def is_redis_service_def py_get_def)
  have "\<forall>e\<in>set es. \<not> isl (zw_create (?w e)) \<and> \<not> isl (zw_zadd (?w e)) \<and> py_number demo_report_floats (zw_time (?w e)) = Inr 7"
    "\<forall>e\<in>set es. \<forall>k\<in>{''wotemu:snapshot'', ''wotemu:compose''}. \<forall>p\<in>set (zlog_range [] k). snd p < 7"
    by (simp_all add: zlog_range_def)
  moreover have "json_ok (\<lambda>x. x) (PDict demo_content)" by (simp add: demo_content_def dict_ok_def)
  moreover have "\<forall>d. stack_snapshot demo_stack (\<lambda>cmd. Inr ''log'') (PInt 30) (\<lambda>t. PInt 5) ''demo'' = Inr d \<longrightarrow> json_ok (\<lambda>x. x) (PDict d)"
    by (simp add: snap dict_ok_def)
  ultimately show ?thesis
    using stopped_stack_reported [OF zlog.redis_store_axioms stop _ _ _ _ refl, where w = ?w and F = demo_report_floats
        and clock = "\<lambda>e. 7" and canon = "\<lambda>x. x"] stop
    by blast
qed

end
