(* ===== verification/PacketReport.thy ===== *)
theory PacketReport
  imports SeriesFacts
begin

text \<open>
  From the packet monitors to the report: the batches that \<^verbatim>\<open>monitor/base.py\<close> writes for the interfaces of all nodes are
  what \<^verbatim>\<open>report/reader.py\<close> reads as the packets of a task.
\<close>

text \<open>A batch that the packet task of an interface hands to the callback of its node's monitor.\<close>

record delivery =
  dl_task :: string
  dl_iface :: string
  dl_now :: py
  dl_outcome :: "unit res"
  dl_items :: "py dict list"

definition open_monitor :: nm_state where
  "open_monitor = init_monitor\<lparr>nm_redis := True, nm_pools := 1\<rparr>"

definition packet_key :: "string \<Rightarrow> string \<Rightarrow> string" where
  "packet_key i t = redis_key PACKET [i, t]"

definition delivered :: "delivery \<Rightarrow> redis_entry list" where
  "delivered x = nm_written (snd (redis_callback (dl_now x) (dl_outcome x) (packet_key (dl_iface x) (dl_task x)) (dl_items x) open_monitor))"

definition name_ok :: "string \<Rightarrow> bool" where
  "name_ok n = (CHR '':'' \<notin> set n \<and> CHR ''*'' \<notin> set n)"

text \<open>The packets of a task that were written, with their interface.\<close>

definition packets_of :: "delivery list \<Rightarrow> string \<Rightarrow> (string \<times> py dict) set" where
  "packets_of ds t = {(i, d). \<exists>x\<in>set ds. dl_task x = t \<and> dl_iface x = i \<and> \<not> isl (dl_outcome x) \<and> d \<in> set (dl_items x)}"

definition packet_row :: "floats \<Rightarrow> string \<times> py dict \<Rightarrow> row" where
  "packet_row F p = (report_row F (snd p))(''iface'' := Val (PStr (fst p)))"

lemma packet_key_eq: "packet_key i t = ''wotemu:packet:'' @ i @ '':'' @ t"
  by (simp add: packet_key_def redis_key_def)

lemma packet_key_parts: "name_ok i \<Longrightarrow> name_ok t \<Longrightarrow> split_on (CHR '':'') (packet_key i t) = [''wotemu'', ''packet'', i, t]"
proof -
  assume "name_ok i" "name_ok t"
  then have "split_on (CHR '':'') (join '':'' [''wotemu'', ''packet'', i, t]) = [''wotemu'', ''packet'', i, t]"
    by (intro split_on_join) (auto simp: name_ok_def)
  then show ?thesis by (simp add: packet_key_eq)
qed

lemma packet_key_glob:
  assumes "name_ok i" "name_ok t" "name_ok t'"
  shows "glob (packet_key ''*'' t') (packet_key i t) \<longleftrightarrow> t = t'"
proof -
  have "glob (packet_key ''*'' t') (packet_key i t) \<longleftrightarrow> (\<exists>m. packet_key i t = ''wotemu:packet:'' @ m @ ('':'' @ t'))"
    unfolding packet_key_eq [of "''*''"] using glob_infix_star [of "''wotemu:packet:''" "'':'' @ t'"] assms(3) by (simp add: name_ok_def)
  also have "\<dots> \<longleftrightarrow> (\<exists>m. i @ '':'' @ t = m @ '':'' @ t')" by (simp add: packet_key_eq)
  also have "\<dots> \<longleftrightarrow> t = t'"
  proof
    have no: "CHR '':'' \<notin> set t" "CHR '':'' \<notin> set t'" using assms by (simp_all add: name_ok_def)
    assume "\<exists>m. i @ '':'' @ t = m @ '':'' @ t'"
    then obtain m where "i @ '':'' @ t = m @ '':'' @ t'" by blast
    then have "rev t @ CHR '':'' # rev i = rev t' @ CHR '':'' # rev m"
      by (metis append.assoc append_Cons append_Nil rev.simps(2) rev_append rev_rev_ident)
    then have "takeWhile (\<lambda>c. c \<noteq> CHR '':'') (rev t @ CHR '':'' # rev i) = takeWhile (\<lambda>c. c \<noteq> CHR '':'') (rev t' @ CHR '':'' # rev m)" by simp
    moreover have "takeWhile (\<lambda>c. c \<noteq> CHR '':'') (rev u @ CHR '':'' # v) = rev u" if "CHR '':'' \<notin> set u" for u v
      using that by (subst takeWhile_append2) auto
    ultimately show "t = t'" using no by simp
  qed blast
  finally show ?thesis .
qed

lemma delivered_args:
  assumes "\<forall>d\<in>set (dl_items x). report_ok canon F d"
  shows "map (zadd_args F) (delivered x) =
    (if isl (dl_outcome x) then [] else map (series_args F (packet_key (dl_iface x) (dl_task x))) (dl_items x))"
proof -
  have "zadd_args F \<lparr>re_key = k, re_score = get_default d ''time'' now, re_member = json_dumps (PDict d)\<rparr> = series_args F k d"
    if "report_ok canon F d" for d k now
    using report_ok_time [OF that] by (auto simp: zadd_args_def series_args_def get_default_def simp del: json_dumps.simps)
  then show ?thesis
    using assms by (cases "dl_outcome x")
      (auto simp: delivered_def redis_callback_def open_monitor_def init_monitor_def callback_entries_def simp del: json_dumps.simps)
qed

definition packet_writes :: "delivery list \<Rightarrow> redis_entry list" where
  "packet_writes ds = concat (map delivered ds)"

lemma packet_members:
  assumes "\<forall>x\<in>set ds. \<forall>d\<in>set (dl_items x). report_ok canon F d"
    and "\<forall>x\<in>set ds. name_ok (dl_iface x) \<and> name_ok (dl_task x)" and "name_ok i" "name_ok t"
  shows "{m. \<exists>score. (packet_key i t, score, m) \<in> set (map (zadd_args F) (packet_writes ds))} =
    (\<lambda>d. json_dumps (PDict d)) ` {d. (i, d) \<in> packets_of ds t}"
    and "k \<in> fst ` set (map (zadd_args F) (packet_writes ds)) \<Longrightarrow> \<exists>j u. k = packet_key j u \<and> name_ok j \<and> name_ok u \<and> (\<exists>d. (j, d) \<in> packets_of ds u)"
proof -
  have args: "set (map (zadd_args F) (packet_writes ds)) =
      (\<Union>x\<in>set ds. if isl (dl_outcome x) then {} else series_args F (packet_key (dl_iface x) (dl_task x)) ` set (dl_items x))"
  proof -
    have "set (map (zadd_args F) (packet_writes ds)) = (\<Union>x\<in>set ds. set (map (zadd_args F) (delivered x)))"
      by (auto simp: packet_writes_def)
    also have "\<dots> = (\<Union>x\<in>set ds. if isl (dl_outcome x) then {} else series_args F (packet_key (dl_iface x) (dl_task x)) ` set (dl_items x))"
      by (rule SUP_cong [OF refl]) (use assms(1) in \<open>simp add: delivered_args [where canon = canon] del: map_map\<close>)
    finally show ?thesis .
  qed
  have inj: "j = i \<and> u = t" if "packet_key j u = packet_key i t" "name_ok j" "name_ok u" for j u
    using arg_cong [OF that(1), of "split_on (CHR '':'')"] packet_key_parts that(2,3) assms(3,4) by simp
  show "{m. \<exists>score. (packet_key i t, score, m) \<in> set (map (zadd_args F) (packet_writes ds))} =
      (\<lambda>d. json_dumps (PDict d)) ` {d. (i, d) \<in> packets_of ds t}"
  proof (intro set_eqI iffI)
    fix m assume "m \<in> {m. \<exists>score. (packet_key i t, score, m) \<in> set (map (zadd_args F) (packet_writes ds))}"
    then obtain x d where x: "x \<in> set ds" "\<not> isl (dl_outcome x)" "d \<in> set (dl_items x)" "packet_key (dl_iface x) (dl_task x) = packet_key i t"
        "m = json_dumps (PDict d)"
      unfolding args by (auto simp: series_args_def simp del: json_dumps.simps split: if_splits)
    have "dl_iface x = i \<and> dl_task x = t" using inj [OF x(4)] assms(2) x(1) by blast
    then have "(i, d) \<in> packets_of ds t" using x by (auto simp: packets_of_def)
    then show "m \<in> (\<lambda>d. json_dumps (PDict d)) ` {d. (i, d) \<in> packets_of ds t}" unfolding x(5) by blast
  next
    fix m assume "m \<in> (\<lambda>d. json_dumps (PDict d)) ` {d. (i, d) \<in> packets_of ds t}"
    then obtain d x where x: "x \<in> set ds" "dl_task x = t" "dl_iface x = i" "\<not> isl (dl_outcome x)" "d \<in> set (dl_items x)"
        "m = json_dumps (PDict d)" by (auto simp: packets_of_def)
    have "series_args F (packet_key i t) d \<in> set (map (zadd_args F) (packet_writes ds))"
      unfolding args using x by auto
    then show "m \<in> {m. \<exists>score. (packet_key i t, score, m) \<in> set (map (zadd_args F) (packet_writes ds))}"
      unfolding x(6) series_args_def by blast
  qed
  assume "k \<in> fst ` set (map (zadd_args F) (packet_writes ds))"
  then obtain x d where x: "x \<in> set ds" "\<not> isl (dl_outcome x)" "d \<in> set (dl_items x)" "k = packet_key (dl_iface x) (dl_task x)"
    unfolding args by (auto simp: series_args_def simp del: json_dumps.simps split: if_splits)
  moreover have "(dl_iface x, d) \<in> packets_of ds (dl_task x)" using x by (auto simp: packets_of_def)
  ultimately show "\<exists>j u. k = packet_key j u \<and> name_ok j \<and> name_ok u \<and> (\<exists>d. (j, d) \<in> packets_of ds u)"
    using assms(2) by blast
qed

context redis_store
begin

lemma packet_keys:
  assumes "\<forall>x\<in>set ds. \<forall>d\<in>set (dl_items x). report_ok canon F d"
    and "\<forall>x\<in>set ds. name_ok (dl_iface x) \<and> name_ok (dl_task x)" and "name_ok t"
  shows "set (keys (zadd_all empty (map (zadd_args F) (packet_writes ds))) (packet_key ''*'' t)) =
    (\<lambda>i. packet_key i t) ` fst ` packets_of ds t"
proof -
  let ?es = "map (zadd_args F) (packet_writes ds)"
  have names: "name_ok i" if "(i, d) \<in> packets_of ds t" for i d using that assms(2) by (auto simp: packets_of_def)
  have kept: "zrange (zadd_all empty ?es) k \<noteq> [] \<longleftrightarrow> {m. \<exists>score. (k, score, m) \<in> set ?es} \<noteq> {}" for k
  proof -
    have "fst ` set (zrange (zadd_all empty ?es) k) = {m. \<exists>score. (k, score, m) \<in> set ?es}"
      using zadd_all_members [of empty ?es k] unfolding zrange_empty by simp
    then show ?thesis by (metis image_is_empty set_empty)
  qed
  show ?thesis
  proof (rule set_eqI, rule iffI)
    fix k assume "k \<in> set (keys (zadd_all empty ?es) (packet_key ''*'' t))"
    then have k: "{m. \<exists>score. (k, score, m) \<in> set ?es} \<noteq> {}" "glob (packet_key ''*'' t) k"
      unfolding keys_match kept by blast+
    then obtain score m where "(k, score, m) \<in> set ?es" by blast
    then have "k \<in> fst ` set ?es" by (rule image_eqI [rotated]) simp
    then obtain j u d where j: "k = packet_key j u" "name_ok j" "name_ok u" "(j, d) \<in> packets_of ds u"
      using packet_members(2) [OF assms(1,2,3,3)] by blast
    have "u = t" using k(2) packet_key_glob [OF j(2,3) assms(3)] j(1) by simp
    then show "k \<in> (\<lambda>i. packet_key i t) ` fst ` packets_of ds t" using j by force
  next
    fix k assume "k \<in> (\<lambda>i. packet_key i t) ` fst ` packets_of ds t"
    then obtain i d where i: "k = packet_key i t" "(i, d) \<in> packets_of ds t" by auto
    have "{m. \<exists>score. (k, score, m) \<in> set ?es} \<noteq> {}"
      unfolding i(1) packet_members(1) [OF assms(1,2) names [OF i(2)] assms(3)] using i(2) by blast
    moreover have "glob (packet_key ''*'' t) k" using packet_key_glob [OF names [OF i(2)] assms(3,3)] i(1) by simp
    ultimately show "k \<in> set (keys (zadd_all empty ?es) (packet_key ''*'' t))" unfolding keys_match kept by blast
  qed
qed

end

lemma finite_packets: "finite (packets_of ds t)"
proof -
  have "packets_of ds t \<subseteq> (\<Union>x\<in>set ds. Pair (dl_iface x) ` set (dl_items x))" by (auto simp: packets_of_def)
  then show ?thesis by (rule finite_subset) simp
qed

text \<open>The frames of the interfaces, joined: one row for each packet of the task.\<close>

lemma packet_frames_rows:
  assumes keys: "distinct ks" "set ks = (\<lambda>i. packet_key i t) ` fst ` P" and "finite P"
    and names: "\<forall>(i, d)\<in>P. name_ok i" "name_ok t"
    and each: "\<And>i. i \<in> fst ` P \<Longrightarrow> \<exists>f. get_zrange_df canon F rc (packet_key i t) = Inr f
      \<and> set (fr_rows f) = report_row F ` {d. (i, d) \<in> P} \<and> length (fr_rows f) = card {d. (i, d) \<in> P}"
  shows "\<exists>fs. get_packet_frames canon F rc ks = Inr fs \<and> (fs = [] \<longleftrightarrow> ks = [])
    \<and> set (concat (map fr_rows fs)) = packet_row F ` P \<and> length (concat (map fr_rows fs)) = card P"
proof -
  have iface: "split_on (CHR '':'') (packet_key i t) ! 2 = i" if "i \<in> fst ` P" for i
    using packet_key_parts [of i t] names that by (auto simp: numeral_eq_Suc)
  have inj: "inj_on (\<lambda>i. packet_key i t) (fst ` P)"
    by (rule inj_on_inverseI [where g = "\<lambda>k. split_on (CHR '':'') k ! 2"]) (rule iface)
  define frame where "frame k = set_col ''iface'' (\<lambda>r. Val (PStr (split_on (CHR '':'') k ! 2))) (projr (get_zrange_df canon F rc k))" for k
  have frame: "get_zrange_df canon F rc (packet_key i t) = Inr (projr (get_zrange_df canon F rc (packet_key i t)))
      \<and> set (fr_rows (frame (packet_key i t))) = (\<lambda>d. packet_row F (i, d)) ` {d. (i, d) \<in> P}
      \<and> length (fr_rows (frame (packet_key i t))) = card {d. (i, d) \<in> P}" if "i \<in> fst ` P" for i
    using each [OF \<open>i \<in> fst ` P\<close>] by (auto simp: frame_def iface [OF \<open>i \<in> fst ` P\<close>] packet_row_def image_image)
  have fs: "get_packet_frames canon F rc ks = Inr (map frame ks)"
    unfolding get_packet_frames_def
  proof (rule mapR_total)
    fix k assume "k \<in> set ks"
    then obtain i where i: "i \<in> fst ` P" "k = packet_key i t" using keys(2) by blast
    from frame [OF i(1)] obtain f where "get_zrange_df canon F rc k = Inr f" unfolding i(2) by blast
    then show "bindR (get_zrange_df canon F rc k) (\<lambda>f. Inr (set_col ''iface'' (\<lambda>r. Val (PStr (split_on (CHR '':'') k ! 2))) f)) = Inr (frame k)"
      by (simp add: frame_def)
  qed
  have "set (concat (map fr_rows (map frame ks))) = (\<Union>i\<in>fst ` P. set (fr_rows (frame (packet_key i t))))"
    by (simp add: keys(2))
  also have "\<dots> = (\<Union>i\<in>fst ` P. (\<lambda>d. packet_row F (i, d)) ` {d. (i, d) \<in> P})"
    by (rule SUP_cong [OF refl]) (use frame in blast)
  also have "\<dots> = packet_row F ` P" by force
  finally have rows: "set (concat (map fr_rows (map frame ks))) = packet_row F ` P" .
  have "length (concat (map fr_rows (map frame ks))) = (\<Sum>k\<leftarrow>ks. length (fr_rows (frame k)))"
    by (simp add: length_concat o_def)
  also have "\<dots> = (\<Sum>k\<in>set ks. length (fr_rows (frame k)))" using keys(1) by (rule sum_list_distinct_conv_sum_set)
  also have "\<dots> = (\<Sum>i\<in>fst ` P. length (fr_rows (frame (packet_key i t))))" unfolding keys(2) by (simp add: sum.reindex [OF inj])
  also have "\<dots> = (\<Sum>i\<in>fst ` P. card {d. (i, d) \<in> P})" by (rule sum.cong [OF refl]) (use frame in blast)
  also have "\<dots> = card (Sigma (fst ` P) (\<lambda>i. {d. (i, d) \<in> P}))"
  proof (rule card_SigmaI [symmetric])
    show "finite (fst ` P)" using assms(3) by simp
    have "{d. (i, d) \<in> P} \<subseteq> snd ` P" for i by force
    then show "\<forall>i\<in>fst ` P. finite {d. (i, d) \<in> P}" using assms(3) by (meson finite_imageI finite_subset)
  qed
  also have "Sigma (fst ` P) (\<lambda>i. {d. (i, d) \<in> P}) = P" by force
  finally show ?thesis using fs rows by (intro exI [of _ "map frame ks"]) simp
qed

text \<open>
  C13. The packets that the report shows of a task are exactly those that the packet monitors of its node delivered with success, for
  every interface and each once, with their fields, their interface and their time as the date, in the order of the
  dates; batches that failed and the packets of the other tasks leave no trace.
\<close>

theorem packets_reported:
  assumes "redis_store new_store zadd zrange keys" and "pandas_laws F pd"
    and names: "\<forall>x\<in>set ds. name_ok (dl_iface x) \<and> name_ok (dl_task x)" "name_ok task"
    and ok: "\<forall>x\<in>set ds. \<forall>d\<in>set (dl_items x). report_ok canon F d"
    and rc: "rc = client_of zrange keys (redis_store.zadd_all zadd new_store (map (zadd_args F) (packet_writes ds)))"
  shows "if packets_of ds task = {} then get_packet_df canon F pd rc task = Inr None
    else \<exists>f. get_packet_df canon F pd rc task = Inr (Some f) \<and> sorted (map row_date (fr_rows f))
      \<and> set (fr_rows f) = packet_row F ` packets_of ds task \<and> length (fr_rows f) = card (packets_of ds task)"
proof -
  let ?P = "packets_of ds task" and ?ks = "rc_keys rc (packet_key ''*'' task)"
  have pnames: "\<forall>(i, d)\<in>?P. name_ok i" using names(1) by (auto simp: packets_of_def)
  have ks: "set ?ks = (\<lambda>i. packet_key i task) ` fst ` ?P" "distinct ?ks"
    unfolding rc client_of_def redis_client.simps
    by (rule redis_store.packet_keys [OF assms(1) ok names]) (rule redis_store.keys_distinct [OF assms(1)])
  have each: "\<exists>f. get_zrange_df canon F rc (packet_key i task) = Inr f
      \<and> set (fr_rows f) = report_row F ` {d. (i, d) \<in> ?P} \<and> length (fr_rows f) = card {d. (i, d) \<in> ?P}" if "i \<in> fst ` ?P" for i
  proof -
    have i: "name_ok i" using that pnames by auto
    have members: "fst ` set (rc_zrange rc (packet_key i task)) = (\<lambda>d. json_dumps (PDict d)) ` {d. (i, d) \<in> ?P}"
      unfolding rc client_of_def redis_client.simps redis_store.zadd_all_members [OF assms(1)] redis_store.zrange_empty [OF assms(1)]
        packet_members(1) [OF ok names(1) i names(2)] by simp
    have "\<forall>d\<in>{d. (i, d) \<in> ?P}. report_ok canon F d" using ok by (auto simp: packets_of_def)
    moreover have "distinct (map fst (rc_zrange rc (packet_key i task)))"
      unfolding rc client_of_def redis_client.simps by (rule redis_store.zrange_distinct [OF assms(1)])
    ultimately show ?thesis using read_members [OF _ members] by blast
  qed
  obtain fs where fs: "get_packet_frames canon F rc ?ks = Inr fs" "fs = [] \<longleftrightarrow> ?ks = []"
      "set (concat (map fr_rows fs)) = packet_row F ` ?P" "length (concat (map fr_rows fs)) = card ?P"
    using packet_frames_rows [OF ks(2,1) finite_packets pnames names(2) each] by blast
  have none: "?ks = [] \<longleftrightarrow> ?P = {}" using ks(1) by (metis image_is_empty set_empty)
  show ?thesis
  proof (cases "?P = {}")
    case True
    then show ?thesis using none by (simp add: get_packet_df_def packet_key_def)
  next
    case False
    then have ne: "?ks \<noteq> []" "fs \<noteq> []" using none fs(2) by simp_all
    define f where "f = \<lparr>fr_cols = remdups (concat (map fr_cols fs)), fr_rows = concat (map fr_rows fs)\<rparr>"
    have get: "get_packet_df canon F pd rc task = Inr (Some (pd_sort_index pd f))"
      using fs(1) ne unfolding get_packet_df_def packet_key_def [symmetric] f_def by (simp add: concat_frames_def Let_def)
    have rows: "mset (fr_rows (pd_sort_index pd f)) = mset (concat (map fr_rows fs))"
      using pandas_laws.sort_rows [OF assms(2), of f] by (simp add: f_def)
    have "set (fr_rows (pd_sort_index pd f)) = packet_row F ` ?P" using arg_cong [OF rows, of set_mset] fs(3) by simp
    moreover have "length (fr_rows (pd_sort_index pd f)) = card ?P" using arg_cong [OF rows, of size] fs(4) by simp
    ultimately show ?thesis using get pandas_laws.sort_dates [OF assms(2), of f] False by simp
  qed
qed

definition demo_captured :: "int \<Rightarrow> py dict" where
  "demo_captured n = [(''time'', PInt n), (''src'', PStr ''10.0.0.2''), (''len'', PInt 60)]"

definition demo_delivery :: "string \<Rightarrow> string \<Rightarrow> unit res \<Rightarrow> py dict list \<Rightarrow> delivery" where
  "demo_delivery t i r ps = \<lparr>dl_task = t, dl_iface = i, dl_now = PInt 0, dl_outcome = r, dl_items = ps\<rparr>"

theorem packets_reported_witness:
  "\<exists>f. get_packet_df (\<lambda>s. s) demo_report_floats (list_pandas demo_report_floats)
       (client_of zlog_range zlog_keys (redis_store.zadd_all zlog_add [] (map (zadd_args demo_report_floats) (packet_writes
         [demo_delivery ''cam'' ''eth0'' (Inr ()) [demo_captured 2, demo_captured 1], demo_delivery ''cam'' ''eth1'' (Inr ()) [demo_captured 1],
          demo_delivery ''cam'' ''eth0'' (Inl TimeoutError) [demo_captured 3], demo_delivery ''x'' ''eth0'' (Inr ()) [demo_captured 4]])))) ''cam'' = Inr (Some f)
     \<and> length (fr_rows f) = 3"
proof -
  let ?ds = "[demo_delivery ''cam'' ''eth0'' (Inr ()) [demo_captured 2, demo_captured 1], demo_delivery ''cam'' ''eth1'' (Inr ()) [demo_captured 1],
    demo_delivery ''cam'' ''eth0'' (Inl TimeoutError) [demo_captured 3], demo_delivery ''x'' ''eth0'' (Inr ()) [demo_captured 4]]"
  have names: "\<forall>x\<in>set ?ds. name_ok (dl_iface x) \<and> name_ok (dl_task x)" "name_ok ''cam''"
    by (simp_all add: demo_delivery_def name_ok_def)
  have ok: "\<forall>x\<in>set ?ds. \<forall>d\<in>set (dl_items x). report_ok (\<lambda>s. s) demo_report_floats d"
    by (simp add: demo_delivery_def demo_captured_def report_ok_def dict_ok_def dget_Cons)
  have P: "packets_of ?ds ''cam'' = {(''eth0'', demo_captured 2), (''eth0'', demo_captured 1), (''eth1'', demo_captured 1)}"
    by (auto simp: packets_of_def demo_delivery_def)
  have "card (packets_of ?ds ''cam'') = 3" unfolding P by (simp add: demo_captured_def)
  then show ?thesis
    using packets_reported [OF zlog.redis_store_axioms lp.pandas_laws_axioms names ok refl] by (auto simp: P)
qed

end
