(* ===== verification/Entrypoint.thy ===== *)
theory Entrypoint
  imports Cli Chaos
begin

text \<open>
  \<^verbatim>\<open>entrypoint.sh\<close>, the program of every container, between the command that a Compose file gives to the container
  (\<open>Compose\<close>) and the functions that the command line calls (\<open>Cli\<close>). What click does with the words of a
  command line is the locale \<open>click_parser\<close>.
\<close>

section \<open>The script\<close>

text \<open>
  An unquoted expansion is split at blanks, tabs and newlines. Its values here are numbers, so that the expansion of
  patterns is left out.
\<close>

definition is_ifs :: "char \<Rightarrow> bool" where
  "is_ifs c = (c \<in> {CHR '' '', CHR 0x09, CHR 0x0A})"

fun split_words :: "string \<Rightarrow> string \<Rightarrow> string list" where
  "split_words cur [] = (if cur = [] then [] else [cur])"
| "split_words cur (c # cs) =
     (if is_ifs c then (if cur = [] then [] else [cur]) @ split_words [] cs else split_words (cur @ [c]) cs)"

definition shell_words :: "string \<Rightarrow> string list" where
  "shell_words s = split_words [] s"

text \<open>What the script runs: \<open>wotemu\<close> with its arguments, a pause, and in the end the program that replaces it.\<close>

datatype entry_step = Wotemu "string list" | EntrySleep "string list" | ExecProgram "string list"

definition wait_init :: entry_step where
  "wait_init = Wotemu [''wait'', ''--waiter-base'']"

definition wait_gateways :: "string \<Rightarrow> entry_step" where
  "wait_gateways secs = EntrySleep (shell_words secs)"

definition wait_brokers :: entry_step where
  "wait_brokers = Wotemu [''wait'', ''--waiter-mqtt'']"

definition route_apply :: entry_step where
  "route_apply = Wotemu [''route'', ''--apply'']"

definition update_cpu_limits :: "environ \<Rightarrow> entry_step list" where
  "update_cpu_limits env =
     (case env ''TARGET_CPU_SPEED'' of
        None \<Rightarrow> []
      | Some speed \<Rightarrow> if speed = [] then [] else [Wotemu (''limits'' # ''--speed'' # shell_words speed)])"

definition entry_app :: "string list \<Rightarrow> entry_step" where
  "entry_app args = ExecProgram (''wotemu'' # ''app'' # args)"

definition entry_broker :: entry_step where
  "entry_broker = ExecProgram [''wotemu'', ''broker'']"

definition entry_chaos :: "string list \<Rightarrow> entry_step" where
  "entry_chaos args = ExecProgram (''wotemu'' # ''chaos'' # concat (map (\<lambda>var. [''--netem'', var]) args))"

definition entry_steps :: "environ \<Rightarrow> string list \<Rightarrow> entry_step list res" where
  "entry_steps env args =
     (case env ''WAIT_GATEWAYS'' of
        None \<Rightarrow> Inl (SystemExit 1)
      | Some secs \<Rightarrow>
          if secs = [] then Inl (SystemExit 1)
          else Inr (case args of
              [] \<Rightarrow> [ExecProgram []]
            | cmd # rest \<Rightarrow>
                if cmd = ''app'' then [wait_init, wait_gateways secs, route_apply, wait_brokers] @ update_cpu_limits env @ [entry_app rest]
                else if cmd = ''broker'' then [wait_init, wait_gateways secs, route_apply] @ update_cpu_limits env @ [entry_broker]
                else if cmd = ''gateway'' then [wait_init, entry_chaos rest]
                else [ExecProgram args]))"

text \<open>
  With \<open>set -e\<close> the script ends at the first step with another status than 0. The state is the list of the steps
  that were run.
\<close>

fun run_entry :: "(entry_step list \<Rightarrow> entry_step \<Rightarrow> int) \<Rightarrow> entry_step list \<Rightarrow> entry_step list \<Rightarrow> int \<times> entry_step list" where
  "run_entry status [] past = (0, past)"
| "run_entry status (s # ss) past =
     (let code = status past s in if code = 0 then run_entry status ss (past @ [s]) else (code, past @ [s]))"

text \<open>The environment that the image sets, under that of the service.\<close>

definition image_environ :: "environ \<Rightarrow> environ" where
  "image_environ env = (\<lambda>k. case env k of Some v \<Rightarrow> Some v | None \<Rightarrow> if k = ''WAIT_GATEWAYS'' then Some ''20'' else None)"

section \<open>The words of a command line\<close>

text \<open>The words that an option takes, and what they are converted to; none, when they cannot be.\<close>

fun option_arity :: "cli_type \<Rightarrow> nat" where
  "option_arity FlagArg = 0"
| "option_arity PairArg = 2"
| "option_arity _ = 1"

fun convert_words :: "cli_type \<Rightarrow> string list \<Rightarrow> py option" where
  "convert_words FlagArg [] = Some (PBool True)"
| "convert_words TextArg [v] = Some (PStr v)"
| "convert_words IntArg [v] = map_option PInt (py_int v)"
| "convert_words PairArg [v, w] = Some (PList [PStr v, PStr w])"
| "convert_words _ _ = None"

definition find_option :: "cli_option list \<Rightarrow> string \<Rightarrow> cli_option option" where
  "find_option opts name = find (\<lambda>o1. co_name o1 = name) opts"

type_synonym option_group = "string \<times> string list"

definition render_groups :: "option_group list \<Rightarrow> string list" where
  "render_groups gs = concat (map (\<lambda>(name, ws). name # ws) gs)"

definition group_fits :: "cli_option list \<Rightarrow> option_group \<Rightarrow> bool" where
  "group_fits opts g =
     (case find_option opts (fst g) of
        None \<Rightarrow> False
      | Some o1 \<Rightarrow> co_type o1 \<noteq> FloatArg \<and> length (snd g) = option_arity (co_type o1))"

definition group_value :: "cli_option list \<Rightarrow> option_group \<Rightarrow> py option" where
  "group_value opts g =
     (case find_option opts (fst g) of None \<Rightarrow> None | Some o1 \<Rightarrow> convert_words (co_type o1) (snd g))"

definition given_by :: "cli_option list \<Rightarrow> option_group list \<Rightarrow> string \<Rightarrow> py option" where
  "given_by opts gs name =
     (case find_option opts name of
        None \<Rightarrow> None
      | Some o1 \<Rightarrow>
          (let vs = map (\<lambda>g. the (group_value opts g)) (filter (\<lambda>g. fst g = name) gs)
           in if vs = [] then None else if co_multiple o1 then Some (PList vs) else Some (last vs)))"

text \<open>
  What click's documentation says of a command line that consists of options: each option takes its number of words,
  the last value of an option counts unless it collects them, and a value that cannot be converted is a usage error.
\<close>

locale click_parser =
  fixes parse :: "cli_option list \<Rightarrow> string list \<Rightarrow> (string \<Rightarrow> py option) res"
  assumes parse_groups: "\<forall>g\<in>set gs. group_fits opts g \<Longrightarrow>
    parse opts (render_groups gs) =
      (if \<forall>g\<in>set gs. group_value opts g \<noteq> None then Inr (given_by opts gs) else Inl (SystemExit 2))"

text \<open>A parser that does so.\<close>

fun parse_words :: "cli_option list \<Rightarrow> string list \<Rightarrow> option_group list option" where
  "parse_words opts [] = Some []"
| "parse_words opts (w # ws) =
     (case find_option opts w of
        None \<Rightarrow> None
      | Some o1 \<Rightarrow>
          (let n = option_arity (co_type o1)
           in if length ws < n then None else map_option (Cons (w, take n ws)) (parse_words opts (drop n ws))))"

definition click_words :: "cli_option list \<Rightarrow> string list \<Rightarrow> (string \<Rightarrow> py option) res" where
  "click_words opts ws =
     (case parse_words opts ws of
        None \<Rightarrow> Inl (SystemExit 2)
      | Some gs \<Rightarrow> if list_all (\<lambda>g. group_value opts g \<noteq> None) gs then Inr (given_by opts gs) else Inl (SystemExit 2))"

lemma parse_render: "\<forall>g\<in>set gs. group_fits opts g \<Longrightarrow> parse_words opts (render_groups gs) = Some gs"
proof (induction gs)
  case Nil
  then show ?case by (simp add: render_groups_def)
next
  case (Cons g gs)
  obtain name ws where g: "g = (name, ws)" by (cases g)
  obtain o1 where "find_option opts name = Some o1" "length ws = option_arity (co_type o1)"
    using Cons.prems by (auto simp: g group_fits_def split: option.splits)
  moreover have "render_groups (g # gs) = name # ws @ render_groups gs" by (simp add: render_groups_def g)
  ultimately show ?case using Cons by (simp add: g)
qed

interpretation words: click_parser click_words
  by unfold_locales (auto simp: click_words_def parse_render list_all_iff)

section \<open>The commands of the containers\<close>

definition app_groups :: "node_app \<Rightarrow> option_group list" where
  "app_groups a =
     (''--path'', [path_value (app_raw_path a)])
     # map (\<lambda>(k, v). (''--func-param'', [k, py_str v])) (app_params a)
     @ map (\<lambda>f. (snd f, [])) (filter fst (protocol_flags a))"

lemma app_args_groups: "app_args a = render_groups (app_groups a)"
proof -
  have "map snd xs = concat (map (\<lambda>f. [snd f]) xs)" for xs :: "(bool \<times> string) list" by (induction xs) simp_all
  then show ?thesis by (simp add: app_args_def app_groups_def render_groups_def o_def case_prod_unfold)
qed

text \<open>The options as they are found by their names.\<close>

lemma find_run_options [simp]:
  "find_option run_options ''--path'' = Some (option_required ''--path'' TextArg)"
  "find_option run_options ''--func'' = Some (option_with ''--func'' TextArg (PStr ''app''))"
  "find_option run_options ''--func-param'' = Some (option_multiple ''--func-param'' PairArg)"
  "find_option run_options ''--hostname'' = Some (option_with ''--hostname'' TextArg PNone)"
  "find_option run_options ''--enable-http'' = Some (option_flag ''--enable-http'')"
  "find_option run_options ''--enable-coap'' = Some (option_flag ''--enable-coap'')"
  "find_option run_options ''--enable-mqtt'' = Some (option_flag ''--enable-mqtt'')"
  "find_option run_options ''--enable-ws'' = Some (option_flag ''--enable-ws'')"
  "find_option run_options ''--disable-monitor'' = Some (option_flag ''--disable-monitor'')"
  by (simp_all add: find_option_def run_options_def option_with_def option_required_def option_multiple_def option_flag_def)

lemma option_fields [simp]:
  "co_type (option_with n ty d) = ty" "co_type (option_required n ty) = ty" "co_type (option_multiple n ty) = ty"
  "co_type (option_flag n) = FlagArg" "\<not> co_multiple (option_with n ty d)" "\<not> co_multiple (option_required n ty)"
  "co_multiple (option_multiple n ty)" "\<not> co_multiple (option_flag n)"
  by (simp_all add: option_with_def option_required_def option_multiple_def option_flag_def)

definition group_ok :: "cli_option list \<Rightarrow> option_group \<Rightarrow> bool" where
  "group_ok opts g = (group_fits opts g \<and> group_value opts g \<noteq> None)"

lemma app_groups_ok: "list_all (group_ok run_options) (app_groups a)"
proof -
  have "list_all (\<lambda>f. group_ok run_options (snd f, [])) (protocol_flags a)"
    by (simp add: protocol_flags_def group_ok_def group_fits_def group_value_def)
  then have "list_all (group_ok run_options) (map (\<lambda>f. (snd f, [])) (filter fst (protocol_flags a)))"
    by (auto simp: list_all_iff)
  moreover have "list_all (group_ok run_options) (map (\<lambda>(k, v). (''--func-param'', [k, py_str v])) ps)" for ps
    by (induction ps) (auto simp: group_ok_def group_fits_def group_value_def)
  ultimately show ?thesis
    unfolding app_groups_def by (simp add: group_ok_def group_fits_def group_value_def)
qed

lemma filter_params: "filter (\<lambda>g. fst g = name) (map (\<lambda>(k, v). (opt, ws k v)) ps) = (if opt = name then map (\<lambda>(k, v). (opt, ws k v)) ps else [])"
  by (induction ps) auto

lemma given_app:
  "given_by run_options (app_groups a) ''--path'' = Some (PStr (path_value (app_raw_path a)))"
  "given_by run_options (app_groups a) ''--func'' = None"
  "given_by run_options (app_groups a) ''--hostname'' = None"
  "given_by run_options (app_groups a) ''--disable-monitor'' = None"
  "given_by run_options (app_groups a) ''--func-param'' =
     (if app_params a = [] then None else Some (PList (map (\<lambda>(k, v). PList [PStr k, PStr (py_str v)]) (app_params a))))"
  "given_by run_options (app_groups a) ''--enable-http'' = (if enabled_http a then Some (PBool True) else None)"
  "given_by run_options (app_groups a) ''--enable-ws'' = (if enabled_ws a then Some (PBool True) else None)"
  "given_by run_options (app_groups a) ''--enable-mqtt'' = (if enabled_mqtt a then Some (PBool True) else None)"
  "given_by run_options (app_groups a) ''--enable-coap'' = (if enabled_coap a then Some (PBool True) else None)"
  by (simp_all add: given_by_def app_groups_def protocol_flags_def group_value_def Let_def filter_params o_def case_prod_unfold)

text \<open>The keyword arguments of \<open>run_app\<close> for an application of a topology.\<close>

definition app_call :: "node_app \<Rightarrow> py dict" where
  "app_call a =
     [(''path'', PStr (path_value (app_raw_path a))), (''func'', PStr ''app''),
      (''func_param'', PList (map (\<lambda>(k, v). PList [PStr k, PStr (py_str v)]) (app_params a))), (''hostname'', PNone),
      (''enable_http'', PBool (enabled_http a)), (''enable_coap'', PBool (enabled_coap a)),
      (''enable_mqtt'', PBool (enabled_mqtt a)), (''enable_ws'', PBool (enabled_ws a)), (''disable_monitor'', PBool False)]"

lemma option_value_simps [simp]:
  "option_value given (option_with n ty d) =
     Inr (option_dest (option_with n ty d), case given n of Some v \<Rightarrow> v | None \<Rightarrow> d)"
  "option_value given (option_flag n) =
     Inr (option_dest (option_flag n), case given n of Some v \<Rightarrow> v | None \<Rightarrow> PBool False)"
  "option_value given (option_multiple n ty) =
     Inr (option_dest (option_multiple n ty), case given n of Some v \<Rightarrow> v | None \<Rightarrow> PList [])"
  "option_value given (option_required n ty) =
     (case given n of Some v \<Rightarrow> Inr (option_dest (option_required n ty), v) | None \<Rightarrow> Inl (SystemExit 2))"
  by (simp_all add: option_value_def option_with_def option_required_def option_multiple_def option_flag_def split: option.split)

lemma run_dests [simp]:
  "option_dest (option_required ''--path'' ty) = ''path''" "option_dest (option_with ''--func'' ty d) = ''func''"
  "option_dest (option_multiple ''--func-param'' ty) = ''func_param''" "option_dest (option_with ''--hostname'' ty d) = ''hostname''"
  "option_dest (option_flag ''--enable-http'') = ''enable_http''" "option_dest (option_flag ''--enable-coap'') = ''enable_coap''"
  "option_dest (option_flag ''--enable-mqtt'') = ''enable_mqtt''" "option_dest (option_flag ''--enable-ws'') = ''enable_ws''"
  "option_dest (option_flag ''--disable-monitor'') = ''disable_monitor''"
  by (simp_all add: option_dest_def option_with_def option_required_def option_multiple_def option_flag_def)

lemma app_kwargs_call: "command_kwargs CmdApp (given_by run_options (app_groups a)) = Inr (app_call a)"
  by (simp add: command_kwargs_def run_options_def [abs_def] given_app [unfolded run_options_def] app_call_def)

section \<open>What a step calls\<close>

fun command_name :: "cli_command \<Rightarrow> string" where
  "command_name CmdRoute = ''route''"
| "command_name CmdChaos = ''chaos''"
| "command_name CmdApp = ''app''"
| "command_name CmdCompose = ''compose''"
| "command_name CmdLimits = ''limits''"
| "command_name CmdWait = ''wait''"
| "command_name CmdBroker = ''broker''"
| "command_name CmdStop = ''stop''"
| "command_name CmdReport = ''report''"

definition cli_commands :: "cli_command list" where
  "cli_commands = [CmdRoute, CmdChaos, CmdApp, CmdCompose, CmdLimits, CmdWait, CmdBroker, CmdStop, CmdReport]"

text \<open>The command and its keyword arguments, or the usage error.\<close>

definition wotemu_call ::
  "(cli_option list \<Rightarrow> string list \<Rightarrow> (string \<Rightarrow> py option) res) \<Rightarrow> string \<Rightarrow> string list \<Rightarrow> (cli_command \<times> py dict) res" where
  "wotemu_call parse name ws =
     (case find (\<lambda>c. command_name c = name) cli_commands of
        None \<Rightarrow> Inl (SystemExit 2)
      | Some c \<Rightarrow>
          bindR (parse (command_options c) ws) (\<lambda>given. bindR (command_kwargs c given) (\<lambda>kw. Inr (c, kw))))"

fun step_call ::
  "(cli_option list \<Rightarrow> string list \<Rightarrow> (string \<Rightarrow> py option) res) \<Rightarrow> entry_step \<Rightarrow> (cli_command \<times> py dict) res option" where
  "step_call parse (Wotemu (name # ws)) = Some (wotemu_call parse name ws)"
| "step_call parse (ExecProgram (prg # name # ws)) = (if prg = ''wotemu'' then Some (wotemu_call parse name ws) else None)"
| "step_call parse _ = None"

text \<open>The keyword arguments of the commands that the script runs.\<close>

definition wait_call :: "bool \<Rightarrow> bool \<Rightarrow> py dict" where
  "wait_call base mqtt =
     [(''sleep'', PFloat ''1.0''), (''timeout'', PFloat ''60.0''), (''waiter_base'', PBool base), (''waiter_mqtt'', PBool mqtt)]"

definition route_call :: "py dict" where
  "route_call = [(''rtable_name'', PStr ''wotemu''), (''rtable_mark'', PInt 1), (''apply'', PBool True)]"

definition limits_call :: "int \<Rightarrow> py dict" where
  "limits_call speed =
     [(''docker_url'', PStr default_docker_sock), (''speed'', PInt speed), (''timeout'', PInt 300), (''wait'', PInt 2),
      (''local'', PBool False)]"

definition chaos_call :: "string list \<Rightarrow> py dict" where
  "chaos_call args = [(''netem'', PList (map PStr args))]"

lemma find_commands:
  "find (\<lambda>c. command_name c = ''wait'') cli_commands = Some CmdWait"
  "find (\<lambda>c. command_name c = ''route'') cli_commands = Some CmdRoute"
  "find (\<lambda>c. command_name c = ''limits'') cli_commands = Some CmdLimits"
  "find (\<lambda>c. command_name c = ''app'') cli_commands = Some CmdApp"
  "find (\<lambda>c. command_name c = ''broker'') cli_commands = Some CmdBroker"
  "find (\<lambda>c. command_name c = ''chaos'') cli_commands = Some CmdChaos"
  by (simp_all add: cli_commands_def)

lemmas group_defs = group_ok_def group_fits_def group_value_def find_option_def
lemmas kwargs_defs = command_kwargs_def given_by_def group_value_def find_option_def option_value_def option_defs

context click_parser
begin

lemma parse_ok: "list_all (group_ok opts) gs \<Longrightarrow> parse opts (render_groups gs) = Inr (given_by opts gs)"
  using parse_groups [of gs opts] by (auto simp: group_ok_def list_all_iff)

lemma call_ok:
  assumes "find (\<lambda>c. command_name c = name) cli_commands = Some c" and "list_all (group_ok (command_options c)) gs"
    and "command_kwargs c (given_by (command_options c) gs) = Inr kw"
  shows "wotemu_call parse name (render_groups gs) = Inr (c, kw)"
  using assms by (simp add: wotemu_call_def parse_ok)

lemma call_app: "wotemu_call parse ''app'' (app_args a) = Inr (CmdApp, app_call a)"
  unfolding app_args_groups
  by (rule call_ok) (simp_all add: find_commands app_groups_ok app_kwargs_call)

lemma call_wait_base: "wotemu_call parse ''wait'' [''--waiter-base''] = Inr (CmdWait, wait_call True False)"
proof -
  have "wotemu_call parse ''wait'' (render_groups [(''--waiter-base'', [])]) = Inr (CmdWait, wait_call True False)"
    by (rule call_ok) (simp_all add: find_commands group_defs option_defs kwargs_defs wait_call_def)
  then show ?thesis by (simp add: render_groups_def)
qed

lemma call_wait_mqtt: "wotemu_call parse ''wait'' [''--waiter-mqtt''] = Inr (CmdWait, wait_call False True)"
proof -
  have "wotemu_call parse ''wait'' (render_groups [(''--waiter-mqtt'', [])]) = Inr (CmdWait, wait_call False True)"
    by (rule call_ok) (simp_all add: find_commands group_defs option_defs kwargs_defs wait_call_def)
  then show ?thesis by (simp add: render_groups_def)
qed

lemma call_route: "wotemu_call parse ''route'' [''--apply''] = Inr (CmdRoute, route_call)"
proof -
  have "wotemu_call parse ''route'' (render_groups [(''--apply'', [])]) = Inr (CmdRoute, route_call)"
    by (rule call_ok) (simp_all add: find_commands group_defs option_defs kwargs_defs route_call_def)
  then show ?thesis by (simp add: render_groups_def)
qed

lemma call_broker: "wotemu_call parse ''broker'' [] = Inr (CmdBroker, [(''disable_monitor'', PBool False)])"
proof -
  have "wotemu_call parse ''broker'' (render_groups []) = Inr (CmdBroker, [(''disable_monitor'', PBool False)])"
    by (rule call_ok) (simp_all add: find_commands kwargs_defs)
  then show ?thesis by (simp add: render_groups_def)
qed

lemma call_limits:
  "wotemu_call parse ''limits'' [''--speed'', s] =
     (case py_int s of Some i \<Rightarrow> Inr (CmdLimits, limits_call i) | None \<Rightarrow> Inl (SystemExit 2))"
proof -
  have ws: "[''--speed'', s] = render_groups [(''--speed'', [s])]" by (simp add: render_groups_def)
  show ?thesis
  proof (cases "py_int s")
    case None
    have "parse limits_options (render_groups [(''--speed'', [s])]) = Inl (SystemExit 2)"
      using None parse_groups [of "[(''--speed'', [s])]" limits_options] by (simp add: group_defs option_defs)
    then show ?thesis using None by (simp add: ws wotemu_call_def find_commands)
  next
    case (Some i)
    have "wotemu_call parse ''limits'' (render_groups [(''--speed'', [s])]) = Inr (CmdLimits, limits_call i)"
      by (rule call_ok) (simp_all add: find_commands group_defs option_defs kwargs_defs limits_call_def default_docker_sock_def Some)
    then show ?thesis using Some by (simp add: ws)
  qed
qed

lemma call_chaos: "wotemu_call parse ''chaos'' (concat (map (\<lambda>var. [''--netem'', var]) args)) = Inr (CmdChaos, chaos_call args)"
proof -
  let ?gs = "map (\<lambda>var. (''--netem'', [var])) args"
  have "concat (map (\<lambda>var. [''--netem'', var]) args) = render_groups ?gs" by (simp add: render_groups_def o_def)
  moreover have "list_all (group_ok (command_options CmdChaos)) ?gs"
    by (induction args) (simp_all add: group_defs option_defs)
  moreover have "command_kwargs CmdChaos (given_by (command_options CmdChaos) ?gs) = Inr (chaos_call args)"
    by (cases args) (simp_all add: kwargs_defs chaos_call_def filter_map o_def Let_def)
  ultimately show ?thesis by (simp add: call_ok find_commands)
qed

lemmas calls = call_app call_wait_base call_wait_mqtt call_route call_broker call_limits call_chaos

end

end
