(* ===== verification/EntrypointProps.thy ===== *)
theory EntrypointProps
  imports Entrypoint TopologyProps
begin

text \<open>
  From a topology to the functions that run in its containers: the command and the environment that the Compose file
  gives to a container, through the script of the image and the command line.
\<close>

section \<open>The container of a service\<close>

text \<open>The environment of a service as its container sees it: Docker turns numbers into text.\<close>

definition service_environ :: "py \<Rightarrow> environ" where
  "service_environ v = (\<lambda>k.
     case v of
       PDict d \<Rightarrow>
         (case dget d ''environment'' of
            Some (PDict e) \<Rightarrow>
              (case dget e k of Some (PStr s) \<Rightarrow> Some s | Some (PInt i) \<Rightarrow> Some (int_str i) | Some (PFloat r) \<Rightarrow> Some r | _ \<Rightarrow> None)
          | _ \<Rightarrow> None)
     | _ \<Rightarrow> None)"

definition container_steps :: "py \<Rightarrow> entry_step list res" where
  "container_steps v = entry_steps (image_environ (service_environ v)) (service_refs ''command'' v)"

text \<open>Overrides that leave the command and the environment alone.\<close>

definition args_keep_start :: "py \<Rightarrow> bool" where
  "args_keep_start v =
     (\<not> truthy v \<or>
      (case v of PDict e \<Rightarrow> dget e ''command'' = None \<and> dget e ''environment'' = None | _ \<Rightarrow> False))"

text \<open>What \<open>always_merger\<close> does with a variable that is merged into an environment.\<close>

definition merge_sets_variable :: "merger \<Rightarrow> bool" where
  "merge_sets_variable merge \<longleftrightarrow>
     (\<forall>d e k v. dget d ''environment'' = Some (PDict e) \<longrightarrow>
        (\<exists>e'. dget (merge d (PDict [(''environment'', PDict [(k, v)])])) ''environment'' = Some (PDict e') \<and> dget e' k = Some v
          \<and> (\<forall>k'. k' \<noteq> k \<longrightarrow> dget e' k' = None \<or> dget e' k' = dget e k')))"

lemma shallow_sets_variable: "merge_sets_variable shallow_merge"
  by (simp add: merge_sets_variable_def shallow_merge_def dget_dset dget_Cons)

lemma merge_args_start:
  assumes "merge_keeps_other_keys merge" and "args_keep_start v" and "k \<in> {''command'', ''environment''}"
  shows "dget (merge_args merge d v) k = dget d k"
  using assms by (auto simp: merge_args_def args_keep_start_def merge_keeps_other_keys_def split: py.splits)

text \<open>None of the variables of the topology's configuration is one of the script.\<close>

lemma config_leaves_variable:
  assumes "merge_topology_config d t = Inr d'" and "k \<in> {''WAIT_GATEWAYS'', ''TARGET_CPU_SPEED''}"
    and "dget d ''environment'' = Some (PDict e)"
  shows "\<exists>e'. dget d' ''environment'' = Some (PDict e') \<and> dget e' k = dget e k"
proof -
  have d': "d' = dset d ''environment'' (PDict (dupdate e (str_config (topology_config t))))"
    using assms(1,3) by (simp add: merge_topology_config_def get_default_def)
  have "k \<notin> fst ` set (topology_config t)"
    using assms(2) by (auto simp: topology_config_entries ports_config_def redis_config_def docker_proxy_config_def)
  then have "k \<notin> fst ` set (str_config (topology_config t))" by (force simp: str_config_def)
  then have "map_of (rev (str_config (topology_config t))) k = None" by (simp add: map_of_eq_None_iff)
  then have "dget (dupdate e (str_config (topology_config t))) k = dget e k" by (simp add: dget_dupdate)
  then show ?thesis by (simp add: d' dget_dset)
qed

section \<open>Nodes\<close>

text \<open>The text of the target speed of a node, a number.\<close>

definition speed_text :: "node \<Rightarrow> string option" where
  "speed_text n =
     (case node_resources n of
        None \<Rightarrow> None
      | Some r \<Rightarrow> if truthy (res_target_cpu_speed r) then Some (py_str (res_target_cpu_speed r)) else None)"

definition speed_is_number :: "node \<Rightarrow> bool" where
  "speed_is_number n =
     (case node_resources n of
        None \<Rightarrow> True
      | Some r \<Rightarrow> (case res_target_cpu_speed r of PInt i \<Rightarrow> True | PFloat x \<Rightarrow> x \<noteq> [] \<and> list_all (\<lambda>c. \<not> is_ifs c) x | PNone \<Rightarrow> True | _ \<Rightarrow> False))"

lemma broker_variables:
  assumes "node_broker_parts n = Inr (bnets, bdeps, benv)"
  shows "set (dkeys benv) \<subseteq> {''MQTT_BROKER_HOST''}"
proof (cases "node_broker n")
  case None
  with assms show ?thesis by (simp add: node_broker_parts_def)
next
  case (Some b)
  show ?thesis
  proof (cases "broker_network n")
    case (Inr bn)
    then obtain m where "broker_network n = Inr (Some m)" using assms Some by (cases bn) (simp_all add: node_broker_parts_def)
    with assms Some show ?thesis by (cases "broker_host n") (auto simp: node_broker_parts_def)
  qed (use assms Some in \<open>simp add: node_broker_parts_def\<close>)
qed

lemma node_service:
  assumes "node_definition so env merge t n = Inr d" and merge: "merge_keeps_other_keys merge" "merge_sets_variable merge"
    and "args_keep_start (node_args_compose n)" and "speed_is_number n"
  shows "\<exists>v. d = [(node_name n, v)] \<and> service_refs ''command'' v = cmd_app n
    \<and> service_environ v ''WAIT_GATEWAYS'' = None \<and> service_environ v ''TARGET_CPU_SPEED'' = speed_text n"
proof -
  obtain bnets bdeps benv where parts: "node_broker_parts n = Inr (bnets, bdeps, benv)"
    using assms(1) by (auto simp: node_definition_def Let_def bindR_eq_Inr)
  define nets where "nets = (map net_name (node_networks n)
      @ map (\<lambda>s. node_network_name s n) (set_iter so srv_name (node_services n))) @ bnets"
  define deps where "deps = (map name_gateway (node_networks n) @ base_depends_on t) @ bdeps"
  define e where "e = dupdate environment_base benv"
  define s1 where "s1 = dupdate (service_base_wotemu WOTEMU_NODE)
       [(''image'', PStr (image_of env n)), (''command'', strs (cmd_app n)),
        (''networks'', strs (set_list so (\<lambda>s. s) nets)),
        (''depends_on'', strs (set_list so (\<lambda>s. s) deps)), (''environment'', PDict e)]"
  define s2 where "s2 = merge_cpu_speed merge s1 n"
  define s3 where "s3 = (if node_deploy n \<noteq> [] then dset s2 ''deploy'' (PDict (node_deploy n)) else s2)"
  obtain s5 where s5: "merge_topology_config (merge_args merge s3 (node_args_compose n)) t = Inr s5"
    "d = [(node_name n, PDict s5)]"
    using assms(1) parts unfolding s3_def s2_def s1_def nets_def deps_def e_def
    by (auto simp: node_definition_def Let_def bindR_eq_Inr simp del: dupdate.simps append_assoc)
  have s1: "dget s1 ''command'' = Some (strs (cmd_app n))" "dget s1 ''environment'' = Some (PDict e)"
    by (simp_all add: s1_def dget_dset)
  have "dget s5 ''command'' = dget s1 ''command''"
    using merge_topology_config_refs [OF s5(1), of "''command''"] merge_args_start [OF merge(1) assms(4), of "''command''"]
      merge_cpu_speed_refs [OF merge(1), of "''command''" s1 n]
    by (simp add: s3_def s2_def dget_dset)
  then have cmd: "service_refs ''command'' (PDict s5) = cmd_app n" by (simp add: service_refs_def s1(1))
  have "set (dkeys benv) \<subseteq> {''MQTT_BROKER_HOST''}" using broker_variables [OF parts] .
  then have "map_of (rev benv) ''WAIT_GATEWAYS'' = None" "map_of (rev benv) ''TARGET_CPU_SPEED'' = None"
    by (auto simp: map_of_eq_None_iff)
  then have base: "dget e ''WAIT_GATEWAYS'' = None" "dget e ''TARGET_CPU_SPEED'' = None"
    by (simp_all add: e_def dget_dupdate environment_base_def dget_Cons)
  obtain e2 where e2: "dget s2 ''environment'' = Some (PDict e2)" "dget e2 ''WAIT_GATEWAYS'' = None"
    "dget e2 ''TARGET_CPU_SPEED'' = (case node_resources n of None \<Rightarrow> None
       | Some r \<Rightarrow> if truthy (res_target_cpu_speed r) then Some (res_target_cpu_speed r) else None)"
  proof (cases "\<exists>r. node_resources n = Some r \<and> truthy (res_target_cpu_speed r)")
    case True
    then obtain r where r: "node_resources n = Some r" "truthy (res_target_cpu_speed r)" by blast
    let ?m = "merge s1 (PDict [(''environment'', PDict [(''TARGET_CPU_SPEED'', res_target_cpu_speed r)])])"
    have "\<exists>e'. dget ?m ''environment'' = Some (PDict e') \<and> dget e' ''TARGET_CPU_SPEED'' = Some (res_target_cpu_speed r)
        \<and> (\<forall>k'. k' \<noteq> ''TARGET_CPU_SPEED'' \<longrightarrow> dget e' k' = None \<or> dget e' k' = dget e k')"
      using merge(2) s1(2) unfolding merge_sets_variable_def by (elim allE impE) assumption+
    then obtain e2 where e2: "dget ?m ''environment'' = Some (PDict e2)" "dget e2 ''TARGET_CPU_SPEED'' = Some (res_target_cpu_speed r)"
      "\<forall>k'. k' \<noteq> ''TARGET_CPU_SPEED'' \<longrightarrow> dget e2 k' = None \<or> dget e2 k' = dget e k'"
      by (elim exE conjE)
    moreover have "dget e2 ''WAIT_GATEWAYS'' = None" using e2(3) [rule_format, of "''WAIT_GATEWAYS''"] base(1) by auto
    ultimately show ?thesis using that r by (simp add: s2_def merge_cpu_speed_def)
  next
    case False
    then have "s2 = s1" by (auto simp: s2_def merge_cpu_speed_def split: option.split)
    with that [of e] s1(2) base False show ?thesis by (auto split: option.split)
  qed
  have s4: "dget (merge_args merge s3 (node_args_compose n)) ''environment'' = Some (PDict e2)"
    using merge_args_start [OF merge(1) assms(4), of "''environment''"] e2(1) by (simp add: s3_def dget_dset)
  have env: "service_environ (PDict s5) k = (case dget e2 k of Some (PStr s) \<Rightarrow> Some s | Some (PInt i) \<Rightarrow> Some (int_str i) | Some (PFloat r) \<Rightarrow> Some r | _ \<Rightarrow> None)"
    if "k \<in> {''WAIT_GATEWAYS'', ''TARGET_CPU_SPEED''}" for k
    using config_leaves_variable [OF s5(1) that s4] by (auto simp: service_environ_def)
  have "service_environ (PDict s5) ''WAIT_GATEWAYS'' = None" using env e2(2) by simp
  moreover have "service_environ (PDict s5) ''TARGET_CPU_SPEED'' = speed_text n"
    using env [of "''TARGET_CPU_SPEED''"] e2(3) assms(5)
    by (auto simp: speed_text_def speed_is_number_def split: option.splits py.splits)
  ultimately show ?thesis using s5(2) cmd by blast
qed

section \<open>From the Compose file to the calls\<close>

text \<open>What the container of a service calls, step by step.\<close>

definition container_calls ::
  "(cli_option list \<Rightarrow> string list \<Rightarrow> (string \<Rightarrow> py option) res) \<Rightarrow> py \<Rightarrow> (cli_command \<times> py dict) res list" where
  "container_calls parse v = (case container_steps v of Inl e \<Rightarrow> [] | Inr ss \<Rightarrow> List.map_filter (step_call parse) ss)"

lemma is_ifs_words: "list_all (\<lambda>c. \<not> is_ifs c) s \<Longrightarrow> split_words cur s = (if cur @ s = [] then [] else [cur @ s])"
  by (induction s arbitrary: cur) auto

lemma one_word: "list_all (\<lambda>c. \<not> is_ifs c) s \<Longrightarrow> s \<noteq> [] \<Longrightarrow> shell_words s = [s]"
  by (simp add: shell_words_def is_ifs_words)

lemma digits_no_ifs: "list_all (\<lambda>c. \<not> is_ifs c) (int_str i) \<and> int_str i \<noteq> []"
proof -
  have "is_ifs c \<Longrightarrow> is_space c" for c by (auto simp: is_ifs_def is_space_def)
  then have "\<not> is_ifs c" if "c \<in> set (int_str i)" for c using int_str_no_space [OF that] by blast
  moreover have "int_str i \<noteq> []" by (simp add: int_str_def)
  ultimately show ?thesis by (simp add: list_all_iff)
qed

lemma speed_words: "speed_is_number n \<Longrightarrow> speed_text n = Some s \<Longrightarrow> shell_words s = [s] \<and> s \<noteq> []"
  using digits_no_ifs
  by (auto simp: speed_is_number_def speed_text_def one_word split: option.splits py.splits if_splits)

definition node_steps :: "node \<Rightarrow> entry_step list" where
  "node_steps n =
     [wait_init, EntrySleep [''20''], route_apply, wait_brokers]
     @ (case speed_text n of None \<Rightarrow> [] | Some s \<Rightarrow> [Wotemu [''limits'', ''--speed'', s]])
     @ [entry_app (app_args (node_app n))]"

lemma node_container_steps:
  assumes "node_definition so env merge t n = Inr [(name, v)]" and "merge_keeps_other_keys merge" "merge_sets_variable merge"
    and "args_keep_start (node_args_compose n)" and "speed_is_number n"
  shows "container_steps v = Inr (node_steps n)"
proof -
  have v: "service_refs ''command'' v = cmd_app n" "service_environ v ''WAIT_GATEWAYS'' = None"
    "service_environ v ''TARGET_CPU_SPEED'' = speed_text n"
    using node_service [OF assms] by auto
  have wait: "shell_words ''20'' = [''20'']" by (simp add: one_word is_ifs_def)
  show ?thesis
    using speed_words [OF assms(5)]
    by (auto simp: container_steps_def v entry_steps_def image_environ_def cmd_app_def node_steps_def wait_gateways_def wait
        update_cpu_limits_def split: option.split)
qed


section \<open>The order of the steps\<close>

text \<open>The statuses of the steps: a step whose command line is wrong does not end with 0.\<close>

definition status_ok ::
  "(cli_option list \<Rightarrow> string list \<Rightarrow> (string \<Rightarrow> py option) res) \<Rightarrow> (entry_step list \<Rightarrow> entry_step \<Rightarrow> int) \<Rightarrow> bool" where
  "status_ok parse status \<longleftrightarrow> (\<forall>past s e. step_call parse s = Some (Inl e) \<longrightarrow> status past s = exit_status (Inl e :: unit res))"

lemma run_entry_append:
  "run_entry status (xs @ ys) past =
     (case run_entry status xs past of (code, past') \<Rightarrow> if code = 0 then run_entry status ys past' else (code, past'))"
  by (induction xs arbitrary: past) (auto simp: Let_def)

lemma run_entry_prefix:
  "\<exists>k. snd (run_entry status xs past) = past @ take k xs \<and> (fst (run_entry status xs past) = 0 \<longrightarrow> length xs \<le> k)"
proof (induction xs arbitrary: past)
  case Nil
  then show ?case by simp
next
  case (Cons x xs)
  show ?case
  proof (cases "status past x = 0")
    case True
    obtain k where "snd (run_entry status xs (past @ [x])) = (past @ [x]) @ take k xs"
      "fst (run_entry status xs (past @ [x])) = 0 \<longrightarrow> length xs \<le> k"
      using Cons.IH [of "past @ [x]"] by metis
    then show ?thesis using True by (intro exI [of _ "Suc k"]) (simp add: Let_def)
  next
    case False
    then show ?thesis by (intro exI [of _ 1]) (simp add: Let_def)
  qed
qed

text \<open>A step that cannot succeed is the last one.\<close>

lemma run_entry_blocked:
  assumes "\<And>past. status past s \<noteq> 0"
  shows "fst (run_entry status (xs @ s # ys) past) \<noteq> 0
    \<and> (\<exists>k. snd (run_entry status (xs @ s # ys) past) = past @ take k (xs @ [s]))"
proof (induction xs arbitrary: past)
  case Nil
  then show ?case using assms by (auto simp: Let_def intro: exI [of _ 1])
next
  case (Cons x xs)
  show ?case
  proof (cases "status past x = 0")
    case True
    obtain k where "snd (run_entry status (xs @ s # ys) (past @ [x])) = (past @ [x]) @ take k (xs @ [s])"
      using Cons.IH [of "past @ [x]"] by blast
    then show ?thesis using True Cons.IH [of "past @ [x]"] by (auto simp: Let_def intro: exI [of _ "Suc k"])
  next
    case False
    then show ?thesis by (auto simp: Let_def intro: exI [of _ 1])
  qed
qed


definition speed_node :: "py \<Rightarrow> node" where
  "speed_node speed = (demo_node ''clock'')
     \<lparr>node_resources := Some \<lparr>res_cpu_limit = PNone, res_mem_limit = PNone, res_cpu_reservation = PNone,
        res_mem_reservation = PNone, res_target_cpu_speed = speed\<rparr>\<rparr>"

lemma speed_node_definition:
  "\<exists>v. node_definition (\<lambda>xs. xs) Map.empty shallow_merge demo_topology (speed_node speed) = Inr [(''clock'', v)]"
proof -
  have "args_env_ok (node_args_compose (speed_node speed))" "broker_usable (speed_node speed)"
    by (simp_all add: speed_node_def demo_node_def args_env_ok_def broker_usable_def demo_broker_def)
  then obtain d where d: "node_definition (\<lambda>xs. xs) Map.empty shallow_merge demo_topology (speed_node speed) = Inr d"
    using node_total [OF shallow_merge_dicts] by blast
  then have "\<exists>v. d = [(node_name (speed_node speed), v)]"
    by (auto simp: node_definition_def Let_def bindR_eq_Inr simp del: dupdate.simps append_assoc)
  with d show ?thesis by (auto simp: speed_node_def demo_node_def)
qed

lemma speed_node_ok:
  "args_keep_start (node_args_compose (speed_node speed))"
  "speed_is_number (speed_node (PInt i))" "speed_is_number (speed_node (PFloat ''1000.5''))"
  "speed_text (speed_node (PFloat ''1000.5'')) = Some ''1000.5''" "py_int ''1000.5'' = None"
  by (simp add: speed_node_def demo_node_def args_keep_start_def, code_simp+)



section \<open>Gateways\<close>

lemma gateway_service:
  assumes "gateway_definition so env merge t m = Inr d" and "merge_keeps_other_keys merge"
    and "args_keep_start (net_args_compose_gw m)"
  shows "\<exists>v. d = [(name_gateway m, v)] \<and> service_refs ''command'' v = cmd_gateway m \<and> service_environ v ''WAIT_GATEWAYS'' = None"
proof -
  define s1 where "s1 = dupdate (service_base_wotemu WOTEMU_GATEWAY)
     [(''image'', PStr (env_image env)), (''command'', strs (cmd_gateway m)),
      (''networks'', strs [net_name m]), (''depends_on'', strs (base_depends_on t))]"
  obtain s3 where s3: "merge_topology_config (merge_args merge s1 (net_args_compose_gw m)) t = Inr s3"
    "d = [(name_gateway m, PDict s3)]"
    using assms(1) unfolding s1_def by (auto simp: gateway_definition_def Let_def bindR_eq_Inr simp del: dupdate.simps)
  have s1: "dget s1 ''command'' = Some (strs (cmd_gateway m))" "dget s1 ''environment'' = Some (PDict environment_base)"
    by (simp_all add: s1_def service_base_wotemu_def dget_dset dget_Cons)
  note keep = merge_args_start [OF assms(2,3)]
  have "dget s3 ''command'' = Some (strs (cmd_gateway m))"
    using merge_topology_config_refs [OF s3(1), of "''command''"] keep [of "''command''" s1] s1(1) by simp
  moreover have "dget (merge_args merge s1 (net_args_compose_gw m)) ''environment'' = Some (PDict environment_base)"
    using keep [of "''environment''" s1] s1(2) by simp
  from config_leaves_variable [OF s3(1) _ this, of "''WAIT_GATEWAYS''"]
  have "service_environ (PDict s3) ''WAIT_GATEWAYS'' = None"
    by (auto simp: service_environ_def environment_base_def dget_Cons)
  ultimately show ?thesis using s3(2) by (simp add: service_refs_def)
qed

text \<open>
  C36. The container of a gateway runs \<open>create_chaos\<close> with exactly the netem arguments of its network. A network without
  conditions has none, so that its gateway ends with status 1 each time it is started and imposes nothing.
\<close>

theorem gateway_needs_conditions:
  assumes "click_parser parse" and "gateway_definition so env merge t m = Inr [(name, v)]" and "merge_keeps_other_keys merge"
    and "args_keep_start (net_args_compose_gw m)" and "find_chaos_interface gn = Inr nic"
  shows "container_calls parse v = [Inr (CmdWait, wait_call True False), Inr (CmdChaos, chaos_call (netem_args m))]
    \<and> (mk_network us nm None (CValue PNone) an ag = Inr m \<longrightarrow>
         (case create_chaos canon succeeds gn (netem_args m) [] of (r, lg) \<Rightarrow> exit_status (cli_catch r) = 1 \<and> lg = []))"
proof
  have v: "service_refs ''command'' v = cmd_gateway m" "service_environ v ''WAIT_GATEWAYS'' = None"
    using gateway_service [OF assms(2-4)] by auto
  have "container_steps v = Inr [wait_init, entry_chaos (netem_args m)]"
    by (simp add: container_steps_def v entry_steps_def image_environ_def cmd_gateway_def)
  then show "container_calls parse v = [Inr (CmdWait, wait_call True False), Inr (CmdChaos, chaos_call (netem_args m))]"
    by (simp add: container_calls_def List.map_filter_def wait_init_def entry_chaos_def click_parser.calls [OF assms(1)])
  show "mk_network us nm None (CValue PNone) an ag = Inr m \<longrightarrow>
         (case create_chaos canon succeeds gn (netem_args m) [] of (r, lg) \<Rightarrow> exit_status (cli_catch r) = 1 \<and> lg = [])"
    by (auto simp: mk_network_def check_conditions_def netem_args_def truthy_list_def create_chaos_def chaos_setup_def assms(5) bindP_def
        exit_status_def cli_catch_def is_Exception_def)
qed

definition plain_net :: network where
  "plain_net = \<lparr>net_name = ''lan'', net_netem = None, net_args_compose_net = PNone, net_args_compose_gw = PNone\<rparr>"

theorem gateway_needs_conditions_witness:
  "\<exists>v. gateway_definition (\<lambda>xs. xs) Map.empty shallow_merge demo_topology plain_net = Inr [(''gw_lan'', v)]
     \<and> container_calls click_words v = [Inr (CmdWait, wait_call True False), Inr (CmdChaos, [(''netem'', PList [])])]
     \<and> create_chaos (\<lambda>s. s) (\<lambda>lg c. True) demo_gn (netem_args plain_net) [] = (Inl AssertionError, [])"
proof -
  have args: "args_env_ok (net_args_compose_gw plain_net)" "args_keep_start (net_args_compose_gw plain_net)"
    by (simp_all add: plain_net_def args_env_ok_def args_keep_start_def)
  obtain d where d: "gateway_definition (\<lambda>xs. xs) Map.empty shallow_merge demo_topology plain_net = Inr d"
    using gateway_total [OF shallow_merge_dicts args(1)] by blast
  then obtain v where v: "gateway_definition (\<lambda>xs. xs) Map.empty shallow_merge demo_topology plain_net = Inr [(''gw_lan'', v)]"
    using gateway_service [OF d shallow_merge_keeps args(2)] by (auto simp: name_gateway_def plain_net_def)
  have "netem_args plain_net = []" by (simp add: netem_args_def plain_net_def truthy_list_def)
  with gateway_needs_conditions [OF words.click_parser_axioms v shallow_merge_keeps args(2) demo_gn_iface]
  show ?thesis using v
    by (simp add: chaos_call_def create_chaos_def chaos_setup_def demo_gn_iface bindP_def)
qed

end
