(* ===== verification/PacketCapture.thy ===== *)
theory PacketCapture
  imports PacketMonitor
begin

text \<open>
  \<^verbatim>\<open>wotemu/monitor/packet.py\<close> as two processes: the capture process, in which pyshark calls \<open>_packet_callback\<close> for
  every packet, and the task of the monitor, interleaved at every access to the queue that they share. \<open>PacketMonitor\<close>
  holds the functions that the steps are made of.
\<close>

section \<open>The state\<close>

text \<open>
  The capture process before its signal handlers are installed, while it captures (with the flag that its child
  \<open>tshark\<close> runs), and after its end. The task is at one of its awaits, or between them at an access of the queue or of the
  process; the result that it will end with is carried through the \<open>finally\<close> clause.
\<close>

datatype capture_proc = Spawned | Capturing bool | Exited int

datatype capture_task =
  Draining "py dict list" nat | Calling "py dict list" | Checking | Sleeping
| Ending "unit res" | WaitStop "unit res" | WaitJoin "unit res" | TaskEnded "unit res"

text \<open>
  The other fields are history: the packets that the capture saw, those that were put in the queue and the number of those
  that found it full, the batches that were delivered, the batch whose delivery failed, and what was done to the process.
\<close>

record capture_state =
  cs_proc :: capture_proc
  cs_task :: capture_task
  cs_queue :: "py dict list"
  cs_stop :: bool
  cs_seen :: "packet list"
  cs_put :: "py dict list"
  cs_dropped :: nat
  cs_sent :: "py dict list list"
  cs_failed :: "py dict list"
  cs_actions :: "proc_action list"

definition capture_init :: capture_state where
  "capture_init = \<lparr>cs_proc = Spawned, cs_task = Draining [] 0, cs_queue = [], cs_stop = False,
     cs_seen = [], cs_put = [], cs_dropped = 0, cs_sent = [], cs_failed = [], cs_actions = []\<rparr>"

fun proc_code :: "capture_proc \<Rightarrow> int option" where
  "proc_code (Exited c) = Some c"
| "proc_code _ = None"

definition proc_alive :: "capture_proc \<Rightarrow> bool" where
  "proc_alive p = (proc_code p = None)"

section \<open>The capture process\<close>

text \<open>
  \<open>_start_capture\<close>: \<open>apply_on_packets\<close> gives each packet to the callback. \<open>StopCapture\<close> ends the capture and with it the
  process, with status 0; any other error ends it with status 1.
\<close>

definition on_packet :: "(string \<Rightarrow> py res) \<Rightarrow> nat \<Rightarrow> packet \<Rightarrow> bool \<Rightarrow> capture_state \<Rightarrow> capture_state" where
  "on_packet to_float qsize p tshark s =
     (case packet_callback to_float qsize (cs_stop s) p (cs_queue s) of
        (r, q) \<Rightarrow>
          s\<lparr>cs_queue := q, cs_seen := cs_seen s @ [p], cs_put := cs_put s @ drop (length (cs_queue s)) q,
            cs_dropped := (if q = cs_queue s \<and> \<not> isl (packet_to_dict to_float p) then Suc (cs_dropped s) else cs_dropped s),
            cs_proc := (case r of Inr _ \<Rightarrow> Capturing tshark | Inl e \<Rightarrow> Exited (if e = StopCapture then 0 else 1))\<rparr>)"

text \<open>\<open>stop_capture\<close>, the handler of the signals: it kills the children. Before it is installed the signal ends the process.\<close>

fun stop_capture :: "capture_proc \<Rightarrow> capture_proc" where
  "stop_capture Spawned = Exited (- 15)"
| "stop_capture (Capturing tshark) = Capturing False"
| "stop_capture (Exited c) = Exited c"

section \<open>The steps\<close>

definition task_error :: "exn \<Rightarrow> unit res" where
  "task_error e = (if e = CancelledError then Inr () else Inl e)"

text \<open>
  The process starts or fails to; a packet arrives; \<open>tshark\<close> ends, and after it the process, with any status. The task takes
  one packet after the other from the queue, until it takes it for empty (which a queue between processes may report
  falsely) or has one more than the queue's size; it delivers them, and the delivery may fail or be cancelled; it checks the
  health of the process and sleeps. In the end it sets the stop event and waits; \<open>WaitStop\<close> and \<open>WaitJoin\<close> end when an exit
  status is seen or the time is over; a cancellation ends only the first of them. A process that is killed loses a part of
  the packets that it had put in the queue.
\<close>

inductive capture_step :: "(string \<Rightarrow> py res) \<Rightarrow> nat \<Rightarrow> capture_state \<Rightarrow> capture_state \<Rightarrow> bool" for to_float qsize where
  proc_starts: "cs_proc s = Spawned \<Longrightarrow> capture_step to_float qsize s (s\<lparr>cs_proc := Capturing True\<rparr>)"
| proc_fails: "cs_proc s = Spawned \<Longrightarrow> capture_step to_float qsize s (s\<lparr>cs_proc := Exited 1\<rparr>)"
| packet_arrives: "cs_proc s = Capturing b \<Longrightarrow> capture_step to_float qsize s (on_packet to_float qsize p b s)"
| tshark_ends: "cs_proc s = Capturing True \<Longrightarrow> capture_step to_float qsize s (s\<lparr>cs_proc := Capturing False\<rparr>)"
| proc_ends: "cs_proc s = Capturing False \<Longrightarrow> capture_step to_float qsize s (s\<lparr>cs_proc := Exited c\<rparr>)"
| task_takes: "cs_task s = Draining items n \<Longrightarrow> cs_queue s = d # q \<Longrightarrow>
    capture_step to_float qsize s
      (s\<lparr>cs_queue := q, cs_task := (if qsize < Suc n then Calling (items @ [d]) else Draining (items @ [d]) (Suc n))\<rparr>)"
| task_sees_empty: "cs_task s = Draining items n \<Longrightarrow>
    capture_step to_float qsize s (s\<lparr>cs_task := (if items = [] then Checking else Calling items)\<rparr>)"
| task_delivered: "cs_task s = Calling items \<Longrightarrow>
    capture_step to_float qsize s (s\<lparr>cs_task := Checking, cs_sent := cs_sent s @ [items]\<rparr>)"
| delivery_fails: "cs_task s = Calling items \<Longrightarrow>
    capture_step to_float qsize s (s\<lparr>cs_task := Ending (task_error e), cs_failed := items\<rparr>)"
| task_checks: "cs_task s = Checking \<Longrightarrow>
    capture_step to_float qsize s
      (s\<lparr>cs_task := (case check_proc_health (proc_alive (cs_proc s)) (proc_code (cs_proc s)) of
                       Inl e \<Rightarrow> Ending (Inl e) | Inr _ \<Rightarrow> Sleeping)\<rparr>)"
| task_slept: "cs_task s = Sleeping \<Longrightarrow> capture_step to_float qsize s (s\<lparr>cs_task := Draining [] 0\<rparr>)"
| task_cancelled: "cs_task s = Sleeping \<Longrightarrow> capture_step to_float qsize s (s\<lparr>cs_task := Ending (task_error CancelledError)\<rparr>)"
| task_finally: "cs_task s = Ending r \<Longrightarrow>
    capture_step to_float qsize s
      (if proc_code (cs_proc s) = None
       then s\<lparr>cs_task := WaitStop r, cs_stop := True, cs_actions := cs_actions s @ [SetStopEvent]\<rparr>
       else s\<lparr>cs_task := TaskEnded r\<rparr>)"
| wait_seen: "cs_task s = WaitStop r \<Longrightarrow> proc_code (cs_proc s) \<noteq> None \<Longrightarrow>
    capture_step to_float qsize s (s\<lparr>cs_task := TaskEnded r\<rparr>)"
| wait_cancelled: "cs_task s = WaitStop r \<Longrightarrow> capture_step to_float qsize s (s\<lparr>cs_task := TaskEnded (Inl CancelledError)\<rparr>)"
| wait_over: "cs_task s = WaitStop r \<Longrightarrow> proc_code (cs_proc s) = None \<Longrightarrow>
    capture_step to_float qsize s
      (s\<lparr>cs_task := WaitJoin r, cs_proc := stop_capture (cs_proc s), cs_actions := cs_actions s @ [Terminate]\<rparr>)"
| join_seen: "cs_task s = WaitJoin r \<Longrightarrow> proc_code (cs_proc s) \<noteq> None \<Longrightarrow>
    capture_step to_float qsize s (s\<lparr>cs_task := TaskEnded r\<rparr>)"
| join_over: "cs_task s = WaitJoin r \<Longrightarrow> proc_code (cs_proc s) = None \<Longrightarrow>
    capture_step to_float qsize s
      (s\<lparr>cs_task := TaskEnded r, cs_proc := Exited (- 9), cs_queue := take k (cs_queue s), cs_actions := cs_actions s @ [Kill]\<rparr>)"

definition captured :: "(string \<Rightarrow> py res) \<Rightarrow> nat \<Rightarrow> capture_state \<Rightarrow> bool" where
  "captured to_float qsize s = (capture_step to_float qsize)\<^sup>*\<^sup>* capture_init s"

section \<open>The order of the packets\<close>

text \<open>The packets that the task has taken and not delivered.\<close>

fun in_hand :: "capture_task \<Rightarrow> py dict list \<Rightarrow> py dict list" where
  "in_hand (Draining items n) failed = items"
| "in_hand (Calling items) failed = items"
| "in_hand _ failed = failed"

definition capture_inv :: "nat \<Rightarrow> capture_state \<Rightarrow> bool" where
  "capture_inv qsize s \<longleftrightarrow>
     (\<exists>lost. cs_put s = concat (cs_sent s) @ in_hand (cs_task s) (cs_failed s) @ cs_queue s @ lost
        \<and> (lost \<noteq> [] \<longrightarrow> Kill \<in> set (cs_actions s)))
     \<and> length (cs_queue s) \<le> queue_limit qsize
     \<and> list_all (\<lambda>b. b \<noteq> [] \<and> length b \<le> Suc qsize) (cs_sent s)
     \<and> (case cs_task s of
          Draining items n \<Rightarrow> length items = n \<and> n \<le> qsize
        | Calling items \<Rightarrow> items \<noteq> [] \<and> length items \<le> Suc qsize
        | _ \<Rightarrow> True)
     \<and> (cs_failed s = [] \<or> (case cs_task s of Ending r \<Rightarrow> True | WaitStop r \<Rightarrow> True | WaitJoin r \<Rightarrow> True | TaskEnded r \<Rightarrow> True | _ \<Rightarrow> False))
     \<and> (Kill \<in> set (cs_actions s) \<longrightarrow> (\<exists>r. cs_task s = TaskEnded r) \<and> (\<exists>c. cs_proc s = Exited c))"

lemma queue_after_callback:
  "\<exists>new. snd (packet_callback to_float qsize stop p q) = q @ new
     \<and> (length q \<le> queue_limit qsize \<longrightarrow> length (q @ new) \<le> queue_limit qsize)"
  by (cases "packet_to_dict to_float p") (auto simp: packet_callback_def put_nowait_def Let_def)

lemma capture_inv_init: "capture_inv qsize capture_init"
  by (simp add: capture_inv_def capture_init_def)

lemma capture_inv_step: "capture_step to_float qsize s s' \<Longrightarrow> capture_inv qsize s \<Longrightarrow> capture_inv qsize s'"
proof (induction rule: capture_step.induct)
  case (packet_arrives s b p)
  obtain r q where cb: "packet_callback to_float qsize (cs_stop s) p (cs_queue s) = (r, q)"
    by (cases "packet_callback to_float qsize (cs_stop s) p (cs_queue s)")
  obtain new where "q = cs_queue s @ new" "length (cs_queue s) \<le> queue_limit qsize \<longrightarrow> length q \<le> queue_limit qsize"
    using queue_after_callback [of to_float qsize "cs_stop s" p "cs_queue s"] by (auto simp: cb)
  then show ?case using packet_arrives by (auto simp: capture_inv_def on_packet_def cb)
next
  case (join_over s r k)
  then show ?case by (auto simp: capture_inv_def intro!: exI [of _ "drop k (cs_queue s)"])
qed (auto simp: capture_inv_def split: if_splits sum.splits capture_task.splits)

text \<open>What the packets that the capture saw are converted to.\<close>

definition packet_dicts :: "(string \<Rightarrow> py res) \<Rightarrow> packet list \<Rightarrow> py dict list" where
  "packet_dicts to_float ps = List.map_filter (\<lambda>p. case packet_to_dict to_float p of Inl e \<Rightarrow> None | Inr d \<Rightarrow> Some d) ps"

lemma packet_dicts_simps [simp]:
  "packet_dicts to_float [] = []"
  "packet_dicts to_float (ps @ [p]) =
     packet_dicts to_float ps @ (case packet_to_dict to_float p of Inl e \<Rightarrow> [] | Inr d \<Rightarrow> [d])"
  by (auto simp: packet_dicts_def List.map_filter_def split: sum.split)

definition seen_inv :: "(string \<Rightarrow> py res) \<Rightarrow> capture_state \<Rightarrow> bool" where
  "seen_inv to_float s \<longleftrightarrow>
     subseq (cs_put s) (packet_dicts to_float (cs_seen s))
     \<and> length (packet_dicts to_float (cs_seen s)) = length (cs_put s) + cs_dropped s"

lemma seen_inv_step: "capture_step to_float qsize s s' \<Longrightarrow> seen_inv to_float s \<Longrightarrow> seen_inv to_float s'"
proof (induction rule: capture_step.induct)
  case (packet_arrives s b p)
  then show ?case
    by (cases "packet_to_dict to_float p")
      (auto simp: seen_inv_def on_packet_def packet_callback_def put_nowait_def Let_def intro: list_emb_append_mono subseq_drop_many)
qed (auto simp: seen_inv_def)

lemma captured_inv: "captured to_float qsize s \<Longrightarrow> capture_inv qsize s \<and> seen_inv to_float s"
  unfolding captured_def
proof (induction rule: rtranclp_induct)
  case base
  then show ?case by (simp add: capture_inv_init) (simp add: seen_inv_def capture_init_def)
next
  case (step s s')
  then show ?case using capture_inv_step seen_inv_step by blast
qed


section \<open>The end of the capture process\<close>

definition ladder_inv :: "capture_state \<Rightarrow> bool" where
  "ladder_inv s \<longleftrightarrow>
     (cs_stop s \<longleftrightarrow> cs_actions s \<noteq> [])
     \<and> (case cs_task s of
          WaitStop r \<Rightarrow> cs_actions s = [SetStopEvent]
        | WaitJoin r \<Rightarrow> cs_actions s = [SetStopEvent, Terminate] \<and> cs_proc s \<noteq> Spawned \<and> cs_proc s \<noteq> Capturing True
        | TaskEnded r \<Rightarrow> prefix (cs_actions s) [SetStopEvent, Terminate, Kill] \<and> (r = Inl CancelledError \<or> (\<exists>c. cs_proc s = Exited c))
        | Ending r \<Rightarrow> cs_actions s = [] \<and> r \<noteq> Inl CancelledError
        | _ \<Rightarrow> cs_actions s = [])"

lemma stop_capture_state: "proc_code p = None \<Longrightarrow> stop_capture p \<noteq> Spawned \<and> stop_capture p \<noteq> Capturing True"
  by (cases p) auto

lemma ladder_inv_step: "capture_step to_float qsize s s' \<Longrightarrow> ladder_inv s \<Longrightarrow> ladder_inv s'"
proof (induction rule: capture_step.induct)
  case (packet_arrives s b p)
  then show ?case by (auto simp: ladder_inv_def on_packet_def split: capture_task.splits prod.splits sum.splits)
next
  case (wait_over s r)
  then show ?case using stop_capture_state [of "cs_proc s"] by (auto simp: ladder_inv_def)
qed (auto simp: ladder_inv_def task_error_def check_proc_health_def proc_code.simps split: if_splits capture_task.splits elim: proc_code.elims)

lemma captured_ladder: "captured to_float qsize s \<Longrightarrow> ladder_inv s"
  unfolding captured_def
proof (induction rule: rtranclp_induct)
  case base
  then show ?case by (simp add: ladder_inv_def capture_init_def)
next
  case (step s s')
  then show ?case using ladder_inv_step by blast
qed

text \<open>
  C22. The monitor of an interface never ends before its capture process, unless it was cancelled a second time while it
  waited for it; what it did to the process is a first part of stop event, termination and kill, nothing when the process
  had ended by itself, and the stop event is set exactly from the first of them on.
\<close>

theorem capture_ends_with_its_task:
  assumes "captured to_float qsize s"
  shows "prefix (cs_actions s) [SetStopEvent, Terminate, Kill] \<and> (cs_stop s \<longleftrightarrow> cs_actions s \<noteq> [])
    \<and> (\<forall>r. cs_task s = TaskEnded r \<and> r \<noteq> Inl CancelledError \<longrightarrow> (\<exists>c. cs_proc s = Exited c))
    \<and> (\<forall>items n. cs_task s \<in> {Draining items n, Calling items, Checking, Sleeping} \<longrightarrow> cs_actions s = [])"
  using captured_ladder [OF assms] by (auto simp: ladder_inv_def split: capture_task.splits)

definition can_end :: "(string \<Rightarrow> py res) \<Rightarrow> nat \<Rightarrow> unit res \<Rightarrow> capture_state \<Rightarrow> bool" where
  "can_end to_float qsize r s \<longleftrightarrow>
     (\<exists>s' c. (capture_step to_float qsize)\<^sup>*\<^sup>* s s' \<and> cs_task s' = TaskEnded r \<and> cs_proc s' = Exited c)"

lemma can_end_now: "cs_task s = TaskEnded r \<Longrightarrow> cs_proc s = Exited c \<Longrightarrow> can_end to_float qsize r s"
  unfolding can_end_def by blast

lemma can_end_step: "capture_step to_float qsize s t \<Longrightarrow> can_end to_float qsize r t \<Longrightarrow> can_end to_float qsize r s"
  unfolding can_end_def by (blast intro: converse_rtranclp_into_rtranclp)

lemma proc_code_Some: "proc_code p = Some c \<Longrightarrow> p = Exited c"
  by (cases p) auto

lemma join_ends: "cs_task s = WaitJoin r \<Longrightarrow> can_end to_float qsize r s"
proof (cases "proc_code (cs_proc s)")
  case None
  assume "cs_task s = WaitJoin r"
  show ?thesis
    by (rule can_end_step [OF join_over [OF \<open>cs_task s = WaitJoin r\<close> None, of to_float qsize 0]], rule can_end_now) simp_all
next
  case (Some c)
  assume "cs_task s = WaitJoin r"
  from can_end_step [OF join_seen [OF this, of to_float qsize]] Some proc_code_Some [OF Some] show ?thesis
    by (simp add: can_end_now)
qed

lemma stop_ends: "cs_task s = WaitStop r \<Longrightarrow> can_end to_float qsize r s"
proof (cases "proc_code (cs_proc s)")
  case None
  assume "cs_task s = WaitStop r"
  from can_end_step [OF wait_over [OF this None, of to_float qsize]] show ?thesis by (simp add: join_ends)
next
  case (Some c)
  assume "cs_task s = WaitStop r"
  from can_end_step [OF wait_seen [OF this, of to_float qsize]] Some proc_code_Some [OF Some] show ?thesis
    by (simp add: can_end_now)
qed

lemma ending_ends: "cs_task s = Ending r \<Longrightarrow> can_end to_float qsize r s"
proof (cases "proc_code (cs_proc s)")
  case None
  assume "cs_task s = Ending r"
  from can_end_step [OF task_finally [OF this, of to_float qsize]] None show ?thesis by (simp add: stop_ends)
next
  case (Some c)
  assume "cs_task s = Ending r"
  from can_end_step [OF task_finally [OF this, of to_float qsize]] Some proc_code_Some [OF Some] show ?thesis
    by (simp add: can_end_now)
qed

text \<open>From every state in which it has not ended the task can end, and its process with it.\<close>

lemma capture_can_end:
  assumes "\<forall>r. cs_task s \<noteq> TaskEnded r"
  shows "\<exists>r. can_end to_float qsize r s"
proof -
  have sleeping: "\<exists>r. can_end to_float qsize r s" if "cs_task s = Sleeping" for s
    by (rule exI, rule can_end_step [OF task_cancelled [OF that]], rule ending_ends) simp
  have health: "\<exists>r. can_end to_float qsize r s" if "cs_task s = Checking" for s
  proof (cases "check_proc_health (proc_alive (cs_proc s)) (proc_code (cs_proc s))")
    case (Inl e)
    then show ?thesis by (intro exI can_end_step [OF task_checks [OF that]] ending_ends) simp
  next
    case (Inr u)
    have "\<exists>r. can_end to_float qsize r (s\<lparr>cs_task := Sleeping\<rparr>)" by (rule sleeping) simp
    then show ?thesis using can_end_step [OF task_checks [OF that], of to_float qsize] Inr by auto
  qed
  have calling: "\<exists>r. can_end to_float qsize r s" if "cs_task s = Calling items" for s items
  proof -
    have "\<exists>r. can_end to_float qsize r (s\<lparr>cs_task := Checking, cs_sent := cs_sent s @ [items]\<rparr>)" by (rule health) simp
    then show ?thesis using can_end_step [OF task_delivered [OF that]] by blast
  qed
  have draining: "\<exists>r. can_end to_float qsize r s" if "cs_task s = Draining items n" for s items n
  proof -
    have "\<exists>r. can_end to_float qsize r (s\<lparr>cs_task := (if items = [] then Checking else Calling items)\<rparr>)"
      by (cases "items = []") (simp_all add: health calling)
    then show ?thesis using can_end_step [OF task_sees_empty [OF that]] by blast
  qed
  show ?thesis
    using assms sleeping health calling draining ending_ends stop_ends join_ends by (cases "cs_task s") fast+
qed

section \<open>A packet without an address\<close>

lemma exited_stays:
  "(capture_step to_float qsize)\<^sup>*\<^sup>* s s' \<Longrightarrow> cs_proc s = Exited c \<Longrightarrow>
   cs_proc s' = Exited c \<and> cs_put s' = cs_put s \<and> cs_seen s' = cs_seen s"
proof (induction rule: rtranclp_induct)
  case base
  then show ?case by simp
next
  case (step s1 s2)
  then have "cs_proc s1 = Exited c" "cs_put s1 = cs_put s" "cs_seen s1 = cs_seen s" by auto
  with step.hyps(2) show ?case by (induction rule: capture_step.induct) auto
qed

lemma no_ip_raises: "pk_ip p = None \<Longrightarrow> \<exists>e. packet_to_dict to_float p = Inl e \<and> e \<noteq> StopCapture"
  by (cases "py_int (pk_length p)") (simp_all add: packet_to_dict_def int_or_raise_def)

lemma checks_exited:
  assumes "capture_step to_float qsize s s'" and "cs_task s = Checking" and "cs_proc s = Exited c"
  shows "cs_task s' = Ending (Inl (RuntimeError ''Tshark packet capture process stopped prematurely''))"
  using assms by (induction rule: capture_step.induct) (auto simp: check_proc_health_def proc_alive_def)

text \<open>
  C37. One packet without an IPv4 layer, such as one of IPv6, which passes the display filter, ends the capture of an
  interface with status 1: it is not put in the queue, no later packet is seen, and the next check of the monitor ends
  its task with \<open>RuntimeError\<close>.
\<close>

theorem packet_without_ip_ends_capture:
  assumes "cs_proc s = Capturing b" and "pk_ip p = None" and "(capture_step to_float qsize)\<^sup>*\<^sup>* (on_packet to_float qsize p b s) s'"
  shows "cs_proc s' = Exited 1 \<and> cs_put s' = cs_put s \<and> cs_seen s' = cs_seen s @ [p]
    \<and> (\<forall>s''. cs_task s' = Checking \<and> capture_step to_float qsize s' s'' \<longrightarrow>
         cs_task s'' = Ending (Inl (RuntimeError ''Tshark packet capture process stopped prematurely'')))"
proof -
  obtain e where e: "packet_to_dict to_float p = Inl e" "e \<noteq> StopCapture" using no_ip_raises [OF assms(2)] by blast
  have "cs_proc (on_packet to_float qsize p b s) = Exited 1" "cs_put (on_packet to_float qsize p b s) = cs_put s"
    "cs_seen (on_packet to_float qsize p b s) = cs_seen s @ [p]"
    using e by (simp_all add: on_packet_def packet_callback_def)
  then have s': "cs_proc s' = Exited 1" "cs_put s' = cs_put s" "cs_seen s' = cs_seen s @ [p]"
    using exited_stays [OF assms(3)] by auto
  show ?thesis using s' checks_exited by blast
qed

text \<open>A packet of IPv6 that arrives first, and the end of the monitor after it.\<close>

definition first_packet :: "(string \<times> string) option \<Rightarrow> packet" where
  "first_packet ip = \<lparr>pk_length = ''60'', pk_ip = ip, pk_layers = [''eth'', ''ip'', ''tcp''], pk_timestamp = ''1.0'',
     pk_tcp = Some (''5000'', ''9090''), pk_udp = None\<rparr>"

definition demo_capturing :: capture_state where
  "demo_capturing = capture_init\<lparr>cs_proc := Capturing True\<rparr>"

lemma demo_capturing_reached: "captured to_float qsize demo_capturing"
  unfolding captured_def demo_capturing_def by (intro r_into_rtranclp proc_starts) (simp add: capture_init_def)

theorem packet_without_ip_ends_capture_witness:
  "\<exists>s'. captured (\<lambda>s. Inr (PFloat s)) 100 s' \<and> cs_proc s' = Exited 1 \<and> cs_put s' = [] \<and> length (cs_seen s') = 1"
proof -
  let ?s = "on_packet (\<lambda>s. Inr (PFloat s)) 100 (first_packet None) True demo_capturing"
  have b: "cs_proc demo_capturing = Capturing True" and ip: "pk_ip (first_packet None) = None"
    by (simp_all add: demo_capturing_def first_packet_def)
  have "captured (\<lambda>s. Inr (PFloat s)) 100 ?s"
    using demo_capturing_reached packet_arrives [OF b] unfolding captured_def by (meson rtranclp.rtrancl_into_rtrancl)
  moreover have "cs_put demo_capturing = []" "cs_seen demo_capturing = []" by (simp_all add: demo_capturing_def capture_init_def)
  ultimately show ?thesis
    using packet_without_ip_ends_capture [OF b ip rtranclp.rtrancl_refl, of "\<lambda>s. Inr (PFloat s)" 100] by auto
qed


theorem capture_ends_with_its_task_witness:
  "\<exists>s c. captured (\<lambda>s. Inr (PFloat s)) 100 s \<and> cs_task s = TaskEnded (Inr ()) \<and> cs_proc s = Exited c"
proof -
  let ?f = "\<lambda>s. Inr (PFloat s)"
  let ?s1 = "capture_init\<lparr>cs_task := Checking\<rparr>"
  let ?s2 = "?s1\<lparr>cs_task := Sleeping\<rparr>"
  let ?s3 = "?s2\<lparr>cs_task := Ending (Inr ())\<rparr>"
  have "capture_step ?f 100 capture_init ?s1" using task_sees_empty [of capture_init "[]" 0 ?f 100] by (simp add: capture_init_def)
  moreover have "capture_step ?f 100 ?s1 ?s2"
    using task_checks [of ?s1 ?f 100] by (simp add: capture_init_def check_proc_health_def proc_alive_def)
  moreover have "capture_step ?f 100 ?s2 ?s3" using task_cancelled [of ?s2 ?f 100] by (simp add: task_error_def)
  moreover obtain s' c where "(capture_step ?f 100)\<^sup>*\<^sup>* ?s3 s'" "cs_task s' = TaskEnded (Inr ())"
    using ending_ends [of ?s3 "Inr ()" ?f 100] by (auto simp: can_end_def)
  ultimately have "captured ?f 100 s'" unfolding captured_def by (meson converse_rtranclp_into_rtranclp)
  with capture_ends_with_its_task [of ?f 100 s'] \<open>cs_task s' = TaskEnded (Inr ())\<close> show ?thesis by blast
qed

section \<open>A round of the queue\<close>

lemma empty_step:
  assumes "cs_task s = Draining items n" and "cs_queue s = q"
  shows "(capture_step to_float qsize)\<^sup>*\<^sup>* s (s\<lparr>cs_queue := q, cs_task := (if items = [] then Checking else Calling items)\<rparr>)"
proof -
  have "s\<lparr>cs_queue := q, cs_task := t\<rparr> = s\<lparr>cs_task := t\<rparr>" for t using assms(2) by (cases s) simp
  with task_sees_empty [OF assms(1), of to_float qsize] show ?thesis by auto
qed

lemma drain_steps:
  assumes "drain flaky qsize n q = (items', q')" and "n \<le> qsize" and "cs_task s = Draining items n" and "cs_queue s = q"
  shows "(capture_step to_float qsize)\<^sup>*\<^sup>* s
    (s\<lparr>cs_queue := q', cs_task := (if items @ items' = [] then Checking else Calling (items @ items'))\<rparr>)"
  using assms
proof (induction flaky qsize n q arbitrary: s items items' rule: drain.induct)
  case (1 flaky qsize n)
  then show ?case using empty_step [of s items n "[]" to_float qsize] by (cases "items = []") simp_all
next
  case (2 flaky qsize n d q)
  note taken = task_takes [OF "2.prems"(3,4), of to_float qsize]
  consider "flaky n" | "\<not> flaky n" "qsize < Suc n" | "\<not> flaky n" "Suc n \<le> qsize" by linarith
  then show ?case
  proof cases
    case 1
    then show ?thesis using "2.prems" empty_step [OF "2.prems"(3,4), of to_float qsize] by (cases "items = []") auto
  next
    case 2
    then show ?thesis using "2.prems" taken by (auto simp: r_into_rtranclp)
  next
    case 3
    let ?t = "s\<lparr>cs_queue := q, cs_task := Draining (items @ [d]) (Suc n)\<rparr>"
    obtain more where more: "drain flaky qsize (Suc n) q = (more, q')" "items' = d # more"
      using 3 "2.prems"(1) by (auto split: prod.splits)
    have "capture_step to_float qsize s ?t" using taken 3 by simp
    moreover have "(capture_step to_float qsize)\<^sup>*\<^sup>* ?t
        (?t\<lparr>cs_queue := q', cs_task := (if (items @ [d]) @ more = [] then Checking else Calling ((items @ [d]) @ more))\<rparr>)"
      using 3 more by (intro "2.IH") simp_all
    ultimately show ?thesis by (simp add: more(2) converse_rtranclp_into_rtranclp)
  qed
qed



end
