(* ===== verification/BrokerLoop.thy ===== *)
theory BrokerLoop
  imports Cli
begin

text \<open>
  The event loop of \<^verbatim>\<open>wotemu/cli/broker.py\<close> between the start of mosquitto and the end of \<open>run_forever\<close>
  (\<open>run_mqtt_broker\<close> of \<open>RunApp\<close> is the rest): the signals, the end of mosquitto, the start of the monitor, and the calls
  of \<open>_close_loop\<close>, which have no lock.
\<close>

section \<open>The state\<close>

text \<open>
  Why a call of \<open>_close_loop\<close> was made. The state holds whether the loop runs, the monitor (\<open>None\<close> when it is disabled)
  and its start, how mosquitto ended, if it did, the calls of \<open>_close_loop\<close> that have not begun and those that wait for the
  stop of the monitor; the causes and the number of the calls that have ended are history.
\<close>

datatype close_cause = StopSignal | MosquittoFailed | MonitorFailed

datatype monitor_phase = MonitorStarting | MonitorUp | MonitorDown

record broker_loop =
  bl_open :: bool
  bl_monitor :: "monitor_phase option"
  bl_mosquitto :: "bool option"
  bl_scheduled :: nat
  bl_stopping :: nat
  bl_causes :: "close_cause list"
  bl_closed :: nat

definition broker_init :: "bool \<Rightarrow> broker_loop" where
  "broker_init disable_monitor =
     \<lparr>bl_open = True, bl_monitor = (if disable_monitor then None else Some MonitorStarting), bl_mosquitto = None,
      bl_scheduled = 0, bl_stopping = 0, bl_causes = [], bl_closed = 0\<rparr>"

section \<open>The handlers\<close>

text \<open>\<open>_done\<close>, which mosquitto's end calls, and \<open>_exit_handler\<close>.\<close>

definition mosquitto_done :: "bool \<Rightarrow> broker_loop \<Rightarrow> broker_loop" where
  "mosquitto_done success s =
     (let s1 = s\<lparr>bl_mosquitto := Some success\<rparr>
      in if \<not> success then s1\<lparr>bl_scheduled := Suc (bl_scheduled s1), bl_causes := bl_causes s1 @ [MosquittoFailed]\<rparr> else s1)"

definition broker_exit_handler :: "broker_loop \<Rightarrow> broker_loop" where
  "broker_exit_handler s = s\<lparr>bl_scheduled := Suc (bl_scheduled s), bl_causes := bl_causes s @ [StopSignal]\<rparr>"

text \<open>
  \<open>_close_loop\<close>: up to the stop of the monitor, and after it; every error of the stop is dropped. The loop ends at the
  first stop of the loop.
\<close>

definition stop_loop :: "broker_loop \<Rightarrow> broker_loop" where
  "stop_loop s = s\<lparr>bl_open := False, bl_closed := Suc (bl_closed s)\<rparr>"

definition close_loop_begin :: "broker_loop \<Rightarrow> broker_loop" where
  "close_loop_begin s = (if bl_monitor s \<noteq> None then s\<lparr>bl_stopping := Suc (bl_stopping s)\<rparr> else stop_loop s)"

definition close_loop_end :: "unit res \<Rightarrow> broker_loop \<Rightarrow> broker_loop" where
  "close_loop_end stopped s =
     (case stopped of
        Inl e \<Rightarrow> stop_loop (s\<lparr>bl_stopping := bl_stopping s - 1\<rparr>)
      | Inr _ \<Rightarrow> stop_loop (s\<lparr>bl_stopping := bl_stopping s - 1\<rparr>))"

text \<open>\<open>_start_monitor\<close>: every error of the start closes the loop.\<close>

definition start_monitor :: "unit res \<Rightarrow> broker_loop \<Rightarrow> broker_loop" where
  "start_monitor started s =
     (case started of
        Inr _ \<Rightarrow> s\<lparr>bl_monitor := Some MonitorUp\<rparr>
      | Inl e \<Rightarrow> close_loop_begin (s\<lparr>bl_monitor := Some MonitorDown, bl_causes := bl_causes s @ [MonitorFailed]\<rparr>))"

section \<open>The steps\<close>

inductive broker_step :: "broker_loop \<Rightarrow> broker_loop \<Rightarrow> bool" where
  stop_signal: "bl_open s \<Longrightarrow> broker_step s (broker_exit_handler s)"
| mosquitto_ends: "bl_open s \<Longrightarrow> bl_mosquitto s = None \<Longrightarrow> broker_step s (mosquitto_done success s)"
| start_ends: "bl_open s \<Longrightarrow> bl_monitor s = Some MonitorStarting \<Longrightarrow> broker_step s (start_monitor r s)"
| close_begins: "bl_open s \<Longrightarrow> bl_scheduled s = Suc n \<Longrightarrow> broker_step s (close_loop_begin (s\<lparr>bl_scheduled := n\<rparr>))"
| close_ends: "bl_open s \<Longrightarrow> bl_stopping s = Suc n \<Longrightarrow> broker_step s (close_loop_end r s)"

inductive_cases broker_stepE: "broker_step s s'"

definition broker_reach :: "bool \<Rightarrow> broker_loop \<Rightarrow> bool" where
  "broker_reach disable_monitor s = broker_step\<^sup>*\<^sup>* (broker_init disable_monitor) s"

lemmas broker_defs = broker_exit_handler_def mosquitto_done_def start_monitor_def close_loop_begin_def close_loop_end_def stop_loop_def

section \<open>The causes\<close>

definition broker_inv :: "bool \<Rightarrow> broker_loop \<Rightarrow> bool" where
  "broker_inv disable_monitor s \<longleftrightarrow>
     length (bl_causes s) = bl_scheduled s + bl_stopping s + bl_closed s
     \<and> (bl_open s \<longleftrightarrow> bl_closed s = 0)
     \<and> (bl_monitor s = None \<longleftrightarrow> disable_monitor) \<and> (disable_monitor \<longrightarrow> bl_stopping s = 0)
     \<and> count_list (bl_causes s) MosquittoFailed = (if bl_mosquitto s = Some False then 1 else 0)
     \<and> count_list (bl_causes s) MonitorFailed = (if bl_monitor s = Some MonitorDown then 1 else 0)"

lemma broker_inv_step: "broker_step s s' \<Longrightarrow> broker_inv d s \<Longrightarrow> broker_inv d s'"
  by (induction rule: broker_step.induct) (auto simp: broker_inv_def broker_defs Let_def split: sum.splits)

lemma broker_reach_inv: "broker_reach d s \<Longrightarrow> broker_inv d s"
  unfolding broker_reach_def
proof (induction rule: rtranclp_induct)
  case base
  then show ?case by (simp add: broker_inv_def broker_init_def)
next
  case (step s s')
  then show ?case using broker_inv_step by blast
qed

text \<open>
  The functions of \<open>AppRunner\<close> for the same handlers run a call of \<open>_close_loop\<close> to its end at once: the handlers here schedule
  a call, or begin it, exactly when those run it.
\<close>

lemma handlers_agree:
  "bl_scheduled (mosquitto_done success s) = bl_scheduled s + (if snd (broker_done success m []) = [] then 0 else 1)"
  "bl_monitor s \<noteq> None \<Longrightarrow>
   bl_stopping (start_monitor started s) = bl_stopping s + (if snd (broker_start_monitor (Some started) stop []) = [] then 0 else 1)"
  by (auto simp: broker_defs broker_done_def broker_start_monitor_def broker_close_loop_def broker_close_steps_def Let_def
      split: sum.split option.split)

text \<open>A step without a new cause, up to the end of the loop.\<close>

lemma closes_from_stopping:
  assumes "bl_open s" and "bl_stopping s = Suc n"
  shows "\<exists>s'. broker_step\<^sup>*\<^sup>* s s' \<and> \<not> bl_open s' \<and> bl_causes s' = bl_causes s"
  using close_ends [OF assms, of "Inr ()"] by (intro exI [of _ "close_loop_end (Inr ()) s"]) (auto simp: broker_defs)

lemma closes_from_scheduled:
  assumes "bl_open s" and "bl_scheduled s = Suc n"
  shows "\<exists>s'. broker_step\<^sup>*\<^sup>* s s' \<and> \<not> bl_open s' \<and> bl_causes s' = bl_causes s"
proof (cases "bl_monitor s")
  case None
  then show ?thesis
    using close_begins [OF assms] by (intro exI [of _ "close_loop_begin (s\<lparr>bl_scheduled := n\<rparr>)"]) (auto simp: broker_defs)
next
  case (Some m)
  let ?t = "close_loop_begin (s\<lparr>bl_scheduled := n\<rparr>)"
  have "bl_open ?t" "bl_stopping ?t = Suc (bl_stopping s)" "bl_causes ?t = bl_causes s"
    using assms(1) Some by (simp_all add: broker_defs)
  then show ?thesis
    using closes_from_stopping [of ?t] close_begins [OF assms] by (metis converse_rtranclp_into_rtranclp)
qed

lemma causes_grow: "broker_step\<^sup>*\<^sup>* s s' \<Longrightarrow> \<exists>more. bl_causes s' = bl_causes s @ more"
proof (induction rule: rtranclp_induct)
  case (step s1 s2)
  from step.hyps(2) have "\<exists>more. bl_causes s2 = bl_causes s1 @ more"
    by (induction rule: broker_step.induct) (auto simp: broker_defs Let_def split: sum.splits)
  then show ?case using step.IH by auto
qed simp

text \<open>
  C23. The loop of a broker closes exactly for a cause: it can close without a further event exactly when a signal came,
  mosquitto failed or the monitor did not start. Each cause leads to one call of \<open>_close_loop\<close>, mosquitto and the monitor cause at
  most one each, and a mosquitto that ended with status 0 causes none: without another cause the loop runs on without its broker.
\<close>

theorem broker_closes_for_a_cause:
  assumes "broker_reach disable_monitor s"
  shows "((\<exists>s'. broker_step\<^sup>*\<^sup>* s s' \<and> \<not> bl_open s' \<and> bl_causes s' = bl_causes s) \<longleftrightarrow> bl_causes s \<noteq> [])
    \<and> (bl_open s \<or> bl_causes s \<noteq> [])
    \<and> length (bl_causes s) = bl_scheduled s + bl_stopping s + bl_closed s
    \<and> count_list (bl_causes s) MosquittoFailed = (if bl_mosquitto s = Some False then 1 else 0)
    \<and> count_list (bl_causes s) MonitorFailed = (if bl_monitor s = Some MonitorDown then 1 else 0)"
proof -
  have inv: "broker_inv disable_monitor s" using assms by (rule broker_reach_inv)
  have "\<exists>s'. broker_step\<^sup>*\<^sup>* s s' \<and> \<not> bl_open s' \<and> bl_causes s' = bl_causes s" if "bl_causes s \<noteq> []"
  proof (cases "bl_open s")
    case True
    then have "length (bl_causes s) = bl_scheduled s + bl_stopping s" using inv by (simp add: broker_inv_def)
    then have "0 < bl_scheduled s + bl_stopping s" using that by (metis length_greater_0_conv)
    then show ?thesis
      using closes_from_scheduled [OF True] closes_from_stopping [OF True] by (cases "bl_scheduled s"; cases "bl_stopping s") auto
  qed (auto intro: exI [of _ s])
  moreover have "bl_causes s \<noteq> []" if "broker_step\<^sup>*\<^sup>* s s'" "\<not> bl_open s'" "bl_causes s' = bl_causes s" for s'
  proof -
    have "broker_inv disable_monitor s'"
      using assms that(1) by (intro broker_reach_inv) (simp add: broker_reach_def)
    then show ?thesis using that(2,3) by (auto simp: broker_inv_def)
  qed
  ultimately show ?thesis using inv by (auto simp: broker_inv_def)
qed

theorem broker_closes_for_a_cause_witness:
  "\<exists>s. broker_reach False s \<and> bl_mosquitto s = Some True \<and> bl_open s
     \<and> \<not> (\<exists>s'. broker_step\<^sup>*\<^sup>* s s' \<and> \<not> bl_open s' \<and> bl_causes s' = bl_causes s)"
proof -
  let ?s = "mosquitto_done True (broker_init False)"
  have s: "broker_reach False ?s"
    unfolding broker_reach_def by (intro r_into_rtranclp mosquitto_ends) (simp_all add: broker_init_def)
  have "bl_causes ?s = []" "bl_mosquitto ?s = Some True" "bl_open ?s" by (simp_all add: mosquitto_done_def broker_init_def)
  with broker_closes_for_a_cause [OF s] s show ?thesis by metis
qed

end
