(* ===== verification/Spec2Isabelle.thy ===== *)
theory Spec2Isabelle
  imports TopologyProps Routes Chaos CpuLimits AppRunner Operations Detector Historian Camera SmallApps
    ReportPagesProps ReportTypes ExamplesProps Cli ThingApps ThingCalls StopReport PacketReport
    EntrypointProps PacketCapture BrokerLoop
begin

text \<open>
  WoTemu emulates networks of Web of Things applications on Docker Swarm. This development models its Python
  code and states what makes it correct. Every definition is a translation of a function, class or constant of
  \<^verbatim>\<open>src/wotemu\<close> or \<^verbatim>\<open>src/examples\<close>, or of a step of the script \<^verbatim>\<open>src/entrypoint.sh\<close>, in the order of the source file and under its name, unless that name is a constant of HOL.

  \<^bold>\<open>The program.\<close> A user writes a topology: nodes that run applications, networks with conditions, brokers and
  services. The command line turns it into a Compose file. In the running stack every network has a gateway,
  which degrades its traffic with \<open>tc\<close> (the command \<open>chaos\<close>); every node first waits for what it needs
  (\<open>wait\<close>), routes its Web of Things traffic through the gateways (\<open>route\<close>), slows its CPU down to the target speed
  (\<open>limits\<close>) and then runs its application (\<open>app\<close>) with a monitor beside it, which writes node information, system
  samples, packets and interactions to Redis. The command \<open>stop\<close> takes a snapshot of the tasks and scales the stack
  down; \<open>report\<close> reads Redis back and writes pages or a dataset.

  \<^bold>\<open>How the code is modelled.\<close> Data are records and datatypes with the fields and members of the classes and
  enumerations. A Python value that is only passed on, printed or tested is a \<open>py\<close>. A function that may raise
  returns an \<open>'a res\<close> (\<open>Inl\<close> the exception); a method that writes attributes or has effects is a \<open>prog\<close>, which keeps
  the writes made before a raise. A loop over external answers takes them as inputs, with fuel for the rounds; the
  locale \<open>polling\<close> shows how much fuel gives the answer, and \<open>catalogue_wait_ends\<close> that \<open>timeout / wait + 1\<close> rounds are enough for a wait with
  a timeout. Endless loops are lists of rounds that end with a cancellation. Recursion that is not structural has
  a termination proof. Concurrent containers are a step relation (\<open>CpuLimits\<close>), as are the operations of a node
  monitor (\<open>NodeMonitor\<close>), the tasks of the event loops of an application (\<open>RunApp\<close>) and of a broker (\<open>BrokerLoop\<close>), and a capture
  process with its monitor (\<open>PacketCapture\<close>). The language is Python 3.8, where \<open>CancelledError\<close> is no \<open>Exception\<close>.

  \<^bold>\<open>The theories.\<close>
  \<^item> Foundations: \<open>Prelude\<close> (exceptions, results, programs, ordered dictionaries and the locale \<open>py_dict\<close>),
    \<open>PyStrings\<close>, \<open>PyValues\<close>, \<open>PyNumbers\<close> and \<open>Json\<close> (the parts of the standard library that the program rests on, with the
    round trip of JSON), \<open>Polling\<close> (the locales \<open>polling\<close> and \<open>read_once\<close>), \<open>Heapq\<close> (the binary heap, the
    locale \<open>priority_queue\<close>), \<open>RedisStore\<close> (sorted sets and key patterns, the locale \<open>redis_store\<close>), \<open>Frames\<close> (data
    frames, the locale \<open>pandas_laws\<close>).
  \<^item> \<open>Enums\<close>, \<open>Config\<close>, \<open>Models\<close>, \<open>Compose\<close>: \<^verbatim>\<open>enums.py\<close>, \<^verbatim>\<open>config.py\<close>, \<^verbatim>\<open>topology/models.py\<close> and
    \<^verbatim>\<open>topology/compose.py\<close>. \<open>TopologyFacts\<close> and \<open>TopologyProps\<close> show that the Compose file is closed, when it is built at
    all, and that a container reads the topology's configuration back from its environment. \<open>Examples\<close> has the
    topologies of \<^verbatim>\<open>src/examples\<close>; \<open>ExamplesProps\<close> shows that all of them are accepted and built, with every host that an
    application is given on a network of its node and running the Thing that is looked for.
  \<^item> \<open>DockerUtils\<close>: \<^verbatim>\<open>utils.py\<close>, the questions to Docker and to the catalogues of other nodes.
  \<^item> \<open>Routes\<close>, \<open>Chaos\<close>, \<open>CpuLimits\<close>, \<open>Operations\<close>, \<open>AppRunner\<close>, \<open>RunApp\<close>, \<open>Cli\<close>: \<^verbatim>\<open>cli/routes.py\<close>, \<^verbatim>\<open>chaos.py\<close>, \<^verbatim>\<open>limits.py\<close> with
    \<^verbatim>\<open>topology/cpu.py\<close>, \<^verbatim>\<open>waiter.py\<close>, \<^verbatim>\<open>stop.py\<close> and \<^verbatim>\<open>utils.py\<close>, \<^verbatim>\<open>app.py\<close> and \<^verbatim>\<open>broker.py\<close>, and \<^verbatim>\<open>main.py\<close>, \<^verbatim>\<open>compose.py\<close> and \<^verbatim>\<open>report.py\<close>.
    They show the order and the atomicity of the effects, the invariant of the shared benchmark under any interleaving, the
    bounds of the quota, when a stop reaches the event loop, and the exit status of every command. \<open>StopReport\<close>
    shows that the report reads what the last stop wrote. \<open>BrokerLoop\<close> has the event loop of a broker and shows that it closes
    exactly for a cause.
  \<^item> \<open>Entrypoint\<close>: the script of the image. \<open>EntrypointProps\<close> follows a node, or the gateway of a network, from the topology
    through the Compose file, the environment and the script to the arguments of the functions that its container calls.
  \<^item> \<open>NodeMonitor\<close>, \<open>PacketMonitor\<close>, \<open>SystemMonitor\<close>: \<^verbatim>\<open>monitor/\<close>, with the ownership of the Redis pool, the
    conservation of packets and samples and the reading of the cgroup parameters. \<open>PacketCapture\<close> interleaves the capture
    process and the task of the monitor at every access to their queue, with the packets put and delivered as history.
  \<^item> \<open>Things\<close>, \<open>ThingCalls\<close>: \<^verbatim>\<open>wotpy/\<close>, the decorated Things, whose interactions are in the end what the report shows.
  \<^item> \<open>Historian\<close>, \<open>Detector\<close>, \<open>Camera\<close>, \<open>SmallApps\<close>, \<open>ThingApps\<close>: \<^verbatim>\<open>apps/\<close>, the built-in applications: what is stored and
    served, the priority queue of frames, the wrap-around of the motion score, the rounds of the clients, and the
    descriptions and handlers of the Things that they expose.
  \<^item> \<open>ReportReader\<close>, \<open>ReportCache\<close>, \<open>ReportFigures\<close>, \<open>Html\<close>, \<open>ReportPages\<close>: \<^verbatim>\<open>report/\<close>, from Redis to the pages. \<open>ReportFacts\<close>,
    \<open>ReportProps\<close>, \<open>ReportTypes\<close> and \<open>ReportPagesProps\<close> show that the joins amount to a lookup, how traffic is weighed and
    conserved, that the cache refines a memo table and that no link of a report is dead; \<open>SeriesFacts\<close> and \<open>PacketReport\<close>
    that the packets of the monitors are those of the report.
  This theory holds the properties that span components.

  \<^bold>\<open>Parameters.\<close> Code that is not in the repository is an argument of the definitions that use it: the shell, Docker, the
  catalogues' HTTP answers, MongoDB, Redis, numpy's fit, OpenCV and the face detector, the WoT client, pandas'
  join, sort and grouped sum, plotly, lxml's parser and printer, netaddr, \<open>inflection.underscore\<close> and \<open>deepmerge\<close>. Where a property needs
  their documented behaviour it is a hypothesis or a locale (\<open>redis_store\<close>, \<open>pandas_laws\<close>, \<open>grouper_laws\<close>, \<open>click_parser\<close>, \<open>find_ok\<close>,
  \<open>merge_keeps_dicts\<close>), which an interpretation or a witness shows to be satisfiable. The order in which a set is iterated is the
  parameter \<open>so\<close>. Floating point numbers are real numbers where the code computes with them, and named by their printed
  form where it passes them on.

  \<^bold>\<open>Not modelled.\<close> Log records, docstrings and the installation of loggers and signal handlers (what a handler does when its
  signal arrives is modelled); the bodies of loops that only burn
  time; what pyshark captures and the children that it starts, whose packets and ends are inputs of the steps; the parsing of a command line by
  click beyond the law of \<open>click_parser\<close>: elsewhere its result is the input of a command; \<^verbatim>\<open>setup.py\<close> and the tests. Strings are sequences of characters below 256.
\<close>

section \<open>From the topology to the gateways\<close>

text \<open>
  C24. From the topology to the gateway: a network declared with a network condition gives its gateway a
  command line from which the gateway, when \<open>tc\<close> works, sets exactly the delay, jitter and rate of that
  condition, in this order, between two cleanings.
\<close>

theorem condition_reaches_tc:
  assumes "mk_network us name None (CMember c) a1 a2 = Inr net" and "find_chaos_interface gn = Inr nic"
    and "condition_params c = (l, j, r)"
  shows "hd (cmd_gateway net) = ''gateway''
    \<and> create_chaos canon (\<lambda>lg cmd. True) gn (tl (cmd_gateway net)) [] =
       (Inl (SystemExit 0),
        [clean_cmd nic, delay_cmd nic (PInt l) (PInt j) (PInt 0) True,
         rate_cmd nic (PStr r) (PStr ''100kbit'') (PInt 20) False, clean_cmd nic, clean_cmd nic])"
proof -
  have "net_netem net = Some [netem (PInt l) (PInt j) (PStr r)]"
    using assms(1,3) by (auto simp: mk_network_def check_conditions_def truthy_list_def netem_conditions_params)
  then have cmd: "cmd_gateway net = [''gateway'', netem (PInt l) (PInt j) (PStr r)]"
    by (simp add: cmd_gateway_def netem_args_def truthy_list_def)
  have dflt: "delay_cmd nic a b PNone t = delay_cmd nic a b (PInt 0) t"
    "rate_cmd nic x PNone PNone t = rate_cmd nic x (PStr ''100kbit'') (PInt 20) t" for a b x t
    by (simp_all add: delay_cmd_def rate_cmd_def default_if_none_def)
  show ?thesis
    by (simp add: cmd create_chaos_def chaos_setup_def retP_def assms(2) netem_loads netem_obj_def bindP_def apply_netem_def clean_netem_def
        tc_call_def set_delay_def set_rate_def tc_check_call_def get_default_def dget_Cons dflt)
qed

theorem condition_reaches_tc_witness:
  "\<exists>net. mk_network (\<lambda>s. s) ''edge'' None (CMember REGULAR_3G) PNone PNone = Inr net
     \<and> fst (create_chaos (\<lambda>s. s) (\<lambda>lg cmd. True) demo_gn (tl (cmd_gateway net)) []) = Inl (SystemExit 0)"
proof -
  obtain net where net: "mk_network (\<lambda>s. s) ''edge'' None (CMember REGULAR_3G) PNone PNone = Inr net"
    by (simp add: mk_network_def check_conditions_def)
  from condition_reaches_tc [OF net demo_gn_iface, of 300 150 "''1500kbit''" "\<lambda>s. s"] net
  show ?thesis by simp
qed

section \<open>From the topology to the routing of a node\<close>

lemma other_ports_list:
  assumes "v = py_and p (parse_ports p)" and "\<exists>s. p = PStr s \<or> p = PNone"
  shows "\<exists>xs. (if truthy v then bindR (as_list v) (\<lambda>xs. Inr (base @ xs)) else Inr base) = Inr (base @ xs)"
proof -
  obtain s where "p = PStr s \<or> p = PNone" using assms(2) by blast
  then show ?thesis
    using assms(1) by (auto simp: py_and_def intro: exI [of _ "[]"] split: option.splits)
qed

lemma container_ports:
  "\<exists>xs. all_ports_tcp (get_env_config e) = Inr ([port_http (get_env_config e), port_ws (get_env_config e),
       port_mqtt (get_env_config e), port_coap (get_env_config e)] @ xs)"
  "\<exists>xs. all_ports_udp (get_env_config e) = Inr ([port_coap (get_env_config e)] @ xs)"
proof -
  have s: "\<exists>s. getenv e n PNone = PStr s \<or> getenv e n PNone = PNone" for n
    by (auto simp: getenv_def split: option.split)
  show "\<exists>xs. all_ports_tcp (get_env_config e) = Inr ([port_http (get_env_config e), port_ws (get_env_config e),
       port_mqtt (get_env_config e), port_coap (get_env_config e)] @ xs)"
    unfolding all_ports_tcp_def Let_def
    by (rule other_ports_list [where p = "getenv e (var_name OTHER_PORTS_TCP) PNone"])
      (use s in \<open>simp_all add: get_env_config_def Let_def\<close>)
  show "\<exists>xs. all_ports_udp (get_env_config e) = Inr ([port_coap (get_env_config e)] @ xs)"
    unfolding all_ports_udp_def Let_def
    by (rule other_ports_list [where p = "getenv e (var_name OTHER_PORTS_UDP) PNone"])
      (use s in \<open>simp_all add: get_env_config_def Let_def\<close>)
qed

text \<open>
  C25. A node routes the topology's traffic through its gateways: in the container of a node of the
  topology, the ports that the routing marks begin with the topology's HTTP, Websocket, MQTT and CoAP
  ports for TCP and with its CoAP port for UDP, whatever overrides were merged into the service.
\<close>

theorem node_routes_topology_ports:
  assumes "node_definition so env merge t n = Inr d"
    and "redis_usable (top_redis t)" and "ports_are_ints (top_ports t)"
  shows "\<exists>v xs ys. d = [(node_name n, v)]
    \<and> all_ports_tcp (get_env_config (environ_of v)) =
        Inr ([tp_http (top_ports t), tp_ws (top_ports t), tp_mqtt (top_ports t), tp_coap (top_ports t)] @ xs)
    \<and> all_ports_udp (get_env_config (environ_of v)) = Inr ([tp_coap (top_ports t)] @ ys)"
proof -
  obtain d1 d2 where d: "merge_topology_config d1 t = Inr d2" "d = [(node_name n, PDict d2)]"
    using assms(1) by (auto simp: node_definition_def Let_def bindR_eq_Inr)
  have "config_matches t (get_env_config (environ_of (PDict d2)))"
    by (rule merged_config [OF d(1) assms(2,3)])
  with d(2) container_ports [of "environ_of (PDict d2)"] show ?thesis
    by (auto simp: config_matches_def)
qed

theorem node_routes_topology_ports_witness:
  "\<exists>d v xs. node_definition (\<lambda>xs. xs) Map.empty shallow_merge demo_topology (demo_node ''clock'') = Inr d
     \<and> d = [(''clock'', v)]
     \<and> all_ports_tcp (get_env_config (environ_of v)) = Inr ([PInt 80, PInt 81, PInt 1883, PInt 5683] @ xs)"
proof -
  have "args_env_ok (node_args_compose (demo_node ''clock''))" "broker_usable (demo_node ''clock'')"
    by (simp_all add: demo_node_def args_env_ok_def broker_usable_def demo_broker_def)
  then obtain d where d: "node_definition (\<lambda>xs. xs) Map.empty shallow_merge demo_topology (demo_node ''clock'') = Inr d"
    using node_total [OF shallow_merge_dicts] by blast
  have "redis_usable (top_redis demo_topology)" "ports_are_ints (top_ports demo_topology)"
    by (simp_all add: demo_topology_def redis_usable_def ports_are_ints_def default_ports_def)
  from node_routes_topology_ports [OF d this] d show ?thesis
    by (simp add: demo_topology_def default_ports_def demo_node_def) blast
qed

section \<open>From the monitor to the end of an application\<close>

text \<open>
  An application whose system monitor task died (for instance because \<open>cgget\<close> is not available)
  cannot be stopped: each stop raises the task's error before Redis is closed and before the event
  loop is stopped.
\<close>

theorem dead_monitor_blocks_stop:
  assumes "nm_task_system s = Some k" and "sw_ended sw k = Inl e"
    and "aw_monitor w = Some (fst (monitor_stop sw s))"
  shows "case app_stop False w [] of (r, acts) \<Rightarrow> isl r \<and> StopLoop \<notin> set acts \<and> CloseRedis \<notin> set acts"
proof -
  have "fst (monitor_stop sw s) = Inl e"
    using assms(1,2) by (simp add: monitor_stop_def bindP_def stop_system_task_def)
  then show ?thesis
    using assms(3) by (auto simp: app_stop_def stop_steps_def split: sum.splits option.splits)
qed

theorem dead_monitor_blocks_stop_witness:
  "StopLoop \<notin> set (snd (app_stop False
     \<lparr>aw_app = Inr (), aw_servient = Inr (),
       aw_monitor = Some (fst (monitor_stop \<lparr>sw_ended = (\<lambda>k. Inl (cgget_error key_cpu_usage)), sw_closed = Inr ()\<rparr>
          (snd (monitor_start demo_monitor demo_start init_monitor)))), aw_redis = Some (Inr ())\<rparr> []))"
proof -
  have "nm_task_system (snd (monitor_start demo_monitor demo_start init_monitor)) = Some (redis_key SYSTEM [''host''])"
    by (simp add: monitor_start_def is_running_def init_monitor_def truthy_list_def bindP_def redis_open_def demo_start_def
        write_node_info_def create_system_task_def create_packet_tasks_def demo_monitor_def)
  from dead_monitor_blocks_stop [OF this, of "\<lparr>sw_ended = (\<lambda>k. Inl (cgget_error key_cpu_usage)), sw_closed = Inr ()\<rparr>"
      "cgget_error key_cpu_usage" "\<lparr>aw_app = Inr (), aw_servient = Inr (),
       aw_monitor = Some (fst (monitor_stop \<lparr>sw_ended = (\<lambda>k. Inl (cgget_error key_cpu_usage)), sw_closed = Inr ()\<rparr>
          (snd (monitor_start demo_monitor demo_start init_monitor)))), aw_redis = Some (Inr ())\<rparr>"]
  show ?thesis by (simp add: case_prod_unfold)
qed

end
